(* ===== verification/Prelude.thy ===== *)
theory Prelude
  imports Main "HOL-Library.Sublist" "HOL-Library.Char_ord" "HOL-Library.List_Lexorder"
    "HOL-Library.Product_Lexorder"
begin

text \<open>
  Vocabulary and lemmas every component shares: identifiers and error values, the table
  operations the SQL statements of the program reduce to (select the first row that matches,
  update the rows that match, delete the rows that match), ranked selection for an
  \<open>order by ... limit 1\<close>, and the collections the component proofs add to the simplifier.
\<close>

named_theorems table_simps \<open>membership, update and deletion in a table\<close>
named_theorems guard_simps \<open>guards of the request pipeline, unfolded\<close>

type_synonym uuid = string
type_synonym millis = int

text \<open>A table is the list of its rows; SQL promises no order without an \<open>order by\<close>.\<close>

type_synonym 'r table = "'r list"

definition update_where :: "('r \<Rightarrow> bool) \<Rightarrow> ('r \<Rightarrow> 'r) \<Rightarrow> 'r table \<Rightarrow> 'r table" where
  "update_where P f t = map (\<lambda>r. if P r then f r else r) t"

definition delete_where :: "('r \<Rightarrow> bool) \<Rightarrow> 'r table \<Rightarrow> 'r table" where
  "delete_where P t = filter (\<lambda>r. \<not> P r) t"

definition count_where :: "('r \<Rightarrow> bool) \<Rightarrow> 'r table \<Rightarrow> nat" where
  "count_where P t = length (filter P t)"

text \<open>
  \<open>order by k ... limit 1\<close>: the first row with the least key, none for an empty result.
\<close>

fun first_by :: "('r \<Rightarrow> 'k::linorder) \<Rightarrow> 'r table \<Rightarrow> 'r option" where
  "first_by k [] = None"
| "first_by k (r # rs) =
     (case first_by k rs of
        None \<Rightarrow> Some r
      | Some s \<Rightarrow> if k r \<le> k s then Some r else Some s)"

lemma update_where_set [table_simps]:
  "x \<in> set (update_where P f t) \<longleftrightarrow> (\<exists>r \<in> set t. x = (if P r then f r else r))"
  by (auto simp: update_where_def)

lemma delete_where_set [table_simps]: "x \<in> set (delete_where P t) \<longleftrightarrow> x \<in> set t \<and> \<not> P x"
  by (auto simp: delete_where_def)

lemma length_update_where [simp]: "length (update_where P f t) = length t"
  by (simp add: update_where_def)

lemma map_update_where_same:
  "(\<And>r. P r \<Longrightarrow> g (f r) = g r) \<Longrightarrow> map g (update_where P f t) = map g t"
  by (auto simp: update_where_def)

lemma filter_update_where_other:
  "(\<And>r. P r \<Longrightarrow> \<not> Q r \<and> \<not> Q (f r)) \<Longrightarrow> filter Q (update_where P f t) = filter Q t"
  by (induction t) (auto simp: update_where_def)

lemma find_Some_iff_set: "List.find P xs = Some x \<Longrightarrow> x \<in> set xs \<and> P x"
  by (induction xs) (auto split: if_splits)

lemma find_None_set: "List.find P xs = None \<longleftrightarrow> (\<forall>x \<in> set xs. \<not> P x)"
  by (auto simp: find_None_iff)

text \<open>A lookup by a key no two rows share.\<close>

lemma find_key: "distinct (map k xs) \<Longrightarrow> x \<in> set xs \<Longrightarrow> List.find (\<lambda>y. k y = k x) xs = Some x"
  by (induction xs) (auto simp: rev_image_eqI)

lemma first_by_None [simp]: "first_by k t = None \<longleftrightarrow> t = []"
  by (cases t) (auto split: option.splits)

lemma first_by_Some_in: "first_by k t = Some r \<Longrightarrow> r \<in> set t"
  by (induction t) (auto split: option.splits if_splits)

lemma first_by_least: "first_by k t = Some r \<Longrightarrow> s \<in> set t \<Longrightarrow> k r \<le> k s"
proof (induction t arbitrary: r)
  case Nil
  then show ?case by simp
next
  case (Cons x xs)
  show ?case
  proof (cases "first_by k xs")
    case None
    with Cons.prems show ?thesis by auto
  next
    case (Some y)
    with Cons.prems(1) have r: "r = (if k x \<le> k y then x else y)" by (auto split: if_splits)
    show ?thesis
    proof (cases "s = x")
      case True
      with r show ?thesis by auto
    next
      case False
      with Cons.prems(2) have "k y \<le> k s" using Cons.IH [OF Some] by simp
      with r show ?thesis by auto
    qed
  qed
qed

lemma first_by_ex: "s \<in> set t \<Longrightarrow> \<exists>r. first_by k t = Some r"
  by (metis first_by_None list.set_cases list.distinct(1) option.exhaust)

text \<open>\<open>[...new Set(xs)]\<close>: the distinct values in the order of their first occurrence.\<close>

fun js_uniq_acc :: "'a list \<Rightarrow> 'a list \<Rightarrow> 'a list" where
  "js_uniq_acc seen [] = []"
| "js_uniq_acc seen (x # xs) =
     (if x \<in> set seen then js_uniq_acc seen xs else x # js_uniq_acc (x # seen) xs)"

definition js_uniq :: "'a list \<Rightarrow> 'a list" where
  "js_uniq xs = js_uniq_acc [] xs"

lemma set_js_uniq_acc: "set (js_uniq_acc seen xs) = set xs - set seen"
  by (induction seen xs rule: js_uniq_acc.induct) auto

lemma set_js_uniq [simp]: "set (js_uniq xs) = set xs"
  by (simp add: js_uniq_def set_js_uniq_acc)

lemma distinct_js_uniq_acc: "distinct (js_uniq_acc seen xs)"
  by (induction seen xs rule: js_uniq_acc.induct) (auto simp: set_js_uniq_acc)

lemma distinct_js_uniq [simp]: "distinct (js_uniq xs)"
  by (simp add: js_uniq_def distinct_js_uniq_acc)

text \<open>A UUID or text column compared with \<open>??\<close> and truthiness: the empty string is falsy.\<close>

definition truthy :: "string option \<Rightarrow> bool" where
  "truthy v = (case v of None \<Rightarrow> False | Some s \<Rightarrow> s \<noteq> [])"

lemma truthy_simps [simp]: "\<not> truthy None" "truthy (Some s) \<longleftrightarrow> s \<noteq> []"
  by (simp_all add: truthy_def)

lemma truthy_iff: "truthy v \<longleftrightarrow> (\<exists>s. v = Some s \<and> s \<noteq> [])"
  by (cases v) auto

text \<open>
  A JavaScript \<open>Map\<close> as the list of its entries in insertion order: \<open>map.delete(k)\<close> removes the
  entry, \<open>delete\<close> followed by \<open>set\<close> moves it to the back.
\<close>

definition map_delete :: "'k \<Rightarrow> ('k \<times> 'v) list \<Rightarrow> ('k \<times> 'v) list" where
  "map_delete key es = filter (\<lambda>e. fst e \<noteq> key) es"

lemma map_delete_lookup: "map_of (map_delete k bs) k' = (if k' = k then None else map_of bs k')"
  by (induction bs) (auto simp: map_delete_def)

lemma length_map_delete_le: "length (map_delete k bs) \<le> length bs"
  by (simp add: map_delete_def)

lemma length_map_delete_present: "map_of bs k = Some b \<Longrightarrow> length (map_delete k bs) < length bs"
  using length_filter_less [of "(k, b)" bs "\<lambda>e. fst e \<noteq> k"]
  by (simp add: map_delete_def map_of_SomeD)

end
