(* ===== verification/JsString.thy ===== *)
theory JsString
  imports Prelude
begin

text \<open>
  The JavaScript string operations the program uses. A string is a list of \<open>char\<close>, read as
  UTF-16 code units below 256; the program's own literals, the separators it splits on and
  the characters its patterns name are all in that range.
\<close>

abbreviation starts_with :: "string \<Rightarrow> string \<Rightarrow> bool" where
  "starts_with s p \<equiv> prefix p s"

abbreviation ends_with :: "string \<Rightarrow> string \<Rightarrow> bool" where
  "ends_with s q \<equiv> suffix q s"

fun includes_str :: "string \<Rightarrow> string \<Rightarrow> bool" where
  "includes_str [] p = (p = [])"
| "includes_str (c # s) p = (prefix p (c # s) \<or> includes_str s p)"

fun split_on :: "char \<Rightarrow> string \<Rightarrow> string list" where
  "split_on c [] = [[]]"
| "split_on c (x # xs) =
     (if x = c then [] # split_on c xs
      else (case split_on c xs of [] \<Rightarrow> [[x]] | p # ps \<Rightarrow> (x # p) # ps))"

fun join_with :: "char \<Rightarrow> string list \<Rightarrow> string" where
  "join_with c [] = []"
| "join_with c [p] = p"
| "join_with c (p # q # ps) = p @ c # join_with c (q # ps)"

text \<open>White space as \<open>trim\<close> and \<open>\s\<close> read it, below code unit 256.\<close>

definition js_space :: "char \<Rightarrow> bool" where
  "js_space c = (of_char c \<in> {9, 10, 11, 12, 13, 32, 160 :: nat})"

definition trim_start :: "string \<Rightarrow> string" where
  "trim_start s = dropWhile js_space s"

definition trim_end :: "string \<Rightarrow> string" where
  "trim_end s = rev (dropWhile js_space (rev s))"

definition trim :: "string \<Rightarrow> string" where
  "trim s = trim_end (trim_start s)"

text \<open>Case folding of the ASCII letters.\<close>

definition ascii_lower :: "char \<Rightarrow> char" where
  "ascii_lower c = (let n = (of_char c :: nat) in if 65 \<le> n \<and> n \<le> 90 then char_of (n + 32) else c)"

text \<open>\<open>toLowerCase\<close> below code unit 256.\<close>

definition js_lower_char :: "char \<Rightarrow> char" where
  "js_lower_char c =
     (let n = (of_char c :: nat)
      in if (65 \<le> n \<and> n \<le> 90) \<or> (192 \<le> n \<and> n \<le> 222 \<and> n \<noteq> 215) then char_of (n + 32) else c)"

definition js_lower :: "string \<Rightarrow> string" where
  "js_lower s = map js_lower_char s"

definition is_digit :: "char \<Rightarrow> bool" where
  "is_digit c = (let n = (of_char c :: nat) in 48 \<le> n \<and> n \<le> 57)"

definition is_hex_digit :: "char \<Rightarrow> bool" where
  "is_hex_digit c =
     (let n = (of_char c :: nat) in
        (48 \<le> n \<and> n \<le> 57) \<or> (65 \<le> n \<and> n \<le> 70) \<or> (97 \<le> n \<and> n \<le> 102))"

text \<open>The general category Cc below 256.\<close>

definition control_char :: "char \<Rightarrow> bool" where
  "control_char c = (let n = (of_char c :: nat) in n \<le> 31 \<or> (127 \<le> n \<and> n \<le> 159))"

text \<open>Splitting and joining.\<close>

lemma split_on_not_Nil [simp]: "split_on c s \<noteq> []"
  by (induction s) (auto split: list.splits)

lemma join_Cons: "ps \<noteq> [] \<Longrightarrow> join_with c (p # ps) = p @ c # join_with c ps"
  by (cases ps) auto

lemma join_split [simp]: "join_with c (split_on c s) = s"
proof (induction s)
  case Nil
  then show ?case by simp
next
  case (Cons x xs)
  obtain p ps where e: "split_on c xs = p # ps"
    using split_on_not_Nil by (metis list.exhaust)
  with Cons have "join_with c (p # ps) = xs" by simp
  with e show ?case by (cases ps) (auto simp: join_Cons)
qed

lemma split_on_parts: "p \<in> set (split_on c s) \<Longrightarrow> c \<notin> set p"
proof (induction s arbitrary: p)
  case Nil
  then show ?case by simp
next
  case (Cons x xs)
  obtain q qs where e: "split_on c xs = q # qs"
    using split_on_not_Nil by (metis list.exhaust)
  with Cons show ?case by (auto split: if_splits)
qed

lemma split_on_no_sep: "c \<notin> set s \<Longrightarrow> split_on c s = [s]"
  by (induction s) auto

lemma split_on_append_sep: "c \<notin> set p \<Longrightarrow> split_on c (p @ c # s) = p # split_on c s"
  by (induction p) auto

lemma split_join:
  "ps \<noteq> [] \<Longrightarrow> \<forall>p \<in> set ps. c \<notin> set p \<Longrightarrow> split_on c (join_with c ps) = ps"
  by (induction c ps rule: join_with.induct) (auto simp: split_on_no_sep split_on_append_sep)

lemma set_split_on: "p \<in> set (split_on c s) \<Longrightarrow> set p \<subseteq> set s"
proof (induction s arbitrary: p)
  case Nil
  then show ?case by simp
next
  case (Cons x xs)
  obtain q qs where e: "split_on c xs = q # qs"
    using split_on_not_Nil by (metis list.exhaust)
  with Cons.IH have q: "set q \<subseteq> set xs" "\<And>r. r \<in> set qs \<Longrightarrow> set r \<subseteq> set xs" by simp_all
  show ?case
  proof (cases "x = c")
    case True
    with e Cons.prems q show ?thesis by auto
  next
    case False
    with e Cons.prems have "p = x # q \<or> p \<in> set qs" by auto
    with q show ?thesis by auto
  qed
qed

lemma length_split_on: "length (split_on c s) = Suc (count_list s c)"
proof (induction s)
  case Nil
  then show ?case by simp
next
  case (Cons x xs)
  then show ?case by (cases "split_on c xs") auto
qed

text \<open>Trimming.\<close>

lemma dropWhile_eq_Cons: "dropWhile P xs = y # ys \<Longrightarrow> \<not> P y"
  by (metis hd_dropWhile list.distinct(1) list.sel(1))

lemma trim_start_idem [simp]: "trim_start (trim_start s) = trim_start s"
  by (simp add: trim_start_def)

lemma trim_end_idem [simp]: "trim_end (trim_end s) = trim_end s"
  by (simp add: trim_end_def)

lemma trim_Nil [simp]: "trim [] = []"
  by (simp add: trim_def trim_start_def trim_end_def)

lemma trim_end_prefix: "\<exists>t. s = trim_end s @ t"
proof -
  have "rev s = takeWhile js_space (rev s) @ dropWhile js_space (rev s)" by simp
  then have "s = rev (dropWhile js_space (rev s)) @ rev (takeWhile js_space (rev s))"
    by (metis rev_append rev_rev_ident)
  then show ?thesis unfolding trim_end_def by blast
qed

lemma trim_start_trim_end:
  assumes "trim_start s = s"
  shows "trim_start (trim_end s) = trim_end s"
proof -
  obtain t where t: "s = trim_end s @ t" using trim_end_prefix by blast
  show ?thesis
  proof (cases "trim_end s")
    case Nil
    then show ?thesis by (simp add: trim_start_def)
  next
    case (Cons x xs)
    with t have "s = x # (xs @ t)" by simp
    with assms have "\<not> js_space x" unfolding trim_start_def
      by (metis dropWhile_eq_Cons)
    with Cons show ?thesis by (simp add: trim_start_def)
  qed
qed

lemma trim_idem [simp]: "trim (trim s) = trim s"
  unfolding trim_def by (simp add: trim_start_trim_end)

end
