(* ===== verification/Permissions.thy ===== *)
theory Permissions
  imports JsString
begin

text \<open>
  The permission catalog and the status vocabularies (\<open>src/lib/admin/permissions.ts\<close>,
  \<open>src/lib/status-values.ts\<close>, \<open>src/lib/validation/organizations.ts\<close>): static data and the pure
  predicates over it.
\<close>

definition ANY_ADMIN_PERMISSION :: "string list" where
  "ANY_ADMIN_PERMISSION =
     [''admin.users.read'', ''admin.users.create'', ''admin.users.update'', ''admin.users.delete'',
      ''admin.users.manage'', ''admin.users.ban'', ''admin.users.setRole'',
      ''admin.users.setPassword'', ''admin.users.sessions'', ''admin.users.impersonate'',
      ''admin.users.export'', ''admin.roles.read'', ''admin.roles.create'', ''admin.roles.update'',
      ''admin.roles.delete'', ''admin.roles.assign'', ''admin.groups.read'', ''admin.groups.create'',
      ''admin.groups.update'', ''admin.groups.delete'', ''admin.groups.assign'',
      ''admin.permissions.manage'', ''admin.orgs.read'', ''admin.orgs.create'', ''admin.orgs.update'',
      ''admin.orgs.delete'', ''admin.orgs.manage'', ''admin.apps.read'', ''admin.apps.manage'',
      ''admin.audit.read'', ''admin.email.read'', ''admin.email.manage'', ''admin.apikeys.read'',
      ''admin.apikeys.manage'', ''admin.clients.read'', ''admin.clients.manage'']"

definition SHELL_BASELINE_PERMISSION :: string where
  "SHELL_BASELINE_PERMISSION = ''shell.view''"

definition SUPERADMIN_PERMISSION :: string where
  "SUPERADMIN_PERMISSION = ''superuser''"

definition SUPERUSER_PERMISSIONS :: "string list" where
  "SUPERUSER_PERMISSIONS =
     [SHELL_BASELINE_PERMISSION, ''audit.view'', SUPERADMIN_PERMISSION] @ ANY_ADMIN_PERMISSION"

definition canAccessAdminConsole :: "string list \<Rightarrow> bool" where
  "canAccessAdminConsole permissions \<longleftrightarrow>
     SUPERADMIN_PERMISSION \<in> set permissions \<or>
     (\<exists>key \<in> set ANY_ADMIN_PERMISSION. key \<in> set permissions)"

datatype app_user_status =
  USActive | USPendingApproval | USBlocked | USSuspended | USDeactivated

datatype membership_status =
  MSActive | MSPendingApproval | MSBlocked | MSSuspended

definition ACTIVE_ORGANIZATION_STATUS :: string where
  "ACTIVE_ORGANIZATION_STATUS = ''active''"

definition GRANT_ELIGIBLE_MEMBERSHIP_STATUS :: string where
  "GRANT_ELIGIBLE_MEMBERSHIP_STATUS = ''active''"

text \<open>The column text of each status, and its reading back.\<close>

fun user_status_text :: "app_user_status \<Rightarrow> string" where
  "user_status_text USActive = ''active''"
| "user_status_text USPendingApproval = ''pending_approval''"
| "user_status_text USBlocked = ''blocked''"
| "user_status_text USSuspended = ''suspended''"
| "user_status_text USDeactivated = ''deactivated''"

fun membership_status_text :: "membership_status \<Rightarrow> string" where
  "membership_status_text MSActive = ''active''"
| "membership_status_text MSPendingApproval = ''pending_approval''"
| "membership_status_text MSBlocked = ''blocked''"
| "membership_status_text MSSuspended = ''suspended''"

lemma superadmin_in_superuser [simp]: "SUPERADMIN_PERMISSION \<in> set SUPERUSER_PERMISSIONS"
  by (simp add: SUPERUSER_PERMISSIONS_def)

lemma shell_in_superuser [simp]: "SHELL_BASELINE_PERMISSION \<in> set SUPERUSER_PERMISSIONS"
  by (simp add: SUPERUSER_PERMISSIONS_def)

lemma admin_in_superuser: "p \<in> set ANY_ADMIN_PERMISSION \<Longrightarrow> p \<in> set SUPERUSER_PERMISSIONS"
  by (simp add: SUPERUSER_PERMISSIONS_def)

lemma shell_not_superadmin [simp]: "SHELL_BASELINE_PERMISSION \<noteq> SUPERADMIN_PERMISSION"
  by (simp add: SHELL_BASELINE_PERMISSION_def SUPERADMIN_PERMISSION_def)

lemma superuser_opens_console: "set SUPERUSER_PERMISSIONS \<subseteq> set ps \<Longrightarrow> canAccessAdminConsole ps"
  using superadmin_in_superuser by (auto simp: canAccessAdminConsole_def simp del: superadmin_in_superuser)

end
