(* ===== verification/Scopes.thy ===== *)
theory Scopes
  imports Permissions
begin

text \<open>
  Credential scopes (\<open>src/lib/api-auth/scopes.ts\<close>): the catalog, the wildcard matcher, the
  intersection that caps a token at its source credential, and the two grantability checks a
  credential issuance runs. The locale \<open>authority\<close> states what the matcher promises the
  code that intersects and delegates grants; the matcher is its interpretation.
\<close>

definition ACCOUNT_SCOPES :: "string list" where
  "ACCOUNT_SCOPES =
     [''account.read'', ''account.profile.write'', ''account.preferences.write'',
      ''account.apikeys.manage'']"

definition API_SCOPE_CATALOG :: "string list" where
  "API_SCOPE_CATALOG = ANY_ADMIN_PERMISSION @ ACCOUNT_SCOPES"

definition isWildcardScope :: "string \<Rightarrow> bool" where
  "isWildcardScope scope = ends_with scope ''.*''"

definition isKnownScope :: "string \<Rightarrow> bool" where
  "isKnownScope scope \<longleftrightarrow> scope \<in> set API_SCOPE_CATALOG \<or> isWildcardScope scope"

text \<open>
  \<open>key.slice(0, key.indexOf(".") + 1)\<close>: through the first dot, and empty without one.
\<close>

fun scope_root :: "string \<Rightarrow> string" where
  "scope_root [] = []"
| "scope_root (c # cs) =
     (if c = CHR ''.'' then [c] else (case scope_root cs of [] \<Rightarrow> [] | r \<Rightarrow> c # r))"

definition isScopeNameable :: "string \<Rightarrow> bool" where
  "isScopeNameable key =
     (let root = scope_root key
      in root \<noteq> [] \<and> (\<exists>scope \<in> set API_SCOPE_CATALOG. starts_with scope root))"

definition isAccountScope :: "string \<Rightarrow> bool" where
  "isAccountScope scope \<longleftrightarrow> scope \<in> set ACCOUNT_SCOPES"

definition scopeMatches :: "string \<Rightarrow> string \<Rightarrow> bool" where
  "scopeMatches granted required =
     (if granted = required then True
      else if granted = ''*'' then True
      else if isWildcardScope granted then starts_with required (butlast granted)
      else False)"

text \<open>A grant of \<open>None\<close> is the code's \<open>null\<close>: no scope restriction (a cookie session).\<close>

definition scopesAuthorize :: "string list option \<Rightarrow> string \<Rightarrow> bool" where
  "scopesAuthorize grantedScopes required =
     (case grantedScopes of
        None \<Rightarrow> True
      | Some gs \<Rightarrow> \<exists>g \<in> set gs. scopeMatches g required)"

definition intersectScopes :: "string list \<Rightarrow> string list \<Rightarrow> string list" where
  "intersectScopes a b =
     js_uniq (filter (\<lambda>s. scopesAuthorize (Some b) s) a @
              filter (\<lambda>s. scopesAuthorize (Some a) s) b)"

text \<open>
  The input of \<open>normalizeScopes\<close>: absent, one space-delimited string, or an array.
\<close>

datatype scope_input = NoScopes | ScopeString string | ScopeArray "string list"

text \<open>\<open>split(/\s+/)\<close>: maximal runs of white space separate the pieces.\<close>

fun split_space :: "string \<Rightarrow> string list" where
  "split_space [] = [[]]"
| "split_space (c # cs) =
     (if js_space c
      then (case cs of
              [] \<Rightarrow> [[], []]
            | d # _ \<Rightarrow> if js_space d then split_space cs else [] # split_space cs)
      else (case split_space cs of [] \<Rightarrow> [[c]] | p # ps \<Rightarrow> (c # p) # ps))"

definition normalizeScopes :: "scope_input \<Rightarrow> string list" where
  "normalizeScopes input =
     (case input of
        NoScopes \<Rightarrow> []
      | ScopeString s \<Rightarrow>
          if s = [] then []
          else js_uniq (filter (\<lambda>p. p \<noteq> []) (map trim (split_space s)))
      | ScopeArray xs \<Rightarrow> js_uniq (filter (\<lambda>p. p \<noteq> []) (map trim xs)))"

definition ungrantableScopes :: "string list \<Rightarrow> string list \<Rightarrow> string list" where
  "ungrantableScopes creatorPermissions requestedScopes =
     filter
       (\<lambda>scope.
          if \<not> isKnownScope scope then True
          else if isAccountScope scope then False
          else if isWildcardScope scope then
            (let pre = butlast scope;
                 covered = filter (\<lambda>k. starts_with k pre) API_SCOPE_CATALOG
             in covered = [] \<or> \<not> (\<forall>k \<in> set covered. k \<in> set creatorPermissions))
          else scope \<notin> set creatorPermissions)
       requestedScopes"

definition ungrantableScopesForCaller ::
    "string list \<Rightarrow> string list option \<Rightarrow> string list \<Rightarrow> string list" where
  "ungrantableScopesForCaller callerPermissions callerGrantedScopes requestedScopes =
     (case callerGrantedScopes of
        None \<Rightarrow> ungrantableScopes callerPermissions requestedScopes
      | Some gs \<Rightarrow>
          filter (\<lambda>scope. \<not> isKnownScope scope \<or> \<not> scopesAuthorize (Some gs) scope)
            requestedScopes)"

subsection \<open>What a matcher promises\<close>

text \<open>
  Intersection and delegation rest on three laws: a scope covers itself, coverage is
  transitive, and two scopes that cover one permission nest. Everything proved about grants
  below follows from them.
\<close>

locale authority =
  fixes covers :: "'s \<Rightarrow> 's \<Rightarrow> bool"
  assumes covers_refl: "covers g g"
    and covers_trans: "covers g h \<Longrightarrow> covers h p \<Longrightarrow> covers g p"
    and covers_nest: "covers g p \<Longrightarrow> covers h p \<Longrightarrow> covers g h \<or> covers h g"
begin

definition allows :: "'s list \<Rightarrow> 's \<Rightarrow> bool" where
  "allows gs p \<longleftrightarrow> (\<exists>g \<in> set gs. covers g p)"

definition meet :: "'s list \<Rightarrow> 's list \<Rightarrow> 's list" where
  "meet a b = filter (allows b) a @ filter (allows a) b"

lemma allows_meet: "allows (meet a b) p \<longleftrightarrow> allows a p \<and> allows b p"
proof
  assume "allows (meet a b) p"
  then show "allows a p \<and> allows b p"
    by (auto simp: allows_def meet_def intro: covers_trans)
next
  assume "allows a p \<and> allows b p"
  then obtain g h where g: "g \<in> set a" "covers g p" and h: "h \<in> set b" "covers h p"
    by (auto simp: allows_def)
  with covers_nest [OF g(2) h(2)] show "allows (meet a b) p"
    by (auto simp: allows_def meet_def)
qed

lemma allows_delegated:
  assumes "\<forall>s \<in> set req. allows gs s" and "allows req p"
  shows "allows gs p"
  using assms by (auto simp: allows_def intro: covers_trans)

end

lemma wildcard_butlast: "isWildcardScope g \<Longrightarrow> g = butlast g @ ''*'' \<and> suffix ''.'' (butlast g)"
  by (auto simp: isWildcardScope_def suffix_def butlast_append)

lemma star_not_wildcard [simp]: "\<not> isWildcardScope ''*''"
  by (simp add: isWildcardScope_def suffix_def)

lemma scopeMatches_cases:
  "scopeMatches g p \<longleftrightarrow>
     g = p \<or> g = ''*'' \<or> (isWildcardScope g \<and> prefix (butlast g) p)"
  by (auto simp: scopeMatches_def)

lemma scopeMatches_refl: "scopeMatches g g"
  by (simp add: scopeMatches_def)

lemma wildcard_prefix_star: "isWildcardScope g \<Longrightarrow> \<not> prefix (butlast g) ''*''"
proof
  assume "isWildcardScope g" and "prefix (butlast g) ''*''"
  then have "suffix ''.'' (butlast g)" and "butlast g = [] \<or> butlast g = ''*''"
    using wildcard_butlast by (auto simp: prefix_Cons)
  then show False by (auto simp: suffix_def)
qed

lemma wildcard_prefix_wildcard:
  assumes "isWildcardScope g" "isWildcardScope h" "prefix (butlast g) h"
  shows "prefix (butlast g) (butlast h)"
proof -
  from wildcard_butlast [OF assms(2)] have h: "h = butlast h @ ''*''" by simp
  from assms(3) h have "prefix (butlast g) (butlast h @ ''*'')" by simp
  then have "butlast g = butlast h @ ''*'' \<or> prefix (butlast g) (butlast h)"
    by (metis prefix_snoc)
  moreover from wildcard_butlast [OF assms(1)] have "butlast g \<noteq> butlast h @ ''*''"
    by (auto simp: suffix_def)
  ultimately show ?thesis by blast
qed

lemma scopeMatches_trans:
  assumes "scopeMatches g h" "scopeMatches h p"
  shows "scopeMatches g p"
proof (cases "g = h \<or> h = p \<or> g = ''*''")
  case True
  with assms show ?thesis by (auto simp: scopeMatches_cases)
next
  case False
  with assms(1) have g: "isWildcardScope g" "prefix (butlast g) h"
    by (auto simp: scopeMatches_cases)
  from g wildcard_prefix_star have "h \<noteq> ''*''" by blast
  with False assms(2) have h: "isWildcardScope h" "prefix (butlast h) p"
    by (auto simp: scopeMatches_cases)
  from wildcard_prefix_wildcard [OF g(1) h(1) g(2)] h(2) have "prefix (butlast g) p"
    by (rule prefix_order.trans)
  with g(1) show ?thesis by (simp add: scopeMatches_cases)
qed

lemma scopeMatches_nest:
  assumes "scopeMatches g p" "scopeMatches h p"
  shows "scopeMatches g h \<or> scopeMatches h g"
proof (cases "g = p \<or> h = p \<or> g = ''*'' \<or> h = ''*''")
  case True
  with assms show ?thesis by (auto simp: scopeMatches_cases)
next
  case False
  with assms have g: "isWildcardScope g" "prefix (butlast g) p"
    and h: "isWildcardScope h" "prefix (butlast h) p"
    by (auto simp: scopeMatches_cases)
  from prefix_same_cases [OF g(2) h(2)]
  have "prefix (butlast g) (butlast h) \<or> prefix (butlast h) (butlast g)" .
  moreover from wildcard_butlast [OF g(1)] wildcard_butlast [OF h(1)]
  have "prefix (butlast g) g" "prefix (butlast h) h" by (metis prefixI)+
  ultimately show ?thesis using g(1) h(1)
    by (auto simp: scopeMatches_cases intro: prefix_order.trans)
qed

interpretation scope: authority scopeMatches
  by unfold_locales (fact scopeMatches_refl scopeMatches_trans scopeMatches_nest)+

lemma allows_scopesAuthorize [simp]: "scope.allows gs = scopesAuthorize (Some gs)"
  by (simp add: fun_eq_iff scope.allows_def scopesAuthorize_def)

lemma scopesAuthorize_None [simp]: "scopesAuthorize None p"
  by (simp add: scopesAuthorize_def)

lemma scopesAuthorize_set: "set a = set b \<Longrightarrow> scopesAuthorize (Some a) p = scopesAuthorize (Some b) p"
  by (simp add: scopesAuthorize_def)

lemma authorize_intersect:
  "scopesAuthorize (Some (intersectScopes a b)) p \<longleftrightarrow>
     scopesAuthorize (Some a) p \<and> scopesAuthorize (Some b) p"
proof -
  have "scopesAuthorize (Some (intersectScopes a b)) p = scopesAuthorize (Some (scope.meet a b)) p"
    by (rule scopesAuthorize_set) (simp add: intersectScopes_def scope.meet_def)
  also have "\<dots> \<longleftrightarrow> scopesAuthorize (Some a) p \<and> scopesAuthorize (Some b) p"
    using scope.allows_meet [of a b p] by simp
  finally show ?thesis .
qed

text \<open>
  For every permission, the capped grant authorizes it exactly when both the token's
  scope claim and the scopes its source credential holds now authorize it.
\<close>

lemma intersectScopes_exact:
  "\<forall>p. scopesAuthorize (Some (intersectScopes a b)) p =
        (scopesAuthorize (Some a) p \<and> scopesAuthorize (Some b) p)"
  by (simp add: authorize_intersect)

text \<open>Delegation.\<close>

lemma ungrantable_Nil_known:
  "ungrantableScopes perms req = [] \<Longrightarrow> s \<in> set req \<Longrightarrow> isKnownScope s"
  by (auto simp: ungrantableScopes_def filter_empty_conv split: if_splits)

lemma star_not_known [simp]: "\<not> isKnownScope ''*''"
  by (simp add: isKnownScope_def API_SCOPE_CATALOG_def ANY_ADMIN_PERMISSION_def ACCOUNT_SCOPES_def)

lemma account_not_admin: "s \<in> set ACCOUNT_SCOPES \<Longrightarrow> s \<notin> set ANY_ADMIN_PERMISSION"
  by (auto simp: ANY_ADMIN_PERMISSION_def ACCOUNT_SCOPES_def)

lemma catalog_not_wildcard: "s \<in> set API_SCOPE_CATALOG \<Longrightarrow> \<not> isWildcardScope s"
  by (auto simp: isWildcardScope_def suffix_def API_SCOPE_CATALOG_def ANY_ADMIN_PERMISSION_def
      ACCOUNT_SCOPES_def append_eq_Cons_conv)

lemma grantable_admin_held:
  assumes "ungrantableScopes perms req = []" "s \<in> set req" "scopeMatches s p"
    and p: "p \<in> set ANY_ADMIN_PERMISSION"
  shows "p \<in> set perms"
proof -
  from assms(1,2) have known: "isKnownScope s" by (rule ungrantable_Nil_known)
  then have "s \<noteq> ''*''" using star_not_known by blast
  with assms(3) consider "s = p" | "isWildcardScope s" "prefix (butlast s) p"
    by (auto simp: scopeMatches_cases)
  then show ?thesis
  proof cases
    case 1
    with p have "\<not> isAccountScope s" "\<not> isWildcardScope s"
      using account_not_admin catalog_not_wildcard
      by (auto simp: isAccountScope_def API_SCOPE_CATALOG_def)
    with 1 assms(1,2) known show ?thesis
      by (auto simp: ungrantableScopes_def filter_empty_conv split: if_splits)
  next
    case 2
    then have "\<not> isAccountScope s"
      using catalog_not_wildcard by (auto simp: isAccountScope_def API_SCOPE_CATALOG_def)
    with 2 assms(1,2) known
    have "\<forall>k \<in> set API_SCOPE_CATALOG. prefix (butlast s) k \<longrightarrow> k \<in> set perms"
      by (auto simp: ungrantableScopes_def filter_empty_conv Let_def split: if_splits)
    with 2 p show ?thesis by (auto simp: API_SCOPE_CATALOG_def)
  qed
qed

text \<open>
  A credential whose requested scopes a creator was allowed to grant never authorizes an
  administrator permission the creator does not hold.
\<close>

lemma grant_within_creator:
  assumes "ungrantableScopes perms req = []"
    and "p \<in> set ANY_ADMIN_PERMISSION"
    and "scopesAuthorize (Some req) p"
  shows "p \<in> set perms"
  using assms grantable_admin_held by (auto simp: scopesAuthorize_def)

lemma grant_within_creator_witness:
  "''admin.orgs.create'' \<in> set [''admin.orgs.read'', ''admin.orgs.create'', ''admin.orgs.update'',
     ''admin.orgs.delete'', ''admin.orgs.manage'']"
proof (rule grant_within_creator [of _ "[''admin.orgs.*'', ''account.read'']"])
  show "ungrantableScopes [''admin.orgs.read'', ''admin.orgs.create'', ''admin.orgs.update'',
     ''admin.orgs.delete'', ''admin.orgs.manage''] [''admin.orgs.*'', ''account.read''] = []"
    by code_simp
  show "''admin.orgs.create'' \<in> set ANY_ADMIN_PERMISSION" by code_simp
  show "scopesAuthorize (Some [''admin.orgs.*'', ''account.read'']) ''admin.orgs.create''"
    by code_simp
qed

text \<open>
  A chain of issuances: every credential after the first is minted by the bearer of the one
  before it.
\<close>

fun bearer_chain :: "string list \<Rightarrow> string list \<Rightarrow> string list list \<Rightarrow> bool" where
  "bearer_chain perms gs [] = True"
| "bearer_chain perms gs (req # reqs) =
     (ungrantableScopesForCaller perms (Some gs) req = [] \<and> bearer_chain perms req reqs)"

lemma bearer_mint_within:
  assumes "ungrantableScopesForCaller perms (Some gs) req = []"
    and "scopesAuthorize (Some req) p"
  shows "scopesAuthorize (Some gs) p"
proof -
  from assms(1) have "\<forall>s \<in> set req. scopesAuthorize (Some gs) s"
    by (auto simp: ungrantableScopesForCaller_def filter_empty_conv)
  with assms(2) show ?thesis using scope.allows_delegated [of req gs p] by simp
qed

text \<open>
  C33: however many credentials are minted from one another over a bearer credential, none
  authorizes a permission the first one does not authorize, whatever permissions the owner
  holds.
\<close>

theorem bearer_chain_never_escalates:
  assumes "bearer_chain perms gs reqs" and "req \<in> set reqs" and "scopesAuthorize (Some req) p"
  shows "scopesAuthorize (Some gs) p"
  using assms
proof (induction perms gs reqs rule: bearer_chain.induct)
  case (1 perms gs)
  then show ?case by simp
next
  case (2 perms gs r reqs)
  then have "scopesAuthorize (Some r) p" by auto
  with 2 show ?case by (auto intro: bearer_mint_within)
qed

lemma bearer_chain_never_escalates_witness:
  "scopesAuthorize (Some [''admin.users.*'']) ''admin.users.ban''"
proof (rule bearer_chain_never_escalates)
  show "bearer_chain [] [''admin.users.*'']
          [[''admin.users.ban'', ''admin.users.read''], [''admin.users.ban'']]" by code_simp
  show "[''admin.users.ban''] \<in> set [[''admin.users.ban'', ''admin.users.read''], [''admin.users.ban'']]"
    by simp
  show "scopesAuthorize (Some [''admin.users.ban'']) ''admin.users.ban''" by code_simp
qed

subsection \<open>Nameable permissions\<close>

lemma scope_root_Nil: "scope_root k = [] \<longleftrightarrow> CHR ''.'' \<notin> set k"
  by (induction k) (auto split: list.splits)

lemma scope_root_dot: "scope_root k \<noteq> [] \<Longrightarrow> suffix ''.'' (scope_root k)"
  by (induction k) (auto simp: suffix_def Cons_eq_append_conv split: list.splits if_splits)

lemma scope_root_prefix: "prefix (scope_root k) k"
  by (induction k) (auto split: list.splits)

lemma scope_root_append: "scope_root p \<noteq> [] \<Longrightarrow> scope_root (p @ s) = scope_root p"
  by (induction p) (auto split: list.splits if_splits)

lemma scope_root_prefix_eq:
  "prefix p k \<Longrightarrow> suffix ''.'' p \<Longrightarrow> scope_root k = scope_root p \<and> scope_root p \<noteq> []"
  by (auto simp: prefix_def suffix_def scope_root_Nil intro!: scope_root_append)

lemma catalog_rooted: "\<forall>k \<in> set API_SCOPE_CATALOG. scope_root k \<noteq> []"
  by code_simp

lemma nameable_by_wildcard:
  assumes "isScopeNameable key"
  shows "\<exists>perms scope. ungrantableScopes perms [scope] = [] \<and> scopeMatches scope key"
proof -
  let ?r = "scope_root key"
  let ?s = "?r @ ''*''"
  from assms obtain k where r: "?r \<noteq> []" and k: "k \<in> set API_SCOPE_CATALOG" "prefix ?r k"
    by (auto simp: isScopeNameable_def Let_def)
  from scope_root_dot [OF r] have w: "isWildcardScope ?s"
    by (auto simp: isWildcardScope_def suffix_def)
  then have "\<not> isAccountScope ?s"
    using catalog_not_wildcard by (auto simp: isAccountScope_def API_SCOPE_CATALOG_def)
  with w k have "ungrantableScopes API_SCOPE_CATALOG [?s] = []"
    by (auto simp: ungrantableScopes_def isKnownScope_def Let_def filter_empty_conv)
  moreover from w have "scopeMatches ?s key" by (simp add: scopeMatches_cases scope_root_prefix)
  ultimately show ?thesis by blast
qed

text \<open>
  A permission key is nameable exactly when some scope that some creator may grant
  authorizes it.
\<close>

lemma isScopeNameable_iff_grantable:
  "isScopeNameable key \<longleftrightarrow>
     (\<exists>perms scope. ungrantableScopes perms [scope] = [] \<and> scopeMatches scope key)"
proof
  assume "isScopeNameable key"
  then show "\<exists>perms scope. ungrantableScopes perms [scope] = [] \<and> scopeMatches scope key"
    by (rule nameable_by_wildcard)
next
  assume "\<exists>perms scope. ungrantableScopes perms [scope] = [] \<and> scopeMatches scope key"
  then obtain perms s where s: "ungrantableScopes perms [s] = []" "scopeMatches s key" by blast
  then have known: "isKnownScope s" using ungrantable_Nil_known by force
  show "isScopeNameable key"
  proof (cases "isWildcardScope s")
    case False
    with known have k: "s \<in> set API_SCOPE_CATALOG" by (simp add: isKnownScope_def)
    moreover from known have "s \<noteq> ''*''" using star_not_known by blast
    ultimately have "key \<in> set API_SCOPE_CATALOG" using s(2) False by (auto simp: scopeMatches_cases)
    then show ?thesis using catalog_rooted scope_root_prefix by (auto simp: isScopeNameable_def Let_def)
  next
    case True
    then have "\<not> isAccountScope s"
      using catalog_not_wildcard by (auto simp: isAccountScope_def API_SCOPE_CATALOG_def)
    with True known s(1) obtain k where k: "k \<in> set API_SCOPE_CATALOG" "prefix (butlast s) k"
      by (auto simp: ungrantableScopes_def Let_def filter_empty_conv split: if_splits)
    from wildcard_butlast [OF True] have dot: "suffix ''.'' (butlast s)" and "prefix (butlast s) s"
      by (auto intro: prefixI)
    with s(2) True have "prefix (butlast s) key"
      by (auto simp: scopeMatches_cases)
    with dot k(2) have "scope_root key = scope_root k" "scope_root k \<noteq> []"
      using scope_root_prefix_eq by metis+
    with k(1) scope_root_prefix show ?thesis by (auto simp: isScopeNameable_def Let_def)
  qed
qed

subsection \<open>Normalized requests\<close>

lemma trim_map_idem: "map trim (filter (\<lambda>p. p \<noteq> []) (map trim xs)) = filter (\<lambda>p. p \<noteq> []) (map trim xs)"
  by (induction xs) auto

lemma js_uniq_acc_distinct:
  "distinct xs \<Longrightarrow> set xs \<inter> set seen = {} \<Longrightarrow> js_uniq_acc seen xs = xs"
  by (induction xs arbitrary: seen) auto

lemma js_uniq_distinct: "distinct xs \<Longrightarrow> js_uniq xs = xs"
  by (simp add: js_uniq_def js_uniq_acc_distinct)

lemma map_trim_id: "\<forall>p \<in> set xs. trim p = p \<Longrightarrow> map trim xs = xs"
  by (induction xs) auto

lemma normalizeScopes_pieces:
  "p \<in> set (normalizeScopes i) \<Longrightarrow> p \<noteq> [] \<and> trim p = p"
  by (auto simp: normalizeScopes_def split: scope_input.splits if_splits)

lemma normalizeScopes_distinct: "distinct (normalizeScopes i)"
  by (auto simp: normalizeScopes_def split: scope_input.splits)

lemma normalizeScopes_idem: "normalizeScopes (ScopeArray (normalizeScopes i)) = normalizeScopes i"
proof -
  let ?n = "normalizeScopes i"
  have "map trim ?n = ?n" using normalizeScopes_pieces by (blast intro: map_trim_id)
  moreover have "filter (\<lambda>p. p \<noteq> []) ?n = ?n"
    using normalizeScopes_pieces by (simp add: filter_id_conv)
  ultimately show ?thesis
    using normalizeScopes_distinct by (subst normalizeScopes_def) (simp add: js_uniq_distinct)
qed

end
