(* ===== verification/Tables.thy ===== *)
theory Tables
  imports JsString
begin

text \<open>
  The relational state (\<open>src/db/schema/app-schema.ts\<close>): one record per table with the columns
  the modelled statements read or write, and one record holding the tables. A status column is
  free text in the row, as it is for the code that reads it; the coercions that turn it into
  a typed status belong to the components. A timestamp is its milliseconds since the epoch.
\<close>

record org_row =
  org_id :: uuid
  org_slug :: string
  org_name :: string
  org_status :: string
  org_is_default :: bool
  org_created_at :: millis

record app_user_row =
  au_id :: uuid
  au_better_auth_user_id :: uuid
  au_primary_email :: string
  au_display_name :: "string option"
  au_status :: string
  au_status_reason :: "string option"
  au_preferred_locale :: string
  au_deactivated_at :: "millis option"
  au_deactivated_by :: "uuid option"
  au_deactivated_reason :: "string option"
  au_created_at :: millis

record membership_row =
  mb_id :: uuid
  mb_organization_id :: uuid
  mb_app_user_id :: uuid
  mb_status :: string
  mb_source_provider :: "string option"
  mb_provider_organization_key :: "string option"
  mb_pre_deactivation_status :: "string option"
  mb_created_at :: millis

record role_row =
  role_id :: uuid
  role_organization_id :: "uuid option"
  role_key :: string

record permission_row =
  perm_id :: uuid
  perm_key :: string

record role_permission_row =
  rp_role_id :: uuid
  rp_permission_id :: uuid

record user_role_row =
  ur_app_user_id :: uuid
  ur_organization_id :: uuid
  ur_role_id :: uuid

record group_row =
  grp_id :: uuid
  grp_organization_id :: uuid

record group_role_row =
  gr_group_id :: uuid
  gr_role_id :: uuid

record group_membership_row =
  gm_group_id :: uuid
  gm_app_user_id :: uuid

record invitation_row =
  inv_id :: uuid
  inv_organization_id :: uuid
  inv_email :: string
  inv_role_id :: "uuid option"
  inv_token_hash :: string
  inv_status :: string
  inv_invited_by :: "uuid option"
  inv_expires_at :: millis
  inv_accepted_at :: "millis option"
  inv_accepted_app_user_id :: "uuid option"
  inv_revoked_at :: "millis option"
  inv_revoked_by :: "uuid option"

text \<open>Better Auth's own \<open>user\<close> table: the ban columns its admin plugin maintains.\<close>

record auth_user_row =
  bu_id :: uuid
  bu_banned :: "bool option"
  bu_ban_expires :: "millis option"
  bu_ban_reason :: "string option"

record db =
  app_organizations :: "org_row table"
  app_users :: "app_user_row table"
  app_organization_memberships :: "membership_row table"
  app_roles :: "role_row table"
  app_permissions :: "permission_row table"
  app_role_permissions :: "role_permission_row table"
  app_user_roles :: "user_role_row table"
  app_groups :: "group_row table"
  app_group_roles :: "group_role_row table"
  app_group_memberships :: "group_membership_row table"
  auth_users :: "auth_user_row table"

definition empty_db :: db where
  "empty_db =
     \<lparr>app_organizations = [], app_users = [], app_organization_memberships = [], app_roles = [],
      app_permissions = [], app_role_permissions = [], app_user_roles = [], app_groups = [],
      app_group_roles = [], app_group_memberships = [], auth_users = []\<rparr>"

text \<open>
  A small installation the witnesses evaluate on: an active organization with a member, its
  administrator and a superadmin, a suspended one, and a second active one where the member
  is an administrator.
\<close>

definition sample_db :: db where
  "sample_db =
     \<lparr>app_organizations =
        [\<lparr>org_id = ''A'', org_slug = ''a'', org_name = ''A'', org_status = ''active'', org_is_default = True, org_created_at = 0\<rparr>,
         \<lparr>org_id = ''B'', org_slug = ''b'', org_name = ''B'', org_status = ''active'', org_is_default = False, org_created_at = 0\<rparr>,
         \<lparr>org_id = ''S'', org_slug = ''s'', org_name = ''S'', org_status = ''suspended'', org_is_default = False, org_created_at = 0\<rparr>],
      app_users =
        [\<lparr>au_id = ''u1'', au_better_auth_user_id = ''b1'', au_primary_email = ''u1@a'', au_display_name = None, au_status = ''active'',
          au_status_reason = None, au_preferred_locale = ''en'', au_deactivated_at = None, au_deactivated_by = None, au_deactivated_reason = None, au_created_at = 1\<rparr>,
         \<lparr>au_id = ''u2'', au_better_auth_user_id = ''b2'', au_primary_email = ''u2@a'', au_display_name = None, au_status = ''active'',
          au_status_reason = None, au_preferred_locale = ''en'', au_deactivated_at = None, au_deactivated_by = None, au_deactivated_reason = None, au_created_at = 2\<rparr>,
         \<lparr>au_id = ''u3'', au_better_auth_user_id = ''b3'', au_primary_email = ''u3@a'', au_display_name = None, au_status = ''active'',
          au_status_reason = None, au_preferred_locale = ''en'', au_deactivated_at = None, au_deactivated_by = None, au_deactivated_reason = None, au_created_at = 3\<rparr>],
      app_organization_memberships =
        [\<lparr>mb_id = ''m1'', mb_organization_id = ''A'', mb_app_user_id = ''u1'', mb_status = ''active'',
          mb_source_provider = None, mb_provider_organization_key = None, mb_pre_deactivation_status = None, mb_created_at = 10\<rparr>,
         \<lparr>mb_id = ''m2'', mb_organization_id = ''B'', mb_app_user_id = ''u1'', mb_status = ''active'',
          mb_source_provider = None, mb_provider_organization_key = None, mb_pre_deactivation_status = None, mb_created_at = 20\<rparr>,
         \<lparr>mb_id = ''m3'', mb_organization_id = ''S'', mb_app_user_id = ''u1'', mb_status = ''active'',
          mb_source_provider = None, mb_provider_organization_key = None, mb_pre_deactivation_status = None, mb_created_at = 5\<rparr>,
         \<lparr>mb_id = ''m4'', mb_organization_id = ''A'', mb_app_user_id = ''u2'', mb_status = ''active'',
          mb_source_provider = None, mb_provider_organization_key = None, mb_pre_deactivation_status = None, mb_created_at = 1\<rparr>,
         \<lparr>mb_id = ''m5'', mb_organization_id = ''A'', mb_app_user_id = ''u3'', mb_status = ''active'',
          mb_source_provider = None, mb_provider_organization_key = None, mb_pre_deactivation_status = None, mb_created_at = 2\<rparr>],
      app_roles =
        [\<lparr>role_id = ''r1'', role_organization_id = Some ''A'', role_key = ''orgadmin''\<rparr>,
         \<lparr>role_id = ''r2'', role_organization_id = Some ''A'', role_key = ''superuser''\<rparr>,
         \<lparr>role_id = ''r3'', role_organization_id = Some ''B'', role_key = ''orgadmin''\<rparr>],
      app_permissions =
        [\<lparr>perm_id = ''p1'', perm_key = ''admin.users.read''\<rparr>,
         \<lparr>perm_id = ''p2'', perm_key = ''superuser''\<rparr>,
         \<lparr>perm_id = ''p3'', perm_key = ''admin.users.manage''\<rparr>],
      app_role_permissions =
        [\<lparr>rp_role_id = ''r1'', rp_permission_id = ''p1''\<rparr>, \<lparr>rp_role_id = ''r2'', rp_permission_id = ''p2''\<rparr>,
         \<lparr>rp_role_id = ''r3'', rp_permission_id = ''p3''\<rparr>, \<lparr>rp_role_id = ''r1'', rp_permission_id = ''p3''\<rparr>],
      app_user_roles =
        [\<lparr>ur_app_user_id = ''u2'', ur_organization_id = ''A'', ur_role_id = ''r1''\<rparr>,
         \<lparr>ur_app_user_id = ''u3'', ur_organization_id = ''A'', ur_role_id = ''r2''\<rparr>,
         \<lparr>ur_app_user_id = ''u1'', ur_organization_id = ''B'', ur_role_id = ''r3''\<rparr>],
      app_groups = [\<lparr>grp_id = ''g1'', grp_organization_id = ''A''\<rparr>],
      app_group_roles = [\<lparr>gr_group_id = ''g1'', gr_role_id = ''r1''\<rparr>],
      app_group_memberships = [],
      auth_users =
        [\<lparr>bu_id = ''b1'', bu_banned = None, bu_ban_expires = None, bu_ban_reason = None\<rparr>,
         \<lparr>bu_id = ''b2'', bu_banned = Some False, bu_ban_expires = None, bu_ban_reason = None\<rparr>,
         \<lparr>bu_id = ''b3'', bu_banned = Some False, bu_ban_expires = None, bu_ban_reason = None\<rparr>]\<rparr>"

end
