(* ===== verification/SessionLifetime.thy ===== *)
theory SessionLifetime
  imports JsString Complex_Main
begin

text \<open>
  Bans and session ages (\<open>src/lib/ban-status.ts\<close>, \<open>src/lib/impersonation.ts\<close>,
  \<open>src/lib/session-lifetime.ts\<close>). A date column is absent, a time, or a value
  \<open>new Date(...)\<close> cannot read; an hours setting is absent or a number, which may be
  infinite or not a number.
\<close>

datatype js_date = NoDate | InvalidDate | DateMs millis

datatype js_number = NotANumber | PlusInfinity | MinusInfinity | Num real

fun isFinite :: "js_number \<Rightarrow> bool" where
  "isFinite (Num x) = True"
| "isFinite v = False"

record bannable_user =
  usr_banned :: "bool option"
  usr_banExpires :: js_date

definition isBanActive :: "bannable_user \<Rightarrow> millis \<Rightarrow> bool" where
  "isBanActive user nowMs =
     (if usr_banned user \<noteq> Some True then False
      else (case usr_banExpires user of
              NoDate \<Rightarrow> True
            | InvalidDate \<Rightarrow> True
            | DateMs expiresMs \<Rightarrow> expiresMs > nowMs))"

record session_row =
  sess_createdAt :: js_date
  sess_token :: "string option"
  sess_impersonatedBy :: "string option"
  sess_impersonated_by :: "string option"

definition readImpersonatorId :: "session_row \<Rightarrow> string option" where
  "readImpersonatorId sess =
     (let v = (case sess_impersonatedBy sess of Some x \<Rightarrow> Some x | None \<Rightarrow> sess_impersonated_by sess)
      in case v of None \<Rightarrow> None | Some s \<Rightarrow> if length s > 0 then Some s else None)"

text \<open>
  A session argument may itself be absent; then it has no creation time.
\<close>

definition created_at :: "session_row option \<Rightarrow> js_date" where
  "created_at session = (case session of None \<Rightarrow> NoDate | Some s \<Rightarrow> sess_createdAt s)"

definition isSessionPastAbsoluteLifetime ::
    "session_row option \<Rightarrow> js_number option \<Rightarrow> millis \<Rightarrow> bool" where
  "isSessionPastAbsoluteLifetime session absoluteLifetimeHours nowMs =
     (case absoluteLifetimeHours of
        Some (Num hours) \<Rightarrow>
          if hours \<le> 0 then False
          else (case created_at session of
                  NoDate \<Rightarrow> False
                | InvalidDate \<Rightarrow> False
                | DateMs createdMs \<Rightarrow> real_of_int (nowMs - createdMs) \<ge> hours * 60 * 60 * 1000)
      | _ \<Rightarrow> False)"

definition IMPERSONATION_SESSION_MAX_AGE_SECONDS :: int where
  "IMPERSONATION_SESSION_MAX_AGE_SECONDS = 60 * 60"

definition isImpersonationSessionPastMaxAge :: "session_row option \<Rightarrow> millis \<Rightarrow> bool" where
  "isImpersonationSessionPastMaxAge session nowMs =
     (case created_at session of
        NoDate \<Rightarrow> True
      | InvalidDate \<Rightarrow> True
      | DateMs createdMs \<Rightarrow> nowMs - createdMs \<ge> IMPERSONATION_SESSION_MAX_AGE_SECONDS * 1000)"

definition DEFAULT_SSO_SESSION_LIFETIME_HOURS :: real where
  "DEFAULT_SSO_SESSION_LIFETIME_HOURS = 8"

definition SSO_SESSION_TOKEN_PREFIX :: string where
  "SSO_SESSION_TOKEN_PREFIX = ''sso.''"

text \<open>
  \<open>TextEncoder\<close> on a code unit below 256: one byte below 128, two above. Each byte is
  written as two lowercase hex digits.
\<close>

definition utf8_bytes :: "char \<Rightarrow> nat list" where
  "utf8_bytes c = (let n = (of_char c :: nat) in if n < 128 then [n] else [192 + n div 64, 128 + n mod 64])"

definition hex_digit :: "nat \<Rightarrow> char" where
  "hex_digit n = (if n < 10 then char_of (48 + n) else char_of (87 + n))"

definition hex_byte :: "nat \<Rightarrow> string" where
  "hex_byte n = [hex_digit (n div 16), hex_digit (n mod 16)]"

definition hex_of_string :: "string \<Rightarrow> string" where
  "hex_of_string s = concat (map hex_byte (concat (map utf8_bytes s)))"

definition ssoSessionTokenPrefix :: "string \<Rightarrow> string" where
  "ssoSessionTokenPrefix applicationId =
     SSO_SESSION_TOKEN_PREFIX @ hex_of_string applicationId @ ''.''"

definition isSsoHandoffSession :: "session_row option \<Rightarrow> bool" where
  "isSsoHandoffSession session =
     (case session of
        None \<Rightarrow> False
      | Some s \<Rightarrow> (case sess_token s of None \<Rightarrow> False | Some t \<Rightarrow> starts_with t SSO_SESSION_TOKEN_PREFIX))"

definition isSsoSessionPastLifetime ::
    "session_row option \<Rightarrow> js_number option \<Rightarrow> millis \<Rightarrow> bool" where
  "isSsoSessionPastLifetime session lifetimeHours nowMs =
     (let hours = (case lifetimeHours of
                     Some (Num h) \<Rightarrow> if h > 0 then h else DEFAULT_SSO_SESSION_LIFETIME_HOURS
                   | _ \<Rightarrow> DEFAULT_SSO_SESSION_LIFETIME_HOURS)
      in case created_at session of
           NoDate \<Rightarrow> True
         | InvalidDate \<Rightarrow> True
         | DateMs createdMs \<Rightarrow> real_of_int (nowMs - createdMs) \<ge> hours * 60 * 60 * 1000)"

record session_lifetime_settings =
  SESSION_ABSOLUTE_LIFETIME_HOURS :: "js_number option"
  SSO_SESSION_LIFETIME_HOURS :: "js_number option"

definition isSessionPastLifetime ::
    "session_row \<Rightarrow> session_lifetime_settings \<Rightarrow> millis \<Rightarrow> bool" where
  "isSessionPastLifetime session settings nowMs \<longleftrightarrow>
     isSessionPastAbsoluteLifetime (Some session) (SESSION_ABSOLUTE_LIFETIME_HOURS settings) nowMs \<or>
     (readImpersonatorId session \<noteq> None \<and> isImpersonationSessionPastMaxAge (Some session) nowMs) \<or>
     (isSsoHandoffSession (Some session) \<and>
      isSsoSessionPastLifetime (Some session) (SSO_SESSION_LIFETIME_HOURS settings) nowMs)"

subsection \<open>Expiry is monotone\<close>

text \<open>
  What every session bound promises: once a session is past it, it stays past it.
\<close>

locale session_bound =
  fixes past :: "millis \<Rightarrow> bool"
  assumes past_step: "past t \<Longrightarrow> t \<le> u \<Longrightarrow> past u"
begin

lemma past_forever: "past t \<Longrightarrow> \<forall>u \<ge> t. past u"
  using past_step by blast

lemma alive_before: "\<not> past u \<Longrightarrow> t \<le> u \<Longrightarrow> \<not> past t"
  using past_step by blast

end

interpretation absolute_bound: session_bound "isSessionPastAbsoluteLifetime s h"
proof
  fix t u :: millis
  assume p: "isSessionPastAbsoluteLifetime s h t" and le: "t \<le> u"
  have "real_of_int (t - c) \<le> real_of_int (u - c)" for c using le by simp
  then show "isSessionPastAbsoluteLifetime s h u"
    using p by (auto simp: isSessionPastAbsoluteLifetime_def split: option.splits js_number.splits
        js_date.splits if_splits intro: order_trans)
qed

interpretation impersonation_bound: session_bound "isImpersonationSessionPastMaxAge s"
  by unfold_locales
    (auto simp: isImpersonationSessionPastMaxAge_def split: js_date.splits)

interpretation sso_bound: session_bound "isSsoSessionPastLifetime s h"
proof
  fix t u :: millis
  assume p: "isSsoSessionPastLifetime s h t" and le: "t \<le> u"
  have "real_of_int (t - c) \<le> real_of_int (u - c)" for c using le by simp
  then show "isSsoSessionPastLifetime s h u"
    using p by (auto simp: isSsoSessionPastLifetime_def Let_def split: js_date.splits
        intro: order_trans)
qed

interpretation lifetime_bound: session_bound "isSessionPastLifetime s settings"
  by unfold_locales
    (auto simp: isSessionPastLifetime_def intro: absolute_bound.past_step
      impersonation_bound.past_step sso_bound.past_step)

subsection \<open>Bounds\<close>

text \<open>
  No operator setting extends a borrowed or a handed-off session. An impersonation session
  is past its lifetime an hour after its creation, an SSO session at most its configured (else
  default) hours after, both at once when the creation time cannot be read, and once a session
  is past its lifetime it stays so.
\<close>

lemma bounded_sessions_end:
  "(readImpersonatorId s \<noteq> None \<longrightarrow>
      (\<forall>(settings :: session_lifetime_settings) now. (case sess_createdAt s of DateMs c \<Rightarrow> now \<ge> c + 3600000 | _ \<Rightarrow> True) \<longrightarrow>
         isSessionPastLifetime s settings now)) \<and>
   (isSsoHandoffSession (Some s) \<longrightarrow>
      (\<forall>(settings :: session_lifetime_settings) h now. SSO_SESSION_LIFETIME_HOURS settings = Some (Num h) \<and> h > 0 \<or>
                        \<not> (\<exists>h. SSO_SESSION_LIFETIME_HOURS settings = Some (Num h) \<and> h > 0) \<and> h = 8 \<longrightarrow>
         (case sess_createdAt s of DateMs c \<Rightarrow> real_of_int now \<ge> real_of_int c + h * 3600000 | _ \<Rightarrow> True) \<longrightarrow>
         isSessionPastLifetime s settings now)) \<and>
   (\<forall>(settings :: session_lifetime_settings) t u. isSessionPastLifetime s settings t \<longrightarrow> t \<le> u \<longrightarrow> isSessionPastLifetime s settings u)"
proof (intro conjI impI allI)
  fix settings :: session_lifetime_settings and now
  assume "readImpersonatorId s \<noteq> None"
    and "case sess_createdAt s of DateMs c \<Rightarrow> now \<ge> c + 3600000 | _ \<Rightarrow> True"
  then show "isSessionPastLifetime s settings now"
    by (auto simp: isSessionPastLifetime_def isImpersonationSessionPastMaxAge_def created_at_def
        IMPERSONATION_SESSION_MAX_AGE_SECONDS_def split: js_date.splits)
next
  fix settings :: session_lifetime_settings and h now
  assume "isSsoHandoffSession (Some s)"
    and h: "SSO_SESSION_LIFETIME_HOURS settings = Some (Num h) \<and> h > 0 \<or>
      \<not> (\<exists>h. SSO_SESSION_LIFETIME_HOURS settings = Some (Num h) \<and> h > 0) \<and> h = 8"
    and "case sess_createdAt s of
        DateMs c \<Rightarrow> real_of_int now \<ge> real_of_int c + h * 3600000 | _ \<Rightarrow> True"
  moreover from h have "h = (case SSO_SESSION_LIFETIME_HOURS settings of
      Some (Num x) \<Rightarrow> if x > 0 then x else DEFAULT_SSO_SESSION_LIFETIME_HOURS
    | _ \<Rightarrow> DEFAULT_SSO_SESSION_LIFETIME_HOURS)"
    by (auto simp: DEFAULT_SSO_SESSION_LIFETIME_HOURS_def split: option.splits js_number.splits)
  ultimately show "isSessionPastLifetime s settings now"
    by (auto simp: isSessionPastLifetime_def isSsoSessionPastLifetime_def created_at_def
        split: js_date.splits)
next
  fix settings :: session_lifetime_settings and t u
  assume "isSessionPastLifetime s settings t" "t \<le> u"
  then show "isSessionPastLifetime s settings u" by (rule lifetime_bound.past_step)
qed

lemma bounded_sessions_end_witness:
  "isSessionPastLifetime
     \<lparr>sess_createdAt = DateMs 0, sess_token = None, sess_impersonatedBy = Some ''b2'',
      sess_impersonated_by = None\<rparr>
     \<lparr>SESSION_ABSOLUTE_LIFETIME_HOURS = None, SSO_SESSION_LIFETIME_HOURS = None\<rparr> 3600000"
proof -
  let ?s = "\<lparr>sess_createdAt = DateMs 0, sess_token = None, sess_impersonatedBy = Some ''b2'',
      sess_impersonated_by = None\<rparr>"
  have "readImpersonatorId ?s \<noteq> None" by (simp add: readImpersonatorId_def)
  then show ?thesis using bounded_sessions_end [of ?s] by simp
qed

subsection \<open>Handoff marks\<close>

lemma of_hex_digit: "n < 16 \<Longrightarrow> (of_char (hex_digit n) :: nat) = (if n < 10 then 48 + n else 87 + n)"
  by (simp add: hex_digit_def)

lemma hex_digit_no_dot: "n < 16 \<Longrightarrow> hex_digit n \<noteq> CHR ''.''"
proof
  assume "n < 16" "hex_digit n = CHR ''.''"
  then have "(if n < 10 then 48 + n else 87 + n) = (of_char (CHR ''.'') :: nat)"
    using of_hex_digit by metis
  then show False by (simp split: if_splits)
qed

lemma hex_digit_inj: "a < 16 \<Longrightarrow> b < 16 \<Longrightarrow> hex_digit a = hex_digit b \<Longrightarrow> a = b"
proof -
  assume "a < 16" "b < 16" "hex_digit a = hex_digit b"
  then have "(if a < 10 then 48 + a else 87 + a) = (if b < 10 then 48 + b else 87 + b)"
    using of_hex_digit by metis
  then show "a = b" by (simp split: if_splits)
qed

lemma hex_byte_inj: "a < 256 \<Longrightarrow> b < 256 \<Longrightarrow> hex_byte a = hex_byte b \<Longrightarrow> a = b"
proof -
  assume a: "a < 256" and b: "b < 256" and "hex_byte a = hex_byte b"
  then have "a div 16 = b div 16" "a mod 16 = b mod 16"
    by (auto simp: hex_byte_def intro!: hex_digit_inj)
  then show "a = b" by (metis div_mult_mod_eq)
qed

lemma of_char_lt_256: "(of_char c :: nat) < 256"
  by (metis mod_less_divisor of_char_mod_256 zero_less_numeral)

lemma utf8_bytes_byte: "n \<in> set (utf8_bytes c) \<Longrightarrow> n < 256"
proof -
  have "(of_char c :: nat) div 64 < 4"
    using of_char_lt_256 [of c] by (intro less_mult_imp_div_less) simp
  then show "n \<in> set (utf8_bytes c) \<Longrightarrow> n < 256"
    by (auto simp: utf8_bytes_def Let_def split: if_splits)
qed

lemma char_div_mod_eq:
  "(of_char c :: nat) div 64 = of_char d div 64 \<Longrightarrow> (of_char c :: nat) mod 64 = of_char d mod 64 \<Longrightarrow> c = d"
  by (metis char_of_char div_mult_mod_eq)

lemma concat_hex_inj:
  "\<forall>n \<in> set xs. n < 256 \<Longrightarrow> \<forall>n \<in> set ys. n < 256 \<Longrightarrow>
     concat (map hex_byte xs) = concat (map hex_byte ys) \<Longrightarrow> xs = ys"
proof (induction xs arbitrary: ys)
  case Nil
  then show ?case by (cases ys) (auto simp: hex_byte_def)
next
  case (Cons x xs)
  then obtain y ys' where ys: "ys = y # ys'" by (cases ys) (auto simp: hex_byte_def)
  have "hex_byte x @ concat (map hex_byte xs) = hex_byte y @ concat (map hex_byte ys')"
    using Cons.prems ys by simp
  then have "hex_byte x = hex_byte y" "concat (map hex_byte xs) = concat (map hex_byte ys')"
    by (simp_all add: hex_byte_def [of x] hex_byte_def [of y])
  with Cons ys show ?case by (auto intro: hex_byte_inj)
qed

lemma utf8_bytes_cons_inj:
  assumes "utf8_bytes c @ xs = utf8_bytes d @ ys"
  shows "c = d \<and> xs = ys"
  using assms of_char_lt_256 [of c] of_char_lt_256 [of d]
  by (auto simp: utf8_bytes_def Let_def split: if_splits intro: char_div_mod_eq)

lemma concat_utf8_inj: "concat (map utf8_bytes s) = concat (map utf8_bytes t) \<Longrightarrow> s = t"
proof (induction s arbitrary: t)
  case Nil
  then show ?case by (cases t) (auto simp: utf8_bytes_def Let_def split: if_splits)
next
  case (Cons c s)
  then obtain d t' where t: "t = d # t'" by (cases t) (auto simp: utf8_bytes_def Let_def split: if_splits)
  with Cons.prems have "utf8_bytes c @ concat (map utf8_bytes s) = utf8_bytes d @ concat (map utf8_bytes t')"
    by simp
  then have "c = d" "concat (map utf8_bytes s) = concat (map utf8_bytes t')"
    using utf8_bytes_cons_inj by blast+
  with Cons.IH t show ?case by simp
qed

lemma hex_of_string_inj: "hex_of_string s = hex_of_string t \<Longrightarrow> s = t"
  unfolding hex_of_string_def
  by (rule concat_utf8_inj, rule concat_hex_inj) (auto dest: utf8_bytes_byte)

lemma hex_byte_no_dot:
  assumes "n < 256"
  shows "CHR ''.'' \<notin> set (hex_byte n)"
proof -
  from assms have "n div 16 < 16" "n mod 16 < 16" by (simp_all add: less_mult_imp_div_less)
  then have "hex_digit (n div 16) \<noteq> CHR ''.''" "hex_digit (n mod 16) \<noteq> CHR ''.''"
    by (simp_all add: hex_digit_no_dot)
  then show ?thesis by (simp add: hex_byte_def eq_commute)
qed

lemma hex_of_string_no_dot: "CHR ''.'' \<notin> set (hex_of_string s)"
  using hex_byte_no_dot utf8_bytes_byte by (fastforce simp: hex_of_string_def)

text \<open>
  A session token carries the mark of at most one application, whatever characters the
  application ids contain, so ending one application's handoff sessions by prefix ends no
  other's; and every marked token is recognised as a handoff session.
\<close>

lemma sso_mark_identifies_application:
  assumes "starts_with t (ssoSessionTokenPrefix a)"
  shows "isSsoHandoffSession (Some (s\<lparr>sess_token := Some t\<rparr>)) \<and>
    {b. starts_with t (ssoSessionTokenPrefix b)} = {a}"
proof
  from assms show "isSsoHandoffSession (Some (s\<lparr>sess_token := Some t\<rparr>))"
    by (auto simp: isSsoHandoffSession_def ssoSessionTokenPrefix_def prefix_def)
  have eq: "a = b" if b: "starts_with t (ssoSessionTokenPrefix b)" for b
  proof -
    from assms b obtain x y where
      "hex_of_string a @ CHR ''.'' # x = hex_of_string b @ CHR ''.'' # y"
      by (auto simp: ssoSessionTokenPrefix_def prefix_def SSO_SESSION_TOKEN_PREFIX_def)
    then have "takeWhile (\<lambda>c. c \<noteq> CHR ''.'') (hex_of_string a @ CHR ''.'' # x) =
        takeWhile (\<lambda>c. c \<noteq> CHR ''.'') (hex_of_string b @ CHR ''.'' # y)" by simp
    then have "hex_of_string a = hex_of_string b"
      using hex_of_string_no_dot by (subst (asm) (1 2) takeWhile_append2) auto
    then show ?thesis by (rule hex_of_string_inj)
  qed
  show "{b. starts_with t (ssoSessionTokenPrefix b)} = {a}"
    using assms by (intro set_eqI iffI) (simp_all add: eq [symmetric])
qed

lemma sso_mark_identifies_application_witness:
  "isSsoHandoffSession (Some (\<lparr>sess_createdAt = NoDate, sess_token = None, sess_impersonatedBy = None,
      sess_impersonated_by = None\<rparr>\<lparr>sess_token := Some ''sso.61.xyz''\<rparr>)) \<and>
    {b. starts_with ''sso.61.xyz'' (ssoSessionTokenPrefix b)} = {''a''}"
proof (rule sso_mark_identifies_application)
  show "starts_with ''sso.61.xyz'' (ssoSessionTokenPrefix ''a'')" by code_simp
qed

end
