(* ===== verification/AccessScope.thy ===== *)
theory AccessScope
  imports Tables Permissions SessionLifetime
begin

text \<open>
  The tenant boundary (\<open>src/lib/admin/access-scope.server.ts\<close>): who is a superadmin, how far a
  caller reaches, who may receive a grant, and the last-superadmin rule. The access context is
  the one of \<open>src/lib/auth-status.ts\<close>, which resolves it (theory \<open>AuthStatus\<close>). Statements
  are read as selections over the tables; a join against a table with a primary key is an
  existence test.
\<close>

record access_context =
  ac_appUserId :: "uuid option"
  ac_primaryEmail :: "string option"
  ac_status :: app_user_status
  ac_organizationId :: "uuid option"
  ac_membershipStatus :: "membership_status option"
  ac_preferredLocale :: string
  ac_permissions :: "string list"
  ac_orgBound :: "bool option"

definition isSuperadmin :: "access_context \<Rightarrow> bool" where
  "isSuperadmin access \<longleftrightarrow> SUPERADMIN_PERMISSION \<in> set (ac_permissions access)"

definition isOrgBound :: "access_context \<Rightarrow> bool" where
  "isOrgBound access \<longleftrightarrow> ac_orgBound access = Some True"

definition hasCrossOrgReach :: "access_context \<Rightarrow> bool" where
  "hasCrossOrgReach access \<longleftrightarrow> isSuperadmin access \<and> \<not> isOrgBound access"

definition ownerOutranksActor :: "bool \<Rightarrow> access_context \<Rightarrow> string list option \<Rightarrow> bool" where
  "ownerOutranksActor ownerIsSuperadmin actorAccess actorGrantedScopes \<longleftrightarrow>
     ownerIsSuperadmin \<and> \<not> (isSuperadmin actorAccess \<and> actorGrantedScopes = None)"

datatype org_scope = AllOrgs | OneOrg uuid

definition resolveOrgScope :: "access_context \<Rightarrow> org_scope option" where
  "resolveOrgScope access =
     (if hasCrossOrgReach access then Some AllOrgs
      else if \<not> truthy (ac_organizationId access) then None
      else map_option OneOrg (ac_organizationId access))"

definition scopeOrganizationId :: "org_scope option \<Rightarrow> uuid option" where
  "scopeOrganizationId scope = (case scope of Some (OneOrg oid) \<Rightarrow> Some oid | _ \<Rightarrow> None)"

definition actingOrganizationId :: "access_context \<Rightarrow> uuid option" where
  "actingOrganizationId access = scopeOrganizationId (resolveOrgScope access)"

definition canAccessOrg :: "access_context \<Rightarrow> uuid option \<Rightarrow> bool" where
  "canAccessOrg access resourceOrgId =
     (if hasCrossOrgReach access then True
      else if \<not> truthy (ac_organizationId access) then False
      else resourceOrgId \<noteq> None \<and> resourceOrgId = ac_organizationId access)"

definition userHasMembershipInOrg :: "db \<Rightarrow> uuid \<Rightarrow> uuid \<Rightarrow> bool" where
  "userHasMembershipInOrg d uid oid \<longleftrightarrow>
     (\<exists>m \<in> set (app_organization_memberships d).
        mb_app_user_id m = uid \<and> mb_organization_id m = oid)"

definition grantEligibleUserIds :: "db \<Rightarrow> uuid \<Rightarrow> uuid list \<Rightarrow> uuid list" where
  "grantEligibleUserIds d oid uids =
     (if uids = [] then []
      else map mb_app_user_id
             (filter (\<lambda>m. mb_organization_id m = oid \<and>
                          mb_status m = GRANT_ELIGIBLE_MEMBERSHIP_STATUS \<and>
                          mb_app_user_id m \<in> set uids)
                (app_organization_memberships d)))"

definition userIsGrantEligible :: "db \<Rightarrow> uuid \<Rightarrow> uuid \<Rightarrow> bool" where
  "userIsGrantEligible d uid oid = (length (grantEligibleUserIds d oid [uid]) > 0)"

definition canAccessUser :: "db \<Rightarrow> access_context \<Rightarrow> uuid \<Rightarrow> bool" where
  "canAccessUser d access uid =
     (if hasCrossOrgReach access then True
      else (case ac_organizationId access of
              None \<Rightarrow> False
            | Some oid \<Rightarrow> if oid = [] then False else userHasMembershipInOrg d uid oid))"

definition userHasMembershipOutsideOrg :: "db \<Rightarrow> uuid \<Rightarrow> uuid \<Rightarrow> bool" where
  "userHasMembershipOutsideOrg d uid oid \<longleftrightarrow>
     (\<exists>m \<in> set (app_organization_memberships d).
        mb_app_user_id m = uid \<and> mb_organization_id m \<noteq> oid)"

definition requiresSuperadminForSharedTarget :: "db \<Rightarrow> org_scope \<Rightarrow> uuid \<Rightarrow> bool" where
  "requiresSuperadminForSharedTarget d scope uid =
     (case scope of AllOrgs \<Rightarrow> False | OneOrg oid \<Rightarrow> userHasMembershipOutsideOrg d uid oid)"

subsection \<open>Superuser authority and rank\<close>

definition org_is_active :: "db \<Rightarrow> uuid \<Rightarrow> bool" where
  "org_is_active d oid \<longleftrightarrow>
     (\<exists>o' \<in> set (app_organizations d). org_id o' = oid \<and> org_status o' = ACTIVE_ORGANIZATION_STATUS)"

definition has_active_membership :: "db \<Rightarrow> uuid \<Rightarrow> uuid \<Rightarrow> bool" where
  "has_active_membership d uid oid \<longleftrightarrow>
     (\<exists>m \<in> set (app_organization_memberships d).
        mb_app_user_id m = uid \<and> mb_organization_id m = oid \<and> mb_status m = ''active'')"

text \<open>The join \<open>app_role_permissions\<close> to \<open>app_permissions\<close> on a permission key.\<close>

definition role_carries :: "db \<Rightarrow> uuid \<Rightarrow> string \<Rightarrow> bool" where
  "role_carries d rid key \<longleftrightarrow>
     (\<exists>rp \<in> set (app_role_permissions d). rp_role_id rp = rid \<and>
        (\<exists>p \<in> set (app_permissions d). perm_id p = rp_permission_id rp \<and> perm_key p = key))"

definition userIsGlobalSuperuser :: "db \<Rightarrow> uuid \<Rightarrow> bool" where
  "userIsGlobalSuperuser d uid \<longleftrightarrow>
     (\<exists>ur \<in> set (app_user_roles d).
        ur_app_user_id ur = uid \<and>
        has_active_membership d (ur_app_user_id ur) (ur_organization_id ur) \<and>
        org_is_active d (ur_organization_id ur) \<and>
        role_carries d (ur_role_id ur) SUPERADMIN_PERMISSION)"

definition userHoldsSuperuserGrant :: "db \<Rightarrow> uuid \<Rightarrow> bool" where
  "userHoldsSuperuserGrant d uid \<longleftrightarrow>
     (\<exists>ur \<in> set (app_user_roles d).
        ur_app_user_id ur = uid \<and>
        has_active_membership d (ur_app_user_id ur) (ur_organization_id ur) \<and>
        role_carries d (ur_role_id ur) SUPERADMIN_PERMISSION)"

definition betterAuthUserIsGlobalSuperuser :: "db \<Rightarrow> uuid \<Rightarrow> bool" where
  "betterAuthUserIsGlobalSuperuser d baid \<longleftrightarrow>
     (\<exists>ur \<in> set (app_user_roles d).
        (\<exists>u \<in> set (app_users d). au_id u = ur_app_user_id ur \<and>
           au_better_auth_user_id u = baid \<and> au_status u = ''active'') \<and>
        has_active_membership d (ur_app_user_id ur) (ur_organization_id ur) \<and>
        org_is_active d (ur_organization_id ur) \<and>
        role_carries d (ur_role_id ur) SUPERADMIN_PERMISSION)"

subsection \<open>The last superadmin\<close>

record superuser_grant =
  sg_app_user_id :: uuid
  sg_organization_id :: uuid
  sg_role_id :: uuid

record superuser_grant_removal =
  rm_assignments :: "superuser_grant list"
  rm_role_ids :: "uuid list"
  rm_memberships :: "(uuid \<times> uuid) list"
  rm_organization_ids :: "uuid list"
  rm_app_user_ids :: "uuid list"

definition no_removal :: superuser_grant_removal where
  "no_removal = \<lparr>rm_assignments = [], rm_role_ids = [], rm_memberships = [],
                 rm_organization_ids = [], rm_app_user_ids = []\<rparr>"

definition grantIsRemoved :: "superuser_grant \<Rightarrow> superuser_grant_removal \<Rightarrow> bool" where
  "grantIsRemoved grant removal =
     (if sg_role_id grant \<in> set (rm_role_ids removal) then True
      else if sg_organization_id grant \<in> set (rm_organization_ids removal) then True
      else if sg_app_user_id grant \<in> set (rm_app_user_ids removal) then True
      else if (\<exists>a \<in> set (rm_assignments removal).
                 sg_app_user_id a = sg_app_user_id grant \<and>
                 sg_organization_id a = sg_organization_id grant \<and>
                 sg_role_id a = sg_role_id grant) then True
      else (\<exists>m \<in> set (rm_memberships removal).
              fst m = sg_app_user_id grant \<and> snd m = sg_organization_id grant))"

definition stripsLastGlobalSuperuser ::
    "superuser_grant list \<Rightarrow> superuser_grant_removal \<Rightarrow> bool" where
  "stripsLastGlobalSuperuser grants removal =
     (if grants = [] then False else \<forall>g \<in> set grants. grantIsRemoved g removal)"

text \<open>
  The ban condition of the grant query: \<open>user.banned is not true\<close>, or an expiry that has
  passed (a comparison with a null expiry is not true), or the account whose ban is to be
  disregarded.
\<close>

definition sql_can_sign_in :: "millis \<Rightarrow> uuid option \<Rightarrow> auth_user_row \<Rightarrow> bool" where
  "sql_can_sign_in now disregardBanOf u \<longleftrightarrow>
     bu_banned u \<noteq> Some True \<or>
     (case bu_ban_expires u of None \<Rightarrow> False | Some e \<Rightarrow> e \<le> now) \<or>
     disregardBanOf = Some (bu_id u)"

definition account_can_sign_in :: "db \<Rightarrow> millis \<Rightarrow> uuid option \<Rightarrow> uuid \<Rightarrow> bool" where
  "account_can_sign_in d now disregardBanOf uid \<longleftrightarrow>
     (\<exists>u \<in> set (app_users d). au_id u = uid \<and> au_status u = ''active'' \<and>
        (\<exists>b \<in> set (auth_users d). bu_id b = au_better_auth_user_id u \<and>
           sql_can_sign_in now disregardBanOf b))"

definition activeGlobalSuperuserGrants ::
    "db \<Rightarrow> millis \<Rightarrow> uuid option \<Rightarrow> superuser_grant list" where
  "activeGlobalSuperuserGrants d now disregardBanOf =
     map (\<lambda>ur. \<lparr>sg_app_user_id = ur_app_user_id ur,
                sg_organization_id = ur_organization_id ur, sg_role_id = ur_role_id ur\<rparr>)
       (filter (\<lambda>ur.
          has_active_membership d (ur_app_user_id ur) (ur_organization_id ur) \<and>
          org_is_active d (ur_organization_id ur) \<and>
          account_can_sign_in d now disregardBanOf (ur_app_user_id ur) \<and>
          role_carries d (ur_role_id ur) SUPERADMIN_PERMISSION)
        (app_user_roles d))"

definition wouldStripLastGlobalSuperuser ::
    "superuser_grant_removal \<Rightarrow> db \<Rightarrow> millis \<Rightarrow> bool" where
  "wouldStripLastGlobalSuperuser removal d now =
     stripsLastGlobalSuperuser (activeGlobalSuperuserGrants d now None) removal"

definition membershipCascadeStripsLastGlobalSuperuser ::
    "uuid \<Rightarrow> db \<Rightarrow> millis \<Rightarrow> uuid option \<Rightarrow> bool" where
  "membershipCascadeStripsLastGlobalSuperuser uid d now oid =
     (let rows = filter (\<lambda>m. mb_app_user_id m = uid \<and>
                             (case oid of None \<Rightarrow> True | Some x \<Rightarrow> mb_organization_id m = x))
                   (app_organization_memberships d)
      in wouldStripLastGlobalSuperuser
           (no_removal\<lparr>rm_memberships := map (\<lambda>m. (uid, mb_organization_id m)) rows\<rparr>) d now)"

definition banStripsLastGlobalSuperuser :: "uuid \<Rightarrow> uuid \<Rightarrow> db \<Rightarrow> millis \<Rightarrow> bool" where
  "banStripsLastGlobalSuperuser uid baid d now =
     stripsLastGlobalSuperuser (activeGlobalSuperuserGrants d now (Some baid))
       (no_removal\<lparr>rm_app_user_ids := [uid]\<rparr>)"

subsection \<open>Reach\<close>

lemma resolveOrgScope_bound:
  "isOrgBound access \<Longrightarrow> resolveOrgScope access \<noteq> Some AllOrgs"
  by (auto simp: resolveOrgScope_def hasCrossOrgReach_def)

lemma resolveOrgScope_OneOrg:
  "resolveOrgScope access = Some (OneOrg oid) \<Longrightarrow> ac_organizationId access = Some oid \<and> oid \<noteq> []"
  by (auto simp: resolveOrgScope_def split: if_splits)

text \<open>The resource check and the scope say the same thing.\<close>

lemma canAccessOrg_scope:
  "canAccessOrg access res \<longleftrightarrow>
     (case resolveOrgScope access of
        None \<Rightarrow> False
      | Some AllOrgs \<Rightarrow> True
      | Some (OneOrg oid) \<Rightarrow> res = Some oid)"
  by (cases "ac_organizationId access") (auto simp: canAccessOrg_def resolveOrgScope_def)

lemma canAccessUser_scope:
  "canAccessUser d access uid \<longleftrightarrow>
     (case resolveOrgScope access of
        None \<Rightarrow> False
      | Some AllOrgs \<Rightarrow> True
      | Some (OneOrg oid) \<Rightarrow> userHasMembershipInOrg d uid oid)"
  by (cases "ac_organizationId access") (auto simp: canAccessUser_def resolveOrgScope_def)

lemma userIsGrantEligible_iff: "userIsGrantEligible d uid oid \<longleftrightarrow> has_active_membership d uid oid"
  by (auto simp: userIsGrantEligible_def grantEligibleUserIds_def has_active_membership_def
      GRANT_ELIGIBLE_MEMBERSHIP_STATUS_def filter_empty_conv)

lemma authority_implies_rank: "userIsGlobalSuperuser d uid \<Longrightarrow> userHoldsSuperuserGrant d uid"
  by (auto simp: userIsGlobalSuperuser_def userHoldsSuperuserGrant_def)

subsection \<open>The grant set\<close>

lemma grants_mem:
  "g \<in> set (activeGlobalSuperuserGrants d now x) \<longleftrightarrow>
     (\<exists>ur \<in> set (app_user_roles d).
        sg_app_user_id g = ur_app_user_id ur \<and> sg_organization_id g = ur_organization_id ur \<and>
        sg_role_id g = ur_role_id ur \<and>
        has_active_membership d (ur_app_user_id ur) (ur_organization_id ur) \<and>
        org_is_active d (ur_organization_id ur) \<and>
        account_can_sign_in d now x (ur_app_user_id ur) \<and>
        role_carries d (ur_role_id ur) SUPERADMIN_PERMISSION)"
  by (auto simp: activeGlobalSuperuserGrants_def image_iff)

text \<open>
  A surviving grant is a principal the platform's own superuser test accepts, who can sign in.
\<close>

lemma grants_ne_iff:
  "activeGlobalSuperuserGrants d now x \<noteq> [] \<longleftrightarrow>
     (\<exists>uid. userIsGlobalSuperuser d uid \<and> account_can_sign_in d now x uid)"
  by (auto simp: activeGlobalSuperuserGrants_def userIsGlobalSuperuser_def filter_empty_conv)

lemma strips_False_survivor:
  "\<not> stripsLastGlobalSuperuser gs r \<longleftrightarrow> gs = [] \<or> (\<exists>g \<in> set gs. \<not> grantIsRemoved g r)"
  by (auto simp: stripsLastGlobalSuperuser_def)

end
