(* ===== verification/AuthStatus.thy ===== *)
theory AuthStatus
  imports AccessScope
begin

text \<open>
  The access context of a request (\<open>src/lib/auth-status.ts\<close>), with the organization cookie
  (\<open>src/lib/active-org.server.ts\<close>) and the reach of an impersonator
  (\<open>src/lib/impersonation-reach.server.ts\<close>) it consults. The request supplies the raw cookie
  and the time; \<open>cache()\<close> memoizes one request and changes no value.
\<close>

subsection \<open>Statuses\<close>

definition toUserStatus :: "string \<Rightarrow> app_user_status" where
  "toUserStatus v =
     (if v = ''active'' then USActive
      else if v = ''pending_approval'' then USPendingApproval
      else if v = ''blocked'' then USBlocked
      else if v = ''suspended'' then USSuspended
      else USDeactivated)"

definition toMembershipStatus :: "string \<Rightarrow> membership_status" where
  "toMembershipStatus v =
     (if v = ''active'' then MSActive
      else if v = ''pending_approval'' then MSPendingApproval
      else if v = ''blocked'' then MSBlocked
      else MSSuspended)"

datatype access_decision = Allow | PendingApproval | Blocked

definition decideSecureAccess ::
    "app_user_status \<Rightarrow> membership_status option \<Rightarrow> access_decision" where
  "decideSecureAccess status membership =
     (if status \<in> {USBlocked, USSuspended, USDeactivated} then Blocked
      else if status = USPendingApproval then PendingApproval
      else if membership = None then PendingApproval
      else if membership = Some MSPendingApproval then PendingApproval
      else if membership = Some MSBlocked \<or> membership = Some MSSuspended then Blocked
      else if status = USActive \<and> membership = Some MSActive then Allow
      else PendingApproval)"

subsection \<open>The organization cookie\<close>

text \<open>The UUID pattern, case-insensitive; the \<open>uuid\<close> column type folds case when it compares.\<close>

definition isUuid :: "string \<Rightarrow> bool" where
  "isUuid v =
     (length v = 36 \<and>
      (\<forall>i < length v. if i \<in> {8, 13, 18, 23} then v ! i = CHR ''-'' else is_hex_digit (v ! i)))"

definition pg_uuid :: "string \<Rightarrow> uuid" where
  "pg_uuid v = map ascii_lower v"

definition readActiveOrgId :: "string option \<Rightarrow> string option" where
  "readActiveOrgId cookie =
     (case map_option trim cookie of
        None \<Rightarrow> None
      | Some v \<Rightarrow> if v \<noteq> [] \<and> isUuid v then Some v else None)"

definition userHasActiveMembership :: "db \<Rightarrow> uuid \<Rightarrow> uuid \<Rightarrow> bool" where
  "userHasActiveMembership d uid oid \<longleftrightarrow>
     (\<exists>m \<in> set (app_organization_memberships d).
        mb_app_user_id m = uid \<and> mb_organization_id m = oid \<and> mb_status m = ''active'' \<and>
        org_is_active d (mb_organization_id m))"

definition listActiveOrganizationIdsForBetterAuthUser :: "db \<Rightarrow> uuid \<Rightarrow> uuid list" where
  "listActiveOrganizationIdsForBetterAuthUser d baid =
     js_uniq (map mb_organization_id
       (filter (\<lambda>m.
          (\<exists>u \<in> set (app_users d). au_id u = mb_app_user_id m \<and>
             au_better_auth_user_id u = baid \<and> au_status u = ''active'') \<and>
          mb_status m = ''active'' \<and> org_is_active d (mb_organization_id m))
        (app_organization_memberships d)))"

subsection \<open>The reach of an impersonator\<close>

definition bannable_of :: "auth_user_row \<Rightarrow> bannable_user" where
  "bannable_of b =
     \<lparr>usr_banned = bu_banned b,
      usr_banExpires = (case bu_ban_expires b of None \<Rightarrow> NoDate | Some e \<Rightarrow> DateMs e)\<rparr>"

definition isBetterAuthUserBanned :: "db \<Rightarrow> millis \<Rightarrow> uuid \<Rightarrow> bool" where
  "isBetterAuthUserBanned d now baid =
     (case List.find (\<lambda>b. bu_id b = baid) (auth_users d) of
        None \<Rightarrow> False
      | Some b \<Rightarrow> isBanActive (bannable_of b) now)"

text \<open>\<open>None\<close> is the code's \<open>null\<close> (unconfined); the empty list reaches nothing.\<close>

definition listImpersonationReachableOrgIds :: "db \<Rightarrow> millis \<Rightarrow> uuid \<Rightarrow> uuid list option" where
  "listImpersonationReachableOrgIds d now baid =
     (if isBetterAuthUserBanned d now baid then Some []
      else if betterAuthUserIsGlobalSuperuser d baid then None
      else Some (listActiveOrganizationIdsForBetterAuthUser d baid))"

subsection \<open>Which membership a request acts in\<close>

record bound_org =
  bo_organization_id :: "uuid option"

definition countingMemberships :: "db \<Rightarrow> uuid \<Rightarrow> membership_row list" where
  "countingMemberships d uid =
     filter (\<lambda>m. mb_app_user_id m = uid \<and> org_is_active d (mb_organization_id m))
       (app_organization_memberships d)"

definition boundMembership :: "db \<Rightarrow> uuid \<Rightarrow> bound_org \<Rightarrow> membership_row option" where
  "boundMembership d uid bo =
     (if truthy (bo_organization_id bo)
      then List.find (\<lambda>m. Some (mb_organization_id m) = bo_organization_id bo)
             (countingMemberships d uid)
      else first_by (\<lambda>m. (mb_created_at m, mb_id m)) (countingMemberships d uid))"

text \<open>
  The ranking of the session path: an active membership first, then the organization the
  cookie names, then the earliest. \<open>order by ... desc\<close> on a boolean puts the true rows first.
\<close>

definition membership_rank ::
    "string option \<Rightarrow> membership_row \<Rightarrow> bool \<times> bool \<times> millis \<times> uuid" where
  "membership_rank activeOrgId m =
     (mb_status m \<noteq> ''active'',
      (case activeOrgId of None \<Rightarrow> False | Some a \<Rightarrow> mb_organization_id m \<noteq> pg_uuid a),
      mb_created_at m, mb_id m)"

definition sessionMembership ::
    "db \<Rightarrow> millis \<Rightarrow> string option \<Rightarrow> uuid \<Rightarrow> uuid option \<Rightarrow> membership_row option" where
  "sessionMembership d now cookie uid impersonatedBy =
     (let confinedOrgIds =
            (case impersonatedBy of
               None \<Rightarrow> None
             | Some baid \<Rightarrow> listImpersonationReachableOrgIds d now baid)
      in if confinedOrgIds = Some [] then None
         else
           (let candidates =
                  (case confinedOrgIds of
                     None \<Rightarrow> countingMemberships d uid
                   | Some ids \<Rightarrow>
                       filter (\<lambda>m. mb_organization_id m \<in> set ids) (countingMemberships d uid));
                activeOrgId = readActiveOrgId cookie
            in first_by (membership_rank activeOrgId) candidates))"

subsection \<open>Its permissions\<close>

text \<open>The permission keys a role carries, one per matching pair of rows.\<close>

definition role_keys :: "db \<Rightarrow> uuid \<Rightarrow> string list" where
  "role_keys d rid =
     concat (map (\<lambda>rp. if rp_role_id rp = rid
                       then map perm_key (filter (\<lambda>p. perm_id p = rp_permission_id rp) (app_permissions d))
                       else [])
              (app_role_permissions d))"

definition directPerms :: "db \<Rightarrow> uuid \<Rightarrow> uuid \<Rightarrow> string list" where
  "directPerms d uid oid =
     concat (map (\<lambda>ur. role_keys d (ur_role_id ur))
       (filter (\<lambda>ur. ur_app_user_id ur = uid \<and> ur_organization_id ur = oid) (app_user_roles d)))"

definition groupPerms :: "db \<Rightarrow> uuid \<Rightarrow> uuid \<Rightarrow> string list" where
  "groupPerms d uid oid =
     concat (map (\<lambda>gm.
         concat (map (\<lambda>gr. role_keys d (gr_role_id gr))
           (filter (\<lambda>gr. gr_group_id gr = gm_group_id gm \<and>
              (\<exists>g \<in> set (app_groups d). grp_id g = gm_group_id gm \<and> grp_organization_id g = oid))
            (app_group_roles d))))
       (filter (\<lambda>gm. gm_app_user_id gm = uid) (app_group_memberships d)))"

definition membershipPermissions :: "db \<Rightarrow> uuid \<Rightarrow> uuid \<Rightarrow> string list" where
  "membershipPermissions d uid oid = js_uniq (directPerms d uid oid @ groupPerms d uid oid)"

definition withBaseline ::
    "app_user_status \<Rightarrow> membership_status option \<Rightarrow> string list \<Rightarrow> string list" where
  "withBaseline appStatus memberStatus ps =
     (if decideSecureAccess appStatus memberStatus = Allow \<and> SHELL_BASELINE_PERMISSION \<notin> set ps
      then ps @ [SHELL_BASELINE_PERMISSION] else ps)"

definition getUserAccessContext ::
    "db \<Rightarrow> millis \<Rightarrow> string option \<Rightarrow> uuid \<Rightarrow> bound_org option \<Rightarrow> uuid option \<Rightarrow> access_context" where
  "getUserAccessContext d now cookie baid boundOrg impersonatedBy =
     (case List.find (\<lambda>u. au_better_auth_user_id u = baid) (app_users d) of
        None \<Rightarrow>
          \<lparr>ac_appUserId = None, ac_primaryEmail = None, ac_status = USPendingApproval,
           ac_organizationId = None, ac_membershipStatus = None, ac_preferredLocale = ''en'',
           ac_permissions = [], ac_orgBound = Some (boundOrg \<noteq> None)\<rparr>
      | Some user \<Rightarrow>
          (let membership =
                 (case boundOrg of
                    Some bo \<Rightarrow> boundMembership d (au_id user) bo
                  | None \<Rightarrow> sessionMembership d now cookie (au_id user) impersonatedBy);
               appStatus = toUserStatus (au_status user);
               memberStatus = map_option (\<lambda>m. toMembershipStatus (mb_status m)) membership;
               permissions0 =
                 (case membership of
                    None \<Rightarrow> []
                  | Some m \<Rightarrow> membershipPermissions d (au_id user) (mb_organization_id m));
               permissions1 = withBaseline appStatus memberStatus permissions0;
               holdsSuperuserMarker = SUPERADMIN_PERMISSION \<in> set permissions1;
               permissions2 =
                 (if membership \<noteq> None \<and>
                     (holdsSuperuserMarker \<or> userIsGlobalSuperuser d (au_id user))
                  then js_uniq (permissions1 @ SUPERUSER_PERMISSIONS) else permissions1)
           in \<lparr>ac_appUserId = Some (au_id user), ac_primaryEmail = Some (au_primary_email user),
               ac_status = appStatus, ac_organizationId = map_option mb_organization_id membership,
               ac_membershipStatus = memberStatus, ac_preferredLocale = au_preferred_locale user,
               ac_permissions = permissions2, ac_orgBound = Some (boundOrg \<noteq> None)\<rparr>))"

subsection \<open>Statuses, proved\<close>

lemma toUserStatus_text [simp]: "toUserStatus (user_status_text s) = s"
  by (cases s) (simp_all add: toUserStatus_def)

lemma toMembershipStatus_text [simp]: "toMembershipStatus (membership_status_text s) = s"
  by (cases s) (simp_all add: toMembershipStatus_def)

lemma toUserStatus_active [simp]: "toUserStatus v = USActive \<longleftrightarrow> v = ''active''"
  by (simp add: toUserStatus_def)

lemma toMembershipStatus_active [simp]: "toMembershipStatus v = MSActive \<longleftrightarrow> v = ''active''"
  by (simp add: toMembershipStatus_def)

lemma decideSecureAccess_Allow:
  "decideSecureAccess s m = Allow \<longleftrightarrow> s = USActive \<and> m = Some MSActive"
proof (cases m)
  case None
  then show ?thesis by (cases s) (simp_all add: decideSecureAccess_def)
next
  case (Some x)
  then show ?thesis by (cases s; cases x) (simp_all add: decideSecureAccess_def)
qed

subsection \<open>Selection, proved\<close>

lemma countingMemberships_mem:
  "m \<in> set (countingMemberships d uid) \<longleftrightarrow>
     m \<in> set (app_organization_memberships d) \<and> mb_app_user_id m = uid \<and>
     org_is_active d (mb_organization_id m)"
  by (auto simp: countingMemberships_def)

lemma boundMembership_mem:
  "boundMembership d uid bo = Some m \<Longrightarrow> m \<in> set (countingMemberships d uid)"
  by (auto simp: boundMembership_def dest: find_Some_iff_set first_by_Some_in split: if_splits)

lemma boundMembership_org:
  "boundMembership d uid bo = Some m \<Longrightarrow> bo_organization_id bo = Some oid \<Longrightarrow> oid \<noteq> [] \<Longrightarrow>
     mb_organization_id m = oid"
  by (auto simp: boundMembership_def dest: find_Some_iff_set)

lemma sessionMembership_cases:
  assumes "sessionMembership d now cookie uid imp = Some m"
  shows "m \<in> set (countingMemberships d uid)"
    and "imp = Some baid \<Longrightarrow> listImpersonationReachableOrgIds d now baid = Some ids \<Longrightarrow>
           mb_organization_id m \<in> set ids"
  using assms
  by (auto simp: sessionMembership_def Let_def dest!: first_by_Some_in split: option.splits if_splits)

text \<open>The candidates the session path ranks.\<close>

definition sessionCandidates ::
    "db \<Rightarrow> millis \<Rightarrow> uuid \<Rightarrow> uuid option \<Rightarrow> membership_row list" where
  "sessionCandidates d now uid imp =
     (case imp of
        None \<Rightarrow> countingMemberships d uid
      | Some baid \<Rightarrow>
          (case listImpersonationReachableOrgIds d now baid of
             None \<Rightarrow> countingMemberships d uid
           | Some ids \<Rightarrow> filter (\<lambda>m. mb_organization_id m \<in> set ids) (countingMemberships d uid)))"

lemma sessionMembership_first_by:
  "sessionMembership d now cookie uid imp =
     first_by (membership_rank (readActiveOrgId cookie)) (sessionCandidates d now uid imp)"
  by (auto simp: sessionMembership_def sessionCandidates_def Let_def split: option.splits)

lemma rank_active_first:
  "membership_rank a m \<le> membership_rank a m' \<Longrightarrow> mb_status m' = ''active'' \<Longrightarrow> mb_status m = ''active''"
  by (auto simp: membership_rank_def less_eq_prod_def)

lemma sessionMembership_active:
  assumes "m' \<in> set (sessionCandidates d now uid imp)" "mb_status m' = ''active''"
  shows "\<exists>m. sessionMembership d now cookie uid imp = Some m \<and> mb_status m = ''active''"
proof -
  obtain m where m: "sessionMembership d now cookie uid imp = Some m"
    using first_by_ex [OF assms(1)] by (auto simp: sessionMembership_first_by)
  with assms have "membership_rank (readActiveOrgId cookie) m \<le> membership_rank (readActiveOrgId cookie) m'"
    by (auto simp: sessionMembership_first_by intro: first_by_least)
  with m assms(2) rank_active_first show ?thesis by blast
qed

subsection \<open>The context, proved\<close>

text \<open>The membership a context was resolved against.\<close>

definition resolvedMembership ::
    "db \<Rightarrow> millis \<Rightarrow> string option \<Rightarrow> uuid \<Rightarrow> bound_org option \<Rightarrow> uuid option \<Rightarrow> membership_row option" where
  "resolvedMembership d now cookie uid boundOrg imp =
     (case boundOrg of
        Some bo \<Rightarrow> boundMembership d uid bo
      | None \<Rightarrow> sessionMembership d now cookie uid imp)"

lemma context_unprovisioned:
  assumes "List.find (\<lambda>u. au_better_auth_user_id u = baid) (app_users d) = None"
  shows "ac_organizationId (getUserAccessContext d now cookie baid bo imp) = None"
    and "ac_permissions (getUserAccessContext d now cookie baid bo imp) = []"
    and "ac_status (getUserAccessContext d now cookie baid bo imp) = USPendingApproval"
    and "ac_membershipStatus (getUserAccessContext d now cookie baid bo imp) = None"
    and "ac_appUserId (getUserAccessContext d now cookie baid bo imp) = None"
  using assms by (simp_all add: getUserAccessContext_def)

lemma context_provisioned:
  assumes "List.find (\<lambda>u. au_better_auth_user_id u = baid) (app_users d) = Some user"
  shows "ac_organizationId (getUserAccessContext d now cookie baid bo imp) =
           map_option mb_organization_id (resolvedMembership d now cookie (au_id user) bo imp)"
    and "ac_membershipStatus (getUserAccessContext d now cookie baid bo imp) =
           map_option (\<lambda>m. toMembershipStatus (mb_status m))
             (resolvedMembership d now cookie (au_id user) bo imp)"
    and "ac_status (getUserAccessContext d now cookie baid bo imp) = toUserStatus (au_status user)"
    and "ac_appUserId (getUserAccessContext d now cookie baid bo imp) = Some (au_id user)"
  using assms by (simp_all add: getUserAccessContext_def resolvedMembership_def Let_def)

lemma context_orgBound:
  "ac_orgBound (getUserAccessContext d now cookie baid bo imp) = Some (bo \<noteq> None)"
  by (simp add: getUserAccessContext_def Let_def split: option.splits)

lemma context_permissions:
  assumes "List.find (\<lambda>u. au_better_auth_user_id u = baid) (app_users d) = Some user"
    and "resolvedMembership d now cookie (au_id user) bo imp = Some m"
  shows "set (ac_permissions (getUserAccessContext d now cookie baid bo imp)) =
      (let base = set (directPerms d (au_id user) (mb_organization_id m)) \<union>
                  set (groupPerms d (au_id user) (mb_organization_id m)) \<union>
                  (if au_status user = ''active'' \<and> mb_status m = ''active''
                   then {SHELL_BASELINE_PERMISSION} else {})
       in base \<union> (if SUPERADMIN_PERMISSION \<in> base \<or> userIsGlobalSuperuser d (au_id user)
                   then set SUPERUSER_PERMISSIONS else {}))"
  using assms
  by (auto simp: getUserAccessContext_def resolvedMembership_def Let_def withBaseline_def
      membershipPermissions_def decideSecureAccess_Allow split: option.splits)

lemma context_no_membership:
  assumes "List.find (\<lambda>u. au_better_auth_user_id u = baid) (app_users d) = Some user"
    and "resolvedMembership d now cookie (au_id user) bo imp = None"
  shows "ac_permissions (getUserAccessContext d now cookie baid bo imp) = []"
  using assms
  by (auto simp: getUserAccessContext_def resolvedMembership_def Let_def withBaseline_def
      decideSecureAccess_Allow split: option.splits)

lemma resolvedMembership_counts:
  "resolvedMembership d now cookie uid bo imp = Some m \<Longrightarrow> m \<in> set (countingMemberships d uid)"
  by (auto simp: resolvedMembership_def dest: boundMembership_mem sessionMembership_cases(1)
      split: option.splits)

text \<open>An organization in the context is the organization of a membership that counts.\<close>

lemma context_org_counts:
  assumes "ac_organizationId (getUserAccessContext d now cookie baid bo imp) = Some oid"
  shows "\<exists>user m. List.find (\<lambda>u. au_better_auth_user_id u = baid) (app_users d) = Some user \<and>
           resolvedMembership d now cookie (au_id user) bo imp = Some m \<and>
           mb_organization_id m = oid \<and> m \<in> set (countingMemberships d (au_id user))"
proof (cases "List.find (\<lambda>u. au_better_auth_user_id u = baid) (app_users d)")
  case None
  with assms show ?thesis by (simp add: context_unprovisioned)
next
  case (Some user)
  with assms obtain m where "resolvedMembership d now cookie (au_id user) bo imp = Some m"
    "mb_organization_id m = oid"
    by (auto simp: context_provisioned)
  with Some resolvedMembership_counts show ?thesis by blast
qed

text \<open>A bound context ignores the cookie and reaches its organization or nothing.\<close>

lemma bound_context_cookie:
  "getUserAccessContext d now cookie baid (Some bo) imp = getUserAccessContext d now cookie' baid (Some bo) imp"
  by (simp add: getUserAccessContext_def cong: option.case_cong)

lemma bound_context_scope:
  assumes "oid \<noteq> []"
  shows "resolveOrgScope (getUserAccessContext d now c baid (Some \<lparr>bo_organization_id = Some oid\<rparr>) imp)
      \<in> {None, Some (OneOrg oid)}"
    and "canAccessOrg (getUserAccessContext d now c baid (Some \<lparr>bo_organization_id = Some oid\<rparr>) imp) res
      \<longrightarrow> res = Some oid"
proof -
  let ?ctx = "getUserAccessContext d now c baid (Some \<lparr>bo_organization_id = Some oid\<rparr>) imp"
  have bound: "isOrgBound ?ctx" by (simp add: isOrgBound_def context_orgBound)
  have org: "ac_organizationId ?ctx = Some x \<Longrightarrow> x = oid" for x
    using assms boundMembership_org
    by (fastforce dest: context_org_counts simp: resolvedMembership_def)
  show scope: "resolveOrgScope ?ctx \<in> {None, Some (OneOrg oid)}"
  proof (cases "resolveOrgScope ?ctx")
    case (Some sc)
    with resolveOrgScope_bound [OF bound] obtain x where "sc = OneOrg x" by (cases sc) auto
    with Some org show ?thesis by (auto dest: resolveOrgScope_OneOrg)
  qed simp
  then show "canAccessOrg ?ctx res \<longrightarrow> res = Some oid" by (auto simp: canAccessOrg_scope)
qed

text \<open>An allowed context belongs to an active account with an active membership that counts.\<close>

lemma allowed_context_member:
  assumes "decideSecureAccess (ac_status ctx) (ac_membershipStatus ctx) = Allow"
    and "ctx = getUserAccessContext d now cookie baid bo imp"
  shows "\<exists>u \<in> set (app_users d). \<exists>m \<in> set (app_organization_memberships d).
    au_better_auth_user_id u = baid \<and> au_status u = ''active'' \<and>
    mb_app_user_id m = au_id u \<and> mb_status m = ''active'' \<and>
    org_is_active d (mb_organization_id m) \<and> ac_organizationId ctx = Some (mb_organization_id m)"
proof (cases "List.find (\<lambda>u. au_better_auth_user_id u = baid) (app_users d)")
  case None
  with assms show ?thesis by (simp add: context_unprovisioned decideSecureAccess_Allow)
next
  case (Some u)
  with assms obtain m where m: "resolvedMembership d now cookie (au_id u) bo imp = Some m"
    "mb_status m = ''active''" "au_status u = ''active''"
    by (auto simp: decideSecureAccess_Allow context_provisioned)
  from Some have "u \<in> set (app_users d)" "au_better_auth_user_id u = baid"
    by (auto dest: find_Some_iff_set)
  moreover from m(1) have "m \<in> set (countingMemberships d (au_id u))" by (rule resolvedMembership_counts)
  ultimately show ?thesis using m Some assms(2)
    by (auto simp: countingMemberships_mem context_provisioned)
qed

subsection \<open>Properties\<close>

text \<open>
  C6: a bearer credential bound to an organization resolves there or nowhere. Whatever the
  organization cookie says, and even for a superadmin owner, the context is the same and
  admits no resource outside the bound organization.
\<close>

theorem bound_credential_confined:
  assumes "oid \<noteq> []"
  shows "\<forall>cookie cookie'.
    (let ctx = getUserAccessContext d now cookie baid (Some \<lparr>bo_organization_id = Some oid\<rparr>) imp
     in ctx = getUserAccessContext d now cookie' baid (Some \<lparr>bo_organization_id = Some oid\<rparr>) imp \<and>
        (\<forall>res. canAccessOrg ctx res \<longrightarrow> res = Some oid) \<and>
        resolveOrgScope ctx \<in> {None, Some (OneOrg oid)})"
  using bound_context_cookie bound_context_scope [OF assms] by (simp add: Let_def)

lemma bound_credential_confined_witness:
  "\<forall>cookie cookie'.
    (let ctx = getUserAccessContext sample_db 0 cookie ''b3'' (Some \<lparr>bo_organization_id = Some ''A''\<rparr>) None
     in ctx = getUserAccessContext sample_db 0 cookie' ''b3'' (Some \<lparr>bo_organization_id = Some ''A''\<rparr>) None \<and>
        (\<forall>res. canAccessOrg ctx res \<longrightarrow> res = Some ''A'') \<and>
        resolveOrgScope ctx \<in> {None, Some (OneOrg ''A'')})"
  by (rule bound_credential_confined) simp

text \<open>
  C19: an impersonated session of an administrator who is not a global superuser resolves only
  an organization in which that administrator, not banned, holds an active membership of their
  own with an active account, whatever cookie the browser sends and whomever it impersonates.
\<close>

theorem impersonation_confined:
  assumes "\<not> betterAuthUserIsGlobalSuperuser d admin"
    and "ac_organizationId (getUserAccessContext d now cookie target None (Some admin)) = Some oid"
  shows "\<not> isBetterAuthUserBanned d now admin \<and> org_is_active d oid \<and>
    (\<exists>u \<in> set (app_users d). au_better_auth_user_id u = admin \<and> au_status u = ''active'' \<and>
       has_active_membership d (au_id u) oid)"
proof -
  let ?ids = "listImpersonationReachableOrgIds d now admin"
  from context_org_counts [OF assms(2)] obtain uid m where
    m: "sessionMembership d now cookie uid (Some admin) = Some m" "mb_organization_id m = oid"
    by (auto simp: resolvedMembership_def)
  from assms(1) have "?ids \<noteq> None" by (simp add: listImpersonationReachableOrgIds_def)
  then obtain ids where ids: "?ids = Some ids" by blast
  with m have "oid \<in> set ids" using sessionMembership_cases(2) by blast
  with ids assms(1) have "\<not> isBetterAuthUserBanned d now admin"
    and "oid \<in> set (listActiveOrganizationIdsForBetterAuthUser d admin)"
    by (auto simp: listImpersonationReachableOrgIds_def split: if_splits)
  then show ?thesis
    by (fastforce simp: listActiveOrganizationIdsForBetterAuthUser_def has_active_membership_def)
qed

lemma impersonation_confined_witness:
  "\<not> isBetterAuthUserBanned sample_db 0 ''b2'' \<and> org_is_active sample_db ''A'' \<and>
    (\<exists>u \<in> set (app_users sample_db). au_better_auth_user_id u = ''b2'' \<and> au_status u = ''active'' \<and>
       has_active_membership sample_db (au_id u) ''A'')"
proof (rule impersonation_confined)
  show "\<not> betterAuthUserIsGlobalSuperuser sample_db ''b2''" by code_simp
  show "ac_organizationId (getUserAccessContext sample_db 0 (Some ''B'') ''b1'' None (Some ''b2'')) = Some ''A''"
    by code_simp
qed

text \<open>
  Whatever the request presents, a principal is let into the secure area only with an
  active account and an active membership in an active organization; an unrecognized status,
  a missing row or a suspended organization refuses.
\<close>

lemma secure_access_needs_active:
  assumes "decideSecureAccess (ac_status ctx) (ac_membershipStatus ctx) = Allow"
    and "ctx = getUserAccessContext d now cookie baid bo imp"
  shows "\<exists>u \<in> set (app_users d). \<exists>m \<in> set (app_organization_memberships d).
    au_better_auth_user_id u = baid \<and> au_status u = ''active'' \<and>
    mb_app_user_id m = au_id u \<and> mb_status m = ''active'' \<and>
    org_is_active d (mb_organization_id m) \<and> ac_organizationId ctx = Some (mb_organization_id m)"
  using allowed_context_member [OF assms] by blast

lemma secure_access_needs_active_witness:
  "\<exists>u \<in> set (app_users sample_db). \<exists>m \<in> set (app_organization_memberships sample_db).
    au_better_auth_user_id u = ''b1'' \<and> au_status u = ''active'' \<and>
    mb_app_user_id m = au_id u \<and> mb_status m = ''active'' \<and>
    org_is_active sample_db (mb_organization_id m) \<and>
    ac_organizationId (getUserAccessContext sample_db 0 None ''b1'' None None) = Some (mb_organization_id m)"
proof (rule secure_access_needs_active [OF _ refl])
  show "decideSecureAccess (ac_status (getUserAccessContext sample_db 0 None ''b1'' None None))
     (ac_membershipStatus (getUserAccessContext sample_db 0 None ''b1'' None None)) = Allow"
    by code_simp
qed

text \<open>
  C9: a browser user with an active account and an active membership in some active
  organization is let in whatever the organization cookie names: a stale cookie, or an earlier
  suspended or pending membership, never locks them out.
\<close>

theorem active_membership_never_locked_out:
  assumes "List.find (\<lambda>u. au_better_auth_user_id u = baid) (app_users d) = Some user"
    and "au_status user = ''active''"
    and "m \<in> set (app_organization_memberships d)"
    and "mb_app_user_id m = au_id user" "mb_status m = ''active''"
    and "org_is_active d (mb_organization_id m)"
  shows "\<forall>cookie. let ctx = getUserAccessContext d now cookie baid None None in
    decideSecureAccess (ac_status ctx) (ac_membershipStatus ctx) = Allow"
proof
  fix cookie
  from assms have "m \<in> set (sessionCandidates d now (au_id user) None)"
    by (simp add: sessionCandidates_def countingMemberships_mem)
  from sessionMembership_active [OF this assms(5), of cookie] obtain m' where
    "resolvedMembership d now cookie (au_id user) None None = Some m'" "mb_status m' = ''active''"
    by (auto simp: resolvedMembership_def)
  with assms(1,2) show "let ctx = getUserAccessContext d now cookie baid None None in
    decideSecureAccess (ac_status ctx) (ac_membershipStatus ctx) = Allow"
    by (simp add: Let_def decideSecureAccess_Allow context_provisioned)
qed

lemma active_membership_never_locked_out_witness:
  "\<forall>cookie. let ctx = getUserAccessContext sample_db 0 cookie ''b1'' None None in
    decideSecureAccess (ac_status ctx) (ac_membershipStatus ctx) = Allow"
proof (rule active_membership_never_locked_out)
  show "List.find (\<lambda>u. au_better_auth_user_id u = ''b1'') (app_users sample_db) =
     Some (app_users sample_db ! 0)" by code_simp
  show "au_status (app_users sample_db ! 0) = ''active''" by code_simp
  show "app_organization_memberships sample_db ! 1 \<in> set (app_organization_memberships sample_db)"
    by code_simp
  show "mb_app_user_id (app_organization_memberships sample_db ! 1) = au_id (app_users sample_db ! 0)"
    by code_simp
  show "mb_status (app_organization_memberships sample_db ! 1) = ''active''" by code_simp
  show "org_is_active sample_db (mb_organization_id (app_organization_memberships sample_db ! 1))"
    by code_simp
qed

text \<open>
  What the rows grant, written over the tables alone: a key is on a role by a row of
  \<open>app_role_permissions\<close>; the account has the role in the organization by a row of its own, or by
  sitting in a group of that organization that has the role.
\<close>

definition role_of_rows :: "db \<Rightarrow> uuid \<Rightarrow> uuid \<Rightarrow> uuid \<Rightarrow> bool" where
  "role_of_rows d uid oid rid \<longleftrightarrow>
     (\<exists>ur \<in> set (app_user_roles d). ur_app_user_id ur = uid \<and> ur_organization_id ur = oid \<and> ur_role_id ur = rid) \<or>
     (\<exists>gm \<in> set (app_group_memberships d). \<exists>g \<in> set (app_groups d). \<exists>gr \<in> set (app_group_roles d).
        gm_app_user_id gm = uid \<and> grp_id g = gm_group_id gm \<and> grp_organization_id g = oid \<and>
        gr_group_id gr = grp_id g \<and> gr_role_id gr = rid)"

definition key_of_rows :: "db \<Rightarrow> uuid \<Rightarrow> uuid \<Rightarrow> string \<Rightarrow> bool" where
  "key_of_rows d uid oid k \<longleftrightarrow> (\<exists>rp \<in> set (app_role_permissions d). \<exists>p \<in> set (app_permissions d).
     perm_id p = rp_permission_id rp \<and> perm_key p = k \<and> role_of_rows d uid oid (rp_role_id rp))"

text \<open>
  A global superuser: a role of their own, not a group's, carries the marker in an active
  organization in which they are an active member.
\<close>

definition global_by_rows :: "db \<Rightarrow> uuid \<Rightarrow> bool" where
  "global_by_rows d uid \<longleftrightarrow>
     (\<exists>ur \<in> set (app_user_roles d). \<exists>rp \<in> set (app_role_permissions d). \<exists>p \<in> set (app_permissions d).
      \<exists>m \<in> set (app_organization_memberships d). \<exists>r \<in> set (app_organizations d).
        ur_app_user_id ur = uid \<and> rp_role_id rp = ur_role_id ur \<and> perm_id p = rp_permission_id rp \<and>
        perm_key p = ''superuser'' \<and>
        mb_app_user_id m = uid \<and> mb_organization_id m = ur_organization_id ur \<and> mb_status m = ''active'' \<and>
        org_id r = ur_organization_id ur \<and> org_status r = ''active'')"

lemma keys_of_rows: "k \<in> set (directPerms d uid oid) \<or> k \<in> set (groupPerms d uid oid) \<longleftrightarrow> key_of_rows d uid oid k"
proof -
  have rk: "x \<in> set (role_keys d rid) \<longleftrightarrow> role_carries d rid x" for x rid
    by (fastforce simp: role_keys_def role_carries_def)
  have keys: "key_of_rows d uid oid k \<longleftrightarrow> (\<exists>rid. role_carries d rid k \<and> role_of_rows d uid oid rid)"
    unfolding key_of_rows_def role_carries_def by blast
  have direct: "k \<in> set (directPerms d uid oid) \<longleftrightarrow> (\<exists>ur \<in> set (app_user_roles d).
      ur_app_user_id ur = uid \<and> ur_organization_id ur = oid \<and> role_carries d (ur_role_id ur) k)"
    by (auto simp: directPerms_def rk)
  have grouped: "k \<in> set (groupPerms d uid oid) \<longleftrightarrow> (\<exists>gm \<in> set (app_group_memberships d). gm_app_user_id gm = uid \<and>
      (\<exists>gr \<in> set (app_group_roles d). gr_group_id gr = gm_group_id gm \<and>
        (\<exists>g \<in> set (app_groups d). grp_id g = gm_group_id gm \<and> grp_organization_id g = oid) \<and>
        role_carries d (gr_role_id gr) k))"
    by (auto simp: groupPerms_def rk)
  show ?thesis unfolding keys direct grouped role_of_rows_def by (auto; metis)
qed

lemma global_by_rows_iff: "userIsGlobalSuperuser d uid \<longleftrightarrow> global_by_rows d uid"
proof
  show "userIsGlobalSuperuser d uid \<Longrightarrow> global_by_rows d uid"
    unfolding userIsGlobalSuperuser_def global_by_rows_def has_active_membership_def org_is_active_def role_carries_def
      ACTIVE_ORGANIZATION_STATUS_def SUPERADMIN_PERMISSION_def by (elim bexE conjE) (intro bexI conjI; assumption?; simp)
  show "global_by_rows d uid \<Longrightarrow> userIsGlobalSuperuser d uid"
    unfolding userIsGlobalSuperuser_def global_by_rows_def has_active_membership_def org_is_active_def role_carries_def
      ACTIVE_ORGANIZATION_STATUS_def SUPERADMIN_PERMISSION_def by auto
qed

text \<open>
  C18: The permissions of a context that resolves an organization are exactly: the keys that rows
  of the role and permission tables give the account there, by its own role rows in that
  organization or through its groups of that organization; the shell baseline, when account and
  membership are active; and the superuser set, when the marker is among the former or a role of
  the account's own carries the marker in any active organization in which it is an active member.
  Nothing of another organization's rows enters otherwise.
\<close>

theorem context_permissions_exact:
  assumes "List.find (\<lambda>u. au_better_auth_user_id u = baid) (app_users d) = Some user"
    and "ac_organizationId (getUserAccessContext d now cookie baid bo imp) = Some oid"
  shows "\<exists>m \<in> set (app_organization_memberships d).
    mb_app_user_id m = au_id user \<and> mb_organization_id m = oid \<and>
    ac_membershipStatus (getUserAccessContext d now cookie baid bo imp) = Some (toMembershipStatus (mb_status m)) \<and>
    (\<forall>k. k \<in> set (ac_permissions (getUserAccessContext d now cookie baid bo imp)) \<longleftrightarrow>
       key_of_rows d (au_id user) oid k \<or>
       k = SHELL_BASELINE_PERMISSION \<and> au_status user = ''active'' \<and> mb_status m = ''active'' \<or>
       k \<in> set SUPERUSER_PERMISSIONS \<and>
         (key_of_rows d (au_id user) oid SUPERADMIN_PERMISSION \<or> global_by_rows d (au_id user)))"
proof -
  from context_org_counts [OF assms(2)] assms(1) obtain m where
    m: "resolvedMembership d now cookie (au_id user) bo imp = Some m" "mb_organization_id m = oid"
      "m \<in> set (countingMemberships d (au_id user))"
    by auto
  have b: "SUPERADMIN_PERMISSION \<noteq> SHELL_BASELINE_PERMISSION"
    by (simp add: SUPERADMIN_PERMISSION_def SHELL_BASELINE_PERMISSION_def)
  have "k \<in> set (ac_permissions (getUserAccessContext d now cookie baid bo imp)) \<longleftrightarrow>
       key_of_rows d (au_id user) oid k \<or>
       k = SHELL_BASELINE_PERMISSION \<and> au_status user = ''active'' \<and> mb_status m = ''active'' \<or>
       k \<in> set SUPERUSER_PERMISSIONS \<and>
         (key_of_rows d (au_id user) oid SUPERADMIN_PERMISSION \<or> global_by_rows d (au_id user))" for k
    unfolding context_permissions [OF assms(1) m(1)] m(2) keys_of_rows [symmetric] global_by_rows_iff [symmetric] Let_def
    using b by (auto split: if_splits)
  with m context_provisioned(2) [OF assms(1)] show ?thesis
    by (intro bexI [of _ m]) (auto simp: countingMemberships_mem)
qed

text \<open>An account with its own reading role and the baseline, and nothing else.\<close>

lemma context_permissions_exact_witness:
  "let ps = set (ac_permissions (getUserAccessContext sample_db 0 None ''b2'' None None))
   in (\<forall>k. k \<in> ps \<longrightarrow> key_of_rows sample_db ''u2'' ''A'' k \<or> k = SHELL_BASELINE_PERMISSION) \<and>
      (\<forall>k. key_of_rows sample_db ''u2'' ''A'' k \<longrightarrow> k \<in> ps) \<and> ps \<noteq> {}"
proof -
  have u: "List.find (\<lambda>u. au_better_auth_user_id u = ''b2'') (app_users sample_db) =
     Some (app_users sample_db ! 1)" by code_simp
  have o': "ac_organizationId (getUserAccessContext sample_db 0 None ''b2'' None None) = Some ''A''"
    by code_simp
  have id: "au_id (app_users sample_db ! 1) = ''u2''" by code_simp
  have plain: "\<not> key_of_rows sample_db ''u2'' ''A'' SUPERADMIN_PERMISSION" "\<not> global_by_rows sample_db ''u2''"
    "ac_permissions (getUserAccessContext sample_db 0 None ''b2'' None None) \<noteq> []" by code_simp+
  show ?thesis using context_permissions_exact [OF u o'] plain unfolding id Let_def by auto
qed

end
