(* ===== verification/ReturnTo.thy ===== *)
theory ReturnTo
  imports JsString
begin

text \<open>
  The post-sign-in redirect sanitizer (\<open>src/lib/safe-return-to.ts\<close>, with the locales of
  \<open>src/config/i18n-config.ts\<close>). The sanitizer's promise is about where the browser lands, so
  the theory also writes down what URL parsing does to a path (a leading or trailing space or
  C0 control is stripped, tab, LF and CR are deleted, dot segments are resolved, and the characters
  a path may not hold are percent-encoded) and shows that the last of these is all it does to an
  accepted value.
\<close>

definition locales :: "string list" where
  "locales = [''en'', ''fr'', ''es'', ''uk'', ''pt'', ''zh'', ''hi'', ''ja'']"

definition defaultLocale :: string where
  "defaultLocale = ''en''"

definition isSupportedLocale :: "string \<Rightarrow> bool" where
  "isSupportedLocale v \<longleftrightarrow> v \<in> set locales"

text \<open>
  The pattern \<open>^(?:\.|%2e){1,2}$\<close>, case-insensitive: one or two dot tokens and nothing else.
\<close>

fun dot_token :: "string \<Rightarrow> string option" where
  "dot_token [] = None"
| "dot_token (c # cs) =
     (if c = CHR ''.'' then Some cs
      else if map ascii_lower (take 3 (c # cs)) = ''%2e'' then Some (drop 3 (c # cs))
      else None)"

definition DOT_SEGMENT :: "string \<Rightarrow> bool" where
  "DOT_SEGMENT s =
     (case dot_token s of
        None \<Rightarrow> False
      | Some r \<Rightarrow> r = [] \<or> dot_token r = Some [])"

definition CONTROL_CHARACTER :: "string \<Rightarrow> bool" where
  "CONTROL_CHARACTER s \<longleftrightarrow> (\<exists>c \<in> set s. control_char c)"

definition ENCODED_PATH_SEPARATOR :: "string \<Rightarrow> bool" where
  "ENCODED_PATH_SEPARATOR s =
     (let l = map ascii_lower s in includes_str l ''%2f'' \<or> includes_str l ''%5c'')"

definition resolvesElsewhere :: "string \<Rightarrow> string \<Rightarrow> bool" where
  "resolvesElsewhere v path =
     (if CONTROL_CHARACTER v \<or> ends_with v '' '' then True
      else if ENCODED_PATH_SEPARATOR path then True
      else \<exists>segment \<in> set (split_on (CHR ''/'') path). DOT_SEGMENT segment)"

text \<open>\<open>value.split(/[?#]/, 1)[0]\<close>: the value up to its query or fragment.\<close>

definition path_part :: "string \<Rightarrow> string" where
  "path_part v = takeWhile (\<lambda>c. c \<noteq> CHR ''?'' \<and> c \<noteq> CHR ''#'') v"

text \<open>\<open>parts[i] ?? ""\<close>.\<close>

definition part_or_empty :: "string list \<Rightarrow> nat \<Rightarrow> string" where
  "part_or_empty ps i = (if i < length ps then ps ! i else [])"

definition AUTH_SEGMENTS :: "string list" where
  "AUTH_SEGMENTS =
     [''sign-in'', ''sign-up'', ''forgot-password'', ''blocked'', ''pending-approval'', ''logged-out'']"

definition safe_locale :: "string \<Rightarrow> string" where
  "safe_locale locale = (if isSupportedLocale locale then locale else defaultLocale)"

definition dashboard :: "string \<Rightarrow> string" where
  "dashboard l = ''/'' @ l @ ''/app/dashboard''"

definition getSafeReturnTo :: "string option \<Rightarrow> string \<Rightarrow> string" where
  "getSafeReturnTo v locale =
     (let fallback = dashboard (safe_locale locale)
      in case v of
           None \<Rightarrow> fallback
         | Some value \<Rightarrow>
             if value = [] then fallback
             else if \<not> starts_with value ''/'' then fallback
             else if starts_with value ''//'' then fallback
             else if CHR 0x5C \<in> set value then fallback
             else if starts_with value ''/api/'' then fallback
             else
               (let path = path_part value
                in if resolvesElsewhere value path then fallback
                   else
                     (let maybeLocale = part_or_empty (split_on (CHR ''/'') value) 1;
                          segment = part_or_empty (split_on (CHR ''/'') path) 2
                      in if \<not> isSupportedLocale maybeLocale then fallback
                         else if segment \<in> set AUTH_SEGMENTS then fallback
                         else value)))"

definition getSafeReturnToInLocale :: "string option \<Rightarrow> string \<Rightarrow> string" where
  "getSafeReturnToInLocale v locale =
     (let safeLocale = safe_locale locale;
          parts = split_on (CHR ''/'') (getSafeReturnTo v safeLocale)
      in join_with (CHR ''/'') (parts[1 := safeLocale]))"

subsection \<open>What a browser does with a path\<close>

text \<open>
  The steps of URL parsing the sanitizer's comment lists. \<open>strip_input\<close> is the removal of
  leading and trailing C0 controls and spaces and of every tab, LF and CR; \<open>resolve_dots\<close>
  walks the segments and drops a single dot and the segment before a double dot, with
  \<open>%2e\<close> read as a dot.
\<close>

definition c0_or_space :: "char \<Rightarrow> bool" where
  "c0_or_space c = ((of_char c :: nat) \<le> 32)"

definition strip_input :: "string \<Rightarrow> string" where
  "strip_input s =
     filter (\<lambda>c. (of_char c :: nat) \<notin> {9, 10, 13})
       (rev (dropWhile c0_or_space (rev (dropWhile c0_or_space s))))"

definition single_dot :: "string \<Rightarrow> bool" where
  "single_dot s = (dot_token s = Some [])"

definition double_dot :: "string \<Rightarrow> bool" where
  "double_dot s = (case dot_token s of None \<Rightarrow> False | Some r \<Rightarrow> dot_token r = Some [])"

fun resolve_dots :: "string list \<Rightarrow> string list \<Rightarrow> string list" where
  "resolve_dots done [] = rev done"
| "resolve_dots done (s # ss) =
     (if double_dot s then resolve_dots (if ss = [] then [] # tl done else tl done) ss
      else if single_dot s then resolve_dots (if ss = [] then [] # done else done) ss
      else resolve_dots (s # done) ss)"

text \<open>
  The path percent-encode set of the URL standard, and the encoding: the bytes of the character's
  UTF-8, in upper-case hexadecimal.
\<close>

definition path_encoded :: "char \<Rightarrow> bool" where
  "path_encoded c \<longleftrightarrow>
     (of_char c :: nat) \<le> 32 \<or> 127 \<le> (of_char c :: nat) \<or>
     c \<in> {CHR 0x22, CHR ''#'', CHR ''<'', CHR ''>'', CHR ''?'', CHR ''^'', CHR 0x60, CHR ''{'', CHR ''}''}"

definition percent_digit :: "nat \<Rightarrow> char" where
  "percent_digit n = ''0123456789ABCDEF'' ! n"

definition url_bytes :: "nat \<Rightarrow> nat list" where
  "url_bytes n = (if n < 128 then [n] else [192 + n div 64, 128 + n mod 64])"

definition encode_char :: "char \<Rightarrow> string" where
  "encode_char c =
     (if path_encoded c
      then concat (map (\<lambda>b. [CHR ''%'', percent_digit (b div 16), percent_digit (b mod 16)]) (url_bytes (of_char c)))
      else [c])"

definition percent_encode :: "string \<Rightarrow> string" where
  "percent_encode s = concat (map encode_char s)"

definition browser_path :: "string \<Rightarrow> string" where
  "browser_path v =
     join_with (CHR ''/'') (map percent_encode
       (resolve_dots [] (split_on (CHR ''/'') (path_part (strip_input v)))))"

lemma encode_sample: "browser_path ''/en/app/a b?c d'' = ''/en/app/a%20b''"
  by code_simp

lemma encode_char_hd: "path_encoded c \<Longrightarrow> \<exists>s. encode_char c = CHR ''%'' # s"
  by (simp add: encode_char_def url_bytes_def)

lemma percent_encode_simps [simp]:
  "percent_encode [] = []" "percent_encode (c # s) = encode_char c @ percent_encode s"
  "percent_encode (s @ t) = percent_encode s @ percent_encode t"
  by (simp_all add: percent_encode_def)

lemma encode_slash: "encode_char (CHR ''/'') = ''/''"
  by (simp add: encode_char_def path_encoded_def)

lemma encode_no_slash:
  assumes "c \<noteq> CHR ''/''"
  shows "CHR ''/'' \<notin> set (encode_char c)"
proof (cases "path_encoded c")
  case True
  have h: "percent_digit k \<noteq> CHR ''/''" if "k < 16" for k
    using nth_mem [of k "''0123456789ABCDEF''"] that by (auto simp: percent_digit_def simp del: nth_mem)
  have b: "b div 16 < 16" if "b \<in> set (url_bytes n)" "n < 256" for b n
    using that by (auto simp: url_bytes_def split: if_splits)
  have "CHR ''/'' \<notin> set [CHR ''%'', percent_digit (b div 16), percent_digit (b mod 16)]"
    if "b \<in> set (url_bytes (of_char c))" for b
    using h [OF b [OF that nat_of_char_less_256]] h [of "b mod 16"] by simp
  then show ?thesis unfolding encode_char_def if_P [OF True] set_concat set_map by blast
next
  case False
  with assms show ?thesis by (simp add: encode_char_def)
qed

lemma percent_encode_no_slash: "CHR ''/'' \<notin> set s \<Longrightarrow> CHR ''/'' \<notin> set (percent_encode s)"
proof (induction s)
  case (Cons c s)
  then have "c \<noteq> CHR ''/''" "CHR ''/'' \<notin> set (percent_encode s)" by auto
  with encode_no_slash [of c] show ?case unfolding percent_encode_simps set_append Un_iff by blast
qed simp

lemma percent_encode_join:
  "percent_encode (join_with (CHR ''/'') ps) = join_with (CHR ''/'') (map percent_encode ps)"
  by (induction "CHR ''/''" ps rule: join_with.induct) (simp_all add: encode_slash)

text \<open>What the encoding cannot bring about.\<close>

lemma percent_encode_prefix:
  "prefix p (percent_encode s) \<Longrightarrow> CHR ''%'' \<notin> set p \<Longrightarrow> prefix p s"
proof (induction s arbitrary: p)
  case (Cons c s)
  show ?case
  proof (cases p)
    case (Cons q p')
    with Cons.prems encode_char_hd [of c] have "\<not> path_encoded c" by (auto simp: prefix_def)
    with Cons.prems Cons.IH [of p'] Cons show ?thesis by (simp add: encode_char_def)
  qed simp
qed (simp add: prefix_def)

lemma percent_encode_eq: "percent_encode s = w \<Longrightarrow> CHR ''%'' \<notin> set w \<Longrightarrow> s = w"
proof (induction s arbitrary: w)
  case (Cons c s)
  with encode_char_hd [of c] have "\<not> path_encoded c" by (cases w) auto
  with Cons show ?case by (cases w) (auto simp: encode_char_def)
qed simp

subsection \<open>Accepted values\<close>

text \<open>The conditions under which the sanitizer returns the value it was given.\<close>

definition accepted :: "string \<Rightarrow> bool" where
  "accepted v \<longleftrightarrow>
     starts_with v ''/'' \<and> \<not> starts_with v ''//'' \<and> CHR 0x5C \<notin> set v \<and>
     \<not> starts_with v ''/api/'' \<and> \<not> resolvesElsewhere v (path_part v) \<and>
     isSupportedLocale (part_or_empty (split_on (CHR ''/'') v) 1) \<and>
     part_or_empty (split_on (CHR ''/'') (path_part v)) 2 \<notin> set AUTH_SEGMENTS"

lemma getSafeReturnTo_cases:
  "getSafeReturnTo v locale =
     (case v of
        Some value \<Rightarrow> if accepted value then value else dashboard (safe_locale locale)
      | None \<Rightarrow> dashboard (safe_locale locale))"
  by (auto simp: getSafeReturnTo_def accepted_def Let_def split: option.splits)

lemma safe_locale_supported [simp]: "isSupportedLocale (safe_locale l)"
  by (simp add: safe_locale_def isSupportedLocale_def defaultLocale_def locales_def)

lemma supported_cases:
  "isSupportedLocale l \<Longrightarrow> l \<in> {''en'', ''fr'', ''es'', ''uk'', ''pt'', ''zh'', ''hi'', ''ja''}"
  by (simp add: isSupportedLocale_def locales_def)

lemma safe_locale_idem [simp]: "safe_locale (safe_locale l) = safe_locale l"
  using safe_locale_supported by (simp add: safe_locale_def [of "safe_locale l"])

lemma dashboard_accepted: "isSupportedLocale l \<Longrightarrow> accepted (dashboard l)"
  by (drule supported_cases) (auto simp: dashboard_def; code_simp)

lemma getSafeReturnTo_accepted: "accepted (getSafeReturnTo v locale)"
  by (auto simp: getSafeReturnTo_cases dashboard_accepted split: option.splits)

lemma accepted_fixed: "accepted v \<Longrightarrow> getSafeReturnTo (Some v) locale = v"
  by (simp add: getSafeReturnTo_cases)

text \<open>An accepted value is a slash, a locale, and a rest that is empty or starts with a slash.\<close>

lemma accepted_shape:
  assumes "accepted v"
  obtains l rest where "v = ''/'' @ l @ rest" "isSupportedLocale l"
    "rest = [] \<or> starts_with rest ''/''"
proof -
  from assms obtain w where v: "v = CHR ''/'' # w" by (auto simp: accepted_def prefix_def)
  obtain p ps where e: "split_on (CHR ''/'') w = p # ps"
    using split_on_not_Nil by (metis list.exhaust)
  with v have "split_on (CHR ''/'') v = [] # p # ps" by simp
  with assms have l: "isSupportedLocale p" by (simp add: accepted_def part_or_empty_def)
  have "w = join_with (CHR ''/'') (p # ps)" using join_split [of "CHR ''/''" w] e by simp
  then have "w = p @ (if ps = [] then [] else CHR ''/'' # join_with (CHR ''/'') ps)"
    by (auto simp: join_Cons)
  with v l that [of p "if ps = [] then [] else CHR ''/'' # join_with (CHR ''/'') ps"]
  show thesis by auto
qed

subsection \<open>Where the browser lands\<close>

lemma dot_segment_iff: "DOT_SEGMENT s \<longleftrightarrow> single_dot s \<or> double_dot s"
  by (auto simp: DOT_SEGMENT_def single_dot_def double_dot_def split: option.splits)

lemma resolve_dots_none:
  "\<forall>s \<in> set ss. \<not> DOT_SEGMENT s \<Longrightarrow> resolve_dots acc ss = rev acc @ ss"
  by (induction ss arbitrary: acc) (auto simp: dot_segment_iff)

lemma rev_dropWhile_last:
  "s \<noteq> [] \<Longrightarrow> \<not> P (last s) \<Longrightarrow> rev (dropWhile P (rev s)) = s"
  by (cases s rule: rev_cases) auto

lemma strip_input_clean:
  assumes "starts_with v ''/''" "\<not> CONTROL_CHARACTER v" "\<not> ends_with v '' ''"
  shows "strip_input v = v"
proof -
  from assms(1) obtain w where v: "v = CHR ''/'' # w" by (auto simp: prefix_def)
  then have start: "dropWhile c0_or_space v = v" by (simp add: c0_or_space_def)
  have "\<not> c0_or_space (last v)"
  proof
    assume c: "c0_or_space (last v)"
    from v have "last v \<in> set v" by simp
    with assms(2) have "\<not> control_char (last v)" by (auto simp: CONTROL_CHARACTER_def)
    with c have "(of_char (last v) :: nat) = 32" by (auto simp: c0_or_space_def control_char_def Let_def)
    moreover have "last v = char_of (of_char (last v) :: nat)" by simp
    moreover have "char_of (32 :: nat) = CHR '' ''" by code_simp
    ultimately have "last v = CHR '' ''" by simp
    with v have "suffix '' '' v" by (metis append_butlast_last_id list.distinct(1) suffix_def)
    with assms(3) show False by simp
  qed
  with v have ends: "rev (dropWhile c0_or_space (rev v)) = v" by (intro rev_dropWhile_last) auto
  from assms(2) have "\<forall>c \<in> set v. (of_char c :: nat) \<notin> {9, 10, 13}"
    by (auto simp: CONTROL_CHARACTER_def control_char_def Let_def)
  with start ends show ?thesis by (simp add: strip_input_def filter_id_conv)
qed

lemma accepted_browser_path:
  assumes "accepted v"
  shows "browser_path v = percent_encode (path_part v)"
    and "split_on (CHR ''/'') (browser_path v) = map percent_encode (split_on (CHR ''/'') (path_part v))"
proof -
  let ?ps = "split_on (CHR ''/'') (path_part v)"
  from assms have "strip_input v = v"
    by (intro strip_input_clean) (auto simp: accepted_def resolvesElsewhere_def split: if_splits)
  moreover from assms have "\<forall>s \<in> set ?ps. \<not> DOT_SEGMENT s"
    by (auto simp: accepted_def resolvesElsewhere_def split: if_splits)
  ultimately have b: "browser_path v = join_with (CHR ''/'') (map percent_encode ?ps)"
    by (simp add: browser_path_def resolve_dots_none)
  then show "browser_path v = percent_encode (path_part v)"
    by (simp add: percent_encode_join [symmetric])
  have "CHR ''/'' \<notin> set p" if "p \<in> set ?ps" for p using that by (rule split_on_parts)
  then show "split_on (CHR ''/'') (browser_path v) = map percent_encode ?ps"
    unfolding b by (intro split_join) (auto dest: percent_encode_no_slash)
qed

lemma part_or_empty_encode: "part_or_empty (map percent_encode ps) i = percent_encode (part_or_empty ps i)"
  by (simp add: part_or_empty_def)

lemma auth_segment_plain: "w \<in> set AUTH_SEGMENTS \<Longrightarrow> CHR ''%'' \<notin> set w"
  by (auto simp: AUTH_SEGMENTS_def)

lemma path_part_prefix: "prefix (path_part v) v"
  by (auto simp: path_part_def prefix_def intro: takeWhile_dropWhile_id [symmetric])

lemma path_part_api: "starts_with (path_part v) ''/api/'' \<Longrightarrow> starts_with v ''/api/''"
  using path_part_prefix by (rule prefix_order.trans [rotated])

text \<open>
  C39: Whatever value arrives, the redirect target is a same-origin path (one leading slash, no
  backslash) that the browser navigates to as inspected: parsing it as a URL does nothing to its
  path but percent-encode the characters a path may not hold, segment by segment. The path it lands
  on is under a supported locale, is no API route, and its page segment is none of the six names the
  code refuses (sign-in, sign-up, forgot-password, blocked, pending-approval, logged-out). Other
  pages beside those are accepted (lemma other_auth_pages_accepted).
\<close>

theorem safe_return_lands_where_inspected:
  "let r = getSafeReturnTo v locale in
    starts_with r ''/'' \<and> \<not> starts_with r ''//'' \<and> CHR 0x5C \<notin> set r \<and>
    browser_path r = percent_encode (path_part r) \<and>
    split_on (CHR ''/'') (browser_path r) = map percent_encode (split_on (CHR ''/'') (path_part r)) \<and>
    \<not> starts_with (browser_path r) ''/api/'' \<and> \<not> starts_with (browser_path r) ''//'' \<and>
    isSupportedLocale (part_or_empty (split_on (CHR ''/'') r) 1) \<and>
    part_or_empty (split_on (CHR ''/'') (browser_path r)) 2
      \<notin> {''sign-in'', ''sign-up'', ''forgot-password'', ''blocked'', ''pending-approval'', ''logged-out''}"
proof -
  let ?r = "getSafeReturnTo v locale"
  have a: "accepted ?r" by (rule getSafeReturnTo_accepted)
  note b = accepted_browser_path [OF a]
  from a have "\<not> starts_with (path_part ?r) ''/api/''" using path_part_api by (auto simp: accepted_def)
  then have api: "\<not> starts_with (browser_path ?r) ''/api/''"
    unfolding b(1) using percent_encode_prefix [of "''/api/''"] by auto
  have "\<not> starts_with (path_part ?r) ''//''"
    using a path_part_prefix prefix_order.trans unfolding accepted_def by blast
  then have sl: "\<not> starts_with (browser_path ?r) ''//''"
    unfolding b(1) using percent_encode_prefix [of "''//''"] by auto
  have "part_or_empty (split_on (CHR ''/'') (browser_path ?r)) 2 \<notin> set AUTH_SEGMENTS"
  proof
    assume w: "part_or_empty (split_on (CHR ''/'') (browser_path ?r)) 2 \<in> set AUTH_SEGMENTS"
    then have "part_or_empty (split_on (CHR ''/'') (path_part ?r)) 2 \<in> set AUTH_SEGMENTS"
      using percent_encode_eq [OF _ auth_segment_plain [OF w]] unfolding b(2) part_or_empty_encode by metis
    with a show False by (simp add: accepted_def)
  qed
  with a b api sl show ?thesis by (simp add: accepted_def Let_def AUTH_SEGMENTS_def)
qed

text \<open>
  The comment speaks of auth pages. The list names four of the pages of that group and two statuses;
  these others of the group are accepted.
\<close>

lemma other_auth_pages_accepted:
  "getSafeReturnTo (Some ''/en/reset-password'') ''en'' = ''/en/reset-password''"
  "getSafeReturnTo (Some ''/en/verify-email'') ''en'' = ''/en/verify-email''"
  by code_simp+

subsection \<open>Re-pointing the locale\<close>

definition lowercase_pair :: "string \<Rightarrow> bool" where
  "lowercase_pair l \<longleftrightarrow> length l = 2 \<and> (\<forall>c \<in> set l. 97 \<le> (of_char c :: nat) \<and> (of_char c :: nat) \<le> 122)"

lemma supported_lowercase_pair: "isSupportedLocale l \<Longrightarrow> lowercase_pair l"
  by (drule supported_cases) (auto simp: lowercase_pair_def)

lemma lowercase_pair_D:
  assumes "lowercase_pair l"
  shows "CHR ''/'' \<notin> set l" "CHR ''?'' \<notin> set l" "CHR ''#'' \<notin> set l" "CHR 0x5C \<notin> set l"
    "CHR ''%'' \<notin> set (map ascii_lower l)" "l \<noteq> []"
proof -
  have n: "c \<notin> set l" if "(of_char c :: nat) < 97" for c :: char
    using assms that by (force simp: lowercase_pair_def)
  show "CHR ''/'' \<notin> set l" "CHR ''?'' \<notin> set l" "CHR ''#'' \<notin> set l" "CHR 0x5C \<notin> set l"
    by (rule n, simp)+
  have "ascii_lower c = c" if "c \<in> set l" for c
    using assms that by (force simp: lowercase_pair_def ascii_lower_def Let_def)
  then have "map ascii_lower l = l" by (simp add: map_idI)
  then show "CHR ''%'' \<notin> set (map ascii_lower l)" using n by simp
  show "l \<noteq> []" using assms by (auto simp: lowercase_pair_def)
qed

lemma lowercase_pair_no_control: "lowercase_pair l \<Longrightarrow> \<not> CONTROL_CHARACTER l"
  by (force simp: lowercase_pair_def CONTROL_CHARACTER_def control_char_def Let_def)

lemma includes_str_append:
  "p \<noteq> [] \<Longrightarrow> hd p \<notin> set a \<Longrightarrow> includes_str (a @ b) p = includes_str b p"
proof (induction a)
  case Nil
  then show ?case by simp
next
  case (Cons x a)
  then show ?case by (cases p) auto
qed

lemma encoded_separator_append:
  "CHR ''%'' \<notin> set (map ascii_lower a) \<Longrightarrow>
     ENCODED_PATH_SEPARATOR (a @ b) = ENCODED_PATH_SEPARATOR b"
  by (simp add: ENCODED_PATH_SEPARATOR_def Let_def includes_str_append)

lemma path_part_append: "CHR ''?'' \<notin> set a \<Longrightarrow> CHR ''#'' \<notin> set a \<Longrightarrow> path_part (a @ b) = a @ path_part b"
  unfolding path_part_def by (rule takeWhile_append2) auto

text \<open>
  What the sanitizer asks of \<open>/l/r\<close> beyond the locale does not mention the locale.
\<close>

definition rest_ok :: "string \<Rightarrow> bool" where
  "rest_ok r \<longleftrightarrow>
     CHR 0x5C \<notin> set r \<and> \<not> CONTROL_CHARACTER r \<and> \<not> ends_with (CHR ''/'' # r) '' '' \<and>
     \<not> ENCODED_PATH_SEPARATOR (CHR ''/'' # path_part r) \<and>
     (\<forall>s \<in> set (split_on (CHR ''/'') (path_part r)). \<not> DOT_SEGMENT s) \<and>
     part_or_empty (split_on (CHR ''/'') (path_part r)) 0 \<notin> set AUTH_SEGMENTS"

lemma part_or_empty_shift [simp]: "part_or_empty (x # xs) (Suc n) = part_or_empty xs n"
  by (simp add: part_or_empty_def)

lemma accepted_rest:
  assumes "isSupportedLocale l"
  shows "accepted (''/'' @ l @ ''/'' @ r) \<longleftrightarrow> rest_ok r"
proof -
  let ?v = "CHR ''/'' # l @ CHR ''/'' # r"
  from assms have pair: "lowercase_pair l" by (rule supported_lowercase_pair)
  note D = lowercase_pair_D [OF pair]
  have split: "split_on (CHR ''/'') (CHR ''/'' # l @ CHR ''/'' # x) = [] # l # split_on (CHR ''/'') x" for x
    using D(1) by (simp add: split_on_append_sep)
  have path: "path_part ?v = CHR ''/'' # l @ CHR ''/'' # path_part r"
    using D(2,3) path_part_append [of "CHR ''/'' # l @ ''/''" r] by simp
  have ctl: "CONTROL_CHARACTER ?v \<longleftrightarrow> CONTROL_CHARACTER r"
    using lowercase_pair_no_control [OF pair]
    by (auto simp: CONTROL_CHARACTER_def control_char_def Let_def)
  have ends: "suffix '' '' ?v \<longleftrightarrow> suffix '' '' (CHR ''/'' # r)"
    by (cases r rule: rev_cases) (simp_all add: suffix_def append_eq_append_conv2 Cons_eq_append_conv)
  have enc: "ENCODED_PATH_SEPARATOR (path_part ?v) \<longleftrightarrow> ENCODED_PATH_SEPARATOR (CHR ''/'' # path_part r)"
    unfolding path using encoded_separator_append [of "CHR ''/'' # l"] D(5) by (simp add: ascii_lower_def)
  have dots: "(\<exists>s \<in> set (split_on (CHR ''/'') (path_part ?v)). DOT_SEGMENT s) \<longleftrightarrow>
      (\<exists>s \<in> set (split_on (CHR ''/'') (path_part r)). DOT_SEGMENT s)"
    unfolding path split using supported_cases [OF assms] by (auto simp: DOT_SEGMENT_def)
  have heads: "prefix ''/'' ?v" "\<not> prefix ''/api/'' ?v" "\<not> prefix ''//'' ?v"
    using supported_cases [OF assms] by auto
  have bs: "CHR 0x5C \<in> set ?v \<longleftrightarrow> CHR 0x5C \<in> set r" using D(4) by auto
  have parts: "part_or_empty (split_on (CHR ''/'') ?v) 1 = l"
    "part_or_empty (split_on (CHR ''/'') (path_part ?v)) 2 =
       part_or_empty (split_on (CHR ''/'') (path_part r)) 0"
    unfolding path split by (simp_all add: part_or_empty_def numeral_2_eq_2)
  have "accepted ?v \<longleftrightarrow> rest_ok r"
    unfolding accepted_def rest_ok_def resolvesElsewhere_def parts
    using assms heads bs ctl ends enc dots by auto
  then show ?thesis by simp
qed

lemma accepted_repoint:
  assumes "accepted (''/'' @ l @ rest)" "isSupportedLocale l" "isSupportedLocale l'"
    and "rest = [] \<or> starts_with rest ''/''"
  shows "accepted (''/'' @ l' @ rest)"
proof (cases "rest = []")
  case True
  from supported_cases [OF assms(3)] True show ?thesis by (elim insertE) (simp; code_simp)+
next
  case False
  with assms(4) obtain r where "rest = ''/'' @ r" by (auto simp: prefix_def)
  with assms accepted_rest show ?thesis by simp
qed

lemma repoint_parts:
  assumes "isSupportedLocale l" "rest = [] \<or> starts_with rest ''/''"
  shows "join_with (CHR ''/'') ((split_on (CHR ''/'') (''/'' @ l @ rest))[1 := l']) = ''/'' @ l' @ rest"
proof -
  from assms(1) have l: "CHR ''/'' \<notin> set l"
    using supported_lowercase_pair lowercase_pair_D(1) by blast
  show ?thesis
  proof (cases "rest = []")
    case True
    with l show ?thesis by (simp add: split_on_no_sep)
  next
    case False
    with assms(2) obtain r where "rest = CHR ''/'' # r" by (auto simp: prefix_def)
    with l show ?thesis by (simp add: split_on_append_sep join_Cons)
  qed
qed

text \<open>
  Re-pointing the locale of a sanitized value cannot change the sanitizer's verdict: the
  result is the given locale followed by the sanitized value's own rest, and sanitizing it
  again returns it unchanged.
\<close>

lemma repoint_keeps_verdict:
  "(\<exists>l rest. getSafeReturnTo v (safe_locale locale) = ''/'' @ l @ rest \<and>
      isSupportedLocale l \<and>
      getSafeReturnToInLocale v locale = ''/'' @ safe_locale locale @ rest) \<and>
   getSafeReturnTo (Some (getSafeReturnToInLocale v locale)) locale =
     getSafeReturnToInLocale v locale"
proof -
  let ?g = "getSafeReturnTo v (safe_locale locale)"
  have acc: "accepted ?g" by (rule getSafeReturnTo_accepted)
  then obtain l rest where g: "?g = ''/'' @ l @ rest" "isSupportedLocale l"
    "rest = [] \<or> starts_with rest ''/''" by (rule accepted_shape)
  then have eq: "getSafeReturnToInLocale v locale = ''/'' @ safe_locale locale @ rest"
    unfolding getSafeReturnToInLocale_def Let_def by (simp only: repoint_parts)
  from acc g have "accepted (''/'' @ safe_locale locale @ rest)"
    by (metis accepted_repoint safe_locale_supported)
  with eq have "getSafeReturnTo (Some (getSafeReturnToInLocale v locale)) locale =
     getSafeReturnToInLocale v locale" by (simp only: accepted_fixed)
  with g eq show ?thesis by blast
qed

end
