(* ===== verification/Impersonation.thy ===== *)
theory Impersonation
  imports SessionLifetime
begin

text \<open>
  Who is behind a request (\<open>src/lib/impersonation-attribution.server.ts\<close>): the per-request
  note of an impersonated session, the actor a rate limit charges and the actor an audit row
  names. A request's \<open>Headers\<close> object is its address; the code's \<open>WeakMap\<close> is a map from
  addresses. A carrier that is absent, or holds no headers, has no address.
\<close>

type_synonym header_addr = nat

record request_impersonation =
  ri_impersonated :: uuid
  ri_impersonator :: uuid

type_synonym impersonation_notes = "header_addr \<rightharpoonup> request_impersonation"

text \<open>The session with the id of its user, absent when it is not a string.\<close>

definition noteSessionImpersonation ::
    "impersonation_notes \<Rightarrow> header_addr option \<Rightarrow> session_row \<Rightarrow> uuid option \<Rightarrow> impersonation_notes" where
  "noteSessionImpersonation notes carrier session userId =
     (case carrier of
        None \<Rightarrow> notes
      | Some key \<Rightarrow>
          (case readImpersonatorId session of
             None \<Rightarrow> notes
           | Some impersonator \<Rightarrow>
               (case userId of
                  None \<Rightarrow> notes
                | Some uid \<Rightarrow>
                    if length uid = 0 then notes
                    else notes(key \<mapsto> \<lparr>ri_impersonated = uid, ri_impersonator = impersonator\<rparr>))))"

definition readRequestImpersonation ::
    "impersonation_notes \<Rightarrow> header_addr option \<Rightarrow> request_impersonation option" where
  "readRequestImpersonation notes carrier =
     (case carrier of None \<Rightarrow> None | Some key \<Rightarrow> notes key)"

definition humanActorFor :: "impersonation_notes \<Rightarrow> uuid \<Rightarrow> header_addr option \<Rightarrow> uuid" where
  "humanActorFor notes actorId carrier =
     (case readRequestImpersonation notes carrier of
        None \<Rightarrow> actorId
      | Some i \<Rightarrow> if ri_impersonated i = actorId then ri_impersonator i else actorId)"

definition humanActorId :: "uuid \<Rightarrow> uuid option \<Rightarrow> uuid" where
  "humanActorId betterAuthUserId impersonatorId =
     (case impersonatorId of Some i \<Rightarrow> i | None \<Rightarrow> betterAuthUserId)"

text \<open>
  Audit metadata is an association list of keys and values; a later entry of the spread wins.
\<close>

type_synonym audit_metadata = "(string \<times> string) list"

definition put_metadata :: "string \<Rightarrow> string \<Rightarrow> audit_metadata \<Rightarrow> audit_metadata" where
  "put_metadata k v md =
     (if k \<in> fst ` set md then map (\<lambda>(k', v'). (k', if k' = k then v else v')) md else md @ [(k, v)])"

definition attributeAuditActor ::
    "impersonation_notes \<Rightarrow> uuid option \<Rightarrow> audit_metadata option \<Rightarrow> header_addr option \<Rightarrow>
     uuid option \<times> audit_metadata option" where
  "attributeAuditActor notes actor metadata request =
     (case readRequestImpersonation notes request of
        None \<Rightarrow> (actor, metadata)
      | Some i \<Rightarrow>
          if actor \<noteq> Some (ri_impersonated i) \<and> actor \<noteq> Some (ri_impersonator i)
          then (actor, metadata)
          else (Some (ri_impersonator i),
                Some (put_metadata ''impersonatedBetterAuthUserId'' (ri_impersonated i)
                        (case metadata of None \<Rightarrow> [] | Some md \<Rightarrow> md))))"

lemma map_of_put_metadata: "map_of (put_metadata k v md) = (map_of md)(k \<mapsto> v)"
proof (cases "k \<in> fst ` set md")
  case False
  then have "map_of md k = None" by (simp add: map_of_eq_None_iff)
  with False show ?thesis
    by (auto simp: put_metadata_def fun_eq_iff map_add_def split: option.splits)
next
  case True
  have "map_of (map (\<lambda>(k', v'). (k', if k' = k then v else v')) md) x =
      (if x = k then (if k \<in> fst ` set md then Some v else None) else map_of md x)" for x
    by (induction md) (auto simp: rev_image_eqI)
  with True show ?thesis by (auto simp: put_metadata_def fun_eq_iff)
qed

text \<open>
  Once a request is noted as an impersonation, every limit charged and every audit row
  written for the borrowed identity on that request names the human behind it, and the row
  keeps the borrowed identity; other requests are untouched.
\<close>

lemma impersonation_attributed:
  assumes "readImpersonatorId session = Some admin" and "uid \<noteq> []"
  shows "let notes' = noteSessionImpersonation notes (Some key) session (Some uid) in
    humanActorFor notes' uid (Some key) = admin \<and>
    fst (attributeAuditActor notes' (Some uid) md (Some key)) = Some admin \<and>
    map_of (the (snd (attributeAuditActor notes' (Some uid) md (Some key))))
      ''impersonatedBetterAuthUserId'' = Some uid \<and>
    (\<forall>other actor. other \<noteq> Some key \<longrightarrow>
       humanActorFor notes' actor other = humanActorFor notes actor other)"
  using assms
  by (auto simp: Let_def noteSessionImpersonation_def humanActorFor_def attributeAuditActor_def
      readRequestImpersonation_def map_of_put_metadata split: option.splits)

lemma impersonation_attributed_witness:
  "let notes' = noteSessionImpersonation Map.empty (Some 0)
       \<lparr>sess_createdAt = NoDate, sess_token = None, sess_impersonatedBy = None,
        sess_impersonated_by = Some ''b2''\<rparr> (Some ''b1'') in
    humanActorFor notes' ''b1'' (Some 0) = ''b2'' \<and>
    fst (attributeAuditActor notes' (Some ''b1'') None (Some 0)) = Some ''b2'' \<and>
    map_of (the (snd (attributeAuditActor notes' (Some ''b1'') None (Some 0))))
      ''impersonatedBetterAuthUserId'' = Some ''b1'' \<and>
    (\<forall>other actor. other \<noteq> Some 0 \<longrightarrow>
       humanActorFor notes' actor other = humanActorFor Map.empty actor other)"
  by (rule impersonation_attributed) (simp_all add: readImpersonatorId_def)

end
