(* ===== verification/RateLimit.thy ===== *)
theory RateLimit
  imports Impersonation Complex_Main
begin

text \<open>
  The rate limiters (\<open>src/lib/http/rate-limit.server.ts\<close>,
  \<open>src/lib/http/rate-limit-shared.server.ts\<close>, \<open>src/lib/http/rate-limit-tiered.server.ts\<close>): the
  per-process store, an insertion-ordered map, and the shared store, a table with one
  statement that refills and consumes. The locale \<open>token_bucket\<close> is the contract the callers
  rely on, stated over the balance a request would find; \<open>isolated_bucket\<close> adds what only the
  shared store promises (other keys and pruning change nothing). A number is real; the
  SHA-256 of \<open>normalizeBucketKey\<close> is a parameter.
\<close>

record token_bucket =
  tokens :: real
  lastRefillMs :: millis
  bk_capacity :: real
  bk_refillPerSec :: real

record rate_limit_options =
  capacity :: real
  refillPerSec :: real

datatype rate_limit_result = Granted | Denied int

type_synonym bucket_map = "(string \<times> token_bucket) list"

definition MAX_BUCKETS :: nat where "MAX_BUCKETS = 10000"
definition STALE_AFTER_MS :: int where "STALE_AFTER_MS = 10 * 60 * 1000"
definition MAX_EVICTIONS_PER_CONSUME :: nat where "MAX_EVICTIONS_PER_CONSUME = 8"
definition MAX_KEY_LENGTH :: nat where "MAX_KEY_LENGTH = 128"

definition normalizeBucketKey :: "(string \<Rightarrow> string) \<Rightarrow> string \<Rightarrow> string" where
  "normalizeBucketKey sha256hex key =
     (if length key \<le> MAX_KEY_LENGTH then key else take 32 key @ ''#'' @ sha256hex key)"

subsection \<open>The per-process store\<close>

fun retire_from :: "nat \<Rightarrow> millis \<Rightarrow> bucket_map \<Rightarrow> bucket_map" where
  "retire_from examined nowMs [] = []"
| "retire_from examined nowMs ((key, bucket) # rest) =
     (if examined \<ge> MAX_EVICTIONS_PER_CONSUME then (key, bucket) # rest
      else if nowMs - lastRefillMs bucket \<le> STALE_AFTER_MS then (key, bucket) # rest
      else retire_from (Suc examined) nowMs rest)"

definition retireStaleBuckets :: "millis \<Rightarrow> bucket_map \<Rightarrow> bucket_map" where
  "retireStaleBuckets nowMs buckets = retire_from 0 nowMs buckets"

definition evictLeastRecentlyUsed :: "bucket_map \<Rightarrow> bucket_map" where
  "evictLeastRecentlyUsed buckets = tl buckets"

definition retry_after :: "real \<Rightarrow> real \<Rightarrow> int" where
  "retry_after balance refill = max 1 \<lceil>(1 - balance) / max refill (1 / 1000000000)\<rceil>"

definition consumeToken ::
    "(string \<Rightarrow> string) \<Rightarrow> bucket_map \<Rightarrow> string \<Rightarrow> rate_limit_options \<Rightarrow> millis \<Rightarrow>
     bucket_map \<times> rate_limit_result" where
  "consumeToken sha256hex buckets0 rawKey options nowMs =
     (let key = normalizeBucketKey sha256hex rawKey;
          buckets1 = retireStaleBuckets nowMs buckets0;
          existing = map_of buckets1 key;
          buckets2 = (if existing = None \<and> length buckets1 \<ge> MAX_BUCKETS
                      then evictLeastRecentlyUsed buckets1 else buckets1);
          bucket = (case existing of
                      Some b \<Rightarrow> b
                    | None \<Rightarrow> \<lparr>tokens = capacity options, lastRefillMs = nowMs,
                               bk_capacity = capacity options, bk_refillPerSec = refillPerSec options\<rparr>);
          buckets3 = map_delete key buckets2;
          elapsedSec = max 0 (real_of_int (nowMs - lastRefillMs bucket) / 1000);
          refilled = min (capacity options) (tokens bucket + elapsedSec * refillPerSec options);
          bucket' = bucket\<lparr>tokens := refilled, lastRefillMs := nowMs,
                           bk_capacity := capacity options, bk_refillPerSec := refillPerSec options\<rparr>
      in if refilled \<ge> 1
         then (buckets3 @ [(key, bucket'\<lparr>tokens := refilled - 1\<rparr>)], Granted)
         else (buckets3 @ [(key, bucket')], Denied (retry_after refilled (refillPerSec options))))"

definition rateLimitKey :: "string \<Rightarrow> string \<Rightarrow> string" where
  "rateLimitKey scope actorId = scope @ '':'' @ actorId"

definition DENIAL_AUDIT_LIMIT :: rate_limit_options where
  "DENIAL_AUDIT_LIMIT = \<lparr>capacity = 1, refillPerSec = 1 / 60\<rparr>"

definition DEFAULT_ADMIN_MUTATION_LIMIT :: rate_limit_options where
  "DEFAULT_ADMIN_MUTATION_LIMIT = \<lparr>capacity = 30, refillPerSec = 1\<rparr>"

definition DEFAULT_ADMIN_BULK_LIMIT :: rate_limit_options where
  "DEFAULT_ADMIN_BULK_LIMIT = \<lparr>capacity = 6, refillPerSec = 1 / 5\<rparr>"

definition DEFAULT_ADMIN_EXPORT_LIMIT :: rate_limit_options where
  "DEFAULT_ADMIN_EXPORT_LIMIT = \<lparr>capacity = 3, refillPerSec = 1 / 20\<rparr>"

text \<open>
  Two budgets of the shared store that take longer to refill than the per-process store keeps an
  idle bucket (\<open>src/lib/auth-sign-in-attempts.ts\<close>, \<open>src/lib/admin/admin-mail-budget.server.ts\<close>).
\<close>

definition SIGN_IN_EMAIL_LIMIT :: rate_limit_options where
  "SIGN_IN_EMAIL_LIMIT = \<lparr>capacity = 10, refillPerSec = 10 / (15 * 60)\<rparr>"

definition ADMIN_TEST_EMAIL_LIMIT :: rate_limit_options where
  "ADMIN_TEST_EMAIL_LIMIT = \<lparr>capacity = 10, refillPerSec = 10 / 3600\<rparr>"

text \<open>
  The limiter with what a denial records: the metric's scopes and the audit events.
\<close>

record denial_event =
  de_actor :: "uuid option"
  de_scope :: string
  de_actor_key :: string
  de_retry_after :: int

record limiter =
  lm_buckets :: bucket_map
  lm_denials :: "string list"
  lm_audit :: "denial_event list"

record rate_limit_response =
  rr_status :: nat
  rr_retry_after :: int

definition shouldAuditDenial ::
    "(string \<Rightarrow> string) \<Rightarrow> bucket_map \<Rightarrow> string \<Rightarrow> string \<Rightarrow> millis \<Rightarrow> bucket_map \<times> bool" where
  "shouldAuditDenial sha256hex buckets scope actorId nowMs =
     (case consumeToken sha256hex buckets (rateLimitKey ''ratelimit.audit'' (scope @ '':'' @ actorId))
             DENIAL_AUDIT_LIMIT nowMs of
        (buckets', r) \<Rightarrow> (buckets', r = Granted))"

definition recordRateLimitDenial :: "limiter \<Rightarrow> string \<Rightarrow> limiter" where
  "recordRateLimitDenial l scope = l\<lparr>lm_denials := lm_denials l @ [scope]\<rparr>"

definition rateLimitDeniedResponse ::
    "(string \<Rightarrow> string) \<Rightarrow> limiter \<Rightarrow> string \<Rightarrow> uuid \<Rightarrow> int \<Rightarrow> millis \<Rightarrow> limiter \<times> rate_limit_response" where
  "rateLimitDeniedResponse sha256hex l scope actorId retryAfterSeconds nowMs =
     (let l1 = recordRateLimitDenial l scope;
          (buckets', audit) = shouldAuditDenial sha256hex (lm_buckets l1) scope actorId nowMs;
          l2 = l1\<lparr>lm_buckets := buckets'\<rparr>;
          isUserId = (\<not> starts_with actorId ''ip:'' \<and> actorId \<noteq> ''anon'');
          event = \<lparr>de_actor = (if isUserId then Some actorId else None), de_scope = scope,
                   de_actor_key = actorId, de_retry_after = retryAfterSeconds\<rparr>;
          l3 = (if audit then l2\<lparr>lm_audit := lm_audit l2 @ [event]\<rparr> else l2)
      in (l3, \<lparr>rr_status = 429, rr_retry_after = retryAfterSeconds\<rparr>))"

definition enforceRateLimit ::
    "(string \<Rightarrow> string) \<Rightarrow> impersonation_notes \<Rightarrow> limiter \<Rightarrow> string \<Rightarrow> uuid \<Rightarrow> rate_limit_options \<Rightarrow>
     header_addr option \<Rightarrow> millis \<Rightarrow> limiter \<times> rate_limit_response option" where
  "enforceRateLimit sha256hex notes l scope actorId options request nowMs =
     (let bucketActor = humanActorFor notes actorId request;
          (buckets', result) =
            consumeToken sha256hex (lm_buckets l) (rateLimitKey scope bucketActor) options nowMs;
          l1 = l\<lparr>lm_buckets := buckets'\<rparr>
      in case result of
           Granted \<Rightarrow> (l1, None)
         | Denied retryAfterSeconds \<Rightarrow>
             (case rateLimitDeniedResponse sha256hex l1 scope bucketActor retryAfterSeconds nowMs of
                (l2, response) \<Rightarrow> (l2, Some response)))"

subsection \<open>The shared store\<close>

definition SHARED_STALE_AFTER_MS :: int where "SHARED_STALE_AFTER_MS = 60 * 60 * 1000"
definition SHARED_PRUNE_INTERVAL_MS :: int where "SHARED_PRUNE_INTERVAL_MS = 10 * 60 * 1000"
definition SHARED_FALLBACK_COOLDOWN_MS :: int where "SHARED_FALLBACK_COOLDOWN_MS = 30 * 1000"

text \<open>The table \<open>app_rate_limits\<close>, by its primary key: tokens and last update.\<close>

type_synonym rate_rows = "string \<rightharpoonup> real \<times> millis"

text \<open>\<open>False\<close> where the code throws a \<open>RangeError\<close>.\<close>

definition assertPrunable :: "rate_limit_options \<Rightarrow> bool" where
  "assertPrunable options =
     (if \<not> (capacity options \<ge> 1) \<or> \<not> (refillPerSec options > 0) then False
      else \<not> (capacity options / refillPerSec options * 1000 > real_of_int SHARED_STALE_AFTER_MS))"

text \<open>\<open>greatest(0, extract(epoch from (excluded.updated_at - r.updated_at)))\<close>, in seconds.\<close>

definition elapsed_seconds :: "millis \<Rightarrow> millis \<Rightarrow> real" where
  "elapsed_seconds since nowMs = max 0 (real_of_int (nowMs - since) / 1000)"

definition consumeViaDatabase ::
    "rate_rows \<Rightarrow> string \<Rightarrow> rate_limit_options \<Rightarrow> millis \<Rightarrow> rate_rows \<times> rate_limit_result" where
  "consumeViaDatabase rows key options nowMs =
     (case rows key of
        None \<Rightarrow> (rows(key \<mapsto> (capacity options - 1, nowMs)), Granted)
      | Some (tok, updated) \<Rightarrow>
          (let refilled = min (capacity options)
                            (tok + elapsed_seconds updated nowMs * refillPerSec options)
           in if refilled \<ge> 1
              then (rows(key \<mapsto> (refilled - 1, max updated nowMs)), Granted)
              else (rows, Denied (retry_after refilled (refillPerSec options)))))"

definition pruneStaleSharedBuckets :: "millis \<Rightarrow> rate_rows \<Rightarrow> rate_rows" where
  "pruneStaleSharedBuckets nowMs rows =
     (\<lambda>key. case rows key of
              None \<Rightarrow> None
            | Some (tok, updated) \<Rightarrow>
                if updated < nowMs - SHARED_STALE_AFTER_MS then None else Some (tok, updated))"

record shared_limiter =
  sl_rows :: rate_rows
  sl_local :: bucket_map
  sl_last_prune :: "millis option"
  sl_unavailable_until :: "millis option"
  sl_fallbacks :: "string list"

definition scopeOf :: "string \<Rightarrow> string" where
  "scopeOf key = takeWhile (\<lambda>c. c \<noteq> CHR '':'') key"

definition maybePrune :: "shared_limiter \<Rightarrow> millis \<Rightarrow> shared_limiter" where
  "maybePrune s nowMs =
     (if (case sl_last_prune s of None \<Rightarrow> False | Some t \<Rightarrow> nowMs - t < SHARED_PRUNE_INTERVAL_MS) then s
      else s\<lparr>sl_last_prune := Some nowMs, sl_rows := pruneStaleSharedBuckets nowMs (sl_rows s)\<rparr>)"

text \<open>
  \<open>None\<close> where the code throws. \<open>db_up\<close> tells whether the statement reaches the database; one
  that does not leaves the rows alone.
\<close>

definition consumeSharedToken ::
    "(string \<Rightarrow> string) \<Rightarrow> shared_limiter \<Rightarrow> bool \<Rightarrow> string \<Rightarrow> rate_limit_options \<Rightarrow> millis \<Rightarrow>
     (shared_limiter \<times> rate_limit_result) option" where
  "consumeSharedToken sha256hex s db_up rawKey options nowMs =
     (let key = normalizeBucketKey sha256hex rawKey
      in if \<not> assertPrunable options then None
         else if (case sl_unavailable_until s of None \<Rightarrow> False | Some t \<Rightarrow> nowMs < t)
         then (case consumeToken sha256hex (sl_local s) key options nowMs of
                 (local', r) \<Rightarrow> Some (s\<lparr>sl_local := local'\<rparr>, r))
         else if db_up
         then (case consumeViaDatabase (sl_rows s) key options nowMs of
                 (rows', r) \<Rightarrow> Some (maybePrune (s\<lparr>sl_rows := rows'\<rparr>) nowMs, r))
         else (case consumeToken sha256hex (sl_local s) key options nowMs of
                 (local', r) \<Rightarrow>
                   Some (s\<lparr>sl_local := local',
                           sl_unavailable_until := Some (nowMs + SHARED_FALLBACK_COOLDOWN_MS),
                           sl_fallbacks := sl_fallbacks s @ [scopeOf key]\<rparr>, r)))"

subsection \<open>The tiered limiter\<close>

definition GLOBAL_ACTOR :: string where "GLOBAL_ACTOR = ''__global__''"

datatype tier = SourceTier | GlobalTier
datatype tiered_result = TieredGranted | TieredDenied tier int

definition consumeSourceThenGlobal ::
    "(string \<Rightarrow> string) \<Rightarrow> shared_limiter \<Rightarrow> bool \<Rightarrow> bool \<Rightarrow> string \<Rightarrow> string \<Rightarrow>
     rate_limit_options \<Rightarrow> rate_limit_options \<Rightarrow> millis \<Rightarrow> (shared_limiter \<times> tiered_result) option" where
  "consumeSourceThenGlobal sha256hex s up1 up2 scope source src_limit global_limit nowMs =
     (case consumeSharedToken sha256hex s up1 (rateLimitKey scope source) src_limit nowMs of
        None \<Rightarrow> None
      | Some (s1, Denied n) \<Rightarrow> Some (s1, TieredDenied SourceTier n)
      | Some (s1, Granted) \<Rightarrow>
          (case consumeSharedToken sha256hex s1 up2 (rateLimitKey scope GLOBAL_ACTOR) global_limit nowMs of
             None \<Rightarrow> None
           | Some (s2, Denied n) \<Rightarrow> Some (s2, TieredDenied GlobalTier n)
           | Some (s2, Granted) \<Rightarrow> Some (s2, TieredGranted)))"

subsection \<open>The contract of a bucket\<close>

text \<open>The number of requests granted when one bucket is asked at the given times.\<close>

fun grants_of :: "('s \<Rightarrow> millis \<Rightarrow> 's \<times> rate_limit_result) \<Rightarrow> 's \<Rightarrow> millis list \<Rightarrow> nat" where
  "grants_of ask s [] = 0"
| "grants_of ask s (t # ts) =
     (case ask s t of (s', r) \<Rightarrow> (if r = Granted then 1 else 0) + grants_of ask s' ts)"

text \<open>
  The same with a disturbance between requests: a request of this bucket, or an event of the
  environment (another key's request, a prune).
\<close>

datatype 'e bucket_event = Ask | Env 'e

fun grants_among ::
    "('s \<Rightarrow> millis \<Rightarrow> 's \<times> rate_limit_result) \<Rightarrow> ('e \<Rightarrow> 's \<Rightarrow> millis \<Rightarrow> 's) \<Rightarrow> 's \<Rightarrow>
     (millis \<times> 'e bucket_event) list \<Rightarrow> nat" where
  "grants_among ask env s [] = 0"
| "grants_among ask env s ((t, Ask) # es) =
     (case ask s t of (s', r) \<Rightarrow> (if r = Granted then 1 else 0) + grants_among ask env s' es)"
| "grants_among ask env s ((t, Env e) # es) = grants_among ask env (env e s t) es"

locale token_bucket =
  fixes ask :: "rate_limit_options \<Rightarrow> 's \<Rightarrow> millis \<Rightarrow> 's \<times> rate_limit_result"
    and avail :: "rate_limit_options \<Rightarrow> 's \<Rightarrow> millis \<Rightarrow> real"
    and wf :: "'s \<Rightarrow> millis \<Rightarrow> bool"
    and fits :: "rate_limit_options \<Rightarrow> bool"
  assumes granted_iff: "wf s t \<Longrightarrow> fits l \<Longrightarrow> snd (ask l s t) = Granted \<longleftrightarrow> 1 \<le> avail l s t"
    and balance: "wf s t \<Longrightarrow> fits l \<Longrightarrow> t \<le> t' \<Longrightarrow>
          avail l (fst (ask l s t)) t' =
            min (capacity l) (avail l s t - (if 1 \<le> avail l s t then 1 else 0) +
                              real_of_int (t' - t) / 1000 * refillPerSec l)"
    and avail_range: "wf s t \<Longrightarrow> fits l \<Longrightarrow> 0 \<le> avail l s t \<and> avail l s t \<le> capacity l"
    and wf_ask: "wf s t \<Longrightarrow> fits l \<Longrightarrow> wf (fst (ask l s t)) t"
    and wf_later: "wf s t \<Longrightarrow> t \<le> t' \<Longrightarrow> wf s t'"
begin

lemma grants_bound:
  "wf s t \<Longrightarrow> fits l \<Longrightarrow> sorted (t # ts) \<Longrightarrow>
     real (grants_of (ask l) s (t # ts)) \<le>
       avail l s t + real_of_int (last (t # ts) - t) / 1000 * refillPerSec l"
proof (induction ts arbitrary: s t)
  case Nil
  then show ?case using granted_iff [of s t l] avail_range [of s t l]
    by (cases "ask l s t") auto
next
  case (Cons u us)
  obtain s' r where ask: "ask l s t = (s', r)" by fastforce
  let ?g = "if r = Granted then 1 else 0 :: real"
  from Cons.prems have le: "t \<le> u" and so: "sorted (u # us)" by auto
  from Cons.prems ask le have wf': "wf s' u" using wf_ask [of s t l] wf_later by auto
  from granted_iff [of s t l] Cons.prems ask
  have g: "?g = (if 1 \<le> avail l s t then 1 else 0)" by auto
  from Cons.IH [OF wf' Cons.prems(2) so]
  have "real (grants_of (ask l) s' (u # us)) \<le>
      avail l s' u + real_of_int (last (u # us) - u) / 1000 * refillPerSec l" .
  also have "avail l s' u \<le> avail l s t - ?g + real_of_int (u - t) / 1000 * refillPerSec l"
    using balance [OF Cons.prems(1,2) le] ask g by simp
  finally show ?case using ask by (auto simp: algebra_simps add_divide_distrib diff_divide_distrib)
qed

end

locale isolated_bucket = token_bucket +
  fixes env :: "'e \<Rightarrow> 's \<Rightarrow> millis \<Rightarrow> 's"
  assumes env_avail: "wf s t \<Longrightarrow> fits l \<Longrightarrow> t \<le> t' \<Longrightarrow> avail l (env e s t) t' = avail l s t'"
    and env_wf: "wf s t \<Longrightarrow> wf (env e s t) t"
    and refill: "wf s t \<Longrightarrow> fits l \<Longrightarrow> t \<le> t' \<Longrightarrow>
          avail l s t' \<le> avail l s t + real_of_int (t' - t) / 1000 * refillPerSec l"
    and refill_nonneg: "fits l \<Longrightarrow> 0 \<le> refillPerSec l"
begin

lemma grants_among_bound:
  "wf s t \<Longrightarrow> fits l \<Longrightarrow> sorted (t # map fst es) \<Longrightarrow>
     real (grants_among (ask l) env s es) \<le>
       avail l s t + real_of_int (last (t # map fst es) - t) / 1000 * refillPerSec l"
proof (induction es arbitrary: s t)
  case Nil
  then show ?case using avail_range [of s t l] by simp
next
  case (Cons e es)
  obtain u ev where e: "e = (u, ev)" by fastforce
  from Cons.prems e have le: "t \<le> u" and so: "sorted (u # map fst es)" by auto
  from Cons.prems(1) le have wfu: "wf s u" by (rule wf_later)
  have grow: "avail l s u \<le> avail l s t + real_of_int (u - t) / 1000 * refillPerSec l"
    using refill [OF Cons.prems(1,2) le] .
  show ?case
  proof (cases ev)
    case (Env x)
    have "real (grants_among (ask l) env (env x s u) es) \<le>
        avail l (env x s u) u + real_of_int (last (u # map fst es) - u) / 1000 * refillPerSec l"
      using Cons.IH env_wf wfu Cons.prems(2) so by blast
    with env_avail [OF wfu Cons.prems(2), of u x] grow e Env show ?thesis
      by (auto simp: algebra_simps add_divide_distrib diff_divide_distrib)
  next
    case Ask
    obtain s' r where ask: "ask l s u = (s', r)" by fastforce
    from wf_ask [OF wfu Cons.prems(2)] ask have wf': "wf s' u" by simp
    from Cons.IH [OF wf' Cons.prems(2) so]
    have "real (grants_among (ask l) env s' es) \<le>
        avail l s' u + real_of_int (last (u # map fst es) - u) / 1000 * refillPerSec l" .
    moreover have "avail l s' u \<le> avail l s u - (if r = Granted then 1 else 0)"
      using balance [OF wfu Cons.prems(2), of u] granted_iff [OF wfu Cons.prems(2)] ask by auto
    ultimately show ?thesis using ask e Ask grow
      by (auto simp: algebra_simps add_divide_distrib diff_divide_distrib)
  qed
qed

end

subsection \<open>The shared store keeps the contract\<close>

definition db_avail :: "string \<Rightarrow> rate_limit_options \<Rightarrow> rate_rows \<Rightarrow> millis \<Rightarrow> real" where
  "db_avail key l rows t =
     (case rows key of
        None \<Rightarrow> capacity l
      | Some (tok, updated) \<Rightarrow> min (capacity l) (tok + elapsed_seconds updated t * refillPerSec l))"

definition db_wf :: "rate_rows \<Rightarrow> millis \<Rightarrow> bool" where
  "db_wf rows t \<longleftrightarrow> (\<forall>key tok updated. rows key = Some (tok, updated) \<longrightarrow> 0 \<le> tok \<and> updated \<le> t)"

text \<open>What else touches the table: a request under another key, or a prune.\<close>

datatype db_disturbance = OtherKey string rate_limit_options | Prune

definition db_env :: "string \<Rightarrow> db_disturbance \<Rightarrow> rate_rows \<Rightarrow> millis \<Rightarrow> rate_rows" where
  "db_env key e rows t =
     (case e of
        OtherKey k l \<Rightarrow>
          if k \<noteq> key \<and> assertPrunable l then fst (consumeViaDatabase rows k l t) else rows
      | Prune \<Rightarrow> pruneStaleSharedBuckets t rows)"

lemma assertPrunable_D:
  assumes "assertPrunable l"
  shows "1 \<le> capacity l" "0 < refillPerSec l" "capacity l \<le> 3600 * refillPerSec l"
  using assms by (auto simp: assertPrunable_def SHARED_STALE_AFTER_MS_def field_simps split: if_splits)

lemma elapsed_later: "updated \<le> t \<Longrightarrow> elapsed_seconds updated t = real_of_int (t - updated) / 1000"
  by (simp add: elapsed_seconds_def)

lemma elapsed_split:
  "updated \<le> t \<Longrightarrow> t \<le> t' \<Longrightarrow>
     elapsed_seconds updated t' = elapsed_seconds updated t + real_of_int (t' - t) / 1000"
  by (simp add: elapsed_seconds_def field_simps)

lemma elapsed_nonneg [simp]: "0 \<le> elapsed_seconds u t"
  by (simp add: elapsed_seconds_def)

lemma db_granted_iff:
  "assertPrunable l \<Longrightarrow> snd (consumeViaDatabase rows key l t) = Granted \<longleftrightarrow> 1 \<le> db_avail key l rows t"
  using assertPrunable_D(1) [of l]
  by (auto simp: consumeViaDatabase_def db_avail_def Let_def split: option.splits)

lemma min_add_min: "0 \<le> (y :: real) \<Longrightarrow> min c (min c x + y) = min c (x + y)"
  by (auto simp: min_def)

lemma db_wf_ask: "assertPrunable l \<Longrightarrow> db_wf rows t \<Longrightarrow> db_wf (fst (consumeViaDatabase rows key l t)) t"
  using assertPrunable_D(1) [of l]
  by (auto simp: consumeViaDatabase_def db_wf_def Let_def split: option.splits)

lemma db_balance:
  assumes wf: "db_wf rows t" and fits: "assertPrunable l" and le: "t \<le> t'"
  shows "db_avail key l (fst (consumeViaDatabase rows key l t)) t' =
     min (capacity l) (db_avail key l rows t - (if 1 \<le> db_avail key l rows t then 1 else 0) +
                       real_of_int (t' - t) / 1000 * refillPerSec l)"
proof (cases "rows key")
  case None
  with assertPrunable_D(1) [OF fits] le show ?thesis
    by (simp add: consumeViaDatabase_def db_avail_def elapsed_later)
next
  case (Some row)
  obtain tok updated where row: "row = (tok, updated)" by fastforce
  from wf Some row have u: "updated \<le> t" by (auto simp: db_wf_def)
  let ?x = "tok + elapsed_seconds updated t * refillPerSec l"
  let ?y = "real_of_int (t' - t) / 1000 * refillPerSec l"
  from le assertPrunable_D(2) [OF fits] have y: "0 \<le> ?y" by simp
  from elapsed_split [OF u le]
  have later: "tok + elapsed_seconds updated t' * refillPerSec l = ?x + ?y"
    by (simp add: algebra_simps)
  show ?thesis
  proof (cases "1 \<le> min (capacity l) ?x")
    case True
    with Some row u le show ?thesis
      by (simp add: consumeViaDatabase_def db_avail_def Let_def max_absorb2 elapsed_later)
  next
    case False
    with Some row later min_add_min [OF y, of "capacity l" ?x] show ?thesis
      by (auto simp: consumeViaDatabase_def db_avail_def Let_def)
  qed
qed

lemma db_env_key:
  "db_wf rows t \<Longrightarrow> assertPrunable l \<Longrightarrow> t \<le> t' \<Longrightarrow>
     db_avail key l (db_env key e rows t) t' = db_avail key l rows t'"
proof (cases e)
  case (OtherKey k l')
  then show ?thesis
    by (auto simp: db_env_def db_avail_def consumeViaDatabase_def Let_def split: option.splits)
next
  case Prune
  assume wf: "db_wf rows t" and fits: "assertPrunable l" and le: "t \<le> t'"
  show ?thesis
  proof (cases "rows key")
    case None
    with Prune show ?thesis
      by (simp add: db_env_def pruneStaleSharedBuckets_def db_avail_def)
  next
    case (Some row)
    obtain tok updated where row: "row = (tok, updated)" by fastforce
    with wf Some have u: "updated \<le> t" "0 \<le> tok" by (auto simp: db_wf_def)
    show ?thesis
    proof (cases "updated < t - SHARED_STALE_AFTER_MS")
      case False
      with Prune Some row show ?thesis
        by (simp add: db_env_def pruneStaleSharedBuckets_def db_avail_def)
    next
      case True
      with le have "3600 \<le> elapsed_seconds updated t'"
        by (simp add: elapsed_seconds_def SHARED_STALE_AFTER_MS_def le_max_iff_disj)
      then have "3600 * refillPerSec l \<le> elapsed_seconds updated t' * refillPerSec l"
        using assertPrunable_D(2) [OF fits] by (intro mult_right_mono) simp_all
      with u assertPrunable_D(3) [OF fits]
      have "capacity l \<le> tok + elapsed_seconds updated t' * refillPerSec l" by simp
      with True Prune Some row show ?thesis
        by (simp add: db_env_def pruneStaleSharedBuckets_def db_avail_def)
    qed
  qed
qed

lemma db_env_wf: "db_wf rows t \<Longrightarrow> db_wf (db_env key e rows t) t"
proof (cases e)
  case (OtherKey k l')
  then show "db_wf rows t \<Longrightarrow> ?thesis" by (auto simp: db_env_def intro: db_wf_ask)
next
  case Prune
  then show "db_wf rows t \<Longrightarrow> ?thesis"
    by (auto simp: db_env_def pruneStaleSharedBuckets_def db_wf_def split: option.splits if_splits)
qed

lemma db_avail_refill:
  "db_wf rows t \<Longrightarrow> assertPrunable l \<Longrightarrow> t \<le> t' \<Longrightarrow>
     db_avail key l rows t' \<le> db_avail key l rows t + real_of_int (t' - t) / 1000 * refillPerSec l"
proof -
  assume wf: "db_wf rows t" and fits: "assertPrunable l" and le: "t \<le> t'"
  from le assertPrunable_D(2) [OF fits] have "0 \<le> real_of_int (t' - t) / 1000 * refillPerSec l" by simp
  moreover have "elapsed_seconds u t' * refillPerSec l =
      elapsed_seconds u t * refillPerSec l + real_of_int (t' - t) / 1000 * refillPerSec l" if "u \<le> t" for u
    using elapsed_split [OF that le] by (simp add: algebra_simps)
  ultimately show ?thesis using wf
    by (auto simp: db_avail_def db_wf_def min_def split: option.splits)
qed

interpretation shared: isolated_bucket "\<lambda>l rows t. consumeViaDatabase rows key l t" "db_avail key"
  db_wf assertPrunable "db_env key"
proof
  fix s t l
  show "db_wf s t \<Longrightarrow> assertPrunable l \<Longrightarrow>
      snd (consumeViaDatabase s key l t) = Granted \<longleftrightarrow> 1 \<le> db_avail key l s t"
    by (rule db_granted_iff)
  show "db_wf s t \<Longrightarrow> assertPrunable l \<Longrightarrow> 0 \<le> db_avail key l s t \<and> db_avail key l s t \<le> capacity l"
    using assertPrunable_D [of l] by (auto simp: db_avail_def db_wf_def split: option.splits)
  show "db_wf s t \<Longrightarrow> assertPrunable l \<Longrightarrow> db_wf (fst (consumeViaDatabase s key l t)) t"
    by (rule db_wf_ask)
  show "db_wf s t \<Longrightarrow> t \<le> t' \<Longrightarrow> db_wf s t'" for t'
    by (force simp: db_wf_def)
  show "db_wf s t \<Longrightarrow> db_wf (db_env key e s t) t" for e by (rule db_env_wf)
  show "assertPrunable l \<Longrightarrow> 0 \<le> refillPerSec l" using assertPrunable_D(2) [of l] by simp
qed (fact db_balance db_env_key db_avail_refill)+

subsection \<open>The per-process store keeps the contract\<close>

text \<open>
  Well-formed at a time: distinct keys, no negative balance, no touch in the future.
\<close>

definition mem_wf :: "bucket_map \<Rightarrow> millis \<Rightarrow> bool" where
  "mem_wf buckets t \<longleftrightarrow> distinct (map fst buckets) \<and>
     (\<forall>e \<in> set buckets. 0 \<le> tokens (snd e) \<and> lastRefillMs (snd e) \<le> t)"

text \<open>
  A budget that refills within the staleness window, so that retiring a stale bucket grants
  nothing a request would not have found.
\<close>

definition mem_fits :: "rate_limit_options \<Rightarrow> bool" where
  "mem_fits l \<longleftrightarrow> 1 \<le> capacity l \<and> 0 \<le> refillPerSec l \<and> capacity l \<le> 600 * refillPerSec l"

definition mem_avail ::
    "(string \<Rightarrow> string) \<Rightarrow> string \<Rightarrow> rate_limit_options \<Rightarrow> bucket_map \<Rightarrow> millis \<Rightarrow> real" where
  "mem_avail sha256hex rawKey l buckets t =
     (case map_of buckets (normalizeBucketKey sha256hex rawKey) of
        None \<Rightarrow> capacity l
      | Some b \<Rightarrow> min (capacity l) (tokens b + elapsed_seconds (lastRefillMs b) t * refillPerSec l))"

lemma retire_suffix: "suffix (retire_from n t bs) bs"
  by (induction n t bs rule: retire_from.induct) (auto intro: suffix_ConsI)

lemma retire_stale:
  "e \<in> set bs \<Longrightarrow> e \<notin> set (retire_from n t bs) \<Longrightarrow> STALE_AFTER_MS < t - lastRefillMs (snd e)"
  by (induction n t bs rule: retire_from.induct) (auto split: if_splits)

lemma retire_subset: "set (retireStaleBuckets t bs) \<subseteq> set bs"
  by (simp add: retireStaleBuckets_def set_mono_suffix [OF retire_suffix])

lemma retire_distinct:
  assumes "distinct (map fst bs)"
  shows "distinct (map fst (retireStaleBuckets t bs))"
proof -
  obtain zs where "bs = zs @ retire_from 0 t bs" using retire_suffix unfolding suffix_def by blast
  with assms have "distinct (map fst zs @ map fst (retire_from 0 t bs))" by (metis map_append)
  then show ?thesis by (simp add: retireStaleBuckets_def)
qed

lemma retire_wf: "mem_wf bs t \<Longrightarrow> mem_wf (retireStaleBuckets t bs) t"
  using retire_subset [of t bs] retire_distinct [of bs t] by (auto simp: mem_wf_def)

lemma retire_lookup:
  assumes "mem_wf bs t"
  shows "map_of (retireStaleBuckets t bs) k = map_of bs k \<or>
    (map_of (retireStaleBuckets t bs) k = None \<and>
     (\<exists>b. map_of bs k = Some b \<and> STALE_AFTER_MS < t - lastRefillMs b))"
proof (cases "map_of (retireStaleBuckets t bs) k")
  case (Some b)
  from Some have "(k, b) \<in> set bs"
    using retire_subset [of t bs] by (blast dest: map_of_SomeD)
  with assms Some show ?thesis by (auto simp: mem_wf_def)
next
  case None
  show ?thesis
  proof (cases "map_of bs k")
    case (Some b)
    then have "(k, b) \<in> set bs" by (rule map_of_SomeD)
    moreover from None have "(k, b) \<notin> set (retire_from 0 t bs)"
      by (force simp: retireStaleBuckets_def map_of_eq_None_iff)
    ultimately have "STALE_AFTER_MS < t - lastRefillMs b" using retire_stale by fastforce
    with None Some show ?thesis by simp
  qed (simp add: None)
qed

text \<open>
  The balance a request finds: stale buckets are retired first. It is the balance of the store for a
  budget that refills within the window, and for any budget while its bucket is not stale.
\<close>

definition asked_bucket ::
    "(string \<Rightarrow> string) \<Rightarrow> string \<Rightarrow> rate_limit_options \<Rightarrow> bucket_map \<Rightarrow> millis \<Rightarrow> real" where
  "asked_bucket sha256hex rawKey l buckets t =
     mem_avail sha256hex rawKey l (retireStaleBuckets t buckets) t"

lemma asked_bucket_eq:
  assumes wf: "mem_wf bs t" and fits: "mem_fits l"
  shows "asked_bucket sha256hex k l bs t = mem_avail sha256hex k l bs t"
  using retire_lookup [OF wf, of "normalizeBucketKey sha256hex k"]
proof (elim disjE conjE exE)
  fix b
  assume none: "map_of (retireStaleBuckets t bs) (normalizeBucketKey sha256hex k) = None"
    and b: "map_of bs (normalizeBucketKey sha256hex k) = Some b" and "STALE_AFTER_MS < t - lastRefillMs b"
  then have "600 \<le> elapsed_seconds (lastRefillMs b) t"
    by (simp add: elapsed_seconds_def STALE_AFTER_MS_def le_max_iff_disj)
  then have "600 * refillPerSec l \<le> elapsed_seconds (lastRefillMs b) t * refillPerSec l"
    using fits by (intro mult_right_mono) (simp_all add: mem_fits_def)
  moreover from wf b have "0 \<le> tokens b" by (force simp: mem_wf_def dest: map_of_SomeD)
  ultimately have "capacity l \<le> tokens b + elapsed_seconds (lastRefillMs b) t * refillPerSec l"
    using fits unfolding mem_fits_def by linarith
  then show ?thesis using none b by (simp add: asked_bucket_def mem_avail_def min_absorb1)
qed (simp add: asked_bucket_def mem_avail_def)

lemma asked_bucket_fresh:
  assumes "mem_wf bs t"
    and "\<And>b. map_of bs (normalizeBucketKey sha256hex k) = Some b \<Longrightarrow> t - lastRefillMs b \<le> STALE_AFTER_MS"
  shows "asked_bucket sha256hex k l bs t = mem_avail sha256hex k l bs t"
  using retire_lookup [OF assms(1), of "normalizeBucketKey sha256hex k"] assms(2)
  by (force simp: asked_bucket_def mem_avail_def)

lemma asked_bucket_range:
  "mem_wf bs t \<Longrightarrow> 1 \<le> capacity l \<Longrightarrow> 0 \<le> refillPerSec l \<Longrightarrow>
     0 \<le> asked_bucket sha256hex k l bs t \<and> asked_bucket sha256hex k l bs t \<le> capacity l"
  using retire_wf [of bs t]
  by (force simp: asked_bucket_def mem_avail_def mem_wf_def dest: map_of_SomeD split: option.splits)

lemma consumeToken_result:
  "snd (consumeToken sha256hex bs k l t) =
     (if 1 \<le> asked_bucket sha256hex k l bs t then Granted
      else Denied (retry_after (asked_bucket sha256hex k l bs t) (refillPerSec l)))"
  by (simp add: consumeToken_def asked_bucket_def mem_avail_def elapsed_seconds_def Let_def
      split: option.splits)

lemma consumeToken_bucket:
  "map_of (fst (consumeToken sha256hex bs k l t)) (normalizeBucketKey sha256hex k) =
     Some \<lparr>tokens = asked_bucket sha256hex k l bs t -
                       (if 1 \<le> asked_bucket sha256hex k l bs t then 1 else 0),
           lastRefillMs = t, bk_capacity = capacity l, bk_refillPerSec = refillPerSec l\<rparr>"
  unfolding consumeToken_def asked_bucket_def mem_avail_def
  by (cases "map_of (retireStaleBuckets t bs) (normalizeBucketKey sha256hex k)")
    (simp_all add: Let_def map_add_def map_delete_lookup elapsed_seconds_def split: if_splits)

text \<open>The rest of the store after a request: what was there, less what was retired or evicted.\<close>

definition kept_buckets ::
    "(string \<Rightarrow> string) \<Rightarrow> bucket_map \<Rightarrow> string \<Rightarrow> millis \<Rightarrow> bucket_map" where
  "kept_buckets sha256hex bs k t =
     (let r = retireStaleBuckets t bs in
      map_delete (normalizeBucketKey sha256hex k)
        (if map_of r (normalizeBucketKey sha256hex k) = None \<and> length r \<ge> MAX_BUCKETS
         then evictLeastRecentlyUsed r else r))"

lemma consumeToken_shape:
  "\<exists>b. fst (consumeToken sha256hex bs k l t) =
     kept_buckets sha256hex bs k t @ [(normalizeBucketKey sha256hex k, b)]"
  by (simp add: consumeToken_def kept_buckets_def Let_def)

lemma kept_buckets_subset: "set (kept_buckets sha256hex bs k t) \<subseteq> set bs"
proof -
  have "set (tl xs) \<subseteq> set xs" for xs :: bucket_map by (cases xs) auto
  then show ?thesis using retire_subset [of t bs]
    by (auto simp: kept_buckets_def Let_def map_delete_def evictLeastRecentlyUsed_def
        split: if_splits)
qed

lemma kept_buckets_distinct:
  assumes "distinct (map fst bs)"
  shows "distinct (map fst (kept_buckets sha256hex bs k t))"
    "normalizeBucketKey sha256hex k \<notin> fst ` set (kept_buckets sha256hex bs k t)"
  using retire_distinct [OF assms, of t]
  by (auto simp: kept_buckets_def Let_def map_delete_def evictLeastRecentlyUsed_def
      map_tl distinct_tl intro!: distinct_map_filter)

lemma consumeToken_others:
  assumes "distinct (map fst bs)" "e \<in> set (fst (consumeToken sha256hex bs k l t))"
  shows "e \<in> set bs \<or> (fst e = normalizeBucketKey sha256hex k \<and>
    map_of (fst (consumeToken sha256hex bs k l t)) (fst e) = Some (snd e))"
proof -
  obtain b where s: "fst (consumeToken sha256hex bs k l t) =
     kept_buckets sha256hex bs k t @ [(normalizeBucketKey sha256hex k, b)]"
    using consumeToken_shape by blast
  have "map_of (kept_buckets sha256hex bs k t) (normalizeBucketKey sha256hex k) = None"
    using kept_buckets_distinct(2) [OF assms(1)] by (simp add: map_of_eq_None_iff)
  then show ?thesis
    using assms(2) s kept_buckets_subset [of sha256hex bs k t] by (auto simp: map_add_def)
qed

lemma consumeToken_distinct:
  assumes "distinct (map fst bs)"
  shows "distinct (map fst (fst (consumeToken sha256hex bs k l t)))"
  using consumeToken_shape [of sha256hex bs k l t] kept_buckets_distinct [OF assms] by auto

lemma mem_avail_range:
  "mem_wf bs t \<Longrightarrow> mem_fits l \<Longrightarrow> 0 \<le> mem_avail sha256hex k l bs t \<and> mem_avail sha256hex k l bs t \<le> capacity l"
  by (force simp: mem_avail_def mem_wf_def mem_fits_def dest: map_of_SomeD split: option.splits)

lemma mem_wf_consume:
  assumes "mem_wf bs t" "1 \<le> capacity l" "0 \<le> refillPerSec l"
  shows "mem_wf (fst (consumeToken sha256hex bs k l t)) t"
  unfolding mem_wf_def
proof (intro conjI ballI)
  show "distinct (map fst (fst (consumeToken sha256hex bs k l t)))"
    using assms(1) by (intro consumeToken_distinct) (simp add: mem_wf_def)
  fix e
  assume "e \<in> set (fst (consumeToken sha256hex bs k l t))"
  then consider "e \<in> set bs" | "snd e = \<lparr>tokens = asked_bucket sha256hex k l bs t -
      (if 1 \<le> asked_bucket sha256hex k l bs t then 1 else 0),
      lastRefillMs = t, bk_capacity = capacity l, bk_refillPerSec = refillPerSec l\<rparr>"
    using consumeToken_others [of bs e] consumeToken_bucket [of sha256hex bs k l t] assms(1)
    unfolding mem_wf_def by (metis option.inject)
  then show "0 \<le> tokens (snd e)" "lastRefillMs (snd e) \<le> t"
    using assms(1) asked_bucket_range [OF assms, of sha256hex k] by (cases; simp add: mem_wf_def)+
qed

lemma mem_wf_ask: "mem_wf bs t \<Longrightarrow> mem_fits l \<Longrightarrow> mem_wf (fst (consumeToken sha256hex bs k l t)) t"
  by (rule mem_wf_consume) (simp_all add: mem_fits_def)

lemma balance_after:
  assumes "t \<le> t'"
  shows "mem_avail sha256hex k l (fst (consumeToken sha256hex bs k l t)) t' =
     min (capacity l) (asked_bucket sha256hex k l bs t - (if 1 \<le> asked_bucket sha256hex k l bs t then 1 else 0) +
                       real_of_int (t' - t) / 1000 * refillPerSec l)"
  unfolding mem_avail_def [of _ _ _ "fst (consumeToken sha256hex bs k l t)"] consumeToken_bucket
  using assms by (simp add: elapsed_later)

lemma mem_balance:
  assumes "mem_wf bs t" "mem_fits l" "t \<le> t'"
  shows "mem_avail sha256hex k l (fst (consumeToken sha256hex bs k l t)) t' =
     min (capacity l) (mem_avail sha256hex k l bs t - (if 1 \<le> mem_avail sha256hex k l bs t then 1 else 0) +
                       real_of_int (t' - t) / 1000 * refillPerSec l)"
  using balance_after [OF assms(3), of sha256hex k l bs] by (simp add: asked_bucket_eq [OF assms(1,2)])

interpretation memory: token_bucket "\<lambda>l bs t. consumeToken sha256hex bs k l t" "mem_avail sha256hex k"
  mem_wf mem_fits
proof
  fix s t l
  show "mem_wf s t \<Longrightarrow> mem_fits l \<Longrightarrow>
      snd (consumeToken sha256hex s k l t) = Granted \<longleftrightarrow> 1 \<le> mem_avail sha256hex k l s t"
    by (simp add: consumeToken_result asked_bucket_eq)
  show "mem_wf s t \<Longrightarrow> t \<le> t' \<Longrightarrow> mem_wf s t'" for t'
    by (force simp: mem_wf_def)
qed (fact mem_balance mem_avail_range mem_wf_ask)+

subsection \<open>Properties\<close>

text \<open>
  C37: on the shared store, whatever other keys do and whenever stale rows are pruned, the
  requests granted under one key between two times never exceed the bucket's capacity plus
  what refills between them.
\<close>

theorem shared_limit_holds:
  assumes "assertPrunable l" and "db_wf rows t" and "sorted (t # map fst es)"
  shows "real (grants_among (\<lambda>rows t. consumeViaDatabase rows key l t) (db_env key) rows es) \<le>
    capacity l + real_of_int (last (t # map fst es) - t) / 1000 * refillPerSec l"
  using shared.grants_among_bound [OF assms(2,1,3), of key]
    shared.avail_range [OF assms(2,1), of key] by linarith

lemma shared_limit_holds_witness:
  "real (grants_among (\<lambda>rows t. consumeViaDatabase rows ''a'' \<lparr>capacity = 1, refillPerSec = 1\<rparr> t)
     (db_env ''a'') Map.empty
     [(0, Ask), (0, Ask), (500, Env (OtherKey ''b'' \<lparr>capacity = 2, refillPerSec = 1\<rparr>)),
      (1000, Ask), (1000, Env Prune)]) \<le>
   1 + real_of_int (1000 - 0) / 1000 * 1"
proof -
  let ?l = "\<lparr>capacity = 1, refillPerSec = 1\<rparr>"
  let ?es = "[(0, Ask), (0, Ask), (500, Env (OtherKey ''b'' \<lparr>capacity = 2, refillPerSec = 1\<rparr>)),
      (1000, Ask), (1000, Env Prune)]"
  have a: "assertPrunable ?l" by (simp add: assertPrunable_def SHARED_STALE_AFTER_MS_def)
  have w: "db_wf Map.empty 0" by (simp add: db_wf_def)
  have s: "sorted ((0 :: millis) # map fst ?es)" by simp
  show ?thesis using shared_limit_holds [OF a w s, of "''a''"] by simp
qed

text \<open>
  The per-process store bounds the requests granted under one key in the same way, for
  every budget that refills within the staleness window. Two of the program's budgets do not
  (lemma slow_budget_retired).
\<close>

lemma memory_limit_holds:
  assumes "mem_fits l" and "mem_wf buckets t" and "sorted (t # ts)"
  shows "real (grants_of (\<lambda>bs t. consumeToken sha256hex bs k l t) buckets (t # ts)) \<le>
    capacity l + real_of_int (last (t # ts) - t) / 1000 * refillPerSec l"
  using memory.grants_bound [OF assms(2,1,3), of sha256hex k]
    memory.avail_range [OF assms(2,1), of sha256hex k] by linarith

lemma memory_limit_holds_witness:
  "real (grants_of (\<lambda>bs t. consumeToken (\<lambda>_. ''h'') bs ''k'' DEFAULT_ADMIN_EXPORT_LIMIT t) []
     [0, 0, 0, 20000]) \<le> 3 + real_of_int 20000 / 1000 * (1 / 20)"
proof -
  have f: "mem_fits DEFAULT_ADMIN_EXPORT_LIMIT"
    by (simp add: mem_fits_def DEFAULT_ADMIN_EXPORT_LIMIT_def)
  have w: "mem_wf [] 0" by (simp add: mem_wf_def)
  have s: "sorted [0 :: millis, 0, 0, 20000]" by simp
  show ?thesis using memory_limit_holds [OF f w s, of "\<lambda>_. ''h''" "''k''"]
    by (simp add: DEFAULT_ADMIN_EXPORT_LIMIT_def)
qed

text \<open>
  The comment on the eviction policy calls a stale bucket one idle long enough to have refilled to
  full. For these two budgets, used on the shared store and so on its per-process fallback, it has
  not: one millisecond past the window a request finds a full bucket that the database would still
  hold half empty.
\<close>

lemma slow_budget_retired:
  assumes "l = SIGN_IN_EMAIL_LIMIT \<or> l = ADMIN_TEST_EMAIL_LIMIT"
  shows "assertPrunable l \<and> \<not> mem_fits l \<and>
    (let bs = [(normalizeBucketKey sha256hex k, \<lparr>tokens = 0, lastRefillMs = 0, bk_capacity = 10, bk_refillPerSec = refillPerSec l\<rparr>)]
     in mem_wf bs 600001 \<and> mem_avail sha256hex k l bs 600001 < 7 \<and> asked_bucket sha256hex k l bs 600001 = 10)"
  using assms
  by (elim disjE) (simp_all add: SIGN_IN_EMAIL_LIMIT_def ADMIN_TEST_EMAIL_LIMIT_def assertPrunable_def
      SHARED_STALE_AFTER_MS_def mem_fits_def mem_wf_def mem_avail_def asked_bucket_def retireStaleBuckets_def
      MAX_EVICTIONS_PER_CONSUME_def STALE_AFTER_MS_def elapsed_seconds_def)

text \<open>
  C38: Under one clock the two stores answer alike: when a request finds the same balance in both,
  they grant or deny it with the same wait, and the next request under its key finds the same
  balance in both again - whenever it comes, for a budget that refills within ten minutes, and
  within ten minutes for any other budget the shared store admits. After that the per-process
  store has retired the bucket and grants a full one, which the sign-in and the test-mail budget show
  (lemma slow_budget_retired). Between the two requests no other key has pushed the bucket out of
  the per-process store, which it can when the store is at its cap.
\<close>

theorem stores_agree:
  assumes "assertPrunable l" "db_wf rows t" "mem_wf buckets t"
    and "db_avail (normalizeBucketKey sha256hex k) l rows t = asked_bucket sha256hex k l buckets t"
  shows "snd (consumeViaDatabase rows (normalizeBucketKey sha256hex k) l t) =
           snd (consumeToken sha256hex buckets k l t) \<and>
    (\<forall>t' \<ge> t. capacity l \<le> 600 * refillPerSec l \<or> t' \<le> t + STALE_AFTER_MS \<longrightarrow>
       db_avail (normalizeBucketKey sha256hex k) l
         (fst (consumeViaDatabase rows (normalizeBucketKey sha256hex k) l t)) t' =
       asked_bucket sha256hex k l (fst (consumeToken sha256hex buckets k l t)) t')"
proof -
  let ?bs = "fst (consumeToken sha256hex buckets k l t)"
  note l = assertPrunable_D [OF assms(1)]
  have "snd (consumeViaDatabase rows (normalizeBucketKey sha256hex k) l t) =
     (let a = db_avail (normalizeBucketKey sha256hex k) l rows t
      in if 1 \<le> a then Granted else Denied (retry_after a (refillPerSec l)))"
    using l(1) by (auto simp: consumeViaDatabase_def db_avail_def Let_def split: option.splits)
  moreover have "asked_bucket sha256hex k l ?bs t' = mem_avail sha256hex k l ?bs t'"
    if t': "t \<le> t'" "capacity l \<le> 600 * refillPerSec l \<or> t' \<le> t + STALE_AFTER_MS" for t'
  proof -
    have wf: "mem_wf ?bs t'" using mem_wf_consume [OF assms(3), of l] l(1,2) t'(1) by (fastforce simp: mem_wf_def)
    from t'(2) show ?thesis
    proof
      assume "capacity l \<le> 600 * refillPerSec l"
      with l(1,2) show ?thesis by (intro asked_bucket_eq [OF wf]) (simp add: mem_fits_def)
    next
      assume "t' \<le> t + STALE_AFTER_MS"
      then show ?thesis by (intro asked_bucket_fresh [OF wf]) (auto simp: consumeToken_bucket)
    qed
  qed
  ultimately show ?thesis
    using assms by (simp add: consumeToken_result balance_after db_balance Let_def)
qed

text \<open>The sign-in budget, and a second attempt ten minutes after the first.\<close>

lemma stores_agree_witness:
  "let l = SIGN_IN_EMAIL_LIMIT; key = normalizeBucketKey (\<lambda>_. ''h'') ''k'';
       rows = fst (consumeViaDatabase Map.empty key l 0); bs = fst (consumeToken (\<lambda>_. ''h'') [] ''k'' l 0)
   in snd (consumeViaDatabase Map.empty key l 0) = snd (consumeToken (\<lambda>_. ''h'') [] ''k'' l 0) \<and>
      db_avail key l rows 600000 = asked_bucket (\<lambda>_. ''h'') ''k'' l bs 600000"
proof -
  let ?l = SIGN_IN_EMAIL_LIMIT
  have 1: "assertPrunable ?l" by (simp add: assertPrunable_def SHARED_STALE_AFTER_MS_def SIGN_IN_EMAIL_LIMIT_def)
  have 2: "db_wf Map.empty 0" "mem_wf [] 0" by (simp_all add: db_wf_def mem_wf_def)
  have 3: "db_avail (normalizeBucketKey (\<lambda>_. ''h'') ''k'') ?l Map.empty 0 = asked_bucket (\<lambda>_. ''h'') ''k'' ?l [] 0"
    by (simp add: db_avail_def asked_bucket_def mem_avail_def retireStaleBuckets_def)
  show ?thesis using stores_agree [OF 1 2 3] by (simp add: Let_def STALE_AFTER_MS_def)
qed

text \<open>Memory is bounded: neither the number of buckets nor the length of a key grows.\<close>

lemma retire_length: "length (retireStaleBuckets t bs) \<le> length bs"
  by (simp add: retireStaleBuckets_def suffix_length_le [OF retire_suffix])

lemma kept_buckets_room:
  assumes "length bs \<le> MAX_BUCKETS"
  shows "length (kept_buckets sha256hex bs k t) < MAX_BUCKETS"
proof -
  let ?r = "retireStaleBuckets t bs" and ?k = "normalizeBucketKey sha256hex k"
  have r: "length ?r \<le> MAX_BUCKETS" using retire_length assms by (rule le_trans)
  have t: "length (map_delete ?k (tl ?r)) \<le> length ?r - 1"
    using length_map_delete_le [of ?k "tl ?r"] by simp
  show ?thesis
  proof (cases "map_of ?r ?k")
    case None
    have "0 < MAX_BUCKETS" by (simp add: MAX_BUCKETS_def)
    with None r t length_map_delete_le [of ?k ?r] show ?thesis
      unfolding kept_buckets_def Let_def evictLeastRecentlyUsed_def
      by (cases "length ?r \<ge> MAX_BUCKETS") simp_all
  qed (use length_map_delete_present [of ?r ?k] r in \<open>simp add: kept_buckets_def Let_def\<close>)
qed

text \<open>
  The per-process store never holds more than its maximum number of buckets and never a
  key longer than the bound, whatever keys callers present, given digests of at most 64
  characters.
\<close>

lemma memory_stays_bounded:
  assumes "length buckets \<le> MAX_BUCKETS" "list_all (\<lambda>e. length (fst e) \<le> MAX_KEY_LENGTH) buckets"
    and "\<forall>s. length (sha256hex s) \<le> 64"
  shows "length (fst (consumeToken sha256hex buckets k l t)) \<le> MAX_BUCKETS \<and>
    list_all (\<lambda>e. length (fst e) \<le> MAX_KEY_LENGTH) (fst (consumeToken sha256hex buckets k l t))"
proof
  let ?s = "fst (consumeToken sha256hex buckets k l t)"
  obtain b where s: "?s = kept_buckets sha256hex buckets k t @ [(normalizeBucketKey sha256hex k, b)]"
    using consumeToken_shape by blast
  show "length ?s \<le> MAX_BUCKETS"
    using kept_buckets_room [OF assms(1)] by (simp add: s Suc_le_eq)
  have "length (normalizeBucketKey sha256hex k) \<le> MAX_KEY_LENGTH"
    using assms(3) [rule_format, of k] by (simp add: normalizeBucketKey_def MAX_KEY_LENGTH_def)
  then show "list_all (\<lambda>e. length (fst e) \<le> MAX_KEY_LENGTH) ?s"
    using assms(2) kept_buckets_subset [of sha256hex buckets k t] by (auto simp: s list_all_iff)
qed

lemma memory_stays_bounded_witness:
  "length (fst (consumeToken (\<lambda>_. ''h'') [] ''k'' DENIAL_AUDIT_LIMIT 0)) \<le> MAX_BUCKETS \<and>
    list_all (\<lambda>e. length (fst e) \<le> MAX_KEY_LENGTH)
      (fst (consumeToken (\<lambda>_. ''h'') [] ''k'' DENIAL_AUDIT_LIMIT 0))"
  by (rule memory_stays_bounded) simp_all

end
