(* ===== verification/Credentials.thy ===== *)
theory Credentials
  imports AuthStatus "HOL-Library.Word"
begin

text \<open>
  The machine credentials (\<open>src/lib/api-auth/\<close>): the API key codec, the two credential tables
  with the operations that mint, rotate, revoke and verify a row, the check that the source of
  an access token is still live, the issuance fence, and the eviction that ends every
  credential of an account. SHA-256 is the argument \<open>sha256hex\<close>; random bytes, fresh row ids
  and the clock are arguments of the operations that draw them.
\<close>

subsection \<open>Tables\<close>

record api_key_row =
  ak_id :: uuid
  ak_app_user_id :: uuid
  ak_organization_id :: "uuid option"
  ak_name :: string
  ak_key_prefix :: string
  ak_key_hash :: string
  ak_scopes :: "string list"
  ak_status :: string
  ak_expires_at :: "millis option"
  ak_last_used_at :: "millis option"
  ak_last_used_ip :: "string option"
  ak_created_by :: uuid
  ak_created_at :: millis
  ak_revoked_at :: "millis option"
  ak_revoked_by :: "uuid option"
  ak_revoked_reason :: "string option"

record oauth_client_row =
  oc_id :: uuid
  oc_client_id :: string
  oc_client_secret_hash :: string
  oc_app_user_id :: uuid
  oc_organization_id :: "uuid option"
  oc_name :: string
  oc_scopes :: "string list"
  oc_status :: string
  oc_created_at :: millis
  oc_created_by :: uuid
  oc_revoked_at :: "millis option"
  oc_revoked_by :: "uuid option"
  oc_secret_rotated_at :: "millis option"

record auth_session_row =
  as_id :: uuid
  as_user_id :: uuid
  as_expires_at :: millis
  as_impersonated_by :: "uuid option"

record credential_store =
  app_api_keys :: "api_key_row table"
  app_oauth_clients :: "oauth_client_row table"
  auth_sessions :: "auth_session_row table"

subsection \<open>The API key codec\<close>

datatype api_key_env_tag = LiveTag | TestTag

fun env_tag_text :: "api_key_env_tag \<Rightarrow> string" where
  "env_tag_text LiveTag = ''live''"
| "env_tag_text TestTag = ''test''"

definition API_KEY_PRODUCT_PREFIX :: string where
  "API_KEY_PRODUCT_PREFIX = ''drk''"

definition BASE62 :: string where
  "BASE62 = ''0123456789ABCDEFGHIJKLMNOPQRSTUVWXYZabcdefghijklmnopqrstuvwxyz''"

definition RANDOM_LENGTH :: nat where
  "RANDOM_LENGTH = 32"

definition DISPLAY_RANDOM_CHARS :: nat where
  "DISPLAY_RANDOM_CHARS = 8"

definition looksLikeApiKey :: "string \<Rightarrow> bool" where
  "looksLikeApiKey token = starts_with token (API_KEY_PRODUCT_PREFIX @ ''_'')"

text \<open>The bytes are those \<open>getRandomValues\<close> filled the array with.\<close>

definition randomBase62 :: "8 word list \<Rightarrow> string" where
  "randomBase62 bytes = map (\<lambda>b. BASE62 ! (unat b mod length BASE62)) bytes"

record generated_api_key =
  gk_plaintext :: string
  gk_prefix :: string

definition generateApiKey :: "api_key_env_tag \<Rightarrow> 8 word list \<Rightarrow> generated_api_key" where
  "generateApiKey tag bytes =
     (let random = randomBase62 bytes;
          head = API_KEY_PRODUCT_PREFIX @ ''_'' @ env_tag_text tag @ ''_''
      in \<lparr>gk_plaintext = head @ random, gk_prefix = head @ take DISPLAY_RANDOM_CHARS random\<rparr>)"

definition deriveApiKeyPrefix :: "string \<Rightarrow> string" where
  "deriveApiKeyPrefix plaintext =
     (let parts = split_on CHR ''_'' plaintext
      in if length parts < 3 then take 12 plaintext
         else (let product = parts ! 0; tag = parts ! 1; random = join_with CHR ''_'' (drop 2 parts)
               in product @ ''_'' @ tag @ ''_'' @ take DISPLAY_RANDOM_CHARS random))"

subsection \<open>References to a credential\<close>

datatype credential_kind = KindApiKey | KindOauthClient

record token_credential_ref =
  ref_kind :: credential_kind
  ref_id :: uuid

datatype caller_source =
  SessionSource uuid
| ApiKeySource uuid
| TokenSource token_credential_ref millis

definition readActiveSourceCredential ::
    "credential_store \<Rightarrow> millis \<Rightarrow> token_credential_ref \<Rightarrow> millis \<Rightarrow> string list option" where
  "readActiveSourceCredential cs now credential issuedAt =
     (case ref_kind credential of
        KindApiKey \<Rightarrow>
          (case List.find (\<lambda>k. ak_id k = ref_id credential) (app_api_keys cs) of
             None \<Rightarrow> None
           | Some row \<Rightarrow>
               if ak_status row \<noteq> ''active'' then None
               else if (case ak_expires_at row of None \<Rightarrow> False | Some e \<Rightarrow> e \<le> now) then None
               else Some (ak_scopes row))
      | KindOauthClient \<Rightarrow>
          (case List.find (\<lambda>c. oc_id c = ref_id credential) (app_oauth_clients cs) of
             None \<Rightarrow> None
           | Some row \<Rightarrow>
               if oc_status row \<noteq> ''active'' then None
               else if (case oc_secret_rotated_at row of None \<Rightarrow> False | Some t \<Rightarrow> t > issuedAt) then None
               else Some (oc_scopes row)))"

definition isSourceCredentialActive ::
    "credential_store \<Rightarrow> millis \<Rightarrow> token_credential_ref \<Rightarrow> millis \<Rightarrow> bool" where
  "isSourceCredentialActive cs now credential issuedAt \<longleftrightarrow>
     readActiveSourceCredential cs now credential issuedAt \<noteq> None"

definition isCallerSourceLive :: "credential_store \<Rightarrow> millis \<Rightarrow> caller_source \<Rightarrow> bool" where
  "isCallerSourceLive cs now source =
     (case source of
        SessionSource sid \<Rightarrow> (\<exists>s \<in> set (auth_sessions cs). as_id s = sid \<and> as_expires_at s > now)
      | ApiKeySource kid \<Rightarrow>
          isSourceCredentialActive cs now \<lparr>ref_kind = KindApiKey, ref_id = kid\<rparr> now
      | TokenSource credential issuedAt \<Rightarrow> isSourceCredentialActive cs now credential issuedAt)"

text \<open>
  What an issuance can raise: the fence's refusal, or the unique index of the hash column.
\<close>

datatype issuance_error = IssuingCredentialRevoked | UniqueViolation

text \<open>
  The fence as one transaction sees it: its row lock orders it against the others
  (the interleavings are in theory \<open>IssuanceFence\<close>), then it re-checks the calling credential.
\<close>

definition enterIssuanceFence :: "credential_store \<Rightarrow> millis \<Rightarrow> caller_source \<Rightarrow> issuance_error option" where
  "enterIssuanceFence cs now issuedVia =
     (if isCallerSourceLive cs now issuedVia then None else Some IssuingCredentialRevoked)"

subsection \<open>API keys\<close>

record create_api_key_input =
  ci_ownerAppUserId :: uuid
  ci_organizationId :: "uuid option"
  ci_name :: string
  ci_scopes :: "string list"
  ci_expiresAt :: "millis option"
  ci_createdByAppUserId :: uuid
  ci_issuedVia :: "caller_source option"

definition insert_api_key ::
    "credential_store \<Rightarrow> api_key_row \<Rightarrow> issuance_error + credential_store" where
  "insert_api_key cs row =
     (if ak_key_hash row \<in> ak_key_hash ` set (app_api_keys cs) then Inl UniqueViolation
      else Inr (cs\<lparr>app_api_keys := app_api_keys cs @ [row]\<rparr>))"

definition createApiKey ::
    "(string \<Rightarrow> string) \<Rightarrow> api_key_env_tag \<Rightarrow> credential_store \<Rightarrow> millis \<Rightarrow> uuid \<Rightarrow> 8 word list \<Rightarrow>
     create_api_key_input \<Rightarrow> issuance_error + credential_store \<times> api_key_row \<times> string" where
  "createApiKey sha256hex tag cs now newId bytes inp =
     (let gen = generateApiKey tag bytes;
          row = \<lparr>ak_id = newId, ak_app_user_id = ci_ownerAppUserId inp,
                 ak_organization_id = ci_organizationId inp, ak_name = ci_name inp,
                 ak_key_prefix = gk_prefix gen, ak_key_hash = sha256hex (gk_plaintext gen),
                 ak_scopes = ci_scopes inp, ak_status = ''active'', ak_expires_at = ci_expiresAt inp,
                 ak_last_used_at = None, ak_last_used_ip = None,
                 ak_created_by = ci_createdByAppUserId inp, ak_created_at = now,
                 ak_revoked_at = None, ak_revoked_by = None, ak_revoked_reason = None\<rparr>;
          refused = (case ci_issuedVia inp of None \<Rightarrow> None | Some src \<Rightarrow> enterIssuanceFence cs now src)
      in case refused of
           Some e \<Rightarrow> Inl e
         | None \<Rightarrow> (case insert_api_key cs row of
                      Inl e \<Rightarrow> Inl e
                    | Inr cs' \<Rightarrow> Inr (cs', row, gk_plaintext gen)))"

text \<open>The tenant an account-wide listing is confined to; the outer \<open>None\<close> is no confinement.\<close>

record api_key_org_confinement =
  cf_organizationId :: "uuid option"

definition listApiKeysForUser ::
    "credential_store \<Rightarrow> uuid \<Rightarrow> api_key_org_confinement option \<Rightarrow> api_key_row list" where
  "listApiKeysForUser cs uid confinement =
     (case confinement of
        Some cf \<Rightarrow>
          (case cf_organizationId cf of
             None \<Rightarrow> []
           | Some oid \<Rightarrow>
               rev (sort_key ak_created_at
                 (filter (\<lambda>k. ak_app_user_id k = uid \<and> ak_organization_id k = Some oid) (app_api_keys cs))))
      | None \<Rightarrow> rev (sort_key ak_created_at (filter (\<lambda>k. ak_app_user_id k = uid) (app_api_keys cs))))"

definition getApiKeyById :: "credential_store \<Rightarrow> uuid \<Rightarrow> api_key_row option" where
  "getApiKeyById cs kid = List.find (\<lambda>k. ak_id k = kid) (app_api_keys cs)"

definition revoke_key_row :: "millis \<Rightarrow> uuid \<Rightarrow> string option \<Rightarrow> api_key_row \<Rightarrow> api_key_row" where
  "revoke_key_row now revokedBy reason k =
     k\<lparr>ak_status := ''revoked'', ak_revoked_at := Some now, ak_revoked_by := Some revokedBy,
       ak_revoked_reason := reason\<rparr>"

definition revokeApiKey ::
    "credential_store \<Rightarrow> millis \<Rightarrow> uuid \<Rightarrow> uuid \<Rightarrow> string option \<Rightarrow> credential_store \<times> bool" where
  "revokeApiKey cs now kid revokedBy reason =
     (let hit = (\<lambda>k. ak_id k = kid \<and> ak_status k = ''active'')
      in (cs\<lparr>app_api_keys := update_where hit (revoke_key_row now revokedBy reason) (app_api_keys cs)\<rparr>,
          count_where hit (app_api_keys cs) > 0))"

definition revokeActiveApiKeysOf ::
    "credential_store \<Rightarrow> millis \<Rightarrow> uuid \<Rightarrow> uuid \<Rightarrow> string \<Rightarrow>
     credential_store \<times> (uuid \<times> uuid option) list" where
  "revokeActiveApiKeysOf cs now ownerId revokedBy reason =
     (let hit = (\<lambda>k. ak_app_user_id k = ownerId \<and> ak_status k = ''active'')
      in (cs\<lparr>app_api_keys :=
               update_where hit (revoke_key_row now revokedBy (Some reason)) (app_api_keys cs)\<rparr>,
          map (\<lambda>k. (ak_id k, ak_organization_id k)) (filter hit (app_api_keys cs))))"

definition rotateApiKey ::
    "(string \<Rightarrow> string) \<Rightarrow> api_key_env_tag \<Rightarrow> credential_store \<Rightarrow> credential_store \<Rightarrow> millis \<Rightarrow>
     uuid \<Rightarrow> 8 word list \<Rightarrow> uuid \<Rightarrow> uuid \<Rightarrow>
     issuance_error + credential_store \<times> (api_key_row \<times> string) option" where
  "rotateApiKey sha256hex tag csRead cs now newId bytes kid actor =
     (case getApiKeyById csRead kid of
        None \<Rightarrow> Inr (cs, None)
      | Some existing \<Rightarrow>
          if ak_status existing \<noteq> ''active'' then Inr (cs, None)
          else
            (let gen = generateApiKey tag bytes;
                 retired = revokeApiKey cs now kid actor (Some ''rotated'')
             in if \<not> snd retired then Inr (cs, None)
                else
                  (let row = \<lparr>ak_id = newId, ak_app_user_id = ak_app_user_id existing,
                         ak_organization_id = ak_organization_id existing, ak_name = ak_name existing,
                         ak_key_prefix = gk_prefix gen, ak_key_hash = sha256hex (gk_plaintext gen),
                         ak_scopes = ak_scopes existing, ak_status = ''active'',
                         ak_expires_at = ak_expires_at existing, ak_last_used_at = None,
                         ak_last_used_ip = None, ak_created_by = actor, ak_created_at = now,
                         ak_revoked_at = None, ak_revoked_by = None, ak_revoked_reason = None\<rparr>
                   in case insert_api_key (fst retired) row of
                        Inl e \<Rightarrow> Inl e
                      | Inr cs' \<Rightarrow> Inr (cs', Some (row, gk_plaintext gen)))))"

record verified_api_key =
  vk_id :: uuid
  vk_appUserId :: uuid
  vk_betterAuthUserId :: uuid
  vk_organizationId :: "uuid option"
  vk_scopes :: "string list"
  vk_expiresAt :: "millis option"

text \<open>The inner join of the two tables: an owner row must exist.\<close>

definition app_user_by_id :: "db \<Rightarrow> uuid \<Rightarrow> app_user_row option" where
  "app_user_by_id d uid = List.find (\<lambda>u. au_id u = uid) (app_users d)"

definition verifyApiKey ::
    "(string \<Rightarrow> string) \<Rightarrow> db \<Rightarrow> credential_store \<Rightarrow> millis \<Rightarrow> string \<Rightarrow> verified_api_key option" where
  "verifyApiKey sha256hex d cs now plaintext =
     (case List.find (\<lambda>k. ak_key_hash k = sha256hex plaintext \<and> app_user_by_id d (ak_app_user_id k) \<noteq> None)
             (app_api_keys cs) of
        None \<Rightarrow> None
      | Some row \<Rightarrow>
          if ak_status row \<noteq> ''active'' then None
          else if (case ak_expires_at row of None \<Rightarrow> False | Some e \<Rightarrow> e \<le> now) then None
          else map_option
                 (\<lambda>u. \<lparr>vk_id = ak_id row, vk_appUserId = ak_app_user_id row,
                       vk_betterAuthUserId = au_better_auth_user_id u,
                       vk_organizationId = ak_organization_id row, vk_scopes = ak_scopes row,
                       vk_expiresAt = ak_expires_at row\<rparr>)
                 (app_user_by_id d (ak_app_user_id row)))"

definition MAX_TRACKED_USAGE_KEYS :: nat where
  "MAX_TRACKED_USAGE_KEYS = 5000"

text \<open>
  The usage stamp: the in-process throttle first, then the same interval on the row. The
  statement runs at the database's time \<open>dbNow\<close>; its failure changes nothing.
\<close>

definition touchApiKeyUsage ::
    "int \<Rightarrow> (uuid \<times> millis) list \<Rightarrow> credential_store \<Rightarrow> uuid \<Rightarrow> string option \<Rightarrow> millis \<Rightarrow> millis \<Rightarrow>
     (uuid \<times> millis) list \<times> credential_store" where
  "touchApiKeyUsage intervalSeconds touched cs kid ip nowMs dbNow =
     (case map_of touched kid of
        Some lastTouch \<Rightarrow>
          if nowMs - lastTouch < intervalSeconds * 1000 then (touched, cs)
          else (map_delete kid touched @ [(kid, nowMs)],
                cs\<lparr>app_api_keys := update_where
                     (\<lambda>k. ak_id k = kid \<and>
                        (case ak_last_used_at k of None \<Rightarrow> True | Some u \<Rightarrow> u < dbNow - intervalSeconds * 1000))
                     (\<lambda>k. k\<lparr>ak_last_used_at := Some dbNow, ak_last_used_ip := ip\<rparr>) (app_api_keys cs)\<rparr>)
      | None \<Rightarrow>
          (let room = (if length touched \<ge> MAX_TRACKED_USAGE_KEYS then tl touched else touched)
           in (map_delete kid room @ [(kid, nowMs)],
               cs\<lparr>app_api_keys := update_where
                    (\<lambda>k. ak_id k = kid \<and>
                       (case ak_last_used_at k of None \<Rightarrow> True | Some u \<Rightarrow> u < dbNow - intervalSeconds * 1000))
                    (\<lambda>k. k\<lparr>ak_last_used_at := Some dbNow, ak_last_used_ip := ip\<rparr>) (app_api_keys cs)\<rparr>)))"

subsection \<open>OAuth clients\<close>

definition CLIENT_ID_PREFIX :: string where
  "CLIENT_ID_PREFIX = ''drkc''"

text \<open>\<open>Buffer.from(s, "hex")\<close> stops at the first pair that is not two hexadecimal digits.\<close>

definition hex_digit_value :: "char \<Rightarrow> nat" where
  "hex_digit_value c =
     (let n = (of_char c :: nat)
      in if n \<le> 57 then n - 48 else if n \<le> 70 then n - 55 else n - 87)"

fun hex_buffer :: "string \<Rightarrow> nat list" where
  "hex_buffer (a # b # rest) =
     (if is_hex_digit a \<and> is_hex_digit b
      then (16 * hex_digit_value a + hex_digit_value b) # hex_buffer rest else [])"
| "hex_buffer _ = []"

definition timingSafeHexEqual :: "string \<Rightarrow> string \<Rightarrow> bool" where
  "timingSafeHexEqual a b =
     (if length a \<noteq> length b then False
      else length (hex_buffer a) = length (hex_buffer b) \<and> hex_buffer a = hex_buffer b)"

record create_oauth_client_input =
  cc_name :: string
  cc_scopes :: "string list"
  cc_organizationId :: "uuid option"
  cc_serviceAppUserId :: uuid
  cc_createdByAppUserId :: uuid
  cc_issuedVia :: "caller_source option"

definition insert_client ::
    "credential_store \<Rightarrow> oauth_client_row \<Rightarrow> issuance_error + credential_store" where
  "insert_client cs row =
     (if oc_client_id row \<in> oc_client_id ` set (app_oauth_clients cs) then Inl UniqueViolation
      else Inr (cs\<lparr>app_oauth_clients := app_oauth_clients cs @ [row]\<rparr>))"

definition createOauthClient ::
    "(string \<Rightarrow> string) \<Rightarrow> credential_store \<Rightarrow> millis \<Rightarrow> uuid \<Rightarrow> 8 word list \<Rightarrow> 8 word list \<Rightarrow>
     create_oauth_client_input \<Rightarrow> issuance_error + credential_store \<times> oauth_client_row \<times> string" where
  "createOauthClient sha256hex cs now newId idBytes secretBytes inp =
     (let clientId = CLIENT_ID_PREFIX @ ''_'' @ randomBase62 idBytes;
          clientSecret = CLIENT_ID_PREFIX @ ''sec_'' @ randomBase62 secretBytes;
          row = \<lparr>oc_id = newId, oc_client_id = clientId, oc_client_secret_hash = sha256hex clientSecret,
                 oc_app_user_id = cc_serviceAppUserId inp, oc_organization_id = cc_organizationId inp,
                 oc_name = cc_name inp, oc_scopes = cc_scopes inp, oc_status = ''active'',
                 oc_created_at = now, oc_created_by = cc_createdByAppUserId inp,
                 oc_revoked_at = None, oc_revoked_by = None, oc_secret_rotated_at = None\<rparr>;
          refused = (case cc_issuedVia inp of None \<Rightarrow> None | Some src \<Rightarrow> enterIssuanceFence cs now src)
      in case refused of
           Some e \<Rightarrow> Inl e
         | None \<Rightarrow> (case insert_client cs row of
                      Inl e \<Rightarrow> Inl e
                    | Inr cs' \<Rightarrow> Inr (cs', row, clientSecret)))"

record oauth_client_update =
  up_name :: "string option"
  up_scopes :: "string list option"

definition updateOauthClient ::
    "credential_store \<Rightarrow> uuid \<Rightarrow> oauth_client_update \<Rightarrow> credential_store \<times> bool" where
  "updateOauthClient cs cid patch =
     (if up_name patch = None \<and> up_scopes patch = None then (cs, False)
      else
        (let hit = (\<lambda>c. oc_id c = cid \<and> oc_status c = ''active'');
             set_name = (case up_name patch of None \<Rightarrow> id | Some n \<Rightarrow> oc_name_update (\<lambda>_. n));
             set_scopes = (case up_scopes patch of None \<Rightarrow> id | Some ss \<Rightarrow> oc_scopes_update (\<lambda>_. ss))
         in (cs\<lparr>app_oauth_clients := update_where hit (set_scopes \<circ> set_name) (app_oauth_clients cs)\<rparr>,
             count_where hit (app_oauth_clients cs) > 0)))"

definition revoke_client_row :: "millis \<Rightarrow> uuid \<Rightarrow> oauth_client_row \<Rightarrow> oauth_client_row" where
  "revoke_client_row now revokedBy c =
     c\<lparr>oc_status := ''revoked'', oc_revoked_at := Some now, oc_revoked_by := Some revokedBy\<rparr>"

definition revokeActiveOauthClientsOf ::
    "credential_store \<Rightarrow> millis \<Rightarrow> uuid \<Rightarrow> uuid \<Rightarrow> credential_store \<times> (uuid \<times> uuid option) list" where
  "revokeActiveOauthClientsOf cs now ownerId revokedBy =
     (let hit = (\<lambda>c. oc_app_user_id c = ownerId \<and> oc_status c = ''active'')
      in (cs\<lparr>app_oauth_clients :=
               update_where hit (revoke_client_row now revokedBy) (app_oauth_clients cs)\<rparr>,
          map (\<lambda>c. (oc_id c, oc_organization_id c)) (filter hit (app_oauth_clients cs))))"

definition revokeOauthClient ::
    "credential_store \<Rightarrow> millis \<Rightarrow> uuid \<Rightarrow> uuid \<Rightarrow> credential_store \<times> bool" where
  "revokeOauthClient cs now cid revokedBy =
     (let hit = (\<lambda>c. oc_id c = cid \<and> oc_status c = ''active'')
      in (cs\<lparr>app_oauth_clients :=
               update_where hit (revoke_client_row now revokedBy) (app_oauth_clients cs)\<rparr>,
          count_where hit (app_oauth_clients cs) > 0))"

definition rotateOauthClientSecret ::
    "(string \<Rightarrow> string) \<Rightarrow> credential_store \<Rightarrow> millis \<Rightarrow> 8 word list \<Rightarrow> uuid \<Rightarrow>
     credential_store \<times> string option" where
  "rotateOauthClientSecret sha256hex cs now secretBytes cid =
     (let clientSecret = CLIENT_ID_PREFIX @ ''sec_'' @ randomBase62 secretBytes;
          hit = (\<lambda>c. oc_id c = cid \<and> oc_status c = ''active'')
      in (cs\<lparr>app_oauth_clients := update_where hit
               (\<lambda>c. c\<lparr>oc_client_secret_hash := sha256hex clientSecret, oc_secret_rotated_at := Some now\<rparr>)
               (app_oauth_clients cs)\<rparr>,
          if count_where hit (app_oauth_clients cs) > 0 then Some clientSecret else None))"

record verified_client =
  vc_clientRowId :: uuid
  vc_betterAuthUserId :: uuid
  vc_organizationId :: "uuid option"
  vc_scopes :: "string list"

definition verifyClientCredentials ::
    "(string \<Rightarrow> string) \<Rightarrow> db \<Rightarrow> credential_store \<Rightarrow> string \<Rightarrow> string \<Rightarrow> verified_client option" where
  "verifyClientCredentials sha256hex d cs clientId clientSecret =
     (case List.find (\<lambda>c. oc_client_id c = clientId \<and> app_user_by_id d (oc_app_user_id c) \<noteq> None)
             (app_oauth_clients cs) of
        None \<Rightarrow> None
      | Some row \<Rightarrow>
          if oc_status row \<noteq> ''active'' then None
          else if \<not> timingSafeHexEqual (sha256hex clientSecret) (oc_client_secret_hash row) then None
          else map_option
                 (\<lambda>u. \<lparr>vc_clientRowId = oc_id row, vc_betterAuthUserId = au_better_auth_user_id u,
                       vc_organizationId = oc_organization_id row, vc_scopes = oc_scopes row\<rparr>)
                 (app_user_by_id d (oc_app_user_id row)))"

subsection \<open>The eviction\<close>

datatype eviction_trigger = PasswordReset | PasswordSet | OwnerDeleted

fun eviction_trigger_text :: "eviction_trigger \<Rightarrow> string" where
  "eviction_trigger_text PasswordReset = ''password_reset''"
| "eviction_trigger_text PasswordSet = ''password_set''"
| "eviction_trigger_text OwnerDeleted = ''owner_deleted''"

record revoke_bearer_credentials_input =
  ri_betterAuthUserId :: uuid
  ri_trigger :: eviction_trigger
  ri_actorBetterAuthUserId :: uuid
  ri_revokedByAppUserId :: "uuid option"

record revocation_audit =
  ra_eventType :: string
  ra_actor :: uuid
  ra_appUserId :: uuid
  ra_organizationId :: "uuid option"
  ra_credentialId :: uuid
  ra_reason :: string

record revoked_bearer_credentials =
  rb_apiKeyIds :: "uuid list"
  rb_oauthClientIds :: "uuid list"

definition MAX_EVICTION_PASSES :: nat where
  "MAX_EVICTION_PASSES = 5"

definition revocation_event ::
    "revoke_bearer_credentials_input \<Rightarrow> uuid \<Rightarrow> string \<Rightarrow> uuid \<times> uuid option \<Rightarrow> revocation_audit" where
  "revocation_event inp ownerId eventType row =
     \<lparr>ra_eventType = eventType, ra_actor = ri_actorBetterAuthUserId inp, ra_appUserId = ownerId,
      ra_organizationId = snd row, ra_credentialId = fst row,
      ra_reason = eviction_trigger_text (ri_trigger inp)\<rparr>"

text \<open>
  The passes, counted down from the last one allowed. Other transactions commit between two
  passes: \<open>others n\<close> is what they do to the store after the pass with \<open>n\<close> passes left. \<open>None\<close>
  is the exception after the last pass.
\<close>

fun eviction_passes ::
    "nat \<Rightarrow> (nat \<Rightarrow> credential_store \<Rightarrow> credential_store) \<Rightarrow> revoke_bearer_credentials_input \<Rightarrow> uuid \<Rightarrow>
     uuid \<Rightarrow> millis \<Rightarrow> credential_store \<Rightarrow> revoked_bearer_credentials \<Rightarrow> revocation_audit list \<Rightarrow>
     (credential_store \<times> revoked_bearer_credentials option \<times> revocation_audit list)" where
  "eviction_passes left others inp ownerId revokedBy now cs revoked audit =
     (let (cs1, keys) =
            revokeActiveApiKeysOf cs now ownerId revokedBy (eviction_trigger_text (ri_trigger inp));
          (cs2, clients) = revokeActiveOauthClientsOf cs1 now ownerId revokedBy;
          revoked' = \<lparr>rb_apiKeyIds = rb_apiKeyIds revoked @ map fst keys,
                      rb_oauthClientIds = rb_oauthClientIds revoked @ map fst clients\<rparr>;
          audit' = audit @ map (revocation_event inp ownerId ''api_key.revoked'') keys
                         @ map (revocation_event inp ownerId ''oauth_client.revoked'') clients
      in if keys = [] \<and> clients = [] then (cs2, Some revoked', audit')
         else (case left of
                 0 \<Rightarrow> (cs2, None, audit')
               | Suc n \<Rightarrow>
                   eviction_passes n others inp ownerId revokedBy now (others n cs2) revoked' audit'))"

definition revokeBearerCredentialsOf ::
    "(nat \<Rightarrow> credential_store \<Rightarrow> credential_store) \<Rightarrow> db \<Rightarrow> credential_store \<Rightarrow> millis \<Rightarrow>
     revoke_bearer_credentials_input \<Rightarrow>
     (credential_store \<times> revoked_bearer_credentials option \<times> revocation_audit list)" where
  "revokeBearerCredentialsOf others d cs now inp =
     (let none = \<lparr>rb_apiKeyIds = [], rb_oauthClientIds = []\<rparr>
      in if ri_betterAuthUserId inp = [] then (cs, Some none, [])
         else (case List.find (\<lambda>u. au_better_auth_user_id u = ri_betterAuthUserId inp) (app_users d) of
                 None \<Rightarrow> (cs, Some none, [])
               | Some owner \<Rightarrow>
                   eviction_passes (MAX_EVICTION_PASSES - 1) others inp (au_id owner)
                     (case ri_revokedByAppUserId inp of None \<Rightarrow> au_id owner | Some r \<Rightarrow> r) now cs none []))"

text \<open>A store the witnesses evaluate on: one key, one client and one session.\<close>

definition sample_key :: api_key_row where
  "sample_key =
     \<lparr>ak_id = ''k1'', ak_app_user_id = ''u1'', ak_organization_id = Some ''B'', ak_name = ''ci'',
      ak_key_prefix = ''drk_live_0'', ak_key_hash = ''drk_live_0'',
      ak_scopes = [''account.read'', ''admin.users.*''], ak_status = ''active'', ak_expires_at = Some 9000,
      ak_last_used_at = None, ak_last_used_ip = None, ak_created_by = ''u1'', ak_created_at = 0,
      ak_revoked_at = None, ak_revoked_by = None, ak_revoked_reason = None\<rparr>"

definition sample_client :: oauth_client_row where
  "sample_client =
     \<lparr>oc_id = ''c1'', oc_client_id = ''drkc_1'', oc_client_secret_hash = ''ab'', oc_app_user_id = ''u1'',
      oc_organization_id = Some ''B'', oc_name = ''svc'', oc_scopes = [''admin.users.manage''],
      oc_status = ''active'', oc_created_at = 0, oc_created_by = ''u3'', oc_revoked_at = None,
      oc_revoked_by = None, oc_secret_rotated_at = None\<rparr>"

definition sample_store :: credential_store where
  "sample_store =
     \<lparr>app_api_keys = [sample_key], app_oauth_clients = [sample_client],
      auth_sessions = [\<lparr>as_id = ''s1'', as_user_id = ''b1'', as_expires_at = 5000, as_impersonated_by = None\<rparr>]\<rparr>"

definition sample_eviction :: revoke_bearer_credentials_input where
  "sample_eviction =
     \<lparr>ri_betterAuthUserId = ''b1'', ri_trigger = PasswordReset, ri_actorBetterAuthUserId = ''b1'',
      ri_revokedByAppUserId = None\<rparr>"

subsection \<open>A table of revocable rows\<close>

text \<open>
  Keys and clients are revoked the same way: the live rows of one owner are retired in one
  statement. What the eviction needs of either table is stated once.
\<close>

locale revocable =
  fixes owner :: "'r \<Rightarrow> uuid" and live :: "'r \<Rightarrow> bool" and retire :: "'r \<Rightarrow> 'r"
  assumes retire_dead: "\<not> live (retire r)"
    and retire_owner: "owner (retire r) = owner r"
begin

definition held :: "uuid \<Rightarrow> 'r table \<Rightarrow> 'r table" where
  "held u t = filter (\<lambda>r. owner r = u \<and> live r) t"

definition sweep :: "uuid \<Rightarrow> 'r table \<Rightarrow> 'r table" where
  "sweep u t = update_where (\<lambda>r. owner r = u \<and> live r) retire t"

lemma held_sweep [simp]: "held u (sweep u t) = []"
  unfolding held_def sweep_def update_where_def
  by (induction t) (simp_all add: retire_dead retire_owner)

lemma held_sweep_other: "v \<noteq> u \<Longrightarrow> held v (sweep u t) = held v t"
  unfolding held_def sweep_def by (rule filter_update_where_other) (auto simp: retire_owner)

lemma others_sweep: "filter (\<lambda>r. owner r \<noteq> u) (sweep u t) = filter (\<lambda>r. owner r \<noteq> u) t"
  unfolding sweep_def by (rule filter_update_where_other) (auto simp: retire_owner)

lemma sweep_idle: "held u t = [] \<Longrightarrow> sweep u t = t"
  unfolding held_def sweep_def update_where_def filter_empty_conv by (rule map_idI) auto

lemma held_mem: "r \<in> set t \<Longrightarrow> owner r = u \<Longrightarrow> held u t = [] \<Longrightarrow> \<not> live r"
  by (auto simp: held_def filter_empty_conv)

end

interpretation api_keys: revocable ak_app_user_id "\<lambda>k. ak_status k = ''active''"
  "revoke_key_row now who reason"
  by unfold_locales (simp_all add: revoke_key_row_def)

interpretation clients: revocable oc_app_user_id "\<lambda>c. oc_status c = ''active''"
  "revoke_client_row now who"
  by unfold_locales (simp_all add: revoke_client_row_def)

lemma revokeActiveApiKeysOf_sweep:
  "revokeActiveApiKeysOf cs now u who reason =
     (cs\<lparr>app_api_keys := api_keys.sweep now who (Some reason) u (app_api_keys cs)\<rparr>,
      map (\<lambda>k. (ak_id k, ak_organization_id k)) (api_keys.held u (app_api_keys cs)))"
  by (simp add: revokeActiveApiKeysOf_def Let_def api_keys.sweep_def api_keys.held_def)

lemma revokeActiveOauthClientsOf_sweep:
  "revokeActiveOauthClientsOf cs now u who =
     (cs\<lparr>app_oauth_clients := clients.sweep now who u (app_oauth_clients cs)\<rparr>,
      map (\<lambda>c. (oc_id c, oc_organization_id c)) (clients.held u (app_oauth_clients cs)))"
  by (simp add: revokeActiveOauthClientsOf_def Let_def clients.sweep_def clients.held_def)

text \<open>The account holds no active credential in the store.\<close>

definition holds_nothing :: "uuid \<Rightarrow> credential_store \<Rightarrow> bool" where
  "holds_nothing u cs \<longleftrightarrow>
     api_keys.held u (app_api_keys cs) = [] \<and> clients.held u (app_oauth_clients cs) = []"

subsection \<open>Verification, proved\<close>

text \<open>The unique indexes of \<open>app_users\<close>.\<close>

definition users_wf :: "db \<Rightarrow> bool" where
  "users_wf d \<longleftrightarrow> distinct (map au_id (app_users d)) \<and>
     distinct (map au_better_auth_user_id (app_users d))"

lemma user_unique:
  assumes "users_wf d" "u \<in> set (app_users d)" "v \<in> set (app_users d)"
    and "au_better_auth_user_id u = au_better_auth_user_id v"
  shows "u = v"
  using assms unfolding users_wf_def distinct_map by (blast dest: inj_onD)

lemma app_user_by_id_Some: "app_user_by_id d uid = Some u \<Longrightarrow> u \<in> set (app_users d) \<and> au_id u = uid"
  unfolding app_user_by_id_def by (rule find_Some_iff_set)

lemma verifyApiKey_Some:
  assumes "verifyApiKey h d cs now p = Some v"
  obtains k u where "k \<in> set (app_api_keys cs)" "ak_key_hash k = h p" "ak_status k = ''active''"
    "ak_id k = vk_id v" "u \<in> set (app_users d)" "au_id u = ak_app_user_id k"
    "vk_appUserId v = ak_app_user_id k" "vk_betterAuthUserId v = au_better_auth_user_id u"
    "vk_organizationId v = ak_organization_id k" "vk_scopes v = ak_scopes k"
    "vk_expiresAt v = ak_expires_at k" "\<forall>e. ak_expires_at k = Some e \<longrightarrow> now < e"
  using assms unfolding verifyApiKey_def
  by (fastforce dest!: find_Some_iff_set app_user_by_id_Some split: option.splits if_splits)

lemma verifyClient_Some:
  assumes "verifyClientCredentials h d cs cid secret = Some v"
  obtains c u where "c \<in> set (app_oauth_clients cs)" "oc_client_id c = cid" "oc_status c = ''active''"
    "oc_id c = vc_clientRowId v" "u \<in> set (app_users d)" "au_id u = oc_app_user_id c"
    "vc_betterAuthUserId v = au_better_auth_user_id u" "vc_organizationId v = oc_organization_id c"
    "vc_scopes v = oc_scopes c" "timingSafeHexEqual (h secret) (oc_client_secret_hash c)"
  using assms unfolding verifyClientCredentials_def
  by (fastforce dest!: find_Some_iff_set app_user_by_id_Some split: option.splits if_splits)

lemma holds_nothing_no_key:
  assumes "users_wf d" "u \<in> set (app_users d)" "holds_nothing (au_id u) cs"
    "verifyApiKey h d cs now p = Some v"
  shows "vk_betterAuthUserId v \<noteq> au_better_auth_user_id u"
proof
  assume "vk_betterAuthUserId v = au_better_auth_user_id u"
  with verifyApiKey_Some [OF assms(4)] obtain k w where
    k: "k \<in> set (app_api_keys cs)" "ak_status k = ''active''"
    and w: "w \<in> set (app_users d)" "au_id w = ak_app_user_id k"
      "au_better_auth_user_id w = au_better_auth_user_id u" by metis
  from user_unique [OF assms(1) w(1) assms(2) w(3)] w(2) have "ak_app_user_id k = au_id u" by simp
  with k assms(3) show False using api_keys.held_mem unfolding holds_nothing_def by blast
qed

lemma holds_nothing_no_client:
  assumes "users_wf d" "u \<in> set (app_users d)" "holds_nothing (au_id u) cs"
    "verifyClientCredentials h d cs cid secret = Some v"
  shows "vc_betterAuthUserId v \<noteq> au_better_auth_user_id u"
proof
  assume "vc_betterAuthUserId v = au_better_auth_user_id u"
  with verifyClient_Some [OF assms(4)] obtain c w where
    c: "c \<in> set (app_oauth_clients cs)" "oc_status c = ''active''"
    and w: "w \<in> set (app_users d)" "au_id w = oc_app_user_id c"
      "au_better_auth_user_id w = au_better_auth_user_id u" by metis
  from user_unique [OF assms(1) w(1) assms(2) w(3)] w(2) have "oc_app_user_id c = au_id u" by simp
  with c assms(3) show False using clients.held_mem unfolding holds_nothing_def by blast
qed

text \<open>The request authenticated with a session, key or token source of the account itself.\<close>

fun own_source :: "uuid \<Rightarrow> uuid \<Rightarrow> credential_store \<Rightarrow> caller_source \<Rightarrow> bool" where
  "own_source u baid cs (SessionSource sid) =
     (\<forall>s \<in> set (auth_sessions cs). as_id s = sid \<longrightarrow> as_user_id s = baid)"
| "own_source u baid cs (ApiKeySource kid) =
     (\<forall>k \<in> set (app_api_keys cs). ak_id k = kid \<longrightarrow> ak_app_user_id k = u)"
| "own_source u baid cs (TokenSource ref _) =
     (case ref_kind ref of
        KindApiKey \<Rightarrow> (\<forall>k \<in> set (app_api_keys cs). ak_id k = ref_id ref \<longrightarrow> ak_app_user_id k = u)
      | KindOauthClient \<Rightarrow> (\<forall>c \<in> set (app_oauth_clients cs). oc_id c = ref_id ref \<longrightarrow> oc_app_user_id c = u))"

lemma held_ref_dead:
  assumes "holds_nothing u cs" and own: "own_source u baid cs (TokenSource ref i)"
  shows "readActiveSourceCredential cs now ref i' = None"
proof (cases "ref_kind ref")
  case KindApiKey
  with own have "ak_app_user_id k = u" if "List.find (\<lambda>k. ak_id k = ref_id ref) (app_api_keys cs) = Some k" for k
    using find_Some_iff_set [OF that] by simp
  then show ?thesis
    using assms(1) api_keys.held_mem KindApiKey
    by (fastforce simp: readActiveSourceCredential_def holds_nothing_def dest: find_Some_iff_set
        split: option.splits)
next
  case KindOauthClient
  with own have "oc_app_user_id c = u" if "List.find (\<lambda>c. oc_id c = ref_id ref) (app_oauth_clients cs) = Some c" for c
    using find_Some_iff_set [OF that] by simp
  then show ?thesis
    using assms(1) clients.held_mem KindOauthClient
    by (fastforce simp: readActiveSourceCredential_def holds_nothing_def dest: find_Some_iff_set
        split: option.splits)
qed

subsection \<open>The eviction, proved\<close>

declare eviction_passes.simps [simp del]

definition swept :: "millis \<Rightarrow> uuid \<Rightarrow> eviction_trigger \<Rightarrow> uuid \<Rightarrow> credential_store \<Rightarrow> credential_store" where
  "swept now who trigger u cs =
     cs\<lparr>app_api_keys := api_keys.sweep now who (Some (eviction_trigger_text trigger)) u (app_api_keys cs),
        app_oauth_clients := clients.sweep now who u (app_oauth_clients cs)\<rparr>"

lemma holds_nothing_swept: "holds_nothing u (swept now who trigger u cs)"
  by (simp add: holds_nothing_def swept_def)

lemma swept_idle: "holds_nothing u cs \<Longrightarrow> swept now who trigger u cs = cs"
  by (simp add: holds_nothing_def swept_def api_keys.sweep_idle clients.sweep_idle)

text \<open>The audit trail and the answer name the same credentials in the same order.\<close>

definition audited :: "string \<Rightarrow> revocation_audit list \<Rightarrow> uuid list" where
  "audited eventType au = map ra_credentialId (filter (\<lambda>a. ra_eventType a = eventType) au)"

lemma audited_append [simp]: "audited e (xs @ ys) = audited e xs @ audited e ys"
  by (simp add: audited_def)

lemma audited_events [simp]:
  "audited e (map (revocation_event inp u e') rows) = (if e = e' then map fst rows else [])"
  by (induction rows) (auto simp: audited_def revocation_event_def)

text \<open>A pass either finds nothing and ends, or sweeps, reports, and leaves the rest to the next.\<close>

lemma eviction_ends:
  "holds_nothing u cs \<Longrightarrow> eviction_passes left others inp u who now cs rv au = (cs, Some rv, au)"
  using swept_idle [of u cs now who "ri_trigger inp"]
  by (subst eviction_passes.simps)
    (simp add: revokeActiveApiKeysOf_sweep revokeActiveOauthClientsOf_sweep holds_nothing_def swept_def Let_def)

lemma eviction_continues:
  assumes "\<not> holds_nothing u cs"
  shows "\<exists>rv' au'. eviction_passes left others inp u who now cs rv au =
      (case left of
         0 \<Rightarrow> (swept now who (ri_trigger inp) u cs, None, au')
       | Suc n \<Rightarrow> eviction_passes n others inp u who now
                    (others n (swept now who (ri_trigger inp) u cs)) rv' au') \<and>
    (audited ''api_key.revoked'' au = rb_apiKeyIds rv \<longrightarrow> audited ''api_key.revoked'' au' = rb_apiKeyIds rv') \<and>
    (audited ''oauth_client.revoked'' au = rb_oauthClientIds rv \<longrightarrow>
       audited ''oauth_client.revoked'' au' = rb_oauthClientIds rv')"
proof -
  let ?K = "map (\<lambda>k. (ak_id k, ak_organization_id k)) (api_keys.held u (app_api_keys cs))"
  let ?C = "map (\<lambda>c. (oc_id c, oc_organization_id c)) (clients.held u (app_oauth_clients cs))"
  let ?rv = "\<lparr>rb_apiKeyIds = rb_apiKeyIds rv @ map fst ?K,
    rb_oauthClientIds = rb_oauthClientIds rv @ map fst ?C\<rparr>"
  let ?au = "au @ map (revocation_event inp u ''api_key.revoked'') ?K @
    map (revocation_event inp u ''oauth_client.revoked'') ?C"
  have "\<not> (?K = [] \<and> ?C = [])" using assms by (simp add: holds_nothing_def)
  then have "eviction_passes left others inp u who now cs rv au =
      (case left of
         0 \<Rightarrow> (swept now who (ri_trigger inp) u cs, None, ?au)
       | Suc n \<Rightarrow> eviction_passes n others inp u who now
                    (others n (swept now who (ri_trigger inp) u cs)) ?rv ?au)"
    by (subst eviction_passes.simps)
      (cases left; auto simp: revokeActiveApiKeysOf_sweep revokeActiveOauthClientsOf_sweep swept_def Let_def)
  moreover have "audited ''api_key.revoked'' au = rb_apiKeyIds rv \<longrightarrow>
      audited ''api_key.revoked'' ?au = rb_apiKeyIds ?rv"
    and "audited ''oauth_client.revoked'' au = rb_oauthClientIds rv \<longrightarrow>
      audited ''oauth_client.revoked'' ?au = rb_oauthClientIds ?rv"
    by (simp_all del: map_map)
  ultimately show ?thesis by blast
qed

lemma eviction_passes_complete:
  "eviction_passes left others inp u who now cs rv au = (cs', Some rv', au') \<Longrightarrow> holds_nothing u cs'"
proof (induction left arbitrary: cs rv au)
  case 0
  then show ?case
    using eviction_ends eviction_continues [of u cs 0 others inp who now rv au]
    by (cases "holds_nothing u cs") auto
next
  case (Suc n)
  then show ?case
    using eviction_ends eviction_continues [of u cs "Suc n" others inp who now rv au]
    by (cases "holds_nothing u cs") auto
qed

lemma eviction_passes_audit:
  assumes "eviction_passes left others inp u who now cs rv au = (cs', Some rv', au')"
    and "audited ''api_key.revoked'' au = rb_apiKeyIds rv"
    and "audited ''oauth_client.revoked'' au = rb_oauthClientIds rv"
  shows "audited ''api_key.revoked'' au' = rb_apiKeyIds rv' \<and>
    audited ''oauth_client.revoked'' au' = rb_oauthClientIds rv'"
  using assms
proof (induction left arbitrary: cs rv au)
  case 0
  then show ?case
    using eviction_ends eviction_continues [of u cs 0 others inp who now rv au]
    by (cases "holds_nothing u cs") auto
next
  case (Suc n)
  show ?case
  proof (cases "holds_nothing u cs")
    case True
    with Suc.prems show ?thesis by (simp add: eviction_ends)
  next
    case False
    with Suc.prems obtain rv1 au1 where
      "eviction_passes n others inp u who now (others n (swept now who (ri_trigger inp) u cs)) rv1 au1 =
         (cs', Some rv', au')"
      "audited ''api_key.revoked'' au1 = rb_apiKeyIds rv1"
      "audited ''oauth_client.revoked'' au1 = rb_oauthClientIds rv1"
      using eviction_continues [of u cs "Suc n" others inp who now rv au] by auto
    then show ?thesis by (rule Suc.IH)
  qed
qed

lemma eviction_passes_quiet:
  "\<exists>rv' au'. eviction_passes (Suc n) (\<lambda>_ cs. cs) inp u who now cs rv au =
     (swept now who (ri_trigger inp) u cs, Some rv', au')"
proof (cases "holds_nothing u cs")
  case True
  then show ?thesis by (simp add: eviction_ends swept_idle)
next
  case False
  then show ?thesis
    using eviction_continues [of u cs "Suc n" "\<lambda>_ cs. cs" inp who now rv au]
    by (auto simp: eviction_ends holds_nothing_swept)
qed

subsection \<open>Properties\<close>

text \<open>
  C20: when the eviction of an account answers, whatever other transactions committed between
  its passes, no API key and no client secret authenticates as that account any more, and
  every credential it reports revoked is audited exactly as often as it is reported.
\<close>

theorem eviction_leaves_no_credential:
  assumes "users_wf d" and "u \<in> set (app_users d)" and "ri_betterAuthUserId inp \<noteq> []"
    and "au_better_auth_user_id u = ri_betterAuthUserId inp"
    and "revokeBearerCredentialsOf others d cs now inp = (cs', Some revoked, audit)"
  shows "(\<nexists>h t p v. verifyApiKey h d cs' t p = Some v \<and> vk_betterAuthUserId v = ri_betterAuthUserId inp) \<and>
    (\<nexists>h cid secret v. verifyClientCredentials h d cs' cid secret = Some v \<and>
       vc_betterAuthUserId v = ri_betterAuthUserId inp) \<and>
    audited ''api_key.revoked'' audit = rb_apiKeyIds revoked \<and>
    audited ''oauth_client.revoked'' audit = rb_oauthClientIds revoked"
proof -
  obtain w where w: "List.find (\<lambda>u. au_better_auth_user_id u = ri_betterAuthUserId inp) (app_users d) = Some w"
    using assms(2,4) by (fastforce simp: find_None_iff)
  with find_Some_iff_set [OF w] user_unique [OF assms(1) _ assms(2)] assms(4) have "w = u" by simp
  with w assms(3,5) have e: "eviction_passes (MAX_EVICTION_PASSES - 1) others inp (au_id u)
      (case ri_revokedByAppUserId inp of None \<Rightarrow> au_id u | Some r \<Rightarrow> r) now cs
      \<lparr>rb_apiKeyIds = [], rb_oauthClientIds = []\<rparr> [] = (cs', Some revoked, audit)"
    by (simp add: revokeBearerCredentialsOf_def)
  from eviction_passes_complete [OF e] have n: "holds_nothing (au_id u) cs'" .
  from eviction_passes_audit [OF e]
  have a: "audited ''api_key.revoked'' audit = rb_apiKeyIds revoked"
    "audited ''oauth_client.revoked'' audit = rb_oauthClientIds revoked"
    by (simp_all add: audited_def)
  from holds_nothing_no_key [OF assms(1,2) n] holds_nothing_no_client [OF assms(1,2) n]
  show ?thesis using a by (auto simp: assms(4) [symmetric])
qed

lemma eviction_leaves_no_credential_witness:
  "let r = revokeBearerCredentialsOf (\<lambda>_ cs. cs) sample_db sample_store 100 sample_eviction
   in (\<nexists>h t p v. verifyApiKey h sample_db (fst r) t p = Some v \<and>
         vk_betterAuthUserId v = ri_betterAuthUserId sample_eviction) \<and>
      (\<nexists>h cid secret v. verifyClientCredentials h sample_db (fst r) cid secret = Some v \<and>
         vc_betterAuthUserId v = ri_betterAuthUserId sample_eviction) \<and>
      audited ''api_key.revoked'' (snd (snd r)) = rb_apiKeyIds (the (fst (snd r))) \<and>
      audited ''oauth_client.revoked'' (snd (snd r)) = rb_oauthClientIds (the (fst (snd r)))"
proof -
  let ?r = "revokeBearerCredentialsOf (\<lambda>_ cs. cs) sample_db sample_store 100 sample_eviction"
  have 1: "users_wf sample_db" by code_simp
  have 2: "app_users sample_db ! 0 \<in> set (app_users sample_db)" by (rule nth_mem) code_simp
  have 3: "ri_betterAuthUserId sample_eviction \<noteq> []" by code_simp
  have 4: "au_better_auth_user_id (app_users sample_db ! 0) = ri_betterAuthUserId sample_eviction"
    by code_simp
  have 5: "?r = (fst ?r, Some (the (fst (snd ?r))), snd (snd ?r))" by code_simp
  show ?thesis unfolding Let_def by (rule eviction_leaves_no_credential [OF 1 2 3 4 5])
qed

text \<open>
  Undisturbed, the eviction of a provisioned account always answers, and it touches no
  credential of anyone else.
\<close>

lemma undisturbed_eviction_answers:
  assumes "List.find (\<lambda>u. au_better_auth_user_id u = ri_betterAuthUserId inp) (app_users d) = Some owner"
    and "ri_betterAuthUserId inp \<noteq> []"
  shows "\<exists>cs' revoked audit. revokeBearerCredentialsOf (\<lambda>_ cs. cs) d cs now inp = (cs', Some revoked, audit) \<and>
     filter (\<lambda>k. ak_app_user_id k \<noteq> au_id owner) (app_api_keys cs') =
       filter (\<lambda>k. ak_app_user_id k \<noteq> au_id owner) (app_api_keys cs) \<and>
     filter (\<lambda>c. oc_app_user_id c \<noteq> au_id owner) (app_oauth_clients cs') =
       filter (\<lambda>c. oc_app_user_id c \<noteq> au_id owner) (app_oauth_clients cs) \<and>
     auth_sessions cs' = auth_sessions cs"
  using assms eviction_passes_quiet [of 3 inp "au_id owner"
      "case ri_revokedByAppUserId inp of None \<Rightarrow> au_id owner | Some r \<Rightarrow> r" now cs
      "\<lparr>rb_apiKeyIds = [], rb_oauthClientIds = []\<rparr>" "[]"]
  by (auto simp: revokeBearerCredentialsOf_def MAX_EVICTION_PASSES_def swept_def
      api_keys.others_sweep clients.others_sweep numeral_eq_Suc)

lemma undisturbed_eviction_answers_witness:
  "\<exists>cs' revoked audit. revokeBearerCredentialsOf (\<lambda>_ cs. cs) sample_db sample_store 100 sample_eviction =
       (cs', Some revoked, audit) \<and>
     filter (\<lambda>k. ak_app_user_id k \<noteq> au_id (app_users sample_db ! 0)) (app_api_keys cs') =
       filter (\<lambda>k. ak_app_user_id k \<noteq> au_id (app_users sample_db ! 0)) (app_api_keys sample_store) \<and>
     filter (\<lambda>c. oc_app_user_id c \<noteq> au_id (app_users sample_db ! 0)) (app_oauth_clients cs') =
       filter (\<lambda>c. oc_app_user_id c \<noteq> au_id (app_users sample_db ! 0)) (app_oauth_clients sample_store) \<and>
     auth_sessions cs' = auth_sessions sample_store"
proof (rule undisturbed_eviction_answers)
  show "List.find (\<lambda>u. au_better_auth_user_id u = ri_betterAuthUserId sample_eviction)
      (app_users sample_db) = Some (app_users sample_db ! 0)" by code_simp
  show "ri_betterAuthUserId sample_eviction \<noteq> []" by code_simp
qed

text \<open>The codec: the random part never holds the separator.\<close>

lemma randomBase62_no_sep: "CHR ''_'' \<notin> set (randomBase62 bytes)"
proof -
  have "BASE62 ! i \<noteq> CHR ''_''" if "i < length BASE62" for i
  proof -
    have "CHR ''_'' \<notin> set BASE62" by code_simp
    with that nth_mem show ?thesis by metis
  qed
  moreover have "unat b mod length BASE62 < length BASE62" for b :: "8 word"
    by (rule mod_less_divisor) code_simp
  ultimately show ?thesis unfolding randomBase62_def by fastforce
qed

lemma generateApiKey_codec:
  "looksLikeApiKey (gk_plaintext (generateApiKey tag bytes)) \<and>
   deriveApiKeyPrefix (gk_plaintext (generateApiKey tag bytes)) = gk_prefix (generateApiKey tag bytes)"
proof -
  have "split_on CHR ''_'' (''drk_'' @ env_tag_text tag @ ''_'' @ randomBase62 bytes) =
      [''drk'', env_tag_text tag, randomBase62 bytes]"
    using split_on_append_sep [of "CHR ''_''" "''drk''"]
      split_on_append_sep [of "CHR ''_''" "env_tag_text tag" "randomBase62 bytes"]
      split_on_no_sep [OF randomBase62_no_sep]
    by (cases tag) simp_all
  then show ?thesis
    by (simp add: generateApiKey_def deriveApiKeyPrefix_def looksLikeApiKey_def API_KEY_PRODUCT_PREFIX_def
        Let_def)
qed

lemma insert_api_key_Inr:
  "insert_api_key cs row = Inr cs' \<longleftrightarrow>
     ak_key_hash row \<notin> ak_key_hash ` set (app_api_keys cs) \<and>
     cs' = cs\<lparr>app_api_keys := app_api_keys cs @ [row]\<rparr>"
  by (auto simp: insert_api_key_def)

lemma find_append: "List.find P (xs @ ys) = (case List.find P xs of None \<Rightarrow> List.find P ys | Some x \<Rightarrow> Some x)"
  by (induction xs) auto

text \<open>A fresh row is found under its own hash, and only there.\<close>

lemma verify_inserted:
  assumes "ak_key_hash row \<notin> ak_key_hash ` set ks" "ak_key_hash row = h p" "ak_status row = ''active''"
    and "app_user_by_id d (ak_app_user_id row) = Some u"
    and "case ak_expires_at row of None \<Rightarrow> True | Some e \<Rightarrow> t < e"
  shows "verifyApiKey h d (cs\<lparr>app_api_keys := ks @ [row]\<rparr>) t p =
    Some \<lparr>vk_id = ak_id row, vk_appUserId = ak_app_user_id row,
          vk_betterAuthUserId = au_better_auth_user_id u, vk_organizationId = ak_organization_id row,
          vk_scopes = ak_scopes row, vk_expiresAt = ak_expires_at row\<rparr>"
proof -
  have "List.find (\<lambda>k. ak_key_hash k = h p \<and> app_user_by_id d (ak_app_user_id k) \<noteq> None) ks = None"
    using assms(1,2) unfolding find_None_iff by force
  with assms(2-5) show ?thesis
    by (simp add: verifyApiKey_def find_append split: option.splits)
qed

text \<open>
  An issued key round-trips: the plaintext handed out is recognised as a key, shows the
  stored display prefix, and until it expires verifies to exactly the row stored for it.
\<close>

lemma issued_key_authenticates:
  assumes "createApiKey h tag cs now newId bytes inp = Inr (cs', row, plaintext)"
    and "app_user_by_id d (ci_ownerAppUserId inp) = Some u"
    and "case ci_expiresAt inp of None \<Rightarrow> True | Some e \<Rightarrow> t < e"
  shows "looksLikeApiKey plaintext \<and> deriveApiKeyPrefix plaintext = ak_key_prefix row \<and>
    verifyApiKey h d cs' t plaintext =
      Some \<lparr>vk_id = newId, vk_appUserId = ci_ownerAppUserId inp,
            vk_betterAuthUserId = au_better_auth_user_id u, vk_organizationId = ci_organizationId inp,
            vk_scopes = ci_scopes inp, vk_expiresAt = ci_expiresAt inp\<rparr>"
proof -
  from assms(1) have r: "ak_key_hash row \<notin> ak_key_hash ` set (app_api_keys cs)"
    "cs' = cs\<lparr>app_api_keys := app_api_keys cs @ [row]\<rparr>"
    "plaintext = gk_plaintext (generateApiKey tag bytes)" "ak_key_hash row = h plaintext"
    "ak_status row = ''active''" "ak_app_user_id row = ci_ownerAppUserId inp" "ak_id row = newId"
    "ak_organization_id row = ci_organizationId inp" "ak_scopes row = ci_scopes inp"
    "ak_expires_at row = ci_expiresAt inp" "ak_key_prefix row = gk_prefix (generateApiKey tag bytes)"
    by (auto simp: createApiKey_def Let_def insert_api_key_Inr split: option.splits sum.splits)
  then show ?thesis
    using verify_inserted [where h = h and p = plaintext, OF r(1,4,5), of d u t cs] assms(2,3) generateApiKey_codec by simp
qed

lemma issued_key_authenticates_witness:
  "let inp = \<lparr>ci_ownerAppUserId = ''u2'', ci_organizationId = Some ''A'', ci_name = ''n'',
        ci_scopes = [''admin.users.read''], ci_expiresAt = Some 50, ci_createdByAppUserId = ''u2'',
        ci_issuedVia = Some (ApiKeySource ''k1'')\<rparr>;
       r = projr (createApiKey id TestTag sample_store 7 ''k2'' [0, 61, 62] inp)
   in snd (snd r) = ''drk_test_0z0'' \<and> deriveApiKeyPrefix (snd (snd r)) = ak_key_prefix (fst (snd r)) \<and>
      verifyApiKey id sample_db (fst r) 20 (snd (snd r)) =
        Some \<lparr>vk_id = ''k2'', vk_appUserId = ''u2'', vk_betterAuthUserId = ''b2'',
              vk_organizationId = Some ''A'', vk_scopes = [''admin.users.read''], vk_expiresAt = Some 50\<rparr>"
proof -
  let ?i = "\<lparr>ci_ownerAppUserId = ''u2'', ci_organizationId = Some ''A'', ci_name = ''n'',
        ci_scopes = [''admin.users.read''], ci_expiresAt = Some 50, ci_createdByAppUserId = ''u2'',
        ci_issuedVia = Some (ApiKeySource ''k1'')\<rparr>"
  let ?c = "createApiKey id TestTag sample_store 7 ''k2'' [0, 61, 62] ?i"
  have 1: "?c = Inr (fst (projr ?c), fst (snd (projr ?c)), snd (snd (projr ?c)))" by code_simp
  have 2: "app_user_by_id sample_db (ci_ownerAppUserId ?i) = Some (app_users sample_db ! 1)" by code_simp
  have 3: "case ci_expiresAt ?i of None \<Rightarrow> True | Some e \<Rightarrow> 20 < e" by simp
  have "snd (snd (projr ?c)) = ''drk_test_0z0''" by code_simp
  moreover have "au_better_auth_user_id (app_users sample_db ! 1) = ''b2''" by code_simp
  ultimately show ?thesis
    using issued_key_authenticates [OF 1 2 3] unfolding Let_def by simp
qed

text \<open>The unique indexes of the key table.\<close>

definition keys_wf :: "credential_store \<Rightarrow> bool" where
  "keys_wf cs \<longleftrightarrow> distinct (map ak_id (app_api_keys cs)) \<and> distinct (map ak_key_hash (app_api_keys cs))"

lemma key_by_hash:
  assumes "keys_wf cs" "k \<in> set (app_api_keys cs)" "l \<in> set (app_api_keys cs)"
    and "ak_key_hash k = ak_key_hash l"
  shows "k = l"
  using assms unfolding keys_wf_def distinct_map by (blast dest: inj_onD)

lemma revoked_key_dead:
  assumes wf: "keys_wf cs" and v: "verifyApiKey h d cs t0 old = Some v" "vk_id v = kid"
    and keys: "app_api_keys cs' = update_where (\<lambda>k. ak_id k = kid \<and> ak_status k = ''active'')
      (revoke_key_row now actor reason) (app_api_keys cs) @ rest"
    and rest: "h old \<notin> ak_key_hash ` set rest"
  shows "verifyApiKey h d cs' t old = None"
proof (rule ccontr)
  assume "verifyApiKey h d cs' t old \<noteq> None"
  then obtain w where "verifyApiKey h d cs' t old = Some w" by blast
  from verifyApiKey_Some [OF this] obtain k where
    k: "k \<in> set (app_api_keys cs')" "ak_key_hash k = h old" "ak_status k = ''active''" by metis
  from verifyApiKey_Some [OF v(1)] v(2) obtain l where
    l: "l \<in> set (app_api_keys cs)" "ak_key_hash l = h old" "ak_status l = ''active''" "ak_id l = kid"
    by metis
  have "k \<notin> set rest" using k(2) rest by (metis imageI)
  with k(1) keys obtain k0 where k0: "k0 \<in> set (app_api_keys cs)"
    and e: "k = (if ak_id k0 = kid \<and> ak_status k0 = ''active'' then revoke_key_row now actor reason k0 else k0)"
    by (auto simp: table_simps)
  from e k(2) have "ak_key_hash k0 = ak_key_hash l" by (auto simp: l(2) revoke_key_row_def split: if_splits)
  with key_by_hash [OF wf k0 l(1)] e l have "ak_status k = ''revoked''" by (simp add: revoke_key_row_def)
  with k(3) show False by simp
qed

lemma rotateApiKey_Some:
  assumes "rotateApiKey h tag csRead cs now newId bytes kid actor = Inr (cs', Some (row, plaintext))"
  obtains existing where "getApiKeyById csRead kid = Some existing"
    "ak_key_hash row \<notin> ak_key_hash ` set (app_api_keys (fst (revokeApiKey cs now kid actor (Some ''rotated''))))"
    "app_api_keys cs' = app_api_keys (fst (revokeApiKey cs now kid actor (Some ''rotated''))) @ [row]"
    "cs' = fst (revokeApiKey cs now kid actor (Some ''rotated''))
       \<lparr>app_api_keys := app_api_keys (fst (revokeApiKey cs now kid actor (Some ''rotated''))) @ [row]\<rparr>"
    "ak_key_hash row = h plaintext" "ak_status row = ''active''" "ak_id row = newId"
    "ak_app_user_id row = ak_app_user_id existing" "ak_organization_id row = ak_organization_id existing"
    "ak_scopes row = ak_scopes existing" "ak_expires_at row = ak_expires_at existing"
  using assms unfolding rotateApiKey_def
  by (auto simp: Let_def insert_api_key_Inr split: option.splits if_splits sum.splits)

text \<open>
  Rotating a key ends the secret it replaces and hands out exactly one successor, which
  authenticates the same owner in the same organization with the same scopes and expiry, even
  when the row was read before the rotating transaction began.
\<close>

lemma rotation_replaces_secret:
  assumes "keys_wf cs" and "rotateApiKey h tag csRead cs now newId bytes kid actor = Inr (cs', Some (row, plaintext))"
    and "verifyApiKey h d cs t0 old = Some v" "vk_id v = kid"
    and "getApiKeyById csRead kid = Some existing" "app_user_by_id d (ak_app_user_id existing) = Some u"
    and "case ak_expires_at existing of None \<Rightarrow> True | Some e \<Rightarrow> t < e"
  shows "verifyApiKey h d cs' t old = None \<and>
    verifyApiKey h d cs' t plaintext =
      Some \<lparr>vk_id = newId, vk_appUserId = ak_app_user_id existing,
            vk_betterAuthUserId = au_better_auth_user_id u,
            vk_organizationId = ak_organization_id existing, vk_scopes = ak_scopes existing,
            vk_expiresAt = ak_expires_at existing\<rparr>"
proof
  let ?r = "fst (revokeApiKey cs now kid actor (Some ''rotated''))"
  from rotateApiKey_Some [OF assms(2)] assms(5) have
    r: "ak_key_hash row \<notin> ak_key_hash ` set (app_api_keys ?r)" "app_api_keys cs' = app_api_keys ?r @ [row]"
    "cs' = ?r\<lparr>app_api_keys := app_api_keys ?r @ [row]\<rparr>"
    "ak_key_hash row = h plaintext" "ak_status row = ''active''" "ak_id row = newId"
    "ak_app_user_id row = ak_app_user_id existing" "ak_organization_id row = ak_organization_id existing"
    "ak_scopes row = ak_scopes existing" "ak_expires_at row = ak_expires_at existing"
    by (metis option.inject)+
  have keys: "app_api_keys ?r = update_where (\<lambda>k. ak_id k = kid \<and> ak_status k = ''active'')
      (revoke_key_row now actor (Some ''rotated'')) (app_api_keys cs)"
    by (simp add: revokeApiKey_def Let_def)
  have hashes: "ak_key_hash ` set (app_api_keys ?r) = ak_key_hash ` set (app_api_keys cs)"
    unfolding keys set_map [symmetric]
    by (subst map_update_where_same) (simp_all add: revoke_key_row_def)
  from verifyApiKey_Some [OF assms(3)] have "h old \<in> ak_key_hash ` set (app_api_keys cs)"
    by (metis imageI)
  with r(1) hashes have "h old \<notin> ak_key_hash ` set [row]" by auto
  with revoked_key_dead [OF assms(1,3,4), of cs' now actor "Some ''rotated''" "[row]"] r(2) keys
  show "verifyApiKey h d cs' t old = None" by simp
  show "verifyApiKey h d cs' t plaintext =
      Some \<lparr>vk_id = newId, vk_appUserId = ak_app_user_id existing,
            vk_betterAuthUserId = au_better_auth_user_id u,
            vk_organizationId = ak_organization_id existing, vk_scopes = ak_scopes existing,
            vk_expiresAt = ak_expires_at existing\<rparr>"
    using verify_inserted [where h = h and p = plaintext, OF r(1,4,5), of d u t ?r] assms(6,7) r(3,6-10)
    by simp
qed

lemma rotation_replaces_secret_witness:
  "let r = projr (rotateApiKey id LiveTag sample_store sample_store 7 ''k2'' [1, 2] ''k1'' ''u1'')
   in verifyApiKey id sample_db (fst r) 20 ''drk_live_0'' = None \<and>
      verifyApiKey id sample_db (fst r) 20 ''drk_live_12'' =
        Some \<lparr>vk_id = ''k2'', vk_appUserId = ''u1'', vk_betterAuthUserId = ''b1'',
              vk_organizationId = Some ''B'', vk_scopes = [''account.read'', ''admin.users.*''],
              vk_expiresAt = Some 9000\<rparr>"
proof -
  let ?c = "rotateApiKey id LiveTag sample_store sample_store 7 ''k2'' [1, 2] ''k1'' ''u1''"
  have 1: "keys_wf sample_store" by code_simp
  have 2: "?c = Inr (fst (projr ?c), Some (fst (the (snd (projr ?c))), ''drk_live_12''))" by code_simp
  have 3: "verifyApiKey id sample_db sample_store 5 ''drk_live_0'' =
      Some (the (verifyApiKey id sample_db sample_store 5 ''drk_live_0''))" by code_simp
  have 4: "vk_id (the (verifyApiKey id sample_db sample_store 5 ''drk_live_0'')) = ''k1''" by code_simp
  have 5: "getApiKeyById sample_store ''k1'' = Some sample_key" by code_simp
  have 6: "app_user_by_id sample_db (ak_app_user_id sample_key) = Some (app_users sample_db ! 0)"
    by code_simp
  have 7: "case ak_expires_at sample_key of None \<Rightarrow> True | Some e \<Rightarrow> 20 < e" by code_simp
  have "au_better_auth_user_id (app_users sample_db ! 0) = ''b1''" by code_simp
  then show ?thesis
    using rotation_replaces_secret [OF 1 2 3 4 5 6 7] unfolding Let_def by (simp add: sample_key_def)
qed

end
