(* ===== verification/IssuanceFence.thy ===== *)
theory IssuanceFence
  imports Credentials
begin

text \<open>
  The issuance fence under concurrency (\<open>src/lib/api-auth/issuance-fence.server.ts\<close> with the
  transactions of \<open>api-keys.server.ts\<close>, \<open>oauth-clients.server.ts\<close> and
  \<open>credential-eviction.server.ts\<close> that enter it). One account is fixed: its \<open>app_users\<close> id \<open>u\<close>
  and its Better Auth id. Transactions on it interleave; each is a phase. An issuance or a
  rotation holds the owner's row \<open>FOR SHARE\<close> from its lock to its commit, an eviction holds it
  \<open>FOR NO KEY UPDATE\<close>; a statement reads what is committed when it starts, and what a
  transaction writes is visible to the others once it commits.
\<close>

subsection \<open>Transactions\<close>

datatype new_credential = NewKey api_key_row | NewClient oauth_client_row

datatype fence_phase =
  Idle
| IssueWaiting caller_source new_credential
| IssueLocked caller_source new_credential
| IssueChecked new_credential
| IssueInserted new_credential
| RotateWaiting uuid api_key_row
| RotateLocked uuid api_key_row
| RotateSwapped uuid api_key_row
| EvictWaiting
| EvictLocked
| EvictRevoked "uuid list" "uuid list"
| Committed
| Refused

fun holds_share :: "fence_phase \<Rightarrow> bool" where
  "holds_share (IssueLocked _ _) = True"
| "holds_share (IssueChecked _) = True"
| "holds_share (IssueInserted _) = True"
| "holds_share (RotateLocked _ _) = True"
| "holds_share (RotateSwapped _ _) = True"
| "holds_share _ = False"

fun holds_exclusive :: "fence_phase \<Rightarrow> bool" where
  "holds_exclusive EvictLocked = True"
| "holds_exclusive (EvictRevoked _ _) = True"
| "holds_exclusive _ = False"

text \<open>A phase past its last check: it will write a live credential.\<close>

fun will_write :: "fence_phase \<Rightarrow> bool" where
  "will_write (IssueChecked _) = True"
| "will_write (IssueInserted _) = True"
| "will_write (RotateSwapped _ _) = True"
| "will_write _ = False"

fun evicting :: "fence_phase \<Rightarrow> bool" where
  "evicting EvictWaiting = True"
| "evicting EvictLocked = True"
| "evicting (EvictRevoked _ _) = True"
| "evicting _ = False"

record fence_state =
  fs_store :: credential_store
  fs_tx :: "nat \<Rightarrow> fence_phase"
  fs_now :: millis
  fs_swept :: bool
  fs_evicted :: bool
  fs_outside :: bool

fun new_owner :: "new_credential \<Rightarrow> uuid" where
  "new_owner (NewKey k) = ak_app_user_id k"
| "new_owner (NewClient c) = oc_app_user_id c"

fun insert_new :: "new_credential \<Rightarrow> credential_store \<Rightarrow> credential_store" where
  "insert_new (NewKey k) cs = cs\<lparr>app_api_keys := app_api_keys cs @ [k]\<rparr>"
| "insert_new (NewClient c) cs = cs\<lparr>app_oauth_clients := app_oauth_clients cs @ [c]\<rparr>"

definition active_key :: "uuid \<Rightarrow> credential_store \<Rightarrow> uuid \<Rightarrow> bool" where
  "active_key u cs kid \<longleftrightarrow>
     (\<exists>k \<in> set (app_api_keys cs). ak_id k = kid \<and> ak_app_user_id k = u \<and> ak_status k = ''active'')"

definition retire_key :: "millis \<Rightarrow> uuid \<Rightarrow> string \<Rightarrow> uuid \<Rightarrow> credential_store \<Rightarrow> credential_store" where
  "retire_key now actor reason kid cs = fst (revokeApiKey cs now kid actor (Some reason))"

text \<open>The eviction's two statements touch the rows they saw.\<close>

definition retire_seen ::
    "millis \<Rightarrow> uuid \<Rightarrow> uuid list \<Rightarrow> uuid list \<Rightarrow> credential_store \<Rightarrow> credential_store" where
  "retire_seen now u keyIds clientIds cs =
     cs\<lparr>app_api_keys := update_where (\<lambda>k. ak_id k \<in> set keyIds)
                          (revoke_key_row now u (Some ''password_reset'')) (app_api_keys cs),
        app_oauth_clients := update_where (\<lambda>c. oc_id c \<in> set clientIds)
                          (revoke_client_row now u) (app_oauth_clients cs)\<rparr>"

subsection \<open>Steps\<close>

text \<open>
  The callers of the eviction delete the account's sessions and then start it: \<open>sweep\<close> is that
  deletion, and \<open>begin_evict\<close> comes after it. Sign-ins, to this account and to others, create
  sessions at any time, and a single revoke may happen at any time. A credential of the account
  can also be inserted with no credential of the account to re-check: by a legacy token, which
  names no source, or by an administrator on their own authority (\<open>outside_insert\<close>). The flag
  \<open>fs_outside\<close> records that, after the sweep, somebody signed in to the account anew or such an
  insert was made.
\<close>

definition fresh_session :: "fence_state \<Rightarrow> uuid \<Rightarrow> bool" where
  "fresh_session s sid \<longleftrightarrow> (\<forall>x \<in> set (auth_sessions (fs_store s)). as_id x \<noteq> sid) \<and>
     (\<forall>t new. fs_tx s t \<noteq> IssueWaiting (SessionSource sid) new \<and> fs_tx s t \<noteq> IssueLocked (SessionSource sid) new)"

inductive fence_step :: "uuid \<Rightarrow> uuid \<Rightarrow> fence_state \<Rightarrow> fence_state \<Rightarrow> bool" for u baid where
  begin_issue: "fs_tx s t = Idle \<Longrightarrow> isCallerSourceLive (fs_store s) (fs_now s) src \<Longrightarrow>
    own_source u baid (fs_store s) src \<Longrightarrow> new_owner new = u \<Longrightarrow>
    fence_step u baid s (s\<lparr>fs_tx := (fs_tx s)(t := IssueWaiting src new)\<rparr>)"
| issue_lock: "fs_tx s t = IssueWaiting src new \<Longrightarrow> (\<And>t'. \<not> holds_exclusive (fs_tx s t')) \<Longrightarrow>
    fence_step u baid s (s\<lparr>fs_tx := (fs_tx s)(t := IssueLocked src new)\<rparr>)"
| issue_check: "fs_tx s t = IssueLocked src new \<Longrightarrow>
    fence_step u baid s (s\<lparr>fs_tx := (fs_tx s)(t :=
      (case enterIssuanceFence (fs_store s) (fs_now s) src of
         None \<Rightarrow> IssueChecked new | Some _ \<Rightarrow> Refused))\<rparr>)"
| issue_insert: "fs_tx s t = IssueChecked new \<Longrightarrow>
    fence_step u baid s (s\<lparr>fs_tx := (fs_tx s)(t := IssueInserted new)\<rparr>)"
| issue_commit: "fs_tx s t = IssueInserted new \<Longrightarrow>
    fence_step u baid s (s\<lparr>fs_store := insert_new new (fs_store s), fs_tx := (fs_tx s)(t := Committed)\<rparr>)"
| begin_rotate: "fs_tx s t = Idle \<Longrightarrow> ak_app_user_id row = u \<Longrightarrow>
    fence_step u baid s (s\<lparr>fs_tx := (fs_tx s)(t := RotateWaiting kid row)\<rparr>)"
| rotate_lock: "fs_tx s t = RotateWaiting kid row \<Longrightarrow> (\<And>t'. \<not> holds_exclusive (fs_tx s t')) \<Longrightarrow>
    fence_step u baid s (s\<lparr>fs_tx := (fs_tx s)(t := RotateLocked kid row)\<rparr>)"
| rotate_swap: "fs_tx s t = RotateLocked kid row \<Longrightarrow>
    fence_step u baid s (s\<lparr>fs_tx := (fs_tx s)(t :=
      (if active_key u (fs_store s) kid then RotateSwapped kid row else Refused))\<rparr>)"
| rotate_commit: "fs_tx s t = RotateSwapped kid row \<Longrightarrow>
    fence_step u baid s (s\<lparr>fs_store := insert_new (NewKey row) (retire_key (fs_now s) u ''rotated'' kid (fs_store s)),
                           fs_tx := (fs_tx s)(t := Committed)\<rparr>)"
| delete_session: "fence_step u baid s
    (s\<lparr>fs_store := (fs_store s)\<lparr>auth_sessions := delete_where P (auth_sessions (fs_store s))\<rparr>\<rparr>)"
| sign_in: "fresh_session s (as_id x) \<Longrightarrow> fence_step u baid s
    (s\<lparr>fs_store := (fs_store s)\<lparr>auth_sessions := auth_sessions (fs_store s) @ [x]\<rparr>,
       fs_outside := fs_outside s \<or> (fs_swept s \<and> as_user_id x = baid)\<rparr>)"
| outside_insert: "new_owner new = u \<Longrightarrow> fence_step u baid s
    (s\<lparr>fs_store := insert_new new (fs_store s), fs_outside := fs_outside s \<or> fs_swept s\<rparr>)"
| sweep: "fence_step u baid s
    (s\<lparr>fs_store := (fs_store s)\<lparr>auth_sessions := delete_where (\<lambda>x. as_user_id x = baid) (auth_sessions (fs_store s))\<rparr>,
       fs_swept := True\<rparr>)"
| begin_evict: "fs_tx s t = Idle \<Longrightarrow> fs_swept s \<Longrightarrow>
    fence_step u baid s (s\<lparr>fs_tx := (fs_tx s)(t := EvictWaiting)\<rparr>)"
| evict_lock: "fs_tx s t = EvictWaiting \<Longrightarrow>
    (\<And>t'. \<not> holds_share (fs_tx s t') \<and> \<not> holds_exclusive (fs_tx s t')) \<Longrightarrow>
    fence_step u baid s (s\<lparr>fs_tx := (fs_tx s)(t := EvictLocked)\<rparr>)"
| evict_revoke: "fs_tx s t = EvictLocked \<Longrightarrow>
    fence_step u baid s (s\<lparr>fs_tx := (fs_tx s)(t :=
      EvictRevoked (map ak_id (api_keys.held u (app_api_keys (fs_store s))))
                   (map oc_id (clients.held u (app_oauth_clients (fs_store s)))))\<rparr>)"
| evict_commit: "fs_tx s t = EvictRevoked keyIds clientIds \<Longrightarrow>
    fence_step u baid s (s\<lparr>fs_store := retire_seen (fs_now s) u keyIds clientIds (fs_store s),
                           fs_tx := (fs_tx s)(t := Committed), fs_evicted := True\<rparr>)"
| revoke_one: "fence_step u baid s (s\<lparr>fs_store := retire_key (fs_now s) actor reason kid (fs_store s)\<rparr>)"
| tick: "0 \<le> d \<Longrightarrow> fence_step u baid s (s\<lparr>fs_now := fs_now s + d\<rparr>)"

definition fence_start :: "fence_state \<Rightarrow> bool" where
  "fence_start s \<longleftrightarrow> (\<forall>t. fs_tx s t = Idle) \<and> \<not> fs_swept s \<and> \<not> fs_evicted s \<and> \<not> fs_outside s"

subsection \<open>The invariant\<close>

definition no_sessions :: "uuid \<Rightarrow> credential_store \<Rightarrow> bool" where
  "no_sessions baid cs \<longleftrightarrow> filter (\<lambda>x. as_user_id x = baid) (auth_sessions cs) = []"

definition seen_all :: "uuid \<Rightarrow> uuid list \<Rightarrow> uuid list \<Rightarrow> credential_store \<Rightarrow> bool" where
  "seen_all u ks cids cs \<longleftrightarrow> set (map ak_id (api_keys.held u (app_api_keys cs))) \<subseteq> set ks \<and>
     set (map oc_id (clients.held u (app_oauth_clients cs))) \<subseteq> set cids"

definition exclusion :: "fence_state \<Rightarrow> bool" where
  "exclusion s \<longleftrightarrow> (\<forall>t t'. holds_exclusive (fs_tx s t) \<longrightarrow> t' \<noteq> t \<longrightarrow>
     \<not> holds_share (fs_tx s t') \<and> \<not> holds_exclusive (fs_tx s t'))"

definition swept_sessions :: "uuid \<Rightarrow> fence_state \<Rightarrow> bool" where
  "swept_sessions baid s \<longleftrightarrow> (fs_swept s \<and> \<not> fs_outside s \<longrightarrow> no_sessions baid (fs_store s))"

definition swept_first :: "fence_state \<Rightarrow> bool" where
  "swept_first s \<longleftrightarrow> (fs_evicted s \<or> (\<exists>t. evicting (fs_tx s t)) \<longrightarrow> fs_swept s)"

definition revoking_sees :: "uuid \<Rightarrow> fence_state \<Rightarrow> bool" where
  "revoking_sees u s \<longleftrightarrow>
     (\<not> fs_outside s \<longrightarrow> (\<forall>t ks cids. fs_tx s t = EvictRevoked ks cids \<longrightarrow> seen_all u ks cids (fs_store s)))"

definition after_eviction :: "uuid \<Rightarrow> fence_state \<Rightarrow> bool" where
  "after_eviction u s \<longleftrightarrow>
     (fs_evicted s \<and> \<not> fs_outside s \<longrightarrow> holds_nothing u (fs_store s) \<and> (\<forall>t. \<not> will_write (fs_tx s t)))"

definition own_issuers :: "uuid \<Rightarrow> uuid \<Rightarrow> fence_state \<Rightarrow> bool" where
  "own_issuers u baid s \<longleftrightarrow>
     (\<forall>t src new. fs_tx s t = IssueWaiting src new \<or> fs_tx s t = IssueLocked src new \<longrightarrow>
        own_source u baid (fs_store s) src) \<and>
     (\<forall>t src new. (fs_tx s t = IssueWaiting src new \<or> fs_tx s t = IssueLocked src new \<or>
        fs_tx s t = IssueChecked new \<or> fs_tx s t = IssueInserted new) \<longrightarrow> new_owner new = u) \<and>
     (\<forall>t kid row. (fs_tx s t = RotateWaiting kid row \<or> fs_tx s t = RotateLocked kid row \<or>
        fs_tx s t = RotateSwapped kid row) \<longrightarrow> ak_app_user_id row = u)"

lemmas fence_invariants =
  exclusion_def swept_sessions_def swept_first_def revoking_sees_def after_eviction_def own_issuers_def

text \<open>What a store operation does to the account's live rows and to the rows a source names.\<close>

lemma held_update_revoke:
  "set (api_keys.held u (update_where P (revoke_key_row now a r) ks)) \<subseteq> set (api_keys.held u ks)"
  unfolding api_keys.held_def update_where_def
  by (induction ks) (auto simp: revoke_key_row_def)

lemma held_update_revoke_client:
  "set (clients.held u (update_where P (revoke_client_row now a) cs)) \<subseteq> set (clients.held u cs)"
  unfolding clients.held_def update_where_def
  by (induction cs) (auto simp: revoke_client_row_def)

lemma retire_key_store:
  "app_api_keys (retire_key now a r kid cs) = update_where (\<lambda>k. ak_id k = kid \<and> ak_status k = ''active'')
     (revoke_key_row now a (Some r)) (app_api_keys cs)"
  "app_oauth_clients (retire_key now a r kid cs) = app_oauth_clients cs"
  "auth_sessions (retire_key now a r kid cs) = auth_sessions cs"
  by (simp_all add: retire_key_def revokeApiKey_def Let_def)

lemma retire_seen_store:
  "app_api_keys (retire_seen now a ks cids cs) = update_where (\<lambda>k. ak_id k \<in> set ks)
     (revoke_key_row now a (Some ''password_reset'')) (app_api_keys cs)"
  "app_oauth_clients (retire_seen now a ks cids cs) = update_where (\<lambda>c. oc_id c \<in> set cids)
     (revoke_client_row now a) (app_oauth_clients cs)"
  "auth_sessions (retire_seen now a ks cids cs) = auth_sessions cs"
  by (simp_all add: retire_seen_def)

lemma holds_nothing_retire_key: "holds_nothing u cs \<Longrightarrow> holds_nothing u (retire_key now a r kid cs)"
  using held_update_revoke [of u _ now a "Some r" "app_api_keys cs"]
  unfolding holds_nothing_def retire_key_store by (auto simp del: set_empty simp: set_empty [symmetric])

lemma seen_all_retire_key:
  assumes "seen_all u ks cids cs"
  shows "seen_all u ks cids (retire_key now a r kid cs)"
  using assms image_mono [OF held_update_revoke, of ak_id u _ now a "Some r" "app_api_keys cs"]
  unfolding seen_all_def retire_key_store set_map by (meson order_trans)

lemma seen_all_retire_seen:
  assumes "seen_all u ks cids cs"
  shows "seen_all u ks cids (retire_seen now a ks' cids' cs)"
  using assms
    image_mono [OF held_update_revoke, of ak_id u _ now a "Some ''password_reset''" "app_api_keys cs"]
    image_mono [OF held_update_revoke_client, of oc_id u _ now a "app_oauth_clients cs"]
  unfolding seen_all_def retire_seen_store set_map by (meson order_trans)

lemma held_revoke_seen:
  "set (map ak_id (api_keys.held u ks)) \<subseteq> ids \<Longrightarrow>
     api_keys.held u (update_where (\<lambda>k. ak_id k \<in> ids) (revoke_key_row now a r) ks) = []"
  unfolding api_keys.held_def update_where_def
  by (induction ks) (auto simp: revoke_key_row_def split: if_splits)

lemma held_revoke_seen_clients:
  "set (map oc_id (clients.held u cs)) \<subseteq> ids \<Longrightarrow>
     clients.held u (update_where (\<lambda>c. oc_id c \<in> ids) (revoke_client_row now a) cs) = []"
  unfolding clients.held_def update_where_def
  by (induction cs) (auto simp: revoke_client_row_def split: if_splits)

lemma retire_seen_all: "seen_all u ks cids cs \<Longrightarrow> holds_nothing u (retire_seen now a ks cids cs)"
  unfolding seen_all_def holds_nothing_def retire_seen_store
  by (simp add: held_revoke_seen held_revoke_seen_clients del: set_map)

text \<open>Which principal each row id belongs to.\<close>

definition key_owners :: "credential_store \<Rightarrow> (uuid \<times> uuid) list" where
  "key_owners cs = map (\<lambda>k. (ak_id k, ak_app_user_id k)) (app_api_keys cs)"

definition client_owners :: "credential_store \<Rightarrow> (uuid \<times> uuid) list" where
  "client_owners cs = map (\<lambda>c. (oc_id c, oc_app_user_id c)) (app_oauth_clients cs)"

lemma own_source_iff:
  "own_source u baid cs (SessionSource sid) \<longleftrightarrow>
     (\<forall>x \<in> set (auth_sessions cs). as_id x = sid \<longrightarrow> as_user_id x = baid)"
  "own_source u baid cs (ApiKeySource kid) \<longleftrightarrow> (\<forall>o'. (kid, o') \<in> set (key_owners cs) \<longrightarrow> o' = u)"
  "own_source u baid cs (TokenSource ref i) \<longleftrightarrow>
     (\<forall>o'. (ref_id ref, o') \<in>
        set (case ref_kind ref of KindApiKey \<Rightarrow> key_owners cs | KindOauthClient \<Rightarrow> client_owners cs) \<longrightarrow> o' = u)"
  by (force simp: key_owners_def client_owners_def split: credential_kind.splits)+

declare own_source.simps [simp del]

lemma own_source_mono:
  assumes "own_source u baid cs src"
    and "set (key_owners cs') \<subseteq> set (key_owners cs) \<union> UNIV \<times> {u}"
    and "set (client_owners cs') \<subseteq> set (client_owners cs) \<union> UNIV \<times> {u}"
    and "\<And>x. x \<in> set (auth_sessions cs') \<Longrightarrow> x \<in> set (auth_sessions cs) \<or> src \<noteq> SessionSource (as_id x)"
  shows "own_source u baid cs' src"
proof (cases src)
  case (SessionSource sid)
  with assms(1,4) show ?thesis by (fastforce simp: own_source_iff(1))
next
  case (ApiKeySource kid)
  with assms(1,2) show ?thesis by (auto simp: own_source_iff(2))
next
  case (TokenSource ref i)
  with assms(1-3) show ?thesis
    by (cases "ref_kind ref") (auto simp: own_source_iff(3))
qed

lemma owners_retire_key [simp]:
  "key_owners (retire_key now a r kid cs) = key_owners cs"
  "client_owners (retire_key now a r kid cs) = client_owners cs"
  by (simp_all add: key_owners_def client_owners_def retire_key_store map_update_where_same
      revoke_key_row_def)

lemma owners_retire_seen [simp]:
  "key_owners (retire_seen now a ks cids cs) = key_owners cs"
  "client_owners (retire_seen now a ks cids cs) = client_owners cs"
  by (simp_all add: key_owners_def client_owners_def retire_seen_store map_update_where_same
      revoke_key_row_def revoke_client_row_def)

lemma own_source_insert:
  "own_source u baid cs src \<Longrightarrow> new_owner new = u \<Longrightarrow> own_source u baid (insert_new new cs) src"
  by (erule own_source_mono) (cases new; auto simp: key_owners_def client_owners_def)+

lemma own_source_retire_key:
  "own_source u baid cs src \<Longrightarrow> own_source u baid (retire_key now a r kid cs) src"
  by (erule own_source_mono) (auto simp: retire_key_store)

lemma own_source_retire_seen:
  "own_source u baid cs src \<Longrightarrow> own_source u baid (retire_seen now a ks cids cs) src"
  by (erule own_source_mono) (auto simp: retire_seen_store)

lemma own_source_sessions:
  "own_source u baid cs src \<Longrightarrow> own_source u baid (cs\<lparr>auth_sessions := delete_where P (auth_sessions cs)\<rparr>) src"
  by (erule own_source_mono) (auto simp: key_owners_def client_owners_def table_simps)

lemma own_source_sign_in:
  "own_source u baid cs src \<Longrightarrow> src \<noteq> SessionSource (as_id x) \<Longrightarrow>
     own_source u baid (cs\<lparr>auth_sessions := auth_sessions cs @ [x]\<rparr>) src"
  by (erule own_source_mono) (auto simp: key_owners_def client_owners_def)

text \<open>With nothing held and no session left, no source of the account is live.\<close>

lemma own_source_dead:
  assumes "holds_nothing u cs" "no_sessions baid cs" "own_source u baid cs src"
  shows "\<not> isCallerSourceLive cs now src"
proof (cases src)
  case (SessionSource sid)
  with assms(2,3) show ?thesis
    by (auto simp: isCallerSourceLive_def no_sessions_def filter_empty_conv own_source.simps)
next
  case (ApiKeySource kid)
  with assms(3) have "own_source u baid cs (TokenSource \<lparr>ref_kind = KindApiKey, ref_id = kid\<rparr> now)"
    by (simp add: own_source.simps)
  with ApiKeySource held_ref_dead [OF assms(1)] show ?thesis
    by (simp add: isCallerSourceLive_def isSourceCredentialActive_def)
next
  case (TokenSource ref t)
  with assms(3) held_ref_dead [OF assms(1)] show ?thesis
    by (simp add: isCallerSourceLive_def isSourceCredentialActive_def)
qed

subsection \<open>Preservation\<close>

lemma exclusion_upd:
  assumes "exclusion s"
    and "holds_exclusive p \<Longrightarrow> \<forall>t'. t' \<noteq> t \<longrightarrow> \<not> holds_share (fs_tx s t') \<and> \<not> holds_exclusive (fs_tx s t')"
    and "holds_share p \<Longrightarrow> \<forall>t'. t' \<noteq> t \<longrightarrow> \<not> holds_exclusive (fs_tx s t')"
  shows "exclusion (s\<lparr>fs_tx := (fs_tx s)(t := p)\<rparr>)"
  using assms unfolding exclusion_def by (auto split: if_splits)

lemma exclusion_others:
  "exclusion s \<Longrightarrow> holds_share (fs_tx s t) \<Longrightarrow> t' \<noteq> t \<Longrightarrow> \<not> holds_exclusive (fs_tx s t')"
  "exclusion s \<Longrightarrow> holds_exclusive (fs_tx s t) \<Longrightarrow> t' \<noteq> t \<Longrightarrow>
     \<not> holds_share (fs_tx s t') \<and> \<not> holds_exclusive (fs_tx s t')"
  unfolding exclusion_def by metis+

lemma exclusion_keep:
  "exclusion s \<Longrightarrow> \<not> holds_share p \<Longrightarrow> \<not> holds_exclusive p \<Longrightarrow> exclusion (s\<lparr>fs_tx := (fs_tx s)(t := p)\<rparr>)"
  "exclusion s \<Longrightarrow> holds_share (fs_tx s t) \<Longrightarrow> \<not> holds_exclusive p \<Longrightarrow> exclusion (s\<lparr>fs_tx := (fs_tx s)(t := p)\<rparr>)"
  "exclusion s \<Longrightarrow> holds_exclusive (fs_tx s t) \<Longrightarrow> exclusion (s\<lparr>fs_tx := (fs_tx s)(t := p)\<rparr>)"
  by (rule exclusion_upd; use exclusion_others in blast)+

lemma exclusion_store [simp]:
  "exclusion (s\<lparr>fs_store := cs\<rparr>) = exclusion s" "exclusion (s\<lparr>fs_now := n\<rparr>) = exclusion s"
  "exclusion (s\<lparr>fs_evicted := e\<rparr>) = exclusion s"
  "exclusion (s\<lparr>fs_store := cs, fs_outside := e\<rparr>) = exclusion s" "exclusion (s\<lparr>fs_store := cs, fs_swept := e\<rparr>) = exclusion s"
  "exclusion (s\<lparr>fs_store := cs, fs_tx := tx\<rparr>) = exclusion (s\<lparr>fs_tx := tx\<rparr>)"
  "exclusion (s\<lparr>fs_store := cs, fs_tx := tx, fs_evicted := e\<rparr>) = exclusion (s\<lparr>fs_tx := tx\<rparr>)"
  by (simp_all add: exclusion_def)

lemma exclusion_step:
  assumes "fence_step u baid s s'" "exclusion s"
  shows "exclusion s'"
  using assms(1)
proof cases
  case issue_lock
  then show ?thesis using assms(2) by (auto intro: exclusion_upd)
next
  case rotate_lock
  then show ?thesis using assms(2) by (auto intro: exclusion_upd)
next
  case evict_lock
  then show ?thesis using assms(2) by (auto intro: exclusion_upd)
next
  case issue_check
  then show ?thesis using assms(2) by (auto intro: exclusion_keep(2) split: option.split)
next
  case issue_insert
  then show ?thesis using assms(2) by (auto intro: exclusion_keep(2))
next
  case rotate_swap
  then show ?thesis using assms(2) by (auto intro: exclusion_keep(2))
next
  case evict_revoke
  then show ?thesis using assms(2) by (auto intro: exclusion_keep(3))
qed (use assms(2) in \<open>auto intro: exclusion_keep(1)\<close>)

declare insert_new.simps [simp del]

lemma own_issuers_sign_in:
  assumes "own_issuers u baid s" "fresh_session s (as_id x)"
  shows "own_issuers u baid
     (s\<lparr>fs_store := (fs_store s)\<lparr>auth_sessions := auth_sessions (fs_store s) @ [x]\<rparr>, fs_outside := e\<rparr>)"
proof -
  have "own_source u baid ((fs_store s)\<lparr>auth_sessions := auth_sessions (fs_store s) @ [x]\<rparr>) src"
    if "fs_tx s t = IssueWaiting src new \<or> fs_tx s t = IssueLocked src new" for t src new
    using that assms by (intro own_source_sign_in) (auto simp: own_issuers_def fresh_session_def)
  with assms(1) show ?thesis unfolding own_issuers_def by simp
qed

lemma own_issuers_step: "fence_step u baid s s' \<Longrightarrow> own_issuers u baid s \<Longrightarrow> own_issuers u baid s'"
proof (induction rule: fence_step.induct)
  case (sign_in s x)
  then show ?case by (intro own_issuers_sign_in)
qed (auto simp: own_issuers_def own_source_insert own_source_retire_key own_source_retire_seen
      own_source_sessions split: option.splits if_splits)

lemma no_sessions_store [simp]:
  "no_sessions baid (insert_new new cs) = no_sessions baid cs"
  "no_sessions baid (retire_key now a r kid cs) = no_sessions baid cs"
  "no_sessions baid (retire_seen now a ks cids cs) = no_sessions baid cs"
  "no_sessions baid cs \<Longrightarrow> no_sessions baid (cs\<lparr>auth_sessions := delete_where P (auth_sessions cs)\<rparr>)"
  by (cases new; auto simp: no_sessions_def insert_new.simps retire_key_store retire_seen_store
      filter_empty_conv table_simps)+

lemma no_sessions_sweep [simp]:
  "no_sessions baid (cs\<lparr>auth_sessions := delete_where (\<lambda>x. as_user_id x = baid) (auth_sessions cs)\<rparr>)"
  by (simp add: no_sessions_def filter_empty_conv table_simps)

lemma no_sessions_sign_in [simp]:
  "no_sessions baid (cs\<lparr>auth_sessions := auth_sessions cs @ [x]\<rparr>) \<longleftrightarrow> no_sessions baid cs \<and> as_user_id x \<noteq> baid"
  by (simp add: no_sessions_def)

lemma swept_sessions_step: "fence_step u baid s s' \<Longrightarrow> swept_sessions baid s \<Longrightarrow> swept_sessions baid s'"
  by (induction rule: fence_step.induct) (auto simp: swept_sessions_def)

lemma swept_first_upd:
  assumes "swept_first s" "evicting p \<Longrightarrow> fs_swept s"
  shows "swept_first (s\<lparr>fs_tx := (fs_tx s)(t := p)\<rparr>)"
  using assms by (auto simp: swept_first_def split: if_splits)

lemma swept_first_evicting: "swept_first s \<Longrightarrow> evicting (fs_tx s t) \<Longrightarrow> fs_swept s"
  by (auto simp: swept_first_def)

lemma swept_first_step:
  assumes "fence_step u baid s s'" "swept_first s"
  shows "swept_first s'"
  using assms(1)
proof cases
  case (evict_lock t)
  with assms(2) have "fs_swept s" by (auto intro: swept_first_evicting [of s t])
  with evict_lock assms(2) show ?thesis by (auto intro: swept_first_upd)
next
  case (evict_revoke t)
  with assms(2) have "fs_swept s" by (auto intro: swept_first_evicting [of s t])
  with evict_revoke assms(2) show ?thesis by (auto intro: swept_first_upd)
next
  case (evict_commit t ks cids)
  with assms(2) have "fs_swept s" by (auto intro: swept_first_evicting [of s t])
  with evict_commit show ?thesis by (simp add: swept_first_def)
qed (use assms(2) in \<open>auto simp: swept_first_def split: if_splits option.splits\<close>)

lemma revoking_sees_upd:
  "revoking_sees u s \<Longrightarrow> (\<And>ks cids. p = EvictRevoked ks cids \<Longrightarrow> seen_all u ks cids (fs_store s)) \<Longrightarrow>
     revoking_sees u (s\<lparr>fs_tx := (fs_tx s)(t := p)\<rparr>)"
  by (auto simp: revoking_sees_def split: if_splits)

lemma revoking_sees_commit:
  assumes "exclusion s" "holds_share (fs_tx s t)"
  shows "revoking_sees u (s\<lparr>fs_store := cs, fs_tx := (fs_tx s)(t := Committed)\<rparr>)"
proof -
  have "fs_tx s t' \<noteq> EvictRevoked ks cids" if "t' \<noteq> t" for t' ks cids
    using exclusion_others(1) [OF assms that] by auto
  then show ?thesis by (auto simp: revoking_sees_def split: if_splits)
qed

lemma revoking_sees_step:
  assumes "fence_step u baid s s'" "exclusion s" "swept_first s" "revoking_sees u s"
  shows "revoking_sees u s'"
  using assms(1)
proof cases
  case issue_commit
  then show ?thesis using assms(2) by (auto intro: revoking_sees_commit)
next
  case rotate_commit
  then show ?thesis using assms(2) by (auto intro: revoking_sees_commit)
next
  case evict_revoke
  then show ?thesis using assms(4) by (auto intro!: revoking_sees_upd simp: seen_all_def)
next
  case evict_commit
  then show ?thesis using assms(4)
    by (auto simp: revoking_sees_def seen_all_retire_seen split: if_splits)
next
  case revoke_one
  then show ?thesis using assms(4) by (auto simp: revoking_sees_def seen_all_retire_key)
next
  case delete_session
  then show ?thesis using assms(4) by (auto simp: revoking_sees_def seen_all_def)
next
  case sign_in
  then show ?thesis using assms(4) by (auto simp: revoking_sees_def seen_all_def)
next
  case sweep
  then show ?thesis using assms(4) by (auto simp: revoking_sees_def seen_all_def)
next
  case outside_insert
  have "fs_tx s t \<noteq> EvictRevoked ks cids" if "\<not> fs_swept s" for t ks cids
    using swept_first_evicting [OF assms(3), of t] that by auto
  with outside_insert show ?thesis by (auto simp: revoking_sees_def)
next
  case tick
  then show ?thesis using assms(4) by (auto simp: revoking_sees_def)
qed (use assms(4) in \<open>auto intro!: revoking_sees_upd split: option.splits if_splits\<close>)

lemma after_eviction_upd:
  "after_eviction u s \<Longrightarrow> (fs_evicted s \<Longrightarrow> \<not> fs_outside s \<Longrightarrow> will_write p \<Longrightarrow> will_write (fs_tx s t)) \<Longrightarrow>
     after_eviction u (s\<lparr>fs_tx := (fs_tx s)(t := p)\<rparr>)"
  by (auto simp: after_eviction_def)

lemma after_eviction_no_commit:
  "after_eviction u s \<Longrightarrow> will_write (fs_tx s t) \<Longrightarrow>
     after_eviction u (s\<lparr>fs_store := cs, fs_tx := tx\<rparr>)"
  by (auto simp: after_eviction_def)

lemma will_write_share: "will_write p \<Longrightarrow> holds_share p"
  by (cases p) auto

lemma holds_nothing_inactive: "holds_nothing u cs \<Longrightarrow> \<not> active_key u cs kid"
  using api_keys.held_mem by (fastforce simp: holds_nothing_def active_key_def)

lemma after_eviction_step:
  assumes "fence_step u baid s s'" "exclusion s" "swept_sessions baid s" "swept_first s" "revoking_sees u s"
    "own_issuers u baid s" "after_eviction u s"
  shows "after_eviction u s'"
  using assms(1)
proof cases
  case (issue_check t src new)
  have "\<not> isCallerSourceLive (fs_store s) (fs_now s) src" if "fs_evicted s" "\<not> fs_outside s"
    using that assms(3,4,6,7) issue_check(2)
    by (intro own_source_dead [of u _ baid]) (auto simp: after_eviction_def swept_sessions_def swept_first_def own_issuers_def)
  with issue_check show ?thesis
    using assms(7) by (auto intro!: after_eviction_upd simp: enterIssuanceFence_def)
next
  case (rotate_swap t kid row)
  then show ?thesis using assms(7) holds_nothing_inactive
    by (auto intro!: after_eviction_upd simp: after_eviction_def)
next
  case (issue_commit t new)
  then show ?thesis using assms(7) after_eviction_no_commit [of u s t] by simp
next
  case (rotate_commit t kid row)
  then show ?thesis using assms(7) after_eviction_no_commit [of u s t] by simp
next
  case (evict_commit t ks cids)
  then have "\<not> will_write (fs_tx s t')" if "t' \<noteq> t" for t'
    using exclusion_others(2) [OF assms(2) _ that] will_write_share by auto
  with evict_commit show ?thesis
    using assms(5) by (auto simp: after_eviction_def revoking_sees_def retire_seen_all)
next
  case revoke_one
  then show ?thesis using assms(7) by (auto simp: after_eviction_def holds_nothing_retire_key)
next
  case delete_session
  then show ?thesis using assms(7) by (auto simp: after_eviction_def holds_nothing_def)
next
  case sign_in
  then show ?thesis using assms(7) by (auto simp: after_eviction_def holds_nothing_def)
next
  case sweep
  then show ?thesis using assms(7) by (auto simp: after_eviction_def holds_nothing_def)
next
  case outside_insert
  then show ?thesis using assms(4) by (auto simp: after_eviction_def swept_first_def)
next
  case tick
  then show ?thesis using assms(7) by (auto simp: after_eviction_def)
qed (use assms(7) in \<open>auto intro!: after_eviction_upd\<close>)

definition fence_invariant :: "uuid \<Rightarrow> uuid \<Rightarrow> fence_state \<Rightarrow> bool" where
  "fence_invariant u baid s \<longleftrightarrow> exclusion s \<and> swept_sessions baid s \<and> swept_first s \<and> revoking_sees u s \<and>
     own_issuers u baid s \<and> after_eviction u s"

lemma fence_invariant_reachable:
  assumes "(fence_step u baid)\<^sup>*\<^sup>* s0 s" "fence_start s0"
  shows "fence_invariant u baid s"
  using assms
proof (induction rule: rtranclp_induct)
  case base
  then show ?case by (simp add: fence_start_def fence_invariant_def fence_invariants)
next
  case (step s s')
  then have inv: "exclusion s" "swept_sessions baid s" "swept_first s" "revoking_sees u s" "own_issuers u baid s"
    "after_eviction u s" by (simp_all add: fence_invariant_def)
  show ?case
    unfolding fence_invariant_def
    using exclusion_step [OF step.hyps(2) inv(1)] swept_sessions_step [OF step.hyps(2) inv(2)]
      swept_first_step [OF step.hyps(2) inv(3)] revoking_sees_step [OF step.hyps(2) inv(1,3,4)]
      own_issuers_step [OF step.hyps(2) inv(5)] after_eviction_step [OF step.hyps(2) inv(1-6)] by simp
qed

subsection \<open>Property\<close>

text \<open>
  C5: Once the account's sessions were swept and a fenced eviction of it has committed, then in
  every state the interleaved transactions can reach no active key or client of the account
  exists, no session of it exists, and no transaction is past the check that would let it write
  one - whatever requests authenticated with the account's own sessions, keys, clients and tokens
  were in flight, whoever signed in before the sweep, and whoever signs in to other accounts. The
  condition, tracked by the flag fs_outside: since the sweep nobody has signed in to the account
  anew (its old password is replaced, or the account banned) and nobody inserted a credential for
  it from outside the fence, as a legacy token that names no source or an administrator on their
  own authority can.
\<close>

theorem no_credential_outlives_eviction:
  assumes "fence_start s0" and "(fence_step u baid)\<^sup>*\<^sup>* s0 s" and "fs_evicted s" and "\<not> fs_outside s"
  shows "holds_nothing u (fs_store s) \<and> no_sessions baid (fs_store s) \<and> \<not> (\<exists>t. will_write (fs_tx s t))"
  using fence_invariant_reachable [OF assms(2,1)] assms(3,4)
  by (auto simp: fence_invariant_def after_eviction_def swept_sessions_def swept_first_def)

text \<open>A key of the account mints another while the eviction runs, and loses the race.\<close>

definition race_start :: fence_state where
  "race_start =
     \<lparr>fs_store = sample_store\<lparr>auth_sessions := []\<rparr>, fs_tx = (\<lambda>_. Idle), fs_now = 100,
      fs_swept = False, fs_evicted = False, fs_outside = False\<rparr>"

text \<open>The thief's session, opened before the sweep.\<close>

definition thief_session :: auth_session_row where
  "thief_session = \<lparr>as_id = ''s9'', as_user_id = ''b1'', as_expires_at = 1000, as_impersonated_by = None\<rparr>"

lemma no_credential_outlives_eviction_witness:
  "\<exists>s. (fence_step ''u1'' ''b1'')\<^sup>*\<^sup>* race_start s \<and> fs_tx s 0 = Refused \<and> fs_tx s 1 = Committed \<and>
     holds_nothing ''u1'' (fs_store s) \<and> no_sessions ''b1'' (fs_store s) \<and> \<not> (\<exists>t. will_write (fs_tx s t))"
proof -
  let ?step = "fence_step ''u1'' ''b1''"
  let ?new = "NewKey sample_key" and ?src = "SessionSource ''s9''"
  define s1 where "s1 = race_start\<lparr>fs_store := (fs_store race_start)\<lparr>auth_sessions :=
      auth_sessions (fs_store race_start) @ [thief_session]\<rparr>,
      fs_outside := fs_outside race_start \<or> (fs_swept race_start \<and> as_user_id thief_session = ''b1'')\<rparr>"
  define s2 where "s2 = s1\<lparr>fs_tx := (fs_tx s1)(0 := IssueWaiting ?src ?new)\<rparr>"
  define s3 where "s3 = s2\<lparr>fs_store := (fs_store s2)\<lparr>auth_sessions :=
      delete_where (\<lambda>x. as_user_id x = ''b1'') (auth_sessions (fs_store s2))\<rparr>, fs_swept := True\<rparr>"
  define s4 where "s4 = s3\<lparr>fs_tx := (fs_tx s3)(1 := EvictWaiting)\<rparr>"
  define s5 where "s5 = s4\<lparr>fs_tx := (fs_tx s4)(1 := EvictLocked)\<rparr>"
  define s6 where "s6 = s5\<lparr>fs_tx := (fs_tx s5)(1 :=
      EvictRevoked (map ak_id (api_keys.held ''u1'' (app_api_keys (fs_store s5))))
                   (map oc_id (clients.held ''u1'' (app_oauth_clients (fs_store s5)))))\<rparr>"
  define s7 where "s7 = s6\<lparr>fs_store := retire_seen (fs_now s6) ''u1'' [''k1''] [''c1''] (fs_store s6),
      fs_tx := (fs_tx s6)(1 := Committed), fs_evicted := True\<rparr>"
  define s8 where "s8 = s7\<lparr>fs_tx := (fs_tx s7)(0 := IssueLocked ?src ?new)\<rparr>"
  define s9 where "s9 = s8\<lparr>fs_tx := (fs_tx s8)(0 :=
      (case enterIssuanceFence (fs_store s8) (fs_now s8) ?src of None \<Rightarrow> IssueChecked ?new | Some _ \<Rightarrow> Refused))\<rparr>"
  note defs = s1_def s2_def s3_def s4_def s5_def s6_def s7_def s8_def s9_def race_start_def
  have ids: "map ak_id (api_keys.held ''u1'' (app_api_keys sample_store)) = [''k1'']"
    "map oc_id (clients.held ''u1'' (app_oauth_clients sample_store)) = [''c1'']"
    by (simp_all add: api_keys.held_def clients.held_def sample_store_def sample_key_def sample_client_def)
  have live: "isCallerSourceLive (fs_store s2) (fs_now s2) ?src" "own_source ''u1'' ''b1'' (fs_store s2) ?src"
    by (simp_all add: defs isCallerSourceLive_def thief_session_def own_source_iff)
  have new: "ak_app_user_id sample_key = ''u1''" by (simp add: sample_key_def)
  have gone: "auth_sessions (fs_store s8) = []"
    by (simp add: defs retire_seen_store thief_session_def delete_where_def)
  have r1: "?step race_start s1" unfolding s1_def
    by (rule sign_in) (simp add: fresh_session_def race_start_def)
  have r2: "?step s1 s2" unfolding s2_def
    by (rule begin_issue) (use live in \<open>simp_all add: new s2_def, simp_all add: s1_def race_start_def\<close>)
  have r3: "?step s2 s3" unfolding s3_def by (rule sweep)
  have r4: "?step s3 s4" unfolding s4_def by (rule begin_evict) (simp_all add: defs)
  have r5: "?step s4 s5" unfolding s5_def by (rule evict_lock) (simp_all add: defs)
  have r6: "?step s5 s6" unfolding s6_def by (rule evict_revoke) (simp add: defs)
  have r7: "?step s6 s7" unfolding s7_def by (rule evict_commit) (simp add: defs ids)
  have r8: "?step s7 s8" unfolding s8_def by (rule issue_lock) (simp_all add: defs)
  have r9: "?step s8 s9" unfolding s9_def by (rule issue_check) (simp add: defs)
  have run: "?step\<^sup>*\<^sup>* race_start s9"
    using r1 r2 r3 r4 r5 r6 r7 r8 r9 by (meson converse_rtranclp_into_rtranclp rtranclp.rtrancl_refl)
  have start: "fence_start race_start" by (simp add: fence_start_def race_start_def)
  have ev: "fs_evicted s9" "\<not> fs_outside s9" by (simp_all add: defs)
  have "fs_tx s9 0 = Refused"
    using gone by (simp add: s9_def enterIssuanceFence_def isCallerSourceLive_def)
  moreover have "fs_tx s9 1 = Committed" by (simp add: defs)
  ultimately show ?thesis using run no_credential_outlives_eviction [OF start run ev] by blast
qed

end
