(* ===== verification/AccessTokens.thy ===== *)
theory AccessTokens
  imports Credentials Scopes
begin

text \<open>
  Access tokens (\<open>src/lib/api-auth/jwt.server.ts\<close>, \<open>resources.ts\<close>): the claims a token is minted
  with, the checks a presented one passes, and the resource indicators that choose its
  audience. Signing and the signature, issuer and lifetime check are the third-party \<open>jose\<close>:
  the arguments \<open>sign\<close> and \<open>jwtVerify\<close>. The URL parser is the argument \<open>parseUrl\<close>, returning
  a URL's origin and path name.
\<close>

record api_env =
  API_KEYS_ENABLED :: bool
  API_JWT_ENABLED :: bool
  API_JWT_AUDIENCE :: string
  API_JWT_ACCESS_TTL_SECONDS :: int
  BETTER_AUTH_URL :: string

subsection \<open>The source credential claim\<close>

fun credential_kind_text :: "credential_kind \<Rightarrow> string" where
  "credential_kind_text KindApiKey = ''api_key''"
| "credential_kind_text KindOauthClient = ''oauth_client''"

definition encodeCredentialRef :: "token_credential_ref \<Rightarrow> string" where
  "encodeCredentialRef r = credential_kind_text (ref_kind r) @ '':'' @ ref_id r"

definition decodeCredentialRef :: "string option \<Rightarrow> token_credential_ref option" where
  "decodeCredentialRef claim =
     (case claim of
        None \<Rightarrow> None
      | Some c \<Rightarrow>
          (let kind = takeWhile (\<lambda>x. x \<noteq> CHR '':'') c; rest = dropWhile (\<lambda>x. x \<noteq> CHR '':'') c
           in if rest = [] \<or> kind = [] then None
              else if tl rest = [] then None
              else if kind = ''api_key'' then Some \<lparr>ref_kind = KindApiKey, ref_id = tl rest\<rparr>
              else if kind = ''oauth_client'' then Some \<lparr>ref_kind = KindOauthClient, ref_id = tl rest\<rparr>
              else None))"

lemma decode_encode_credential:
  assumes "ref_id r \<noteq> []"
  shows "decodeCredentialRef (Some (encodeCredentialRef r)) = Some r"
proof (cases r)
  case (fields k i)
  with assms show ?thesis by (cases k) (simp_all add: decodeCredentialRef_def encodeCredentialRef_def)
qed

subsection \<open>Claims\<close>

datatype aud_claim = AudAbsent | AudString string | AudArray "string list"

text \<open>The claims as \<open>jose\<close> hands them back: a claim of the wrong type reads as absent.\<close>

record jwt_payload =
  pl_sub :: "string option"
  pl_jti :: "string option"
  pl_exp :: "int option"
  pl_iat :: "int option"
  pl_aud :: aud_claim
  pl_scope :: "string option"
  pl_org :: "string option"
  pl_cid :: "string option"

record mint_access_token_input =
  mi_subject :: uuid
  mi_scopes :: "string list"
  mi_organizationId :: "uuid option"
  mi_jti :: uuid
  mi_ttlSeconds :: "int option"
  mi_audience :: "string option"
  mi_credential :: "token_credential_ref option"

record minted_access_token =
  mt_token :: string
  mt_jti :: uuid
  mt_expiresInSeconds :: int
  mt_scopes :: "string list"
  mt_audience :: string

fun join_space :: "string list \<Rightarrow> string" where
  "join_space [] = []"
| "join_space [p] = p"
| "join_space (p # q # ps) = p @ '' '' @ join_space (q # ps)"

text \<open>\<open>setIssuedAt\<close> and \<open>setExpirationTime\<close> stamp whole seconds.\<close>

definition minted_ttl :: "api_env \<Rightarrow> mint_access_token_input \<Rightarrow> int" where
  "minted_ttl env inp = (case mi_ttlSeconds inp of Some t \<Rightarrow> t | None \<Rightarrow> API_JWT_ACCESS_TTL_SECONDS env)"

definition minted_audience :: "api_env \<Rightarrow> mint_access_token_input \<Rightarrow> string" where
  "minted_audience env inp = (case mi_audience inp of Some a \<Rightarrow> a | None \<Rightarrow> API_JWT_AUDIENCE env)"

definition minted_claims :: "api_env \<Rightarrow> millis \<Rightarrow> mint_access_token_input \<Rightarrow> jwt_payload" where
  "minted_claims env now inp =
     \<lparr>pl_sub = Some (mi_subject inp), pl_jti = Some (mi_jti inp),
      pl_exp = Some (now div 1000 + minted_ttl env inp), pl_iat = Some (now div 1000),
      pl_aud = AudString (minted_audience env inp), pl_scope = Some (join_space (mi_scopes inp)),
      pl_org = mi_organizationId inp, pl_cid = map_option encodeCredentialRef (mi_credential inp)\<rparr>"

definition mintAccessToken ::
    "(jwt_payload \<Rightarrow> string) \<Rightarrow> api_env \<Rightarrow> millis \<Rightarrow> mint_access_token_input \<Rightarrow> minted_access_token" where
  "mintAccessToken sign env now inp =
     \<lparr>mt_token = sign (minted_claims env now inp), mt_jti = mi_jti inp,
      mt_expiresInSeconds = minted_ttl env inp, mt_scopes = mi_scopes inp,
      mt_audience = minted_audience env inp\<rparr>"

record verified_access_token =
  vt_subject :: uuid
  vt_scopes :: "string list"
  vt_organizationId :: "uuid option"
  vt_jti :: uuid
  vt_issuedAt :: millis
  vt_expiresAt :: millis
  vt_audience :: "string list"
  vt_credential :: "token_credential_ref option"

datatype token_failure = KeyMaterialFailure | AudienceFailure | OtherFailure

definition aud_list :: "aud_claim \<Rightarrow> string list" where
  "aud_list a = (case a of AudAbsent \<Rightarrow> [] | AudString s \<Rightarrow> [s] | AudArray xs \<Rightarrow> xs)"

definition verifyAccessToken ::
    "(string \<Rightarrow> token_failure + jwt_payload) \<Rightarrow> api_env \<Rightarrow> string list option \<Rightarrow> string \<Rightarrow>
     token_failure + verified_access_token" where
  "verifyAccessToken jwtVerify env expectedAudience token =
     (case jwtVerify token of
        Inl e \<Rightarrow> Inl e
      | Inr payload \<Rightarrow>
          (case (pl_sub payload, pl_jti payload, pl_exp payload, pl_iat payload) of
             (Some sub, Some jti, Some ex, Some iat) \<Rightarrow>
               if sub = [] \<or> jti = [] then Inl OtherFailure
               else
                 (let expected = (case expectedAudience of Some a \<Rightarrow> a | None \<Rightarrow> [API_JWT_AUDIENCE env]);
                      actual = aud_list (pl_aud payload)
                  in if \<not> (\<exists>a \<in> set actual. a \<in> set expected) then Inl AudienceFailure
                     else Inr
                       \<lparr>vt_subject = sub,
                        vt_scopes = filter (\<lambda>p. p \<noteq> [])
                          (split_space (case pl_scope payload of Some s \<Rightarrow> s | None \<Rightarrow> [])),
                        vt_organizationId = pl_org payload, vt_jti = jti, vt_issuedAt = iat * 1000,
                        vt_expiresAt = ex * 1000, vt_audience = actual,
                        vt_credential = decodeCredentialRef (pl_cid payload)\<rparr>)
           | _ \<Rightarrow> Inl OtherFailure))"

subsection \<open>Resource indicators\<close>

datatype token_resource_kind = ResourceV1 | ResourceMcp

record resolved_resource =
  rs_kind :: token_resource_kind
  rs_resource :: string

definition trimTrailingSlash :: "string \<Rightarrow> string" where
  "trimTrailingSlash url = rev (dropWhile (\<lambda>c. c = CHR ''/'') (rev url))"

definition v1ResourceIdentifier :: "string \<Rightarrow> string" where
  "v1ResourceIdentifier baseUrl = trimTrailingSlash baseUrl @ ''/api/v1''"

definition mcpResourceIdentifier :: "string \<Rightarrow> string" where
  "mcpResourceIdentifier baseUrl = trimTrailingSlash baseUrl @ ''/api/mcp''"

definition supportedResources :: "string \<Rightarrow> string list" where
  "supportedResources baseUrl = [v1ResourceIdentifier baseUrl, mcpResourceIdentifier baseUrl]"

definition audienceForResource :: "token_resource_kind \<Rightarrow> api_env \<Rightarrow> string" where
  "audienceForResource kind env =
     (if kind = ResourceMcp then mcpResourceIdentifier (BETTER_AUTH_URL env) else API_JWT_AUDIENCE env)"

definition normalizeIdentifier :: "(string \<Rightarrow> (string \<times> string) option) \<Rightarrow> string \<Rightarrow> string option" where
  "normalizeIdentifier parseUrl v =
     (case parseUrl v of None \<Rightarrow> None | Some (origin, pathname) \<Rightarrow> Some (trimTrailingSlash (origin @ pathname)))"

definition isSameIdentifier :: "(string \<Rightarrow> (string \<times> string) option) \<Rightarrow> string \<Rightarrow> string \<Rightarrow> bool" where
  "isSameIdentifier parseUrl a b =
     (let left = normalizeIdentifier parseUrl a; right = normalizeIdentifier parseUrl b
      in left \<noteq> None \<and> right \<noteq> None \<and> left = right)"

definition resolveRequestedResource ::
    "(string \<Rightarrow> (string \<times> string) option) \<Rightarrow> string option \<Rightarrow> string \<Rightarrow> resolved_resource option" where
  "resolveRequestedResource parseUrl raw baseUrl =
     (case raw of
        None \<Rightarrow> Some \<lparr>rs_kind = ResourceV1, rs_resource = v1ResourceIdentifier baseUrl\<rparr>
      | Some r \<Rightarrow>
          if trim r = [] then Some \<lparr>rs_kind = ResourceV1, rs_resource = v1ResourceIdentifier baseUrl\<rparr>
          else
            (let trimmed = trim r
             in if CHR ''#'' \<in> set trimmed \<or> CHR ''?'' \<in> set trimmed then None
                else
                  (let candidate = normalizeIdentifier parseUrl trimmed;
                       v1 = v1ResourceIdentifier baseUrl; mcp = mcpResourceIdentifier baseUrl
                   in if candidate = None then None
                      else if candidate = normalizeIdentifier parseUrl v1
                      then Some \<lparr>rs_kind = ResourceV1, rs_resource = v1\<rparr>
                      else if candidate = normalizeIdentifier parseUrl mcp
                      then Some \<lparr>rs_kind = ResourceMcp, rs_resource = mcp\<rparr>
                      else None)))"

subsection \<open>The round trip\<close>

text \<open>Scopes as \<open>normalizeScopes\<close> leaves them: not empty, no white space inside.\<close>

definition scope_words :: "string list \<Rightarrow> bool" where
  "scope_words ss \<longleftrightarrow> (\<forall>s \<in> set ss. s \<noteq> [] \<and> (\<forall>c \<in> set s. \<not> js_space c))"

declare split_space.simps(2) [simp del]

lemma split_space_char:
  "\<not> js_space c \<Longrightarrow> split_space (c # cs) = (c # hd (split_space cs)) # tl (split_space cs)"
  "js_space c \<Longrightarrow> \<not> js_space d \<Longrightarrow> split_space (c # d # ds) = [] # split_space (d # ds)"
proof -
  have "split_space cs \<noteq> []"
  proof (induction cs)
    case (Cons x xs)
    then show ?case
      by (cases "split_space xs"; cases xs) (simp_all add: split_space.simps(2) [of x])
  qed simp
  then show "\<not> js_space c \<Longrightarrow> split_space (c # cs) = (c # hd (split_space cs)) # tl (split_space cs)"
    by (cases "split_space cs") (simp_all add: split_space.simps(2) [of c])
  show "js_space c \<Longrightarrow> \<not> js_space d \<Longrightarrow> split_space (c # d # ds) = [] # split_space (d # ds)"
    by (simp add: split_space.simps(2) [of c])
qed

lemma split_space_word: "(\<forall>c \<in> set w. \<not> js_space c) \<Longrightarrow> split_space w = [w]"
  by (induction w) (simp_all add: split_space_char)

lemma split_space_append_word:
  "(\<forall>c \<in> set w. \<not> js_space c) \<Longrightarrow> d \<noteq> [] \<Longrightarrow> \<not> js_space (hd d) \<Longrightarrow>
     split_space (w @ '' '' @ d) = w # split_space d"
proof (induction w)
  case Nil
  then show ?case by (cases d) (simp_all add: split_space_char(2) js_space_def [of "CHR '' ''"])
next
  case (Cons c w)
  then show ?case by (simp add: split_space_char(1))
qed

lemma join_space_head:
  "ps \<noteq> [] \<Longrightarrow> scope_words ps \<Longrightarrow> join_space ps \<noteq> [] \<and> \<not> js_space (hd (join_space ps))"
  by (induction ps rule: join_space.induct) (auto simp: scope_words_def hd_append)

lemma split_join_space: "scope_words ss \<Longrightarrow> filter (\<lambda>p. p \<noteq> []) (split_space (join_space ss)) = ss"
proof (induction ss rule: join_space.induct)
  case 1
  then show ?case by simp
next
  case (2 p)
  then show ?case by (simp add: scope_words_def split_space_word)
next
  case (3 p q ps)
  then have w: "scope_words (q # ps)" "\<forall>c \<in> set p. \<not> js_space c" "p \<noteq> []"
    by (simp_all add: scope_words_def)
  with join_space_head [of "q # ps"] have
    "split_space (p @ '' '' @ join_space (q # ps)) = p # split_space (join_space (q # ps))"
    by (intro split_space_append_word) auto
  with w 3 show ?case by simp
qed

text \<open>
  A minted token verifies to exactly what it was minted with: subject, scopes,
  organization, id, source credential and an expiry its lifetime after a whole second, at the
  audience it was minted for and at no other. The hypothesis is what the JWT library documents of a
  token it signed: it hands the claims back.
\<close>

lemma minted_token_round_trips:
  assumes jose: "jwtVerify (sign (minted_claims env now inp)) = Inr (minted_claims env now inp)"
    and "scope_words (mi_scopes inp)" "mi_subject inp \<noteq> []" "mi_jti inp \<noteq> []"
    and "case mi_credential inp of None \<Rightarrow> True | Some r \<Rightarrow> ref_id r \<noteq> []"
  shows "verifyAccessToken jwtVerify env expected (mt_token (mintAccessToken sign env now inp)) =
    (if minted_audience env inp \<in> set (case expected of Some a \<Rightarrow> a | None \<Rightarrow> [API_JWT_AUDIENCE env])
     then Inr \<lparr>vt_subject = mi_subject inp, vt_scopes = mi_scopes inp,
               vt_organizationId = mi_organizationId inp, vt_jti = mi_jti inp,
               vt_issuedAt = (now div 1000) * 1000,
               vt_expiresAt = (now div 1000) * 1000 + minted_ttl env inp * 1000,
               vt_audience = [minted_audience env inp], vt_credential = mi_credential inp\<rparr>
     else Inl AudienceFailure)"
proof -
  have "decodeCredentialRef (map_option encodeCredentialRef (mi_credential inp)) = mi_credential inp"
    using assms(5) decode_encode_credential
    by (cases "mi_credential inp") (auto simp: decodeCredentialRef_def)
  moreover have "filter (\<lambda>p. p \<noteq> []) (split_space (join_space (mi_scopes inp))) = mi_scopes inp"
    using assms(2) by (rule split_join_space)
  ultimately show ?thesis
    using assms(3,4) by (simp add: mintAccessToken_def verifyAccessToken_def jose)
      (simp add: minted_claims_def Let_def aud_list_def algebra_simps)
qed

definition sample_env :: api_env where
  "sample_env = \<lparr>API_KEYS_ENABLED = True, API_JWT_ENABLED = True, API_JWT_AUDIENCE = ''devresponse-api'',
     API_JWT_ACCESS_TTL_SECONDS = 3600, BETTER_AUTH_URL = ''https://x''\<rparr>"

definition sample_mint :: mint_access_token_input where
  "sample_mint = \<lparr>mi_subject = ''b1'', mi_scopes = [''admin.users.*'', ''account.read''],
     mi_organizationId = Some ''A'', mi_jti = ''j1'', mi_ttlSeconds = Some 60, mi_audience = None,
     mi_credential = Some \<lparr>ref_kind = KindApiKey, ref_id = ''k1''\<rparr>\<rparr>"

lemma minted_token_round_trips_witness:
  "verifyAccessToken (\<lambda>_. Inr (minted_claims sample_env 7900 sample_mint)) sample_env None
     (mt_token (mintAccessToken (\<lambda>_. ''t'') sample_env 7900 sample_mint)) =
   Inr \<lparr>vt_subject = ''b1'', vt_scopes = [''admin.users.*'', ''account.read''], vt_organizationId = Some ''A'',
        vt_jti = ''j1'', vt_issuedAt = 7000, vt_expiresAt = 67000, vt_audience = [''devresponse-api''],
        vt_credential = Some \<lparr>ref_kind = KindApiKey, ref_id = ''k1''\<rparr>\<rparr>"
proof -
  have 1: "scope_words (mi_scopes sample_mint)" "mi_subject sample_mint \<noteq> []" "mi_jti sample_mint \<noteq> []"
    "case mi_credential sample_mint of None \<Rightarrow> True | Some r \<Rightarrow> ref_id r \<noteq> []" by code_simp+
  show ?thesis
    using minted_token_round_trips [OF _ 1, where jwtVerify = "\<lambda>_. Inr (minted_claims sample_env 7900 sample_mint)"
        and sign = "\<lambda>_. ''t''" and env = sample_env and now = 7900 and expected = None]
    by (simp add: sample_mint_def sample_env_def minted_audience_def minted_ttl_def)
qed

end
