(* ===== verification/Issuance.thy ===== *)
theory Issuance
  imports Scopes
begin

text \<open>
  The authority check every issuance of a credential runs (\<open>src/lib/api-auth/issuance.ts\<close>),
  and what it bounds: the permissions the resulting credential can authorize.
\<close>

definition ACCOUNT_WRITE_SCOPES :: "string list" where
  "ACCOUNT_WRITE_SCOPES = filter (\<lambda>scope. scope \<noteq> ''account.read'') ACCOUNT_SCOPES"

record credential_issuer =
  is_appUserId :: "uuid option"
  is_permissions :: "string list"
  is_grantedScopes :: "string list option"
  is_impersonatorId :: "string option"

record credential_issuance =
  iss_issuer :: credential_issuer
  iss_ownerAppUserId :: uuid
  iss_scopes :: "string list"

definition reachesAccountWriteScope :: "string \<Rightarrow> bool" where
  "reachesAccountWriteScope scope \<longleftrightarrow> (\<exists>w \<in> set ACCOUNT_WRITE_SCOPES. scopeMatches scope w)"

definition isOnBehalfOfAnother :: "credential_issuance \<Rightarrow> bool" where
  "isOnBehalfOfAnother issuance =
     (let issuer = iss_issuer issuance
      in if truthy (is_impersonatorId issuer) then True
         else is_appUserId issuer = None \<or> is_appUserId issuer \<noteq> Some (iss_ownerAppUserId issuance))"

definition unissuableScopes :: "credential_issuance \<Rightarrow> string list" where
  "unissuableScopes issuance =
     (let issuer = iss_issuer issuance;
          scopes = iss_scopes issuance;
          refused0 = set (ungrantableScopesForCaller (is_permissions issuer) (is_grantedScopes issuer) scopes);
          refused = (if isOnBehalfOfAnother issuance
                     then refused0 \<union> set (ungrantableScopes (is_permissions issuer) scopes)
                            \<union> set (filter reachesAccountWriteScope scopes)
                     else refused0)
      in filter (\<lambda>scope. scope \<in> refused) scopes)"

lemma ungrantableScopes_subset: "set (ungrantableScopes perms req) \<subseteq> set req"
  by (auto simp: ungrantableScopes_def)

lemma ungrantableScopesForCaller_subset: "set (ungrantableScopesForCaller perms gs req) \<subseteq> set req"
  using ungrantableScopes_subset by (auto simp: ungrantableScopesForCaller_def split: option.splits)

lemma filter_mem_Nil: "set ys \<subseteq> set xs \<Longrightarrow> filter (\<lambda>x. x \<in> set ys) xs = [] \<longleftrightarrow> ys = []"
  by (cases ys) (auto simp: filter_empty_conv)

text \<open>An allowed issuance passed both checks, and both again on behalf of another.\<close>

lemma unissuable_Nil:
  assumes "unissuableScopes issuance = []"
  shows "ungrantableScopesForCaller (is_permissions (iss_issuer issuance))
      (is_grantedScopes (iss_issuer issuance)) (iss_scopes issuance) = []"
    and "isOnBehalfOfAnother issuance \<Longrightarrow>
      ungrantableScopes (is_permissions (iss_issuer issuance)) (iss_scopes issuance) = [] \<and>
      (\<forall>s \<in> set (iss_scopes issuance). \<not> reachesAccountWriteScope s)"
proof -
  let ?i = "iss_issuer issuance" and ?s = "iss_scopes issuance"
  let ?c = "ungrantableScopesForCaller (is_permissions ?i) (is_grantedScopes ?i) ?s"
  let ?u = "ungrantableScopes (is_permissions ?i) ?s"
  have none: "\<forall>s \<in> set ?s. s \<notin> set ?c \<and>
      (isOnBehalfOfAnother issuance \<longrightarrow> s \<notin> set ?u \<and> \<not> reachesAccountWriteScope s)"
    using assms by (auto simp: unissuableScopes_def Let_def filter_empty_conv split: if_splits)
  then show "?c = []" using ungrantableScopesForCaller_subset [of "is_permissions ?i" "is_grantedScopes ?i" ?s]
    by (cases ?c) auto
  show "?u = [] \<and> (\<forall>s \<in> set ?s. \<not> reachesAccountWriteScope s)" if "isOnBehalfOfAnother issuance"
    using none that ungrantableScopes_subset [of "is_permissions ?i" ?s] by (cases ?u) auto
qed

lemma ungrantableForCaller_authorized:
  assumes "ungrantableScopesForCaller perms (Some gs) req = []" "scopesAuthorize (Some req) p"
  shows "scopesAuthorize (Some gs) p"
proof -
  have "\<forall>s \<in> set req. scope.allows gs s"
    using assms(1) by (simp add: ungrantableScopesForCaller_def filter_empty_conv)
  with assms(2) show ?thesis using scope.allows_delegated [of req gs p] by simp
qed

subsection \<open>Property\<close>

text \<open>
  A credential whose issuance was not refused authorizes no administrator permission its
  issuer's own credential does not; issued from a browser session or on behalf of someone
  else, none the issuer does not hold; and on behalf of someone else (an impersonated session
  included) it never reaches a scope that writes the owner's account.
\<close>

lemma issuance_bounded:
  assumes "unissuableScopes issuance = []"
    and "scopesAuthorize (Some (iss_scopes issuance)) p"
  shows "(p \<in> set ANY_ADMIN_PERMISSION \<longrightarrow>
      scopesAuthorize (is_grantedScopes (iss_issuer issuance)) p \<and>
      (is_grantedScopes (iss_issuer issuance) = None \<or> isOnBehalfOfAnother issuance \<longrightarrow>
         p \<in> set (is_permissions (iss_issuer issuance)))) \<and>
    (isOnBehalfOfAnother issuance \<longrightarrow> p \<notin> set ACCOUNT_WRITE_SCOPES)"
proof (intro conjI impI)
  let ?i = "iss_issuer issuance"
  note n = unissuable_Nil [OF assms(1)]
  show "scopesAuthorize (is_grantedScopes ?i) p"
    using n(1) ungrantableForCaller_authorized assms(2)
    by (cases "is_grantedScopes ?i") auto
  show "p \<in> set (is_permissions ?i)"
    if "p \<in> set ANY_ADMIN_PERMISSION" "is_grantedScopes ?i = None \<or> isOnBehalfOfAnother issuance"
  proof -
    have "ungrantableScopes (is_permissions ?i) (iss_scopes issuance) = []"
      using that(2) n by (auto simp: ungrantableScopesForCaller_def)
    with that(1) assms(2) show ?thesis
      using grantable_admin_held by (auto simp: scopesAuthorize_def)
  qed
  show "p \<notin> set ACCOUNT_WRITE_SCOPES" if "isOnBehalfOfAnother issuance"
    using n(2) [OF that] assms(2) by (auto simp: reachesAccountWriteScope_def scopesAuthorize_def)
qed

definition sample_issuance :: credential_issuance where
  "sample_issuance =
     \<lparr>iss_issuer = \<lparr>is_appUserId = Some ''u2'', is_permissions = [''admin.users.read'', ''admin.apikeys.manage''],
        is_grantedScopes = Some [''admin.*'', ''account.read''], is_impersonatorId = None\<rparr>,
      iss_ownerAppUserId = ''u1'', iss_scopes = [''admin.users.read'', ''account.read'']\<rparr>"

lemma issuance_bounded_witness:
  "''admin.users.read'' \<in> set (is_permissions (iss_issuer sample_issuance)) \<and>
   ''admin.users.read'' \<notin> set ACCOUNT_WRITE_SCOPES"
proof -
  have 1: "unissuableScopes sample_issuance = []" by code_simp
  have 2: "scopesAuthorize (Some (iss_scopes sample_issuance)) ''admin.users.read''" by code_simp
  have "isOnBehalfOfAnother sample_issuance" "''admin.users.read'' \<in> set ANY_ADMIN_PERMISSION" by code_simp+
  with issuance_bounded [OF 1 2] show ?thesis by simp
qed

end
