(* ===== verification/ResolveCaller.thy ===== *)
theory ResolveCaller
  imports AccessTokens Impersonation Issuance
begin

text \<open>
  From a request to its caller, and from the caller to the decision (\<open>src/lib/api-auth/resolve-caller.server.ts\<close>,
  \<open>v1-guard.server.ts\<close>, \<open>src/lib/account/guard.server.ts\<close>, \<open>src/lib/session-access.server.ts\<close>,
  \<open>src/lib/auth-guard.ts\<close>, \<open>src/lib/http/origin-guard.server.ts\<close>, \<open>src/lib/trusted-origins.ts\<close>).
  What the resolution reads is one record: the tables, the credential store, the clock, the
  settings and the third-party operations. Its writes (the usage stamp of a key, the note of an
  impersonated request, audit rows) are returned as effects.
\<close>

subsection \<open>Trusted origins\<close>

record origin_settings =
  og_NODE_ENV :: string
  og_NEXT_PUBLIC_APP_URL :: "string option"
  og_BETTER_AUTH_URL :: "string option"
  og_ADMIN_TRUSTED_ORIGINS :: "string option"

text \<open>\<open>urlOrigin\<close> is the URL parser: protocol and host of a URL it accepts.\<close>

definition parseOrigin :: "(string \<Rightarrow> string option) \<Rightarrow> string option \<Rightarrow> string option" where
  "parseOrigin urlOrigin v = (case v of None \<Rightarrow> None | Some s \<Rightarrow> if s = [] then None else urlOrigin s)"

definition getTrustedOrigins :: "(string \<Rightarrow> string option) \<Rightarrow> origin_settings \<Rightarrow> string list" where
  "getTrustedOrigins urlOrigin st =
     (let fromEnv = filter (\<lambda>s. s \<noteq> [])
            (map trim (split_on CHR '','' (case og_ADMIN_TRUSTED_ORIGINS st of None \<Rightarrow> [] | Some s \<Rightarrow> s)));
          candidates = [og_NEXT_PUBLIC_APP_URL st, og_BETTER_AUTH_URL st] @ map Some fromEnv
      in js_uniq (List.map_filter (parseOrigin urlOrigin) candidates))"

datatype origin_reason = MissingOrigin | UntrustedOrigin

definition UNSAFE_METHODS :: "string list" where
  "UNSAFE_METHODS = [''POST'', ''PATCH'', ''PUT'', ''DELETE'']"

definition ascii_upper :: "char \<Rightarrow> char" where
  "ascii_upper c = (let n = (of_char c :: nat) in if 97 \<le> n \<and> n \<le> 122 then char_of (n - 32) else c)"

text \<open>\<open>None\<close> is the code's \<open>ok\<close>.\<close>

definition checkTrustedOrigin ::
    "(string \<Rightarrow> string option) \<Rightarrow> origin_settings \<Rightarrow> string option \<Rightarrow> string option \<Rightarrow> string option \<Rightarrow>
     origin_reason option" where
  "checkTrustedOrigin urlOrigin st reqMethod originHeader refererHeader =
     (let meth = map ascii_upper (case reqMethod of None \<Rightarrow> ''GET'' | Some m \<Rightarrow> m)
      in if meth \<notin> set UNSAFE_METHODS then None
         else
           (let allowed = getTrustedOrigins urlOrigin st
            in if allowed = [] then (if og_NODE_ENV st = ''production'' then Some UntrustedOrigin else None)
               else if og_NODE_ENV st = ''test'' then None
               else
                 (let candidate = (case parseOrigin urlOrigin originHeader of
                        Some o1 \<Rightarrow> Some o1 | None \<Rightarrow> parseOrigin urlOrigin refererHeader)
                  in case candidate of
                       None \<Rightarrow> Some MissingOrigin
                     | Some c \<Rightarrow> if c = [] then Some MissingOrigin
                                 else if c \<notin> set allowed then Some UntrustedOrigin else None)))"

subsection \<open>Sessions\<close>

text \<open>Better Auth's answer to the cookie: the user's id and the session row.\<close>

record current_session =
  cs_user_id :: uuid
  cs_session_id :: "uuid option"
  cs_row :: session_row

definition getCurrentSession ::
    "session_lifetime_settings \<Rightarrow> millis \<Rightarrow> current_session option \<Rightarrow> current_session option" where
  "getCurrentSession settings now session =
     (case session of
        None \<Rightarrow> None
      | Some s \<Rightarrow> if isSessionPastLifetime (cs_row s) settings now then None else Some s)"

definition getImpersonatedAccessContext ::
    "db \<Rightarrow> millis \<Rightarrow> string option \<Rightarrow> uuid \<Rightarrow> uuid \<Rightarrow> access_context" where
  "getImpersonatedAccessContext d now cookie target impersonator =
     getUserAccessContext d now cookie target None (Some impersonator)"

definition getSessionAccessContext ::
    "db \<Rightarrow> millis \<Rightarrow> string option \<Rightarrow> current_session \<Rightarrow> access_context" where
  "getSessionAccessContext d now cookie session =
     (case readImpersonatorId (cs_row session) of
        Some imp \<Rightarrow> getImpersonatedAccessContext d now cookie (cs_user_id session) imp
      | None \<Rightarrow> getUserAccessContext d now cookie (cs_user_id session) None None)"

subsection \<open>The caller\<close>

datatype caller_kind = SessionCaller | ApiKeyCaller | JwtCaller

record caller_jwt =
  cj_organizationId :: "uuid option"
  cj_expiresAt :: millis
  cj_audience :: "string list"
  cj_credential :: "token_credential_ref option"

record resolved_caller =
  cl_kind :: caller_kind
  cl_betterAuthUserId :: uuid
  cl_access :: access_context
  cl_grantedScopes :: "string list option"
  cl_isBearer :: bool
  cl_credentialId :: "uuid option"
  cl_source :: "caller_source option"
  cl_boundOrganizationId :: "uuid option"
  cl_impersonatorId :: "uuid option"
  cl_jwt :: "caller_jwt option"

datatype caller_reject_reason =
  NoCredential | PathDisabled | InvalidCredential | AudienceMismatch | CredentialRevoked | PrincipalBanned

text \<open>
  The outcome of a resolution: a caller, a reason, or the exception of key material that would
  not load. With it, the writes the resolution made.
\<close>

datatype caller_resolution = Resolved resolved_caller | Rejected caller_reject_reason | KeyMaterialThrown

datatype caller_effect = TouchApiKeyUsage uuid | NoteImpersonation current_session

record api_world =
  aw_sha256hex :: "string \<Rightarrow> string"
  aw_jwtVerify :: "string \<Rightarrow> token_failure + jwt_payload"
  aw_urlOrigin :: "string \<Rightarrow> string option"
  aw_env :: api_env
  aw_origins :: origin_settings
  aw_lifetimes :: session_lifetime_settings
  aw_db :: db
  aw_creds :: credential_store
  aw_now :: millis

record api_request =
  rq_method :: "string option"
  rq_authorization :: "string option"
  rq_origin :: "string option"
  rq_referer :: "string option"
  rq_active_org_cookie :: "string option"
  rq_session :: "current_session option"

text \<open>\<open>/^Bearer\s+(.+)$/i\<close> on the trimmed header; the dot stops at a line terminator.\<close>

definition line_terminator :: "char \<Rightarrow> bool" where
  "line_terminator c = (of_char c \<in> {10, 13 :: nat})"

definition readBearerToken :: "string option \<Rightarrow> string option" where
  "readBearerToken header =
     (case header of
        None \<Rightarrow> None
      | Some h0 \<Rightarrow>
          (let h = trim h0; rest = drop 6 h
           in if map ascii_lower (take 6 h) \<noteq> ''bearer'' \<or> rest = [] \<or> \<not> js_space (hd rest) then None
              else
                (let token = dropWhile js_space rest
                 in if token = [] \<or> (\<exists>c \<in> set token. line_terminator c) then None else Some (trim token))))"

definition hasBearerCredential :: "api_request \<Rightarrow> bool" where
  "hasBearerCredential request \<longleftrightarrow> readBearerToken (rq_authorization request) \<noteq> None"

definition resolve_api_key ::
    "api_world \<Rightarrow> api_request \<Rightarrow> string \<Rightarrow> caller_effect list \<times> caller_resolution" where
  "resolve_api_key w request token =
     (if \<not> API_KEYS_ENABLED (aw_env w) then ([], Rejected PathDisabled)
      else (case verifyApiKey (aw_sha256hex w) (aw_db w) (aw_creds w) (aw_now w) token of
              None \<Rightarrow> ([], Rejected InvalidCredential)
            | Some verified \<Rightarrow>
                if isBetterAuthUserBanned (aw_db w) (aw_now w) (vk_betterAuthUserId verified)
                then ([], Rejected PrincipalBanned)
                else
                  (let access = getUserAccessContext (aw_db w) (aw_now w) (rq_active_org_cookie request)
                         (vk_betterAuthUserId verified)
                         (Some \<lparr>bo_organization_id = vk_organizationId verified\<rparr>) None
                   in ([TouchApiKeyUsage (vk_id verified)],
                       Resolved
                         \<lparr>cl_kind = ApiKeyCaller, cl_betterAuthUserId = vk_betterAuthUserId verified,
                          cl_access = access, cl_grantedScopes = Some (vk_scopes verified),
                          cl_isBearer = True, cl_credentialId = Some (vk_id verified),
                          cl_source = Some (ApiKeySource (vk_id verified)),
                          cl_boundOrganizationId = vk_organizationId verified,
                          cl_impersonatorId = None, cl_jwt = None\<rparr>))))"

text \<open>The scopes a token acts with: capped at its source's, or the refusal of a retired source.\<close>

definition token_scopes :: "api_world \<Rightarrow> verified_access_token \<Rightarrow> string list option" where
  "token_scopes w verified =
     (case vt_credential verified of
        None \<Rightarrow> Some (vt_scopes verified)
      | Some credential \<Rightarrow>
          map_option (intersectScopes (vt_scopes verified))
            (readActiveSourceCredential (aw_creds w) (aw_now w) credential (vt_issuedAt verified)))"

definition resolve_jwt ::
    "api_world \<Rightarrow> api_request \<Rightarrow> string list option \<Rightarrow> string \<Rightarrow> caller_effect list \<times> caller_resolution" where
  "resolve_jwt w request expectedAudience token =
     (case verifyAccessToken (aw_jwtVerify w) (aw_env w) expectedAudience token of
        Inl KeyMaterialFailure \<Rightarrow> ([], KeyMaterialThrown)
      | Inl AudienceFailure \<Rightarrow> ([], Rejected AudienceMismatch)
      | Inl OtherFailure \<Rightarrow> ([], Rejected InvalidCredential)
      | Inr verified \<Rightarrow>
          (case token_scopes w verified of
             None \<Rightarrow> ([], Rejected CredentialRevoked)
           | Some grantedScopes \<Rightarrow>
               if isBetterAuthUserBanned (aw_db w) (aw_now w) (vt_subject verified)
               then ([], Rejected PrincipalBanned)
               else
                 (let access = getUserAccessContext (aw_db w) (aw_now w) (rq_active_org_cookie request)
                        (vt_subject verified)
                        (Some \<lparr>bo_organization_id = vt_organizationId verified\<rparr>) None
                  in ([], Resolved
                       \<lparr>cl_kind = JwtCaller, cl_betterAuthUserId = vt_subject verified,
                        cl_access = access, cl_grantedScopes = Some grantedScopes, cl_isBearer = True,
                        cl_credentialId = Some (vt_jti verified),
                        cl_source = map_option (\<lambda>c. TokenSource c (vt_issuedAt verified)) (vt_credential verified),
                        cl_boundOrganizationId = vt_organizationId verified, cl_impersonatorId = None,
                        cl_jwt = Some \<lparr>cj_organizationId = vt_organizationId verified,
                          cj_expiresAt = vt_expiresAt verified, cj_audience = vt_audience verified,
                          cj_credential = vt_credential verified\<rparr>\<rparr>))))"

definition resolve_session :: "api_world \<Rightarrow> api_request \<Rightarrow> caller_effect list \<times> caller_resolution" where
  "resolve_session w request =
     (case getCurrentSession (aw_lifetimes w) (aw_now w) (rq_session request) of
        None \<Rightarrow> ([], Rejected NoCredential)
      | Some session \<Rightarrow>
          ([NoteImpersonation session],
           Resolved
             \<lparr>cl_kind = SessionCaller, cl_betterAuthUserId = cs_user_id session,
              cl_access = getSessionAccessContext (aw_db w) (aw_now w) (rq_active_org_cookie request) session,
              cl_grantedScopes = None, cl_isBearer = False, cl_credentialId = None,
              cl_source = Some (SessionSource
                (case cs_session_id session of None \<Rightarrow> [] | Some i \<Rightarrow> i)),
              cl_boundOrganizationId = None,
              cl_impersonatorId = readImpersonatorId (cs_row session), cl_jwt = None\<rparr>))"

definition resolveCallerDetailed ::
    "api_world \<Rightarrow> api_request \<Rightarrow> string list option \<Rightarrow> caller_effect list \<times> caller_resolution" where
  "resolveCallerDetailed w request expectedAudience =
     (case readBearerToken (rq_authorization request) of
        Some token \<Rightarrow>
          if looksLikeApiKey token then resolve_api_key w request token
          else if API_JWT_ENABLED (aw_env w) then resolve_jwt w request expectedAudience token
          else ([], Rejected PathDisabled)
      | None \<Rightarrow> resolve_session w request)"

text \<open>\<open>Inl ()\<close> is the rethrown key material error.\<close>

definition resolveCaller ::
    "api_world \<Rightarrow> api_request \<Rightarrow> string list option \<Rightarrow> unit + resolved_caller option" where
  "resolveCaller w request expectedAudience =
     (case snd (resolveCallerDetailed w request expectedAudience) of
        Resolved c \<Rightarrow> Inr (Some c) | Rejected _ \<Rightarrow> Inr None | KeyMaterialThrown \<Rightarrow> Inl ())"

subsection \<open>The permission guard\<close>

text \<open>A refusal as the client sees it, with its bearer challenge.\<close>

record problem =
  pr_code :: string
  pr_status :: nat
  pr_challenge :: "string option"

datatype guard_event =
  PreAuthRefusal origin_reason
| AccessDenied uuid "uuid option" "string list"
| ImpersonatedAccessDenied uuid uuid

datatype 'a guard_result = GuardGranted 'a | GuardRefused problem | GuardThrown

definition BEARER_REALM :: string where
  "BEARER_REALM = ''Bearer realm=devresponse-api''"

definition invalid_token_challenge :: string where
  "invalid_token_challenge = BEARER_REALM @ '', error=invalid_token''"

definition unauthenticatedResponse :: "caller_reject_reason \<Rightarrow> problem" where
  "unauthenticatedResponse reason =
     (case reason of
        CredentialRevoked \<Rightarrow>
          \<lparr>pr_code = ''credential_revoked'', pr_status = 401, pr_challenge = Some invalid_token_challenge\<rparr>
      | AudienceMismatch \<Rightarrow>
          \<lparr>pr_code = ''invalid_token'', pr_status = 401,
           pr_challenge = Some (invalid_token_challenge @ '', error_description=audience mismatch'')\<rparr>
      | _ \<Rightarrow>
          \<lparr>pr_code = ''unauthorized'', pr_status = 401,
           pr_challenge = Some (if reason = NoCredential then BEARER_REALM else invalid_token_challenge)\<rparr>)"

definition forbidden_problem :: problem where
  "forbidden_problem = \<lparr>pr_code = ''forbidden'', pr_status = 403, pr_challenge = None\<rparr>"

definition origin_refusal :: "api_world \<Rightarrow> api_request \<Rightarrow> origin_reason option" where
  "origin_refusal w request =
     (if hasBearerCredential request then None
      else checkTrustedOrigin (aw_urlOrigin w) (aw_origins w) (rq_method request) (rq_origin request)
             (rq_referer request))"

definition requireApiPermission ::
    "api_world \<Rightarrow> api_request \<Rightarrow> string list \<Rightarrow>
     caller_effect list \<times> guard_event list \<times> resolved_caller guard_result" where
  "requireApiPermission w request required =
     (case origin_refusal w request of
        Some reason \<Rightarrow> ([], [PreAuthRefusal reason], GuardRefused forbidden_problem)
      | None \<Rightarrow>
          (case resolveCallerDetailed w request None of
             (eff, KeyMaterialThrown) \<Rightarrow> (eff, [], GuardThrown)
           | (eff, Rejected reason) \<Rightarrow> (eff, [], GuardRefused (unauthenticatedResponse reason))
           | (eff, Resolved caller) \<Rightarrow>
               if decideSecureAccess (ac_status (cl_access caller)) (ac_membershipStatus (cl_access caller)) \<noteq> Allow
               then (eff, [], GuardRefused forbidden_problem)
               else if \<exists>perm \<in> set required. perm \<in> set (ac_permissions (cl_access caller)) \<and>
                         scopesAuthorize (cl_grantedScopes caller) perm
               then (eff, [], GuardGranted caller)
               else (eff, [AccessDenied (cl_betterAuthUserId caller)
                             (actingOrganizationId (cl_access caller)) required],
                     GuardRefused forbidden_problem)))"

text \<open>The bucket a machine call is charged to.\<close>

definition api_rate_actor :: "resolved_caller \<Rightarrow> uuid" where
  "api_rate_actor caller =
     (case Option.bind (cl_jwt caller) cj_credential of
        Some c \<Rightarrow> ref_id c
      | None \<Rightarrow> (case cl_credentialId caller of
                   Some i \<Rightarrow> i
                 | None \<Rightarrow> humanActorId (cl_betterAuthUserId caller) (cl_impersonatorId caller)))"

subsection \<open>The account guard\<close>

record account_actor =
  aa_betterAuthUserId :: uuid
  aa_appUserId :: uuid
  aa_access :: access_context
  aa_callerKind :: caller_kind
  aa_credentialId :: "uuid option"
  aa_source :: "caller_source option"
  aa_grantedScopes :: "string list option"
  aa_impersonatorId :: "uuid option"

definition tenantConfinement :: "account_actor \<Rightarrow> api_key_org_confinement option" where
  "tenantConfinement actor =
     (if aa_callerKind actor = SessionCaller \<and> \<not> truthy (aa_impersonatorId actor) then None
      else Some \<lparr>cf_organizationId = ac_organizationId (aa_access actor)\<rparr>)"

definition isWithinTenant :: "uuid option \<Rightarrow> api_key_org_confinement option \<Rightarrow> bool" where
  "isWithinTenant organizationId confinement =
     (case confinement of
        None \<Rightarrow> True
      | Some cf \<Rightarrow> cf_organizationId cf \<noteq> None \<and> organizationId = cf_organizationId cf)"

record account_rejection =
  ar_adminCode :: string
  ar_problemCode :: string
  ar_status :: nat
  ar_challenge :: "string option"

datatype account_decision =
  AccountGranted account_actor | AccountRefused account_rejection | AccountThrown

definition account_refusal :: "string \<Rightarrow> account_rejection" where
  "account_refusal adminCode =
     \<lparr>ar_adminCode = adminCode, ar_problemCode = ''forbidden'', ar_status = 403, ar_challenge = None\<rparr>"

definition decideAccountAccess ::
    "api_world \<Rightarrow> api_request \<Rightarrow> string option \<Rightarrow> bool \<Rightarrow>
     caller_effect list \<times> guard_event list \<times> account_decision" where
  "decideAccountAccess w request requiredScope allowImpersonation =
     (case origin_refusal w request of
        Some reason \<Rightarrow> ([], [PreAuthRefusal reason], AccountRefused (account_refusal ''untrusted_origin''))
      | None \<Rightarrow>
          (let eff = fst (resolveCallerDetailed w request None)
           in case resolveCaller w request None of
                Inl _ \<Rightarrow> (eff, [], AccountThrown)
              | Inr None \<Rightarrow>
                  (eff, [], AccountRefused
                     \<lparr>ar_adminCode = ''unauthenticated'', ar_problemCode = ''unauthorized'', ar_status = 401,
                      ar_challenge = Some (if hasBearerCredential request then invalid_token_challenge
                                           else BEARER_REALM)\<rparr>)
              | Inr (Some caller) \<Rightarrow>
                  (let access = cl_access caller
                   in if decideSecureAccess (ac_status access) (ac_membershipStatus access) \<noteq> Allow
                      then (eff, [], AccountRefused (account_refusal ''forbidden''))
                      else if \<not> truthy (ac_appUserId access)
                      then (eff, [], AccountRefused (account_refusal ''not_provisioned''))
                      else if truthy (cl_impersonatorId caller) \<and> \<not> allowImpersonation
                      then (eff, [ImpersonatedAccessDenied (the (cl_impersonatorId caller)) (cl_betterAuthUserId caller)],
                            AccountRefused (account_refusal ''forbidden_while_impersonating''))
                      else if truthy requiredScope \<and>
                              \<not> scopesAuthorize (cl_grantedScopes caller) (the requiredScope)
                      then (eff, [], AccountRefused (account_refusal ''insufficient_scope''))
                      else (eff, [], AccountGranted
                              \<lparr>aa_betterAuthUserId = cl_betterAuthUserId caller,
                               aa_appUserId = the (ac_appUserId access), aa_access = access,
                               aa_callerKind = cl_kind caller, aa_credentialId = cl_credentialId caller,
                               aa_source = cl_source caller, aa_grantedScopes = cl_grantedScopes caller,
                               aa_impersonatorId = cl_impersonatorId caller\<rparr>))))"

definition requireAccountUser ::
    "api_world \<Rightarrow> api_request \<Rightarrow> string option \<Rightarrow> bool \<Rightarrow> (string \<times> nat) option + account_actor" where
  "requireAccountUser w request requiredScope allowImpersonation =
     (case snd (snd (decideAccountAccess w request requiredScope allowImpersonation)) of
        AccountGranted actor \<Rightarrow> Inr actor
      | AccountRefused r \<Rightarrow> Inl (Some (ar_adminCode r, ar_status r))
      | AccountThrown \<Rightarrow> Inl None)"

definition requireApiAccount ::
    "api_world \<Rightarrow> api_request \<Rightarrow> string option \<Rightarrow> bool \<Rightarrow> problem option + account_actor" where
  "requireApiAccount w request requiredScope allowImpersonation =
     (case snd (snd (decideAccountAccess w request requiredScope allowImpersonation)) of
        AccountGranted actor \<Rightarrow> Inr actor
      | AccountRefused r \<Rightarrow>
          Inl (Some \<lparr>pr_code = ar_problemCode r, pr_status = ar_status r, pr_challenge = ar_challenge r\<rparr>)
      | AccountThrown \<Rightarrow> Inl None)"

subsection \<open>What a grant says, proved\<close>

lemma requireApiPermission_granted:
  assumes "requireApiPermission w request required = (eff, ev, GuardGranted caller)"
  shows "snd (resolveCallerDetailed w request None) = Resolved caller"
    "decideSecureAccess (ac_status (cl_access caller)) (ac_membershipStatus (cl_access caller)) = Allow"
    "\<exists>perm \<in> set required. perm \<in> set (ac_permissions (cl_access caller)) \<and>
       scopesAuthorize (cl_grantedScopes caller) perm"
  using assms
  by (auto simp: requireApiPermission_def split: option.splits prod.splits caller_resolution.splits if_splits)

lemma resolved_bearer:
  assumes "snd (resolveCallerDetailed w request aud) = Resolved caller"
    and "readBearerToken (rq_authorization request) = Some token"
  shows "(looksLikeApiKey token \<longrightarrow> snd (resolve_api_key w request token) = Resolved caller) \<and>
    (\<not> looksLikeApiKey token \<longrightarrow> snd (resolve_jwt w request aud token) = Resolved caller)"
  using assms by (auto simp: resolveCallerDetailed_def split: if_splits)

lemma resolve_api_key_Resolved:
  assumes "snd (resolve_api_key w request token) = Resolved caller"
  obtains v where
    "verifyApiKey (aw_sha256hex w) (aw_db w) (aw_creds w) (aw_now w) token = Some v"
    "\<not> isBetterAuthUserBanned (aw_db w) (aw_now w) (vk_betterAuthUserId v)"
    "cl_betterAuthUserId caller = vk_betterAuthUserId v" "cl_grantedScopes caller = Some (vk_scopes v)"
    "cl_access caller = getUserAccessContext (aw_db w) (aw_now w) (rq_active_org_cookie request)
       (vk_betterAuthUserId v) (Some \<lparr>bo_organization_id = vk_organizationId v\<rparr>) None"
    "cl_boundOrganizationId caller = vk_organizationId v" "cl_credentialId caller = Some (vk_id v)"
    "cl_isBearer caller" "cl_impersonatorId caller = None" "cl_kind caller = ApiKeyCaller"
  using assms by (auto simp: resolve_api_key_def Let_def split: option.splits if_splits)

lemma resolve_jwt_Resolved:
  assumes "snd (resolve_jwt w request aud token) = Resolved caller"
  obtains v gs where
    "verifyAccessToken (aw_jwtVerify w) (aw_env w) aud token = Inr v" "token_scopes w v = Some gs"
    "\<not> isBetterAuthUserBanned (aw_db w) (aw_now w) (vt_subject v)"
    "cl_betterAuthUserId caller = vt_subject v" "cl_grantedScopes caller = Some gs"
    "cl_access caller = getUserAccessContext (aw_db w) (aw_now w) (rq_active_org_cookie request)
       (vt_subject v) (Some \<lparr>bo_organization_id = vt_organizationId v\<rparr>) None"
    "cl_boundOrganizationId caller = vt_organizationId v" "cl_isBearer caller"
    "cl_impersonatorId caller = None" "cl_kind caller = JwtCaller"
  using assms
  by (auto simp: resolve_jwt_def Let_def split: sum.splits token_failure.splits option.splits if_splits)

text \<open>Whatever the bearer credential, its principal is not banned and acts in its organization.\<close>

lemma resolved_bearer_context:
  assumes "snd (resolveCallerDetailed w request aud) = Resolved caller"
    and "readBearerToken (rq_authorization request) = Some token"
  shows "\<not> isBetterAuthUserBanned (aw_db w) (aw_now w) (cl_betterAuthUserId caller) \<and>
    cl_impersonatorId caller = None \<and> cl_grantedScopes caller \<noteq> None \<and> cl_kind caller \<noteq> SessionCaller \<and>
    cl_access caller = getUserAccessContext (aw_db w) (aw_now w) (rq_active_org_cookie request)
       (cl_betterAuthUserId caller) (Some \<lparr>bo_organization_id = cl_boundOrganizationId caller\<rparr>) None"
proof (cases "looksLikeApiKey token")
  case True
  with resolved_bearer [OF assms] show ?thesis by (auto elim!: resolve_api_key_Resolved)
next
  case False
  with resolved_bearer [OF assms] show ?thesis by (auto elim!: resolve_jwt_Resolved)
qed

lemma resolved_context:
  assumes "snd (resolveCallerDetailed w request aud) = Resolved caller"
  shows "\<exists>bo imp. cl_access caller = getUserAccessContext (aw_db w) (aw_now w) (rq_active_org_cookie request)
    (cl_betterAuthUserId caller) bo imp"
proof (cases "readBearerToken (rq_authorization request)")
  case (Some token)
  with resolved_bearer_context [OF assms] show ?thesis by blast
next
  case None
  with assms show ?thesis
    by (auto simp: resolveCallerDetailed_def resolve_session_def getSessionAccessContext_def
        getImpersonatedAccessContext_def split: option.splits) (intro exI, rule refl)+
qed

text \<open>The world and the requests the witnesses evaluate on.\<close>

definition sample_world :: api_world where
  "sample_world =
     \<lparr>aw_sha256hex = id, aw_jwtVerify = (\<lambda>_. Inr (minted_claims sample_env 50 sample_mint)),
      aw_urlOrigin = Some, aw_env = sample_env,
      aw_origins = \<lparr>og_NODE_ENV = ''production'', og_NEXT_PUBLIC_APP_URL = Some ''https://x'',
        og_BETTER_AUTH_URL = None, og_ADMIN_TRUSTED_ORIGINS = None\<rparr>,
      aw_lifetimes = \<lparr>SESSION_ABSOLUTE_LIFETIME_HOURS = None, SSO_SESSION_LIFETIME_HOURS = None\<rparr>,
      aw_db = sample_db, aw_creds = sample_store, aw_now = 100\<rparr>"

definition bearer_request :: "string \<Rightarrow> api_request" where
  "bearer_request token =
     \<lparr>rq_method = Some ''POST'', rq_authorization = Some (''Bearer '' @ token), rq_origin = None,
      rq_referer = None, rq_active_org_cookie = Some ''A'', rq_session = None\<rparr>"

definition granted_caller ::
    "caller_effect list \<times> guard_event list \<times> resolved_caller guard_result \<Rightarrow> resolved_caller" where
  "granted_caller r = (case snd (snd r) of GuardGranted c \<Rightarrow> c)"

subsection \<open>Properties\<close>

text \<open>
  C2: a machine call the guard lets through is made by a principal who is not banned and has an
  active account with an active membership in an active organization; some required permission
  is held there and authorized by the credential's scopes; and a credential bound to an
  organization reaches resources of that organization only, whatever cookie comes along.
\<close>

theorem bearer_grant_sound:
  assumes "requireApiPermission w request required = (eff, ev, GuardGranted caller)"
    and "hasBearerCredential request"
  shows "\<not> isBetterAuthUserBanned (aw_db w) (aw_now w) (cl_betterAuthUserId caller) \<and>
    (\<exists>u \<in> set (app_users (aw_db w)). \<exists>m \<in> set (app_organization_memberships (aw_db w)).
       au_better_auth_user_id u = cl_betterAuthUserId caller \<and> au_status u = ''active'' \<and>
       mb_app_user_id m = au_id u \<and> mb_status m = ''active'' \<and> org_is_active (aw_db w) (mb_organization_id m) \<and>
       ac_organizationId (cl_access caller) = Some (mb_organization_id m)) \<and>
    (\<exists>perm \<in> set required. perm \<in> set (ac_permissions (cl_access caller)) \<and>
       scopesAuthorize (cl_grantedScopes caller) perm) \<and>
    (\<forall>oid res. cl_boundOrganizationId caller = Some oid \<and> oid \<noteq> [] \<and> canAccessOrg (cl_access caller) res \<longrightarrow>
       res = Some oid)"
proof -
  note g = requireApiPermission_granted [OF assms(1)]
  from assms(2) obtain token where "readBearerToken (rq_authorization request) = Some token"
    by (auto simp: hasBearerCredential_def)
  note c = resolved_bearer_context [OF g(1) this]
  then have a: "cl_access caller = getUserAccessContext (aw_db w) (aw_now w) (rq_active_org_cookie request)
       (cl_betterAuthUserId caller) (Some \<lparr>bo_organization_id = cl_boundOrganizationId caller\<rparr>) None" by blast
  have "res = Some oid" if "cl_boundOrganizationId caller = Some oid" "oid \<noteq> []" "canAccessOrg (cl_access caller) res"
    for oid res
    using bound_context_scope(2) [OF that(2)] a that(1,3) by metis
  with c g(3) allowed_context_member [OF g(2) a] show ?thesis by blast
qed

lemma bearer_grant_sound_witness:
  "let r = requireApiPermission sample_world (bearer_request ''drk_live_0'') [''admin.users.manage'']
   in cl_betterAuthUserId (granted_caller r) = ''b1'' \<and>
      \<not> isBetterAuthUserBanned sample_db 100 ''b1'' \<and>
      \<not> canAccessOrg (cl_access (granted_caller r)) (Some ''A'')"
proof -
  let ?r = "requireApiPermission sample_world (bearer_request ''drk_live_0'') [''admin.users.manage'']"
  have 1: "?r = (fst ?r, fst (snd ?r), GuardGranted (granted_caller ?r))" by code_simp
  have 2: "hasBearerCredential (bearer_request ''drk_live_0'')" by code_simp
  have 3: "cl_betterAuthUserId (granted_caller ?r) = ''b1''"
    "cl_boundOrganizationId (granted_caller ?r) = Some ''B''" by code_simp+
  have 4: "aw_db sample_world = sample_db" "aw_now sample_world = 100" by (simp_all add: sample_world_def)
  note b = bearer_grant_sound [OF 1 2]
  from b 3 4 have "\<not> isBetterAuthUserBanned sample_db 100 ''b1''" by simp
  moreover from b 3 have "canAccessOrg (cl_access (granted_caller ?r)) (Some ''A'') \<Longrightarrow> Some ''A'' = Some ''B''"
    by blast
  ultimately show ?thesis using 3 unfolding Let_def by auto
qed

text \<open>
  C4: revocation is immediate. Once the account holds no active key or client, no API key
  resolves a caller as that account, and a token minted from one of its credentials resolves
  no caller at all, however long its own lifetime.
\<close>

theorem revocation_is_immediate:
  assumes "users_wf (aw_db w)" and "u \<in> set (app_users (aw_db w))" and "holds_nothing (au_id u) (aw_creds w)"
    and "readBearerToken (rq_authorization request) = Some token"
  shows "(looksLikeApiKey token \<longrightarrow>
      (\<nexists>caller. snd (resolveCallerDetailed w request aud) = Resolved caller \<and>
         cl_betterAuthUserId caller = au_better_auth_user_id u)) \<and>
    (\<forall>v ref. \<not> looksLikeApiKey token \<and> verifyAccessToken (aw_jwtVerify w) (aw_env w) aud token = Inr v \<and>
       vt_credential v = Some ref \<and> own_source (au_id u) (au_better_auth_user_id u) (aw_creds w)
         (TokenSource ref (vt_issuedAt v)) \<longrightarrow>
       (\<nexists>caller. snd (resolveCallerDetailed w request aud) = Resolved caller))"
proof (intro conjI impI allI notI)
  assume k: "looksLikeApiKey token" and "\<exists>caller. snd (resolveCallerDetailed w request aud) = Resolved caller \<and>
         cl_betterAuthUserId caller = au_better_auth_user_id u"
  then obtain caller where "snd (resolve_api_key w request token) = Resolved caller"
    "cl_betterAuthUserId caller = au_better_auth_user_id u"
    using resolved_bearer [OF _ assms(4)] by blast
  then show False
    using holds_nothing_no_key [OF assms(1-3)] by (auto elim!: resolve_api_key_Resolved)
next
  fix v ref
  assume v: "\<not> looksLikeApiKey token \<and> verifyAccessToken (aw_jwtVerify w) (aw_env w) aud token = Inr v \<and>
       vt_credential v = Some ref \<and> own_source (au_id u) (au_better_auth_user_id u) (aw_creds w)
         (TokenSource ref (vt_issuedAt v))"
  assume "\<exists>caller. snd (resolveCallerDetailed w request aud) = Resolved caller"
  with v obtain caller where "snd (resolve_jwt w request aud token) = Resolved caller"
    using resolved_bearer [OF _ assms(4)] by blast
  then obtain v' gs where "verifyAccessToken (aw_jwtVerify w) (aw_env w) aud token = Inr v'"
    "token_scopes w v' = Some gs" by (rule resolve_jwt_Resolved)
  with v show False using held_ref_dead [OF assms(3)] by (auto simp: token_scopes_def)
qed

lemma revocation_is_immediate_witness:
  "let w = sample_world\<lparr>aw_creds := fst (revokeBearerCredentialsOf (\<lambda>_ cs. cs) sample_db sample_store 90 sample_eviction)\<rparr>
   in (\<nexists>caller. snd (resolveCallerDetailed w (bearer_request ''drk_live_0'') None) = Resolved caller \<and>
         cl_betterAuthUserId caller = ''b1'') \<and>
      (\<exists>caller. snd (resolveCallerDetailed sample_world (bearer_request ''drk_live_0'') None) = Resolved caller \<and>
         cl_betterAuthUserId caller = ''b1'')"
proof -
  let ?w = "sample_world\<lparr>aw_creds := fst (revokeBearerCredentialsOf (\<lambda>_ cs. cs) sample_db sample_store 90 sample_eviction)\<rparr>"
  have db: "aw_db ?w = sample_db" by (simp add: sample_world_def)
  have 1: "users_wf (aw_db ?w)" unfolding db by code_simp
  have 2: "app_users sample_db ! 0 \<in> set (app_users (aw_db ?w))" unfolding db by (rule nth_mem) code_simp
  have 3: "holds_nothing (au_id (app_users sample_db ! 0)) (aw_creds ?w)"
    unfolding holds_nothing_def api_keys.held_def clients.held_def by code_simp
  have 4: "readBearerToken (rq_authorization (bearer_request ''drk_live_0'')) = Some ''drk_live_0''" by code_simp
  have 5: "looksLikeApiKey ''drk_live_0''" "au_better_auth_user_id (app_users sample_db ! 0) = ''b1''" by code_simp+
  have 6: "snd (resolveCallerDetailed sample_world (bearer_request ''drk_live_0'') None) =
      Resolved (case snd (resolveCallerDetailed sample_world (bearer_request ''drk_live_0'') None) of Resolved c \<Rightarrow> c)"
    "cl_betterAuthUserId (case snd (resolveCallerDetailed sample_world (bearer_request ''drk_live_0'') None) of
       Resolved c \<Rightarrow> c) = ''b1''" by code_simp+
  have "\<exists>caller. snd (resolveCallerDetailed sample_world (bearer_request ''drk_live_0'') None) = Resolved caller \<and>
      cl_betterAuthUserId caller = ''b1''" by (intro exI conjI, rule 6(1), rule 6(2))
  with revocation_is_immediate [OF 1 2 3 4] 5 show ?thesis unfolding Let_def by simp
qed

text \<open>
  What a caller of the self-service surface may list is what it may touch: the keys listed
  under its tenant confinement are exactly the owner's keys inside that confinement, so a
  bearer or impersonated caller sees none of another organization and none at all when no
  organization resolved.
\<close>

lemma listing_matches_tenant:
  "set (listApiKeysForUser cs uid (tenantConfinement actor)) =
     {k \<in> set (app_api_keys cs). ak_app_user_id k = uid \<and>
        isWithinTenant (ak_organization_id k) (tenantConfinement actor)} \<and>
   (tenantConfinement actor = None) =
     (aa_callerKind actor = SessionCaller \<and> \<not> truthy (aa_impersonatorId actor))"
  by (cases "ac_organizationId (aa_access actor)")
    (auto simp: listApiKeysForUser_def tenantConfinement_def isWithinTenant_def)

text \<open>
  The self-service surface lets a caller in only as an active member; a session borrowed by
  an administrator only where the route opts in; a bearer credential only with the scope the
  route names. Both renderings of the decision admit the same actors.
\<close>

lemma account_grant_sound:
  assumes "requireAccountUser w request requiredScope allow = Inr actor"
  shows "requireApiAccount w request requiredScope allow = Inr actor \<and>
    (\<exists>u \<in> set (app_users (aw_db w)). au_better_auth_user_id u = aa_betterAuthUserId actor \<and>
       au_status u = ''active'' \<and>
       (\<exists>m \<in> set (app_organization_memberships (aw_db w)). mb_app_user_id m = au_id u \<and>
          mb_status m = ''active'' \<and> org_is_active (aw_db w) (mb_organization_id m))) \<and>
    (truthy (aa_impersonatorId actor) \<longrightarrow> allow) \<and>
    (hasBearerCredential request \<longrightarrow> \<not> truthy (aa_impersonatorId actor) \<and>
       aa_callerKind actor \<noteq> SessionCaller \<and>
       (truthy requiredScope \<longrightarrow> scopesAuthorize (aa_grantedScopes actor) (the requiredScope)))"
proof -
  from assms have "snd (snd (decideAccountAccess w request requiredScope allow)) = AccountGranted actor"
    by (auto simp: requireAccountUser_def split: account_decision.splits)
  then obtain caller where
    c: "snd (resolveCallerDetailed w request None) = Resolved caller"
      "decideSecureAccess (ac_status (cl_access caller)) (ac_membershipStatus (cl_access caller)) = Allow"
    and a: "aa_betterAuthUserId actor = cl_betterAuthUserId caller" "aa_callerKind actor = cl_kind caller"
      "aa_grantedScopes actor = cl_grantedScopes caller" "aa_impersonatorId actor = cl_impersonatorId caller"
      "truthy (cl_impersonatorId caller) \<longrightarrow> allow"
      "truthy requiredScope \<longrightarrow> scopesAuthorize (cl_grantedScopes caller) (the requiredScope)"
    and d: "snd (snd (decideAccountAccess w request requiredScope allow)) = AccountGranted actor"
    by (auto simp: decideAccountAccess_def resolveCaller_def Let_def
        split: option.splits caller_resolution.splits if_splits)
  obtain bo imp where
    "cl_access caller = getUserAccessContext (aw_db w) (aw_now w) (rq_active_org_cookie request)
       (cl_betterAuthUserId caller) bo imp"
    using resolved_context [OF c(1)] by blast
  from allowed_context_member [OF c(2) this] have
    "\<exists>u \<in> set (app_users (aw_db w)). au_better_auth_user_id u = aa_betterAuthUserId actor \<and>
       au_status u = ''active'' \<and>
       (\<exists>m \<in> set (app_organization_memberships (aw_db w)). mb_app_user_id m = au_id u \<and>
          mb_status m = ''active'' \<and> org_is_active (aw_db w) (mb_organization_id m))"
    unfolding a(1) by blast
  moreover have "\<not> truthy (aa_impersonatorId actor) \<and> aa_callerKind actor \<noteq> SessionCaller"
    if "hasBearerCredential request"
    using that resolved_bearer_context [OF c(1)] a(2,4) by (auto simp: hasBearerCredential_def)
  moreover have "requireApiAccount w request requiredScope allow = Inr actor"
    by (simp add: requireApiAccount_def d)
  ultimately show ?thesis using a(3-6) by simp
qed

lemma account_grant_sound_witness:
  "let actor = projr (requireAccountUser sample_world (bearer_request ''drk_live_0'') (Some ''account.read'') False)
   in requireApiAccount sample_world (bearer_request ''drk_live_0'') (Some ''account.read'') False = Inr actor \<and>
      aa_betterAuthUserId actor = ''b1'' \<and> \<not> truthy (aa_impersonatorId actor) \<and>
      scopesAuthorize (aa_grantedScopes actor) ''account.read''"
proof -
  let ?r = "requireAccountUser sample_world (bearer_request ''drk_live_0'') (Some ''account.read'') False"
  have 1: "?r = Inr (projr ?r)" by code_simp
  have 2: "hasBearerCredential (bearer_request ''drk_live_0'')" by code_simp
  have 3: "aa_betterAuthUserId (projr ?r) = ''b1''" by code_simp
  from account_grant_sound [OF 1] 2 3 show ?thesis unfolding Let_def by simp
qed

end
