(* ===== verification/TokenEndpoint.thy ===== *)
theory TokenEndpoint
  imports ResolveCaller RateLimit
begin

text \<open>
  The token endpoint (\<open>src/app/api/v1/auth/token/route.ts\<close>): a long-lived credential is exchanged
  for a short-lived access token. The two pre-auth buckets are asked before the handler below
  (\<open>consumeSourceThenGlobal\<close> of theory \<open>RateLimit\<close>); their answer is its argument \<open>preAuth\<close>. The
  parsed body holds the string fields the handler reads, absent when the body was too large.
\<close>

record token_body =
  tb_grant_type :: "string option"
  tb_client_id :: "string option"
  tb_client_secret :: "string option"
  tb_api_key :: "string option"
  tb_scope :: "string option"
  tb_resource :: "string option"

definition TOKEN_CREDENTIAL_LIMIT :: rate_limit_options where
  "TOKEN_CREDENTIAL_LIMIT = \<lparr>capacity = 10, refillPerSec = 1 / 2\<rparr>"

datatype token_response =
  TokenProblem string nat
| TokenRateLimited int
| TokenInvalidScope "string list"
| TokenIssued mint_access_token_input minted_access_token

datatype token_audit = TokenDeniedBanned uuid string | TokenIssuedAudit uuid string uuid

text \<open>The credential a body presents, once it verified.\<close>

record exchanged_credential =
  ex_principal :: uuid
  ex_scopes :: "string list"
  ex_organizationId :: "uuid option"
  ex_label :: string
  ex_credential :: token_credential_ref
  ex_expiresAt :: "millis option"

definition exchange_credential :: "api_world \<Rightarrow> token_body \<Rightarrow> token_response + exchanged_credential" where
  "exchange_credential w body =
     (if tb_grant_type body = Some ''client_credentials'' then
        (if \<not> truthy (tb_client_id body) \<or> \<not> truthy (tb_client_secret body)
         then Inl (TokenProblem ''invalid_client'' 401)
         else (case verifyClientCredentials (aw_sha256hex w) (aw_db w) (aw_creds w)
                      (the (tb_client_id body)) (the (tb_client_secret body)) of
                 None \<Rightarrow> Inl (TokenProblem ''invalid_client'' 401)
               | Some v \<Rightarrow> Inr \<lparr>ex_principal = vc_betterAuthUserId v, ex_scopes = vc_scopes v,
                   ex_organizationId = vc_organizationId v, ex_label = the (tb_client_id body),
                   ex_credential = \<lparr>ref_kind = KindOauthClient, ref_id = vc_clientRowId v\<rparr>,
                   ex_expiresAt = None\<rparr>))
      else if tb_grant_type body = Some ''api_key'' then
        (if \<not> API_KEYS_ENABLED (aw_env w) then Inl (TokenProblem ''unsupported_grant_type'' 400)
         else if \<not> truthy (tb_api_key body) then Inl (TokenProblem ''invalid_client'' 401)
         else (case verifyApiKey (aw_sha256hex w) (aw_db w) (aw_creds w) (aw_now w) (the (tb_api_key body)) of
                 None \<Rightarrow> Inl (TokenProblem ''invalid_client'' 401)
               | Some v \<Rightarrow> Inr \<lparr>ex_principal = vk_betterAuthUserId v, ex_scopes = vk_scopes v,
                   ex_organizationId = vk_organizationId v, ex_label = vk_id v,
                   ex_credential = \<lparr>ref_kind = KindApiKey, ref_id = vk_id v\<rparr>,
                   ex_expiresAt = vk_expiresAt v\<rparr>))
      else Inl (TokenProblem ''unsupported_grant_type'' 400))"

definition effective_scopes :: "token_body \<Rightarrow> string list \<Rightarrow> token_response + string list" where
  "effective_scopes body credentialScopes =
     (let requested = normalizeScopes (case tb_scope body of None \<Rightarrow> NoScopes | Some s \<Rightarrow> ScopeString s)
      in if requested \<noteq> []
         then (let exceeded = filter (\<lambda>s. \<not> scopesAuthorize (Some credentialScopes) s) requested
               in if exceeded \<noteq> [] then Inl (TokenInvalidScope exceeded) else Inr requested)
         else Inr credentialScopes)"

definition capped_ttl :: "api_env \<Rightarrow> millis \<Rightarrow> millis option \<Rightarrow> token_response + int" where
  "capped_ttl env now expiresAt =
     (case expiresAt of
        None \<Rightarrow> Inr (API_JWT_ACCESS_TTL_SECONDS env)
      | Some e \<Rightarrow>
          (let remaining = (e - now) div 1000
           in if remaining < 1 then Inl (TokenProblem ''invalid_client'' 401)
              else Inr (min (API_JWT_ACCESS_TTL_SECONDS env) remaining)))"

definition token_POST ::
    "api_world \<Rightarrow> (string \<Rightarrow> (string \<times> string) option) \<Rightarrow> (jwt_payload \<Rightarrow> string) \<Rightarrow> tiered_result \<Rightarrow>
     bucket_map \<Rightarrow> string option \<Rightarrow> uuid \<Rightarrow> token_body option \<Rightarrow>
     bucket_map \<times> token_audit list \<times> token_response" where
  "token_POST w parseUrl sign preAuth buckets cookie jti parsed =
     (if \<not> API_JWT_ENABLED (aw_env w) then (buckets, [], TokenProblem ''unsupported_grant_type'' 400)
      else (case preAuth of
        TieredDenied _ n \<Rightarrow> (buckets, [], TokenRateLimited n)
      | TieredGranted \<Rightarrow>
      (case parsed of
        None \<Rightarrow> (buckets, [], TokenProblem ''payload_too_large'' 413)
      | Some body \<Rightarrow>
      (case exchange_credential w body of
        Inl response \<Rightarrow> (buckets, [], response)
      | Inr ex \<Rightarrow>
      (case consumeToken (aw_sha256hex w) buckets (rateLimitKey ''api.token.credential'' (ex_label ex))
              TOKEN_CREDENTIAL_LIMIT (aw_now w) of
        (buckets', Denied n) \<Rightarrow> (buckets', [], TokenRateLimited n)
      | (buckets', Granted) \<Rightarrow>
          (let access = getUserAccessContext (aw_db w) (aw_now w) cookie (ex_principal ex)
                 (Some \<lparr>bo_organization_id = ex_organizationId ex\<rparr>) None
           in if decideSecureAccess (ac_status access) (ac_membershipStatus access) \<noteq> Allow
              then (buckets', [], TokenProblem ''invalid_client'' 401)
              else if isBetterAuthUserBanned (aw_db w) (aw_now w) (ex_principal ex)
              then (buckets', [TokenDeniedBanned (ex_principal ex) (ex_label ex)],
                    TokenProblem ''invalid_client'' 401)
              else (case effective_scopes body (ex_scopes ex) of
                Inl response \<Rightarrow> (buckets', [], response)
              | Inr effectiveScopes \<Rightarrow>
              (case resolveRequestedResource parseUrl (tb_resource body) (BETTER_AUTH_URL (aw_env w)) of
                None \<Rightarrow> (buckets', [], TokenProblem ''invalid_target'' 400)
              | Some resource \<Rightarrow>
              (case capped_ttl (aw_env w) (aw_now w) (ex_expiresAt ex) of
                Inl response \<Rightarrow> (buckets', [], response)
              | Inr ttlSeconds \<Rightarrow>
                  (let inp = \<lparr>mi_subject = ex_principal ex, mi_scopes = effectiveScopes,
                         mi_organizationId = ex_organizationId ex, mi_jti = jti,
                         mi_ttlSeconds = Some ttlSeconds,
                         mi_audience = Some (audienceForResource (rs_kind resource) (aw_env w)),
                         mi_credential = Some (ex_credential ex)\<rparr>
                   in (buckets', [TokenIssuedAudit (ex_principal ex) (ex_label ex) jti],
                       TokenIssued inp (mintAccessToken sign (aw_env w) (aw_now w) inp))))))))))))"

subsection \<open>What an issued token carries\<close>

lemma effective_scopes_within:
  assumes "effective_scopes body cs = Inr es" "scopesAuthorize (Some es) p"
  shows "scopesAuthorize (Some cs) p"
proof -
  have "es = cs \<or> (\<forall>s \<in> set es. scope.allows cs s)"
    using assms(1) by (auto simp: effective_scopes_def Let_def filter_empty_conv split: if_splits)
  then show ?thesis
  proof
    assume "\<forall>s \<in> set es. scope.allows cs s"
    then show ?thesis using scope.allows_delegated [of es cs p] assms(2) by simp
  qed (use assms(2) in simp)
qed

lemma capped_ttl_bound:
  assumes "capped_ttl env now (Some e) = Inr ttl"
  shows "(now div 1000 + ttl) * 1000 \<le> e \<and> ttl \<le> API_JWT_ACCESS_TTL_SECONDS env"
proof -
  from assms have ttl: "ttl \<le> (e - now) div 1000" "ttl \<le> API_JWT_ACCESS_TTL_SECONDS env"
    by (auto simp: capped_ttl_def Let_def split: if_splits)
  have "(e - now) div 1000 * 1000 \<le> e - now" "now div 1000 * 1000 \<le> now"
    by (simp_all add: minus_mod_eq_div_mult [symmetric])
  with ttl show ?thesis by (simp add: algebra_simps)
qed

lemma exchange_source:
  assumes "exchange_credential w body = Inr ex"
  shows "(\<exists>k \<in> set (app_api_keys (aw_creds w)). ex_credential ex = \<lparr>ref_kind = KindApiKey, ref_id = ak_id k\<rparr> \<and>
       ak_status k = ''active'' \<and> ex_scopes ex = ak_scopes k \<and> ex_organizationId ex = ak_organization_id k \<and>
       ex_expiresAt ex = ak_expires_at k \<and>
       (\<exists>v \<in> set (app_users (aw_db w)). au_id v = ak_app_user_id k \<and> au_better_auth_user_id v = ex_principal ex)) \<or>
    (\<exists>c \<in> set (app_oauth_clients (aw_creds w)). ex_credential ex = \<lparr>ref_kind = KindOauthClient, ref_id = oc_id c\<rparr> \<and>
       oc_status c = ''active'' \<and> ex_scopes ex = oc_scopes c \<and> ex_organizationId ex = oc_organization_id c \<and>
       ex_expiresAt ex = None \<and>
       (\<exists>v \<in> set (app_users (aw_db w)). au_id v = oc_app_user_id c \<and> au_better_auth_user_id v = ex_principal ex))"
  using assms unfolding exchange_credential_def
  by (auto split: if_splits option.splits elim!: verifyApiKey_Some verifyClient_Some) force+

lemma refusals_issue_nothing [simp]:
  "exchange_credential w body \<noteq> Inl (TokenIssued inp minted)"
  "effective_scopes body cs \<noteq> Inl (TokenIssued inp minted)"
  "capped_ttl env now e \<noteq> Inl (TokenIssued inp minted)"
  by (auto simp: exchange_credential_def effective_scopes_def capped_ttl_def Let_def split: option.splits)

lemma token_POST_Issued:
  assumes "token_POST w parseUrl sign preAuth buckets cookie jti parsed = (buckets', audit, TokenIssued inp minted)"
  shows "\<exists>body ex es ttl (r :: resolved_resource). parsed = Some body \<and> exchange_credential w body = Inr ex \<and>
    effective_scopes body (ex_scopes ex) = Inr es \<and> capped_ttl (aw_env w) (aw_now w) (ex_expiresAt ex) = Inr ttl \<and>
    \<not> isBetterAuthUserBanned (aw_db w) (aw_now w) (ex_principal ex) \<and>
    (let access = getUserAccessContext (aw_db w) (aw_now w) cookie (ex_principal ex)
         (Some \<lparr>bo_organization_id = ex_organizationId ex\<rparr>) None
      in decideSecureAccess (ac_status access) (ac_membershipStatus access) = Allow) \<and>
    inp = \<lparr>mi_subject = ex_principal ex, mi_scopes = es, mi_organizationId = ex_organizationId ex, mi_jti = jti,
       mi_ttlSeconds = Some ttl, mi_audience = Some (audienceForResource (rs_kind r) (aw_env w)),
       mi_credential = Some (ex_credential ex)\<rparr> \<and>
    minted = mintAccessToken sign (aw_env w) (aw_now w) inp"
proof -
  from assms obtain body where b: "parsed = Some body"
    by (auto simp: token_POST_def split: if_splits tiered_result.splits option.splits)
  with assms obtain ex where ex: "exchange_credential w body = Inr ex"
    by (auto simp: token_POST_def split: if_splits tiered_result.splits sum.splits)
  from assms b ex obtain es where es: "effective_scopes body (ex_scopes ex) = Inr es"
    by (auto simp: token_POST_def Let_def split: if_splits tiered_result.splits sum.splits prod.splits
        rate_limit_result.splits)
  from assms b ex es obtain r where r: "resolveRequestedResource parseUrl (tb_resource body) (BETTER_AUTH_URL (aw_env w)) = Some r"
    by (auto simp: token_POST_def Let_def split: if_splits tiered_result.splits prod.splits
        rate_limit_result.splits option.splits)
  from assms b ex es r obtain ttl where ttl: "capped_ttl (aw_env w) (aw_now w) (ex_expiresAt ex) = Inr ttl"
    by (auto simp: token_POST_def Let_def split: if_splits tiered_result.splits sum.splits prod.splits
        rate_limit_result.splits)
  show ?thesis
    using assms b ex es r ttl
    by (intro exI [of _ body] exI [of _ ex] exI [of _ es] exI [of _ ttl] exI [of _ r])
      (auto simp: token_POST_def Let_def split: if_splits tiered_result.splits prod.splits
        rate_limit_result.splits)
qed

text \<open>A bound context that is let in rests on a membership of the organization it is bound to.\<close>

lemma bound_context_member:
  assumes "decideSecureAccess (ac_status ctx) (ac_membershipStatus ctx) = Allow"
    and ctx: "ctx = getUserAccessContext d now cookie baid (Some bo) imp"
  shows "\<exists>u \<in> set (app_users d). \<exists>m \<in> set (app_organization_memberships d).
    au_better_auth_user_id u = baid \<and> au_status u = ''active'' \<and> mb_app_user_id m = au_id u \<and>
    mb_status m = ''active'' \<and> org_is_active d (mb_organization_id m) \<and>
    (\<forall>oid. bo_organization_id bo = Some oid \<and> oid \<noteq> [] \<longrightarrow> mb_organization_id m = oid)"
proof -
  have "x = oid" if "ac_organizationId ctx = Some x" "bo_organization_id bo = Some oid" "oid \<noteq> []" for x oid
    using context_org_counts [OF that(1) [unfolded ctx]] boundMembership_org [OF _ that(2,3)]
    by (auto simp: resolvedMembership_def)
  with allowed_context_member [OF assms] show ?thesis by blast
qed

subsection \<open>Property\<close>

text \<open>
  C8: An issued token never exceeds the credential it was minted from. Its source is an active
  key or client, and its subject is the account that credential authenticates as; whatever its
  scopes authorize the source's scopes authorize; it carries the source's organization; the
  subject is unbanned and an active account with an active membership, in that same organization
  when the source is bound to one (in some active organization when it is bound to none); and it
  expires no later than the key.
\<close>

theorem issued_token_within_credential:
  assumes "token_POST w parseUrl sign preAuth buckets cookie jti parsed = (buckets', audit, TokenIssued inp minted)"
  shows "((\<exists>k \<in> set (app_api_keys (aw_creds w)). mi_credential inp = Some \<lparr>ref_kind = KindApiKey, ref_id = ak_id k\<rparr> \<and>
        ak_status k = ''active'' \<and> mi_organizationId inp = ak_organization_id k \<and>
        (\<exists>v \<in> set (app_users (aw_db w)). au_id v = ak_app_user_id k \<and> au_better_auth_user_id v = mi_subject inp) \<and>
        (\<forall>p. scopesAuthorize (Some (mt_scopes minted)) p \<longrightarrow> scopesAuthorize (Some (ak_scopes k)) p) \<and>
        (\<forall>e. ak_expires_at k = Some e \<longrightarrow> (aw_now w div 1000 + mt_expiresInSeconds minted) * 1000 \<le> e)) \<or>
      (\<exists>c \<in> set (app_oauth_clients (aw_creds w)). mi_credential inp = Some \<lparr>ref_kind = KindOauthClient, ref_id = oc_id c\<rparr> \<and>
        oc_status c = ''active'' \<and> mi_organizationId inp = oc_organization_id c \<and>
        (\<exists>v \<in> set (app_users (aw_db w)). au_id v = oc_app_user_id c \<and> au_better_auth_user_id v = mi_subject inp) \<and>
        (\<forall>p. scopesAuthorize (Some (mt_scopes minted)) p \<longrightarrow> scopesAuthorize (Some (oc_scopes c)) p))) \<and>
    \<not> isBetterAuthUserBanned (aw_db w) (aw_now w) (mi_subject inp) \<and>
    (\<exists>u \<in> set (app_users (aw_db w)). \<exists>m \<in> set (app_organization_memberships (aw_db w)).
       au_better_auth_user_id u = mi_subject inp \<and> au_status u = ''active'' \<and> mb_app_user_id m = au_id u \<and>
       mb_status m = ''active'' \<and> org_is_active (aw_db w) (mb_organization_id m) \<and>
       (\<forall>oid. mi_organizationId inp = Some oid \<and> oid \<noteq> [] \<longrightarrow> mb_organization_id m = oid))"
proof -
  obtain body ex es ttl and r :: resolved_resource where t: "exchange_credential w body = Inr ex"
    "effective_scopes body (ex_scopes ex) = Inr es" "capped_ttl (aw_env w) (aw_now w) (ex_expiresAt ex) = Inr ttl"
    "\<not> isBetterAuthUserBanned (aw_db w) (aw_now w) (ex_principal ex)"
    and a: "let access = getUserAccessContext (aw_db w) (aw_now w) cookie (ex_principal ex)
         (Some \<lparr>bo_organization_id = ex_organizationId ex\<rparr>) None
      in decideSecureAccess (ac_status access) (ac_membershipStatus access) = Allow"
    and i: "inp = \<lparr>mi_subject = ex_principal ex, mi_scopes = es, mi_organizationId = ex_organizationId ex,
       mi_jti = jti, mi_ttlSeconds = Some ttl, mi_audience = Some (audienceForResource (rs_kind r) (aw_env w)),
       mi_credential = Some (ex_credential ex)\<rparr>"
    and m: "minted = mintAccessToken sign (aw_env w) (aw_now w) inp"
    using token_POST_Issued [OF assms] by blast
  have sc: "\<forall>p. scopesAuthorize (Some (mt_scopes minted)) p \<longrightarrow> scopesAuthorize (Some (ex_scopes ex)) p"
    using effective_scopes_within [OF t(2)] by (simp add: m i mintAccessToken_def)
  have ttl: "\<forall>e. ex_expiresAt ex = Some e \<longrightarrow> (aw_now w div 1000 + mt_expiresInSeconds minted) * 1000 \<le> e"
    using t(3) capped_ttl_bound by (auto simp: m i mintAccessToken_def minted_ttl_def)
  have src: "mi_credential inp = Some (ex_credential ex)" "mi_organizationId inp = ex_organizationId ex"
    "mi_subject inp = ex_principal ex" by (simp_all add: i)
  have member: "\<exists>u \<in> set (app_users (aw_db w)). \<exists>m \<in> set (app_organization_memberships (aw_db w)).
       au_better_auth_user_id u = mi_subject inp \<and> au_status u = ''active'' \<and> mb_app_user_id m = au_id u \<and>
       mb_status m = ''active'' \<and> org_is_active (aw_db w) (mb_organization_id m) \<and>
       (\<forall>oid. mi_organizationId inp = Some oid \<and> oid \<noteq> [] \<longrightarrow> mb_organization_id m = oid)"
    using bound_context_member [OF _ refl] a unfolding src Let_def by fastforce
  from exchange_source [OF t(1)] show ?thesis
  proof (elim disjE bexE conjE)
    fix k v assume "k \<in> set (app_api_keys (aw_creds w))"
      "ex_credential ex = \<lparr>ref_kind = KindApiKey, ref_id = ak_id k\<rparr>" "ak_status k = ''active''"
      "ex_scopes ex = ak_scopes k" "ex_organizationId ex = ak_organization_id k" "ex_expiresAt ex = ak_expires_at k"
      and v: "v \<in> set (app_users (aw_db w))" "au_id v = ak_app_user_id k" "au_better_auth_user_id v = ex_principal ex"
    moreover from v have "\<exists>v \<in> set (app_users (aw_db w)). au_id v = ak_app_user_id k \<and> au_better_auth_user_id v = ex_principal ex"
      by blast
    ultimately show ?thesis using sc ttl src t(4) member
      by (intro conjI disjI1 bexI [of _ k]) simp_all
  next
    fix c v assume "c \<in> set (app_oauth_clients (aw_creds w))"
      "ex_credential ex = \<lparr>ref_kind = KindOauthClient, ref_id = oc_id c\<rparr>" "oc_status c = ''active''"
      "ex_scopes ex = oc_scopes c" "ex_organizationId ex = oc_organization_id c"
      and v: "v \<in> set (app_users (aw_db w))" "au_id v = oc_app_user_id c" "au_better_auth_user_id v = ex_principal ex"
    moreover from v have "\<exists>v \<in> set (app_users (aw_db w)). au_id v = oc_app_user_id c \<and> au_better_auth_user_id v = ex_principal ex"
      by blast
    ultimately show ?thesis using sc src t(4) member
      by (intro conjI disjI2 bexI [of _ c]) simp_all
  qed
qed

definition sample_body :: token_body where
  "sample_body =
     \<lparr>tb_grant_type = Some ''api_key'', tb_client_id = None, tb_client_secret = None,
      tb_api_key = Some ''drk_live_0'', tb_scope = Some ''admin.users.read'', tb_resource = None\<rparr>"

definition issued_of ::
    "bucket_map \<times> token_audit list \<times> token_response \<Rightarrow> mint_access_token_input \<times> minted_access_token" where
  "issued_of r = (case snd (snd r) of TokenIssued inp minted \<Rightarrow> (inp, minted))"

lemma issued_token_within_credential_witness:
  "let r = token_POST sample_world (\<lambda>_. None) (\<lambda>_. ''t'') TieredGranted [] None ''j9'' (Some sample_body)
   in mi_subject (fst (issued_of r)) = ''b1'' \<and>
      \<not> isBetterAuthUserBanned sample_db 100 (mi_subject (fst (issued_of r))) \<and>
      mt_expiresInSeconds (snd (issued_of r)) = 8 \<and> mt_scopes (snd (issued_of r)) = [''admin.users.read'']"
proof -
  let ?r = "token_POST sample_world (\<lambda>_. None) (\<lambda>_. ''t'') TieredGranted [] None ''j9'' (Some sample_body)"
  let ?i = "fst (issued_of ?r)"
  let ?m = "snd (issued_of ?r)"
  have 1: "?r = (fst ?r, fst (snd ?r), TokenIssued ?i ?m)" by code_simp
  have 2: "mi_subject ?i = ''b1'' \<and> mt_expiresInSeconds ?m = 8 \<and> mt_scopes ?m = [''admin.users.read'']" by code_simp
  have "aw_db sample_world = sample_db" "aw_now sample_world = 100" by (simp_all add: sample_world_def)
  with issued_token_within_credential [OF 1] have "\<not> isBetterAuthUserBanned sample_db 100 (mi_subject ?i)"
    by (simp only: simp_thms)
  with 2 show ?thesis unfolding Let_def by blast
qed

end
