(* ===== verification/EmailSecrets.thy ===== *)
theory EmailSecrets
  imports JsString
begin

text \<open>
  The rules on what an outbox row may show (\<open>src/lib/email/outbox-secrets.ts\<close>) and on what a
  rendered value may carry into a mail header or an error column (\<open>sanitizeHeaderValue\<close> of
  \<open>send.server.ts\<close>, \<open>summarizeDeliveryError\<close> of \<open>outbox-worker.server.ts\<close>), with the renderer of
  \<open>templates.ts\<close>. Each global regular expression is the left-to-right scan it performs: a
  match is taken where one starts, its value runs greedily, and the scan goes on behind it.
\<close>

subsection \<open>The two patterns\<close>

definition REDACTED_TOKEN :: string where
  "REDACTED_TOKEN = ''[redacted]''"

definition prefix_ci :: "string \<Rightarrow> string \<Rightarrow> bool" where
  "prefix_ci p s \<longleftrightarrow> map ascii_lower (take (length p) s) = p"

text \<open>The character class \<open>[^&\s"'<>#]\<close> of a query value.\<close>

definition query_value_char :: "char \<Rightarrow> bool" where
  "query_value_char c \<longleftrightarrow>
     \<not> js_space c \<and> c \<notin> {CHR ''&'', CHR 0x22, CHR 0x27, CHR ''<'', CHR ''>'', CHR ''#''}"

text \<open>The length of group 1 of the query pattern when it matches at the head.\<close>

fun query_token_prefix :: "string \<Rightarrow> nat option" where
  "query_token_prefix [] = None"
| "query_token_prefix (c # cs) =
     (if (c = CHR ''?'' \<or> c = CHR ''&'') \<and> prefix_ci ''token='' cs then Some 7
      else if c = CHR ''&'' \<and> prefix_ci ''amp;token='' cs then Some 11
      else None)"

lemma query_token_prefix_bounds:
  "query_token_prefix s = Some n \<Longrightarrow> 0 < n \<and> n \<le> length s"
proof (cases s)
  case (Cons c cs)
  assume q: "query_token_prefix s = Some n"
  have l: "prefix_ci p t \<Longrightarrow> length p \<le> length t" for p t
    by (metis length_map length_take min.cobounded1 prefix_ci_def)
  from q Cons l [of "''token=''" cs] l [of "''amp;token=''" cs] show ?thesis
    by (auto split: if_splits)
qed simp

function redact_query :: "string \<Rightarrow> string" where
  "redact_query s =
     (case s of
        [] \<Rightarrow> []
      | c # cs \<Rightarrow>
          (case query_token_prefix s of
             None \<Rightarrow> c # redact_query cs
           | Some n \<Rightarrow> take n s @ REDACTED_TOKEN @ redact_query (dropWhile query_value_char (drop n s))))"
  by pat_completeness auto

termination
proof (relation "measure length", goal_cases)
  case (3 s c cs n)
  have "length (dropWhile query_value_char (drop n s)) \<le> length (drop n s)"
    by (rule length_dropWhile_le)
  with query_token_prefix_bounds [OF 3(2)] show ?case by auto
qed auto

text \<open>The values the query pattern captures, in order.\<close>

function query_values :: "string \<Rightarrow> string list" where
  "query_values s =
     (case s of
        [] \<Rightarrow> []
      | c # cs \<Rightarrow>
          (case query_token_prefix s of
             None \<Rightarrow> query_values cs
           | Some n \<Rightarrow>
               takeWhile query_value_char (drop n s) #
                 query_values (dropWhile query_value_char (drop n s))))"
  by pat_completeness auto

termination
proof (relation "measure length", goal_cases)
  case (3 s c cs n)
  have "length (dropWhile query_value_char (drop n s)) \<le> length (drop n s)"
    by (rule length_dropWhile_le)
  with query_token_prefix_bounds [OF 3(2)] show ?case by auto
qed auto

declare redact_query.simps [simp del] query_values.simps [simp del]

text \<open>The reset link carries its token as a path segment.\<close>

definition reset_value_char :: "char \<Rightarrow> bool" where
  "reset_value_char c \<longleftrightarrow>
     \<not> js_space c \<and>
     c \<notin> {CHR ''/'', CHR ''?'', CHR ''#'', CHR 0x22, CHR 0x27, CHR ''<'', CHR ''>''}"

definition RESET_PATH :: string where
  "RESET_PATH = ''/reset-password/''"

definition reset_token_at :: "string \<Rightarrow> bool" where
  "reset_token_at s \<longleftrightarrow>
     prefix_ci RESET_PATH s \<and> takeWhile reset_value_char (drop (length RESET_PATH) s) \<noteq> []"

function redact_reset :: "string \<Rightarrow> string" where
  "redact_reset s =
     (case s of
        [] \<Rightarrow> []
      | c # cs \<Rightarrow>
          if reset_token_at s
          then take (length RESET_PATH) s @ REDACTED_TOKEN @
                 redact_reset (dropWhile reset_value_char (drop (length RESET_PATH) s))
          else c # redact_reset cs)"
  by pat_completeness auto

termination
proof (relation "measure length", goal_cases)
  case (2 s c cs)
  have "length (dropWhile reset_value_char (drop (length RESET_PATH) s)) \<le> length (drop (length RESET_PATH) s)"
    by (rule length_dropWhile_le)
  with 2 show ?case by (auto simp: RESET_PATH_def)
qed auto

declare redact_reset.simps [simp del]

definition redactEmailSecrets :: "string \<Rightarrow> string" where
  "redactEmailSecrets text = redact_reset (redact_query text)"

subsection \<open>What the scans leave\<close>

lemma prefix_ci_Cons [simp]:
  "prefix_ci (p # ps) (c # cs) \<longleftrightarrow> ascii_lower c = p \<and> prefix_ci ps cs"
  "prefix_ci [] cs" "\<not> prefix_ci (p # ps) []"
  by (auto simp: prefix_ci_def)

lemma prefix_ciE:
  assumes "prefix_ci p s"
  obtains u v where "s = u @ v" "map ascii_lower u = p" "length u = length p"
  using assms that [of "take (length p) s" "drop (length p) s"]
  by (metis append_take_drop_id length_map prefix_ci_def)

lemma ascii_lower_fix:
  assumes "ascii_lower c \<in> {CHR ''?'', CHR ''&'', CHR ''/'', CHR ''[''}"
  shows "ascii_lower c = c"
proof (rule ccontr)
  assume "ascii_lower c \<noteq> c"
  then have "ascii_lower c = char_of (of_char c + 32 :: nat)" "65 \<le> (of_char c :: nat)" "(of_char c :: nat) \<le> 90"
    by (auto simp: ascii_lower_def Let_def split: if_splits)
  then have "97 \<le> (of_char (ascii_lower c) :: nat)" by simp
  moreover from assms have "(of_char (ascii_lower c) :: nat) < 97" by auto
  ultimately show False by simp
qed

lemma ascii_lower_punct [simp]:
  "ascii_lower (CHR ''?'') = CHR ''?''" "ascii_lower (CHR ''&'') = CHR ''&''"
  "ascii_lower (CHR ''/'') = CHR ''/''" "ascii_lower (CHR ''['') = CHR ''[''"
  by (simp_all add: ascii_lower_def)

text \<open>Both scans keep the head of the string, so nothing new can end or start a match there.\<close>

lemma redact_query_Nil [simp]: "redact_query [] = []"
  by (simp add: redact_query.simps)

lemma redact_query_None:
  "query_token_prefix (c # cs) = None \<Longrightarrow> redact_query (c # cs) = c # redact_query cs"
  by (simp add: redact_query.simps [of "c # cs"])

lemma redact_query_Some:
  "query_token_prefix s = Some n \<Longrightarrow>
   redact_query s = take n s @ REDACTED_TOKEN @ redact_query (dropWhile query_value_char (drop n s))"
  by (subst redact_query.simps, cases s) (simp_all del: query_token_prefix.simps, simp)

lemma redact_query_head: "\<exists>r. redact_query (c # cs) = c # r"
proof (cases "query_token_prefix (c # cs)")
  case None
  then show ?thesis by (simp add: redact_query_None)
next
  case (Some n)
  then obtain m where "n = Suc m" using query_token_prefix_bounds [OF Some] by (cases n) auto
  with redact_query_Some [OF Some] show ?thesis by auto
qed

lemma redact_query_hd: "s = [] \<or> \<not> P (hd s) \<Longrightarrow> redact_query s = [] \<or> \<not> P (hd (redact_query s))"
proof (cases s)
  case (Cons c cs)
  moreover obtain r where "redact_query (c # cs) = c # r" using redact_query_head by blast
  ultimately show "s = [] \<or> \<not> P (hd s) \<Longrightarrow> ?thesis" by simp
qed simp

lemma query_prefix_head: "query_token_prefix (c # cs) = Some n \<Longrightarrow> c = CHR ''?'' \<or> c = CHR ''&''"
  by (auto split: if_splits)

lemma query_prefix_plain:
  "c \<noteq> CHR ''?'' \<Longrightarrow> c \<noteq> CHR ''&'' \<Longrightarrow> query_token_prefix (c # cs) = None"
  using query_prefix_head by (metis option.exhaust)

lemma prefix_ci_redact_query:
  assumes "CHR ''?'' \<notin> set p" "CHR ''&'' \<notin> set p" "prefix_ci p (redact_query s)"
  shows "prefix_ci p s"
  using assms
proof (induction p arbitrary: s)
  case (Cons a p)
  then obtain c cs where s: "s = c # cs" by (cases s) auto
  with Cons.prems obtain r where r: "redact_query s = c # r" "ascii_lower c = a"
    using redact_query_head by (metis list.inject prefix_ci_Cons(1))
  with Cons.prems have "c \<noteq> CHR ''?''" "c \<noteq> CHR ''&''" by auto
  then have "redact_query s = c # redact_query cs" using s redact_query_None query_prefix_plain by simp
  with Cons s r show ?case by simp
qed simp

lemma takeWhile_redacted:
  assumes "r = [] \<or> \<not> P (hd r)" and "list_all P REDACTED_TOKEN"
  shows "takeWhile P (REDACTED_TOKEN @ r) = REDACTED_TOKEN"
  using assms by (cases r) (auto simp: list_all_iff takeWhile_append2)

lemma redacted_value_chars: "list_all query_value_char REDACTED_TOKEN" "list_all reset_value_char REDACTED_TOKEN"
  by (code_simp)+

lemma redacted_plain:
  "CHR ''?'' \<notin> set REDACTED_TOKEN" "CHR ''&'' \<notin> set REDACTED_TOKEN" "CHR ''/'' \<notin> set REDACTED_TOKEN"
  by (simp_all add: REDACTED_TOKEN_def)

lemma dropWhile_head: "dropWhile P s = [] \<or> \<not> P (hd (dropWhile P s))"
  by (metis hd_dropWhile)

subsection \<open>Query values\<close>

text \<open>Wherever the query pattern starts in a clean string, its value is the placeholder.\<close>

fun query_clean :: "string \<Rightarrow> bool" where
  "query_clean [] = True"
| "query_clean (c # cs) =
     ((case query_token_prefix (c # cs) of
         None \<Rightarrow> True
       | Some n \<Rightarrow> takeWhile query_value_char (drop n (c # cs)) = REDACTED_TOKEN) \<and> query_clean cs)"

lemma query_clean_drop: "query_clean s \<Longrightarrow> query_clean (drop n s)"
proof (induction n arbitrary: s)
  case (Suc n)
  then show ?case by (cases s) auto
qed simp

lemma query_clean_dropWhile: "query_clean s \<Longrightarrow> query_clean (dropWhile P s)"
  by (metis dropWhile_eq_drop query_clean_drop)

lemma query_clean_append_plain:
  "CHR ''?'' \<notin> set xs \<Longrightarrow> CHR ''&'' \<notin> set xs \<Longrightarrow> query_clean (xs @ ys) = query_clean ys"
  by (induction xs) (auto simp: query_prefix_plain simp del: query_token_prefix.simps)

lemma query_prefix_tail_plain:
  assumes "query_token_prefix (c # cs) = Some n"
  shows "CHR ''?'' \<notin> set (take (n - 1) cs)" "CHR ''&'' \<notin> set (take (n - 1) cs)"
    "CHR ''/'' \<notin> set (take (n - 1) cs)"
proof -
  have "prefix_ci ''token='' cs \<and> n = 7 \<or> prefix_ci ''amp;token='' cs \<and> n = 11"
    using assms by (simp split: if_splits)
  then have m: "map ascii_lower (take (n - 1) cs) = ''token='' \<or> map ascii_lower (take (n - 1) cs) = ''amp;token=''"
    unfolding prefix_ci_def by (elim disjE conjE) (simp_all add: eval_nat_numeral)
  have "x \<in> set (take (n - 1) cs) \<Longrightarrow> ascii_lower x \<in> set (map ascii_lower (take (n - 1) cs))" for x
    by simp
  moreover have "set (map ascii_lower (take (n - 1) cs)) \<subseteq> set ''amp;token=''"
    using m by (elim disjE) (simp_all only:, auto)
  ultimately have "x \<in> set (take (n - 1) cs) \<Longrightarrow> ascii_lower x \<in> set ''amp;token=''" for x by blast
  from this [of "CHR ''?''"] this [of "CHR ''&''"] this [of "CHR ''/''"]
  show "CHR ''?'' \<notin> set (take (n - 1) cs)" "CHR ''&'' \<notin> set (take (n - 1) cs)"
    "CHR ''/'' \<notin> set (take (n - 1) cs)" by auto
qed

lemma query_prefix_None_redact:
  assumes "query_token_prefix (c # cs) = None"
  shows "query_token_prefix (c # redact_query cs) = None"
proof -
  have "prefix_ci ''token='' (redact_query cs) \<Longrightarrow> prefix_ci ''token='' cs"
    "prefix_ci ''amp;token='' (redact_query cs) \<Longrightarrow> prefix_ci ''amp;token='' cs"
    by (rule prefix_ci_redact_query; simp)+
  with assms show ?thesis by (simp split: if_split_asm) blast?
qed

lemma query_prefix_take:
  assumes "query_token_prefix (c # cs) = Some n" "take (n - 1) ds = take (n - 1) cs"
  shows "query_token_prefix (c # ds) = Some n"
proof -
  have same: "length p \<le> n - 1 \<Longrightarrow> prefix_ci p ds = prefix_ci p cs" for p
    unfolding prefix_ci_def using assms(2) by (metis min.absorb1 take_take)
  from assms(1) have "n = 7 \<and> (c = CHR ''?'' \<or> c = CHR ''&'') \<and> prefix_ci ''token='' cs \<or>
      n = 11 \<and> c = CHR ''&'' \<and> \<not> prefix_ci ''token='' cs \<and> prefix_ci ''amp;token='' cs"
    by (simp split: if_splits)
  then show ?thesis using same [of "''token=''"] same [of "''amp;token=''"] by (elim disjE conjE) simp_all
qed

lemma query_clean_redact: "query_clean (redact_query s)"
proof (induction s rule: redact_query.induct)
  case (1 s)
  show ?case
  proof (cases s)
    case (Cons c cs)
    show ?thesis
    proof (cases "query_token_prefix s")
      case None
      with Cons 1(1) [OF Cons None] show ?thesis
        by (simp add: redact_query_None query_prefix_None_redact del: query_token_prefix.simps)
    next
      case (Some n)
      let ?r = "dropWhile query_value_char (drop n s)"
      have IH: "query_clean (redact_query ?r)" using 1(2) [OF Cons Some] .
      have n: "0 < n" "n \<le> length s" using query_token_prefix_bounds [OF Some] by auto
      then have t: "take n s = c # take (n - 1) cs" using Cons by (cases n) auto
      let ?w = "take (n - 1) cs @ REDACTED_TOKEN @ redact_query ?r"
      have e: "redact_query s = c # ?w" using redact_query_Some [OF Some] t by simp
      have l: "length (take (n - 1) cs) = n - 1" using n Cons by auto
      then have "query_token_prefix (c # ?w) = Some n"
        using query_prefix_take Some Cons by (metis append_eq_conv_conj)
      moreover have "drop n (c # ?w) = REDACTED_TOKEN @ redact_query ?r" using n l by (cases n) auto
      moreover have "redact_query ?r = [] \<or> \<not> query_value_char (hd (redact_query ?r))"
        using dropWhile_head [of query_value_char "drop n s"] by (rule redact_query_hd)
      moreover have "query_clean ?w"
        using IH query_prefix_tail_plain [of c cs n] Some Cons
        by (simp add: query_clean_append_plain redacted_plain del: query_token_prefix.simps)
      ultimately show ?thesis
        using e takeWhile_redacted redacted_value_chars by (simp del: query_token_prefix.simps)
    qed
  qed simp
qed

lemma query_clean_values:
  "query_clean s \<Longrightarrow> v \<in> set (query_values s) \<Longrightarrow> v = REDACTED_TOKEN"
proof (induction s rule: query_values.induct)
  case (1 s)
  show ?case
  proof (cases s)
    case Nil
    with 1 show ?thesis by (simp add: query_values.simps)
  next
    case (Cons c cs)
    show ?thesis
    proof (cases "query_token_prefix s")
      case None
      with 1 Cons show ?thesis by (subst (asm) (3) query_values.simps) (simp del: query_token_prefix.simps)
    next
      case (Some n)
      with 1(4) Cons have "v = takeWhile query_value_char (drop n s) \<or>
          v \<in> set (query_values (dropWhile query_value_char (drop n s)))"
        by (subst (asm) query_values.simps) (simp del: query_token_prefix.simps)
      moreover have "query_clean (dropWhile query_value_char (drop n s))"
        using 1(3) by (simp add: query_clean_drop query_clean_dropWhile)
      moreover have "takeWhile query_value_char (drop n s) = REDACTED_TOKEN"
        using 1(3) Some Cons by (simp del: query_token_prefix.simps)
      ultimately show ?thesis using 1(2) [OF Cons Some] by blast
    qed
  qed
qed

lemma redact_query_clean: "query_clean s \<Longrightarrow> redact_query s = s"
proof (induction s rule: redact_query.induct)
  case (1 s)
  show ?case
  proof (cases s)
    case (Cons c cs)
    show ?thesis
    proof (cases "query_token_prefix s")
      case None
      with 1 Cons show ?thesis by (simp add: redact_query_None del: query_token_prefix.simps)
    next
      case (Some n)
      have "takeWhile query_value_char (drop n s) = REDACTED_TOKEN"
        using 1(3) Some Cons by (simp del: query_token_prefix.simps)
      moreover have "redact_query (dropWhile query_value_char (drop n s)) =
          dropWhile query_value_char (drop n s)"
        using 1(2) [OF Cons Some] 1(3) by (simp add: query_clean_drop query_clean_dropWhile)
      ultimately show ?thesis
        using redact_query_Some [OF Some] by (metis append_take_drop_id takeWhile_dropWhile_id)
    qed
  qed simp
qed

subsection \<open>Reset links\<close>

fun reset_clean :: "string \<Rightarrow> bool" where
  "reset_clean [] = True"
| "reset_clean (c # cs) =
     ((reset_token_at (c # cs) \<longrightarrow>
         takeWhile reset_value_char (drop (length RESET_PATH) (c # cs)) = REDACTED_TOKEN) \<and> reset_clean cs)"

lemma redact_reset_Nil [simp]: "redact_reset [] = []"
  by (simp add: redact_reset.simps)

lemma redact_reset_skip: "\<not> reset_token_at (c # cs) \<Longrightarrow> redact_reset (c # cs) = c # redact_reset cs"
  by (simp add: redact_reset.simps [of "c # cs"])

lemma reset_token_at_head: "reset_token_at s \<Longrightarrow> \<exists>t. s = CHR ''/'' # t"
  using ascii_lower_fix [of "hd s"] by (cases s) (auto simp: reset_token_at_def RESET_PATH_def)

lemma redact_reset_hit:
  "reset_token_at s \<Longrightarrow>
   redact_reset s = take (length RESET_PATH) s @ REDACTED_TOKEN @
     redact_reset (dropWhile reset_value_char (drop (length RESET_PATH) s))"
  by (subst redact_reset.simps, cases s) (auto simp: reset_token_at_def RESET_PATH_def)

lemma redact_reset_plain:
  "CHR ''/'' \<notin> set xs \<Longrightarrow> redact_reset (xs @ ys) = xs @ redact_reset ys"
proof (induction xs)
  case (Cons x xs)
  then have "\<not> reset_token_at (x # xs @ ys)" using reset_token_at_head by fastforce
  with Cons show ?case by (simp add: redact_reset_skip)
qed simp

lemma redact_reset_head: "\<exists>r. redact_reset (c # cs) = c # r"
proof (cases "reset_token_at (c # cs)")
  case True
  with redact_reset_hit [OF True] show ?thesis by (simp add: RESET_PATH_def)
qed (simp add: redact_reset_skip)

lemma redact_reset_hd: "s = [] \<or> \<not> P (hd s) \<Longrightarrow> redact_reset s = [] \<or> \<not> P (hd (redact_reset s))"
proof (cases s)
  case (Cons c cs)
  moreover obtain r where "redact_reset (c # cs) = c # r" using redact_reset_head by blast
  ultimately show "s = [] \<or> \<not> P (hd s) \<Longrightarrow> ?thesis" by simp
qed simp

text \<open>A slash-free prefix of the output is a prefix of the input.\<close>

lemma redact_reset_prefix:
  "CHR ''/'' \<notin> set p \<Longrightarrow> redact_reset cs = p @ w \<Longrightarrow> \<exists>v. cs = p @ v \<and> redact_reset v = w"
proof (induction p arbitrary: cs)
  case (Cons a p)
  then obtain d ds where cs: "cs = d # ds" by (cases cs) auto
  with Cons.prems redact_reset_head [of d ds] have d: "d = a" by auto
  with Cons.prems cs have "\<not> reset_token_at (d # ds)" using reset_token_at_head by fastforce
  with Cons.prems cs d have "redact_reset ds = p @ w" by (simp add: redact_reset_skip)
  with Cons.IH Cons.prems(1) cs d show ?case by auto
qed simp

lemma prefix_ci_parts:
  "prefix_ci (a # p @ [b]) s \<longleftrightarrow>
     (\<exists>x u y v. s = x # u @ y # v \<and> ascii_lower x = a \<and> map ascii_lower u = p \<and> ascii_lower y = b)"
proof
  assume "prefix_ci (a # p @ [b]) s"
  then have "map ascii_lower (take (length (a # p @ [b])) s) = a # p @ [b]" by (simp add: prefix_ci_def)
  then obtain w t where w: "s = w @ t" "map ascii_lower w = a # p @ [b]"
    by (metis append_take_drop_id)
  then obtain x ws where x: "w = x # ws" "ascii_lower x = a" "map ascii_lower ws = p @ [b]"
    by (metis map_eq_Cons_D)
  then obtain u y where "ws = u @ [y]" "map ascii_lower u = p" "ascii_lower y = b"
    by (auto simp: map_eq_append_conv)
  with w x show "\<exists>x u y v. s = x # u @ y # v \<and> ascii_lower x = a \<and> map ascii_lower u = p \<and> ascii_lower y = b"
    by (intro exI [of _ x] exI [of _ u] exI [of _ y] exI [of _ t]) simp
qed (auto simp: prefix_ci_def)

definition reset_word :: string where
  "reset_word = ''reset-password''"

lemma reset_word: "length reset_word = 14" "CHR ''/'' \<notin> set reset_word" "reset_word \<noteq> []"
    "RESET_PATH = CHR ''/'' # reset_word @ [CHR ''/'']" "length RESET_PATH = 16"
  by (simp_all add: reset_word_def RESET_PATH_def)

lemma slash_free_lower: "map ascii_lower u = reset_word \<Longrightarrow> CHR ''/'' \<notin> set u"
  using reset_word(2) by (metis ascii_lower_punct(3) image_eqI list.set_map)

lemma reset_token_at_iff:
  "reset_token_at s \<longleftrightarrow>
     (\<exists>u v. s = CHR ''/'' # u @ CHR ''/'' # v \<and> map ascii_lower u = reset_word \<and>
        takeWhile reset_value_char v \<noteq> [])"
proof -
  have slash: "ascii_lower x = CHR ''/'' \<longleftrightarrow> x = CHR ''/''" for x
    using ascii_lower_fix [of x] by auto
  have "length u = 14" if "map ascii_lower u = reset_word" for u
    using that reset_word(1) by (metis length_map)
  then show ?thesis
    unfolding reset_token_at_def reset_word(5) unfolding reset_word(4) prefix_ci_parts slash
    by fastforce
qed

lemma reset_drop: "map ascii_lower u = reset_word \<Longrightarrow>
    drop (length RESET_PATH) (CHR ''/'' # u @ CHR ''/'' # v) = v"
  by (drule arg_cong [of _ _ length]) (simp add: reset_word)

lemma reset_clean_append_plain:
  "CHR ''/'' \<notin> set xs \<Longrightarrow> reset_clean (xs @ ys) = reset_clean ys"
proof (induction xs)
  case (Cons x xs)
  then have "\<not> reset_token_at (x # xs @ ys)" by (auto simp: reset_token_at_iff)
  with Cons show ?case by simp
qed simp

lemma reset_clean_drop: "reset_clean s \<Longrightarrow> reset_clean (drop n s)"
proof (induction n arbitrary: s)
  case (Suc n)
  then show ?case by (cases s) auto
qed simp

lemma redact_reset_no_new:
  assumes "\<not> reset_token_at (c # cs)"
  shows "\<not> reset_token_at (c # redact_reset cs)"
proof
  assume "reset_token_at (c # redact_reset cs)"
  then obtain u v where u: "c = CHR ''/''" "redact_reset cs = u @ CHR ''/'' # v"
      "map ascii_lower u = reset_word" "takeWhile reset_value_char v \<noteq> []"
    by (auto simp: reset_token_at_iff)
  then obtain w where w: "cs = u @ w" "redact_reset w = CHR ''/'' # v"
    using redact_reset_prefix slash_free_lower by blast
  then obtain w' where w': "w = CHR ''/'' # w'"
    using redact_reset_head by (cases w) (auto, metis list.inject)
  with assms u w have n: "takeWhile reset_value_char w' = []" by (auto simp: reset_token_at_iff)
  have "\<not> reset_token_at w"
  proof
    assume "reset_token_at w"
    with w' obtain q t where q: "w' = q @ t" "map ascii_lower q = reset_word" by (auto simp: reset_token_at_iff)
    then obtain x qs where "q = x # qs" "ascii_lower x = CHR ''r''" by (cases q) (auto simp: reset_word_def)
    moreover from this have "reset_value_char x"
      by (auto simp: reset_value_char_def js_space_def ascii_lower_def Let_def split: if_splits)
    ultimately show False using n q by simp
  qed
  with w w' have "v = redact_reset w'" by (simp add: redact_reset_skip)
  moreover have "redact_reset w' = [] \<or> \<not> reset_value_char (hd (redact_reset w'))"
    using n redact_reset_hd by (cases w') (auto split: if_splits)
  ultimately show False using u(4) by (cases "redact_reset w'") auto
qed

lemma reset_clean_redact: "reset_clean (redact_reset s)"
proof (induction s rule: redact_reset.induct)
  case (1 s)
  show ?case
  proof (cases s)
    case (Cons c cs)
    show ?thesis
    proof (cases "reset_token_at s")
      case False
      with Cons 1(2) show ?thesis by (simp add: redact_reset_skip redact_reset_no_new)
    next
      case True
      then obtain u v where u: "s = CHR ''/'' # u @ CHR ''/'' # v" "map ascii_lower u = reset_word"
          "takeWhile reset_value_char v \<noteq> []"
        by (auto simp: reset_token_at_iff)
      let ?r = "redact_reset (dropWhile reset_value_char v)"
      have IH: "reset_clean ?r" using 1(1) [OF Cons True] u reset_drop by simp
      have l: "length u = 14" using u(2) reset_word(1) by (metis length_map)
      have e: "redact_reset s = CHR ''/'' # u @ CHR ''/'' # REDACTED_TOKEN @ ?r"
        using redact_reset_hit [OF True] reset_drop [OF u(2)] u(1) l by (simp add: reset_word(5))
      have h: "?r = [] \<or> \<not> reset_value_char (hd ?r)" by (rule redact_reset_hd [OF dropWhile_head])
      have t: "takeWhile reset_value_char (REDACTED_TOKEN @ ?r) = REDACTED_TOKEN"
        using h redacted_value_chars(2) by (rule takeWhile_redacted)
      have "\<not> reset_token_at (CHR ''/'' # REDACTED_TOKEN @ ?r)"
        by (simp add: reset_token_at_def RESET_PATH_def REDACTED_TOKEN_def ascii_lower_def)
      then have "reset_clean (CHR ''/'' # REDACTED_TOKEN @ ?r)"
        using IH redacted_plain(3) by (simp add: reset_clean_append_plain)
      then have "reset_clean (u @ CHR ''/'' # REDACTED_TOKEN @ ?r)"
        using slash_free_lower [OF u(2)] by (simp add: reset_clean_append_plain)
      with e t reset_drop [OF u(2)] show ?thesis by simp
    qed
  qed simp
qed

lemma redact_reset_clean: "reset_clean s \<Longrightarrow> redact_reset s = s"
proof (induction s rule: redact_reset.induct)
  case (1 s)
  show ?case
  proof (cases s)
    case (Cons c cs)
    show ?thesis
    proof (cases "reset_token_at s")
      case False
      with 1 Cons show ?thesis by (simp add: redact_reset_skip)
    next
      case True
      let ?d = "drop (length RESET_PATH) s"
      have "takeWhile reset_value_char ?d = REDACTED_TOKEN" using 1(3) True Cons by simp
      moreover have "redact_reset (dropWhile reset_value_char ?d) = dropWhile reset_value_char ?d"
        using 1(1) [OF Cons True] 1(3) by (metis dropWhile_eq_drop reset_clean_drop)
      ultimately show ?thesis
        using redact_reset_hit [OF True] by (metis append_take_drop_id takeWhile_dropWhile_id)
    qed
  qed simp
qed

lemma query_value_redact_reset:
  assumes n: "query_token_prefix (c # redact_reset cs) = Some n"
  shows "query_token_prefix (c # cs) = Some n" (is ?A)
    and "takeWhile query_value_char (drop n (c # cs)) = REDACTED_TOKEN \<Longrightarrow>
      takeWhile query_value_char (drop n (c # redact_reset cs)) = REDACTED_TOKEN"
proof -
  let ?p = "take (n - 1) (redact_reset cs)" and ?w = "drop (n - 1) (redact_reset cs)"
  have "CHR ''/'' \<notin> set ?p" using query_prefix_tail_plain(3) [OF n] .
  then obtain v where v: "cs = ?p @ v" "redact_reset v = ?w"
    using redact_reset_prefix [of ?p cs ?w] by auto
  have b: "0 < n" "n \<le> Suc (length (redact_reset cs))" using query_token_prefix_bounds [OF n] by auto
  then have l: "length ?p = n - 1" by simp
  then have t: "take (n - 1) cs = ?p" using v(1) by (metis append_eq_conv_conj)
  then show ?A using query_prefix_take [OF n] by simp
  have d: "drop n (c # cs) = v" "drop n (c # redact_reset cs) = redact_reset v"
    using b l v by (cases n; metis append_eq_conv_conj drop_Suc_Cons diff_Suc_1 less_irrefl)+
  assume "takeWhile query_value_char (drop n (c # cs)) = REDACTED_TOKEN"
  then have "v = REDACTED_TOKEN @ dropWhile query_value_char v"
    using d(1) by (metis takeWhile_dropWhile_id)
  then have "redact_reset v = REDACTED_TOKEN @ redact_reset (dropWhile query_value_char v)"
    using redact_reset_plain [OF redacted_plain(3)] by metis
  moreover have "takeWhile query_value_char
      (REDACTED_TOKEN @ redact_reset (dropWhile query_value_char v)) = REDACTED_TOKEN"
    by (rule takeWhile_redacted [OF redact_reset_hd [OF dropWhile_head] redacted_value_chars(1)])
  ultimately show "takeWhile query_value_char (drop n (c # redact_reset cs)) = REDACTED_TOKEN"
    using d(2) by simp
qed

text \<open>The second scan uncovers no query value the first one hid.\<close>

lemma query_clean_redact_reset: "query_clean s \<Longrightarrow> query_clean (redact_reset s)"
proof (induction s rule: redact_reset.induct)
  case (1 s)
  show ?case
  proof (cases s)
    case (Cons c cs)
    show ?thesis
    proof (cases "reset_token_at s")
      case True
      then obtain u v where u: "s = CHR ''/'' # u @ CHR ''/'' # v" "map ascii_lower u = reset_word"
        by (auto simp: reset_token_at_iff)
      let ?r = "redact_reset (dropWhile reset_value_char v)"
      have IH: "query_clean ?r"
        using 1(1) [OF Cons True] 1(3) u reset_drop query_clean_drop query_clean_dropWhile by metis
      have "length u = 14" using u(2) reset_word(1) by (metis length_map)
      then have e: "redact_reset s = (CHR ''/'' # u @ [CHR ''/'']) @ REDACTED_TOKEN @ ?r"
        using redact_reset_hit [OF True] reset_drop [OF u(2)] u(1) by (simp add: reset_word(5))
      have "CHR ''?'' \<notin> set (map ascii_lower u)" "CHR ''&'' \<notin> set (map ascii_lower u)"
        using u(2) by (simp_all add: reset_word_def)
      then have p: "CHR ''?'' \<notin> set (CHR ''/'' # u @ [CHR ''/''])" "CHR ''&'' \<notin> set (CHR ''/'' # u @ [CHR ''/''])"
        by (auto dest: imageI [of _ _ ascii_lower])
      show ?thesis
        unfolding e query_clean_append_plain [OF p] query_clean_append_plain [OF redacted_plain(1,2)]
        by (rule IH)
    next
      case False
      with Cons have e: "redact_reset s = c # redact_reset cs" by (simp add: redact_reset_skip)
      have IH: "query_clean (redact_reset cs)" using 1(2) [OF Cons False] 1(3) Cons by simp
      have "takeWhile query_value_char (drop n (c # redact_reset cs)) = REDACTED_TOKEN"
        if n: "query_token_prefix (c # redact_reset cs) = Some n" for n
        using query_value_redact_reset [OF n] 1(3) Cons by (auto simp del: query_token_prefix.simps)
      with e IH show ?thesis by (auto split: option.split simp del: query_token_prefix.simps)
    qed
  qed simp
qed

lemma redactEmailSecrets_clean:
  "query_clean (redactEmailSecrets t)" "reset_clean (redactEmailSecrets t)"
  by (simp_all add: redactEmailSecrets_def query_clean_redact query_clean_redact_reset reset_clean_redact)

lemma redactEmailSecrets_idem: "redactEmailSecrets (redactEmailSecrets t) = redactEmailSecrets t"
  using redactEmailSecrets_clean [of t]
  by (simp add: redactEmailSecrets_def [of "redactEmailSecrets t"] redact_query_clean redact_reset_clean)

subsection \<open>The tokens a text carries\<close>

text \<open>
  \<open>decodeURIComponent\<close>: escapes are read as UTF-8, code points come out; a broken escape or an
  invalid sequence is the exception \<open>None\<close>.
\<close>

definition hex_value :: "char \<Rightarrow> nat" where
  "hex_value c =
     (let n = of_char c in if n \<le> 57 then n - 48 else if n \<le> 70 then n - 55 else n - 87)"

fun uri_units :: "string \<Rightarrow> (nat + nat) list option" where
  "uri_units [] = Some []"
| "uri_units (c # cs) =
     (if c = CHR ''%'' then
        (case cs of
           a # b # r \<Rightarrow>
             if is_hex_digit a \<and> is_hex_digit b
             then map_option (Cons (Inr (16 * hex_value a + hex_value b))) (uri_units r) else None
         | _ \<Rightarrow> None)
      else map_option (Cons (Inl (of_char c))) (uri_units cs))"

definition continuation :: "nat \<Rightarrow> bool" where
  "continuation b \<longleftrightarrow> 128 \<le> b \<and> b \<le> 191"

fun utf8_decode :: "(nat + nat) list \<Rightarrow> nat list option" where
  "utf8_decode [] = Some []"
| "utf8_decode (Inl c # us) = map_option (Cons c) (utf8_decode us)"
| "utf8_decode (Inr b # us) =
     (if b < 128 then map_option (Cons b) (utf8_decode us)
      else if 194 \<le> b \<and> b \<le> 223 then
        (case us of
           Inr x # r \<Rightarrow>
             if continuation x
             then map_option (Cons ((b - 192) * 64 + (x - 128))) (utf8_decode r) else None
         | _ \<Rightarrow> None)
      else if 224 \<le> b \<and> b \<le> 239 then
        (case us of
           Inr x # Inr y # r \<Rightarrow>
             (let cp = (b - 224) * 4096 + (x - 128) * 64 + (y - 128)
              in if continuation x \<and> continuation y \<and> 2048 \<le> cp \<and> \<not> (55296 \<le> cp \<and> cp \<le> 57343)
                 then map_option (Cons cp) (utf8_decode r) else None)
         | _ \<Rightarrow> None)
      else if 240 \<le> b \<and> b \<le> 244 then
        (case us of
           Inr x # Inr y # Inr z # r \<Rightarrow>
             (let cp = (b - 240) * 262144 + (x - 128) * 4096 + (y - 128) * 64 + (z - 128)
              in if continuation x \<and> continuation y \<and> continuation z \<and> 65536 \<le> cp \<and> cp \<le> 1114111
                 then map_option (Cons cp) (utf8_decode r) else None)
         | _ \<Rightarrow> None)
      else None)"

definition decodeURIComponent :: "string \<Rightarrow> nat list option" where
  "decodeURIComponent s = Option.bind (uri_units s) utf8_decode"

definition decoded_token :: "string \<Rightarrow> nat list" where
  "decoded_token raw = (case decodeURIComponent raw of Some t \<Rightarrow> t | None \<Rightarrow> map of_char raw)"

definition findQueryTokens :: "string \<Rightarrow> nat list list" where
  "findQueryTokens text =
     map decoded_token (filter (\<lambda>raw. raw \<noteq> [] \<and> raw \<noteq> REDACTED_TOKEN) (query_values text))"

text \<open>The path segments the reset pattern finds at any position of a text.\<close>

definition findResetTokens :: "string \<Rightarrow> string list" where
  "findResetTokens text =
     map (\<lambda>u. takeWhile reset_value_char (drop (length RESET_PATH) u)) (filter reset_token_at (suffixes text))"

lemma redacted_no_query_tokens: "findQueryTokens (redactEmailSecrets t) = []"
  using redactEmailSecrets_clean(1) query_clean_values by (auto simp: findQueryTokens_def filter_empty_conv)

lemma reset_clean_tokens: "reset_clean s \<Longrightarrow> set (findResetTokens s) \<subseteq> {REDACTED_TOKEN}"
  by (induction s) (auto simp: findResetTokens_def reset_token_at_iff split: if_splits)

subsection \<open>The stored copy of an email\<close>

record rendered_email =
  re_subject :: string
  re_html :: string
  re_text :: "string option"

record redacted_email =
  rd_stored :: rendered_email
  rd_variables :: "(string \<times> string) list"
  rd_redacted :: bool

definition redactRenderedEmail ::
    "rendered_email \<Rightarrow> (string \<times> string) list \<Rightarrow> redacted_email" where
  "redactRenderedEmail rendered variables =
     (let stored = \<lparr>re_subject = redactEmailSecrets (re_subject rendered),
                    re_html = redactEmailSecrets (re_html rendered),
                    re_text = map_option redactEmailSecrets (re_text rendered)\<rparr>;
          storedVariables = map (\<lambda>(name, v). (name, redactEmailSecrets v)) variables;
          redacted = (re_subject stored \<noteq> re_subject rendered \<or> re_html stored \<noteq> re_html rendered \<or>
                      re_text stored \<noteq> re_text rendered \<or>
                      (\<exists>(name, v) \<in> set variables. redactEmailSecrets v \<noteq> v))
      in \<lparr>rd_stored = stored, rd_variables = storedVariables, rd_redacted = redacted\<rparr>)"

text \<open>A JSON value, for the \<open>delivery_payload\<close> column.\<close>

datatype json =
    JNull
  | JBool bool
  | JNum int
  | JStr string
  | JArr "json list"
  | JObj "(string \<times> json) list"

definition payload_fields :: "json \<Rightarrow> rendered_email option" where
  "payload_fields value =
     (let get = (\<lambda>k. case value of JObj es \<Rightarrow> map_of es k | _ \<Rightarrow> None)
      in case (get ''subject'', get ''html'', get ''text'') of
           (Some (JStr subject), Some (JStr html), t) \<Rightarrow>
             (case t of
                None \<Rightarrow> Some \<lparr>re_subject = subject, re_html = html, re_text = None\<rparr>
              | Some JNull \<Rightarrow> Some \<lparr>re_subject = subject, re_html = html, re_text = None\<rparr>
              | Some (JStr text) \<Rightarrow> Some \<lparr>re_subject = subject, re_html = html, re_text = Some text\<rparr>
              | _ \<Rightarrow> None)
         | _ \<Rightarrow> None)"

text \<open>
  The column is read back as a value; a caller may hand a string through, which is then
  parsed by \<open>JSON.parse\<close> (a parameter: the driver never does this).
\<close>

definition parseOutboxDeliveryPayload :: "(string \<Rightarrow> json option) \<Rightarrow> json \<Rightarrow> rendered_email option" where
  "parseOutboxDeliveryPayload jsonParse raw =
     (case (case raw of JStr s \<Rightarrow> jsonParse s | _ \<Rightarrow> Some raw) of
        None \<Rightarrow> None
      | Some value \<Rightarrow> payload_fields value)"

text \<open>\<open>JSON.stringify(rendered)\<close>, as the column stores it.\<close>

definition delivery_payload_of :: "rendered_email \<Rightarrow> json" where
  "delivery_payload_of m =
     JObj [(''subject'', JStr (re_subject m)), (''html'', JStr (re_html m)),
           (''text'', case re_text m of None \<Rightarrow> JNull | Some t \<Rightarrow> JStr t)]"

lemma payload_round_trip [simp]: "parseOutboxDeliveryPayload jp (delivery_payload_of m) = Some m"
  by (cases m; cases "re_text m")
    (auto simp: parseOutboxDeliveryPayload_def delivery_payload_of_def payload_fields_def)

subsection \<open>Rendered values\<close>

definition replace_all :: "char \<Rightarrow> string \<Rightarrow> string \<Rightarrow> string" where
  "replace_all c r s = concat (map (\<lambda>x. if x = c then r else [x]) s)"

definition escapeHtml :: "string \<Rightarrow> string" where
  "escapeHtml v =
     replace_all (CHR 0x27) ''&#39;'' (replace_all (CHR 0x22) ''&quot;'' (replace_all (CHR ''>'') ''&gt;''
       (replace_all (CHR ''<'') ''&lt;'' (replace_all (CHR ''&'') ''&amp;'' v))))"

datatype render_mode = HtmlMode | TextMode

definition name_char :: "char \<Rightarrow> bool" where
  "name_char c =
     (let n = (of_char c :: nat) in
        (48 \<le> n \<and> n \<le> 57) \<or> (65 \<le> n \<and> n \<le> 90) \<or> (97 \<le> n \<and> n \<le> 122) \<or> c = CHR ''_'' \<or> c = CHR ''.'')"

text \<open>A placeholder at the head: the variable it names and the text behind it.\<close>

definition placeholder_at :: "string \<Rightarrow> (string \<times> string) option" where
  "placeholder_at s =
     (if take 2 s \<noteq> ''{{'' then None
      else (let a = dropWhile js_space (drop 2 s); name = takeWhile name_char a;
                b = dropWhile js_space (dropWhile name_char a)
            in if name = [] \<or> take 2 b \<noteq> ''}}'' then None else Some (name, drop 2 b)))"

lemma placeholder_at_shrinks:
  assumes "placeholder_at s = Some (name, r)"
  shows "length r < length s"
proof -
  let ?a = "dropWhile js_space (drop 2 s)"
  let ?b = "dropWhile js_space (dropWhile name_char ?a)"
  have "r = drop 2 ?b" "take 2 ?b = ''}}''"
    using assms by (auto simp: placeholder_at_def Let_def split: if_splits)
  moreover have "length ?b \<le> length s"
    using length_dropWhile_le [of js_space "dropWhile name_char ?a"] length_dropWhile_le [of name_char ?a]
      length_dropWhile_le [of js_space "drop 2 s"] by simp
  ultimately show ?thesis by (cases ?b) auto
qed

text \<open>
  The bag of variables is an own-property lookup of string values, so a name the caller did not
  set stays as it is written.
\<close>

function renderEmailTemplate :: "string \<Rightarrow> (string \<times> string) list \<Rightarrow> render_mode \<Rightarrow> string" where
  "renderEmailTemplate template variables mode =
     (case template of
        [] \<Rightarrow> []
      | c # cs \<Rightarrow>
          (case placeholder_at template of
             None \<Rightarrow> c # renderEmailTemplate cs variables mode
           | Some (name, r) \<Rightarrow>
               (case map_of variables name of
                  None \<Rightarrow> take (length template - length r) template
                | Some v \<Rightarrow> (if mode = HtmlMode then escapeHtml v else v)) @
               renderEmailTemplate r variables mode))"
  by pat_completeness auto

termination
  by (relation "measure (\<lambda>(t, _, _). length t)") (auto dest: placeholder_at_shrinks)

declare renderEmailTemplate.simps [simp del]

text \<open>
  \<open>replace(/\s+/g, " ")\<close>, and the one-line form both sanitizers produce. The \<open>ellipsis\<close> a capped
  value ends in is U+2026, outside the characters a string holds here, so it is an argument.
\<close>

fun collapse_spaces :: "string \<Rightarrow> string" where
  "collapse_spaces [] = []"
| "collapse_spaces (c # cs) =
     (if js_space c
      then (case cs of
              d # _ \<Rightarrow> if js_space d then collapse_spaces cs else CHR '' '' # collapse_spaces cs
            | [] \<Rightarrow> '' '')
      else c # collapse_spaces cs)"

definition one_line :: "string \<Rightarrow> string" where
  "one_line v = trim (collapse_spaces (map (\<lambda>c. if control_char c then CHR '' '' else c) v))"

definition SUBJECT_MAX_LEN :: nat where
  "SUBJECT_MAX_LEN = 900"

definition sanitizeHeaderValue :: "string \<Rightarrow> string \<Rightarrow> string" where
  "sanitizeHeaderValue ellipsis v =
     (let oneLine = one_line v
      in if length oneLine > SUBJECT_MAX_LEN then take SUBJECT_MAX_LEN oneLine @ ellipsis else oneLine)"

definition ERROR_MAX_LEN :: nat where
  "ERROR_MAX_LEN = 200"

definition summarizeDeliveryError :: "string \<Rightarrow> string \<Rightarrow> string" where
  "summarizeDeliveryError ellipsis raw =
     (let oneLine = one_line raw
      in if length oneLine > ERROR_MAX_LEN then take ERROR_MAX_LEN oneLine @ ellipsis else oneLine)"

lemma set_replace_all: "set (replace_all c r s) \<subseteq> (set s - {c}) \<union> set r"
  by (auto simp: replace_all_def)

lemma escapeHtml_no_markup:
  "set (escapeHtml v) \<inter> {CHR ''<'', CHR ''>'', CHR 0x22, CHR 0x27} = {}"
proof -
  let ?a = "replace_all (CHR ''&'') ''&amp;'' v"
  let ?b = "replace_all (CHR ''<'') ''&lt;'' ?a"
  let ?c = "replace_all (CHR ''>'') ''&gt;'' ?b"
  let ?d = "replace_all (CHR 0x22) ''&quot;'' ?c"
  have b: "CHR ''<'' \<notin> set ?b" using set_replace_all [of "CHR ''<''" "''&lt;''" ?a] by auto
  have c: "CHR ''<'' \<notin> set ?c" "CHR ''>'' \<notin> set ?c"
    using set_replace_all [of "CHR ''>''" "''&gt;''" ?b] b by auto
  have d: "CHR ''<'' \<notin> set ?d" "CHR ''>'' \<notin> set ?d" "CHR 0x22 \<notin> set ?d"
    using set_replace_all [of "CHR 0x22" "''&quot;''" ?c] c by auto
  show ?thesis
    unfolding escapeHtml_def
    using set_replace_all [of "CHR 0x27" "''&#39;''" ?d] d by auto
qed

lemma set_trim: "set (trim s) \<subseteq> set s"
proof -
  have "set (dropWhile P t) \<subseteq> set t" for P :: "char \<Rightarrow> bool" and t
    by (blast dest: set_dropWhileD)
  from this [of js_space "rev (dropWhile js_space s)"] this [of js_space s]
  show ?thesis unfolding trim_def trim_end_def trim_start_def set_rev by (rule subset_trans)
qed

lemma set_collapse: "set (collapse_spaces s) \<subseteq> insert (CHR '' '') (set s)"
proof (induction s)
  case (Cons c cs)
  then show ?case by (cases cs) auto
qed simp

lemma one_line_no_control: "c \<in> set (one_line v) \<Longrightarrow> \<not> control_char c"
proof -
  have sp: "\<not> control_char (CHR '' '')" by (simp add: control_char_def)
  assume "c \<in> set (one_line v)"
  then have "c \<in> insert (CHR '' '') (set (map (\<lambda>c. if control_char c then CHR '' '' else c) v))"
    unfolding one_line_def using set_trim set_collapse by blast
  with sp show ?thesis by (auto split: if_splits)
qed

lemma redacted_tokens_hidden:
  "concat (map findQueryTokens (map redactEmailSecrets ts)) = []"
  "set (concat (map findResetTokens (map redactEmailSecrets ts))) \<subseteq> {REDACTED_TOKEN}"
  using reset_clean_tokens [OF redactEmailSecrets_clean(2)] by (auto simp: redacted_no_query_tokens)

lemma redactRenderedEmail_flag:
  "rd_redacted (redactRenderedEmail m vs) =
     ((rd_stored (redactRenderedEmail m vs), rd_variables (redactRenderedEmail m vs)) \<noteq> (m, vs))"
proof -
  have "map (\<lambda>(name, v). (name, redactEmailSecrets v)) vs = vs \<longleftrightarrow>
      (\<forall>(name, v) \<in> set vs. redactEmailSecrets v = v)"
    by (induction vs) auto
  then show ?thesis by (cases m) (auto simp: redactRenderedEmail_def Let_def)
qed

lemma redactRenderedEmail_idem:
  "rd_stored (redactRenderedEmail (rd_stored (redactRenderedEmail m vs)) ws) = rd_stored (redactRenderedEmail m vs)"
  "rd_variables (redactRenderedEmail n (rd_variables (redactRenderedEmail m vs))) =
     rd_variables (redactRenderedEmail m vs)"
  by (auto simp: redactRenderedEmail_def Let_def redactEmailSecrets_idem option.map_comp o_def)

text \<open>
  C32: no admin-readable column of an outbox row holds a live token: in the stored copy no query
  token and no reset segment is left but the placeholder, in subject, bodies and variables; the
  flag that keeps the unredacted payload is set exactly when the copy differs; and redacting the
  stored copy again changes nothing.
\<close>

theorem stored_copy_hides_tokens:
  "let r = redactRenderedEmail m vs;
       shown = re_subject (rd_stored r) # re_html (rd_stored r) #
         (case re_text (rd_stored r) of None \<Rightarrow> [] | Some t \<Rightarrow> [t]) @ map snd (rd_variables r)
   in concat (map findQueryTokens shown) = [] \<and>
      set (concat (map findResetTokens shown)) \<subseteq> {REDACTED_TOKEN} \<and>
      rd_redacted r = ((rd_stored r, rd_variables r) \<noteq> (m, vs)) \<and>
      rd_stored (redactRenderedEmail (rd_stored r) (rd_variables r)) = rd_stored r \<and>
      \<not> rd_redacted (redactRenderedEmail (rd_stored r) (rd_variables r))"
proof -
  let ?r = "redactRenderedEmail m vs"
  let ?shown = "re_subject (rd_stored ?r) # re_html (rd_stored ?r) #
         (case re_text (rd_stored ?r) of None \<Rightarrow> [] | Some t \<Rightarrow> [t]) @ map snd (rd_variables ?r)"
  have shown: "?shown = map redactEmailSecrets (re_subject m # re_html m #
       (case re_text m of None \<Rightarrow> [] | Some t \<Rightarrow> [t]) @ map snd vs)"
    by (cases "re_text m") (auto simp: redactRenderedEmail_def Let_def)
  have "rd_stored (redactRenderedEmail (rd_stored ?r) (rd_variables ?r)) = rd_stored ?r"
    by (rule redactRenderedEmail_idem)
  moreover have "\<not> rd_redacted (redactRenderedEmail (rd_stored ?r) (rd_variables ?r))"
    unfolding redactRenderedEmail_flag redactRenderedEmail_idem by simp
  ultimately show ?thesis
    unfolding Let_def shown
    by (intro conjI redacted_tokens_hidden redactRenderedEmail_flag)
qed

end
