(* ===== verification/EmailOutbox.thy ===== *)
theory EmailOutbox
  imports EmailSecrets Tables ReturnTo Complex_Main
begin

text \<open>
  The outbox: the inline send (\<open>src/lib/email/send.server.ts\<close>), the retry worker
  (\<open>src/lib/email/outbox-worker.server.ts\<close>), the classification of a provider's answer
  (\<open>src/lib/email/providers.server.ts\<close>) and the outbox part of the retention job
  (\<open>src/lib/retention.server.ts\<close>). The provider itself, the clock and the random jitter are
  arguments. A worker transaction holds its row's lock, so it is one step.
\<close>

subsection \<open>Rows and answers\<close>

record outbox_row =
  ob_id :: uuid
  ob_organization_id :: "uuid option"
  ob_template_key :: "string option"
  ob_to_email :: string
  ob_from_email :: string
  ob_subject :: string
  ob_body_html :: string
  ob_body_text :: "string option"
  ob_variables :: "(string \<times> string) list"
  ob_delivery_payload :: "json option"
  ob_status :: string
  ob_provider :: "string option"
  ob_provider_message_id :: "string option"
  ob_error :: "string option"
  ob_related_better_auth_user_id :: "uuid option"
  ob_attempts :: nat
  ob_next_attempt_at :: "millis option"
  ob_last_attempt_at :: "millis option"
  ob_created_at :: millis
  ob_sent_at :: "millis option"

record outbound_email =
  oe_to :: string
  oe_from :: string
  oe_subject :: string
  oe_html :: string
  oe_text :: "string option"
  oe_idempotencyKey :: "string option"

datatype delivery_error =
    EmailDeliveryError string int string "int option"   \<comment> \<open>provider, status, body, retryAfterMs\<close>
  | TransportError string

datatype delivery_answer = DeliveredWith "string option" | DeliveryThrew delivery_error

definition isRetryableDeliveryStatus :: "int \<Rightarrow> bool" where
  "isRetryableDeliveryStatus status =
     (if status = 408 \<or> status = 409 \<or> status = 425 \<or> status = 429 then True
      else \<not> (status \<ge> 400 \<and> status < 500))"

fun isRetryableDeliveryError :: "delivery_error \<Rightarrow> bool" where
  "isRetryableDeliveryError (EmailDeliveryError _ status _ _) = isRetryableDeliveryStatus status"
| "isRetryableDeliveryError (TransportError _) = True"

text \<open>What \<open>fetch\<close> answers a provider call with, and what the provider makes of it.\<close>

datatype http_answer =
    HttpResponse int string "string option" "string option"   \<comment> \<open>status, body, id of the JSON, Retry-After\<close>
  | FetchThrew string

definition truncateBody :: "string \<Rightarrow> string \<Rightarrow> string" where
  "truncateBody ellipsis body = (if length body > 500 then take 500 body @ ellipsis else body)"

definition parseRetryAfterMs :: "(string \<Rightarrow> millis option) \<Rightarrow> string option \<Rightarrow> millis \<Rightarrow> int option" where
  "parseRetryAfterMs dateParse v now =
     (case map_option trim v of
        None \<Rightarrow> None
      | Some trimmed \<Rightarrow>
          if trimmed = [] then None
          else if list_all is_digit trimmed
          then Some (int (foldl (\<lambda>n c. 10 * n + (of_char c - 48)) 0 trimmed) * 1000)
          else (let parsed = (if name_char (hd trimmed) \<and> \<not> is_digit (hd trimmed) \<and>
                            hd trimmed \<notin> {CHR ''_'', CHR ''.''} then dateParse trimmed else None)
                in map_option (\<lambda>t. max 0 (t - now)) parsed))"

definition provider_answer ::
    "(string \<Rightarrow> millis option) \<Rightarrow> string \<Rightarrow> string \<Rightarrow> millis \<Rightarrow> http_answer \<Rightarrow> delivery_answer" where
  "provider_answer dateParse ellipsis providerId now res =
     (case res of
        FetchThrew m \<Rightarrow> DeliveryThrew (TransportError m)
      | HttpResponse status body msgId retryAfter \<Rightarrow>
          if 200 \<le> status \<and> status \<le> 299 then DeliveredWith msgId
          else DeliveryThrew
                 (EmailDeliveryError providerId status (truncateBody ellipsis body)
                    (parseRetryAfterMs dateParse retryAfter now)))"

subsection \<open>The retry worker\<close>

definition OUTBOX_MAX_ATTEMPTS :: nat where
  "OUTBOX_MAX_ATTEMPTS = 5"

definition BACKOFF_BASE_MS :: int where
  "BACKOFF_BASE_MS = 60000"

definition BACKOFF_CAP_MS :: int where
  "BACKOFF_CAP_MS = 60 * 60000"

definition PASSWORD_RESET_TOKEN_TTL_MS :: int where
  "PASSWORD_RESET_TOKEN_TTL_MS = 60 * 60000"

definition EMAIL_VERIFICATION_TOKEN_TTL_MS :: int where
  "EMAIL_VERIFICATION_TOKEN_TTL_MS = 60 * 60000"

definition INVITATION_TTL_MS :: int where
  "INVITATION_TTL_MS = 7 * 24 * 60 * 60000"

definition TOKEN_TTL_MS_BY_TEMPLATE :: "string \<rightharpoonup> int" where
  "TOKEN_TTL_MS_BY_TEMPLATE =
     map_of [(''password_reset'', PASSWORD_RESET_TOKEN_TTL_MS),
             (''email_verification'', EMAIL_VERIFICATION_TOKEN_TTL_MS),
             (''organization_invitation'', INVITATION_TTL_MS)]"

definition outboxTokenExpired :: "string option \<Rightarrow> millis \<Rightarrow> millis \<Rightarrow> bool" where
  "outboxTokenExpired templateKey createdAt now =
     (case templateKey of
        None \<Rightarrow> False
      | Some k \<Rightarrow>
          (case TOKEN_TTL_MS_BY_TEMPLATE k of None \<Rightarrow> False | Some ttl \<Rightarrow> createdAt + ttl \<le> now))"

datatype link_state = LinkLive | LinkDead | LinkMissing

text \<open>\<open>hash\<close> is \<open>hashSecret\<close> on a decoded token.\<close>

definition invitationLinkState ::
    "(nat list \<Rightarrow> string) \<Rightarrow> invitation_row table \<Rightarrow> rendered_email \<Rightarrow> link_state" where
  "invitationLinkState hash invitations message =
     (let tokens = findQueryTokens (re_html message) @
            findQueryTokens (case re_text message of None \<Rightarrow> [] | Some t \<Rightarrow> t)
      in if tokens = [] then LinkMissing
         else if \<exists>i \<in> set invitations. inv_token_hash i \<in> hash ` set tokens \<and> inv_status i = ''pending''
         then LinkLive else LinkDead)"

definition backoffDelayMs :: "nat \<Rightarrow> int" where
  "backoffDelayMs attempts = min (BACKOFF_BASE_MS * 2 ^ (attempts - 1)) BACKOFF_CAP_MS"

fun error_message :: "string \<Rightarrow> delivery_error \<Rightarrow> string" where
  "error_message statusText (EmailDeliveryError provider status body _) =
     provider @ '' '' @ statusText @ '': '' @ body"
| "error_message statusText (TransportError m) = m"

datatype drain_outcome = OutSent | OutRetried | OutFailed | OutExpired | OutSuperseded

record drain_env =
  de_provider :: string
  de_hash :: "nat list \<Rightarrow> string"
  de_jsonParse :: "string \<Rightarrow> json option"
  de_invitations :: "invitation_row table"
  de_reason :: "delivery_error \<Rightarrow> string"      \<comment> \<open>\<open>summarizeDeliveryError\<close> of the thrown error\<close>

definition due :: "drain_env \<Rightarrow> millis \<Rightarrow> outbox_row \<Rightarrow> bool" where
  "due e now r \<longleftrightarrow>
     ob_status r = ''pending'' \<and> ob_provider r = Some (de_provider e) \<and>
     (case ob_next_attempt_at r of None \<Rightarrow> True | Some t \<Rightarrow> t \<le> now)"

text \<open>\<open>order by next_attempt_at asc nulls first limit 1 for update skip locked\<close>.\<close>

definition next_attempt_rank :: "outbox_row \<Rightarrow> bool \<times> millis" where
  "next_attempt_rank r = (case ob_next_attempt_at r of None \<Rightarrow> (False, 0) | Some t \<Rightarrow> (True, t))"

definition claim :: "drain_env \<Rightarrow> uuid list \<Rightarrow> millis \<Rightarrow> outbox_row table \<Rightarrow> outbox_row option" where
  "claim e locked now rows =
     first_by next_attempt_rank (filter (\<lambda>r. due e now r \<and> ob_id r \<notin> set locked) rows)"

definition row_message :: "drain_env \<Rightarrow> outbox_row \<Rightarrow> rendered_email" where
  "row_message e r =
     (case Option.bind (ob_delivery_payload r) (parseOutboxDeliveryPayload (de_jsonParse e)) of
        Some m \<Rightarrow> m
      | None \<Rightarrow> \<lparr>re_subject = ob_subject r, re_html = ob_body_html r, re_text = ob_body_text r\<rparr>)"

definition outbox_email :: "outbox_row \<Rightarrow> rendered_email \<Rightarrow> outbound_email" where
  "outbox_email r m =
     \<lparr>oe_to = ob_to_email r, oe_from = ob_from_email r, oe_subject = re_subject m, oe_html = re_html m,
      oe_text = re_text m, oe_idempotencyKey = Some (''outbox-'' @ ob_id r)\<rparr>"

text \<open>The row's update when nothing was attempted.\<close>

definition dropped :: "millis \<Rightarrow> string \<Rightarrow> outbox_row \<Rightarrow> outbox_row" where
  "dropped now reason r =
     r\<lparr>ob_status := ''failed'', ob_last_attempt_at := Some now, ob_next_attempt_at := None,
       ob_error := Some reason, ob_delivery_payload := None\<rparr>"

definition attempted :: "drain_env \<Rightarrow> millis \<Rightarrow> delivery_answer \<Rightarrow> outbox_row \<Rightarrow> outbox_row \<times> drain_outcome" where
  "attempted e now answer r =
     (let attempts = ob_attempts r + 1
      in case answer of
           DeliveredWith mid \<Rightarrow>
             (r\<lparr>ob_status := ''sent'', ob_provider_message_id := mid, ob_attempts := attempts,
                ob_last_attempt_at := Some now, ob_next_attempt_at := None, ob_sent_at := Some now,
                ob_error := None, ob_delivery_payload := None\<rparr>, OutSent)
         | DeliveryThrew err \<Rightarrow>
             (let terminal = (attempts \<ge> OUTBOX_MAX_ATTEMPTS \<or> \<not> isRetryableDeliveryError err);
                  r' = r\<lparr>ob_status := if terminal then ''failed'' else ''pending'', ob_attempts := attempts,
                         ob_last_attempt_at := Some now,
                         ob_next_attempt_at := if terminal then None else Some (now + backoffDelayMs attempts),
                         ob_error := Some (de_reason e err)\<rparr>
              in if terminal then (r'\<lparr>ob_delivery_payload := None\<rparr>, OutFailed) else (r', OutRetried)))"

text \<open>
  One claimed row: what becomes of it, how it counts, and the email handed to the provider, if
  one was.
\<close>

definition process_row ::
    "drain_env \<Rightarrow> (outbound_email \<Rightarrow> delivery_answer) \<Rightarrow> millis \<Rightarrow> outbox_row \<Rightarrow>
     outbox_row \<times> drain_outcome \<times> outbound_email option" where
  "process_row e deliver now r =
     (if outboxTokenExpired (ob_template_key r) (ob_created_at r) now then
        (dropped now (''token_expired: '' @ the (ob_template_key r) @ '' link expired before delivery'') r,
         OutExpired, None)
      else
        (let message = row_message e r;
             link = (if ob_template_key r = Some ''organization_invitation''
                     then invitationLinkState (de_hash e) (de_invitations e) message else LinkLive)
         in case link of
              LinkMissing \<Rightarrow>
                (dropped now ''invitation_link_missing: the email carries no accept link'' r, OutFailed, None)
            | LinkDead \<Rightarrow>
                (dropped now ''invitation_superseded: the invitation was revoked, resent, accepted or deleted before delivery'' r,
                 OutSuperseded, None)
            | LinkLive \<Rightarrow>
                (let email = outbox_email r message; u = attempted e now (deliver email) r
                 in (fst u, snd u, Some email))))"

record drain_result =
  dr_claimed :: nat
  dr_sent :: nat
  dr_retried :: nat
  dr_failed :: nat
  dr_expired :: nat
  dr_superseded :: nat

definition no_result :: drain_result where
  "no_result = \<lparr>dr_claimed = 0, dr_sent = 0, dr_retried = 0, dr_failed = 0, dr_expired = 0, dr_superseded = 0\<rparr>"

fun bump :: "drain_outcome \<Rightarrow> drain_result \<Rightarrow> drain_result" where
  "bump OutExpired c = c\<lparr>dr_expired := dr_expired c + 1, dr_failed := dr_failed c + 1\<rparr>"
| "bump OutSent c = c\<lparr>dr_sent := dr_sent c + 1\<rparr>"
| "bump OutRetried c = c\<lparr>dr_retried := dr_retried c + 1\<rparr>"
| "bump OutFailed c = c\<lparr>dr_failed := dr_failed c + 1\<rparr>"
| "bump OutSuperseded c = c\<lparr>dr_superseded := dr_superseded c + 1\<rparr>"

definition count_step :: "drain_outcome \<Rightarrow> drain_result \<Rightarrow> drain_result" where
  "count_step out c = bump out (c\<lparr>dr_claimed := dr_claimed c + 1\<rparr>)"

text \<open>
  One claim transaction: the row found at the time \<open>now\<close> of the transaction, if any, written back
  by its primary key.
\<close>

definition drain_step ::
    "drain_env \<Rightarrow> uuid list \<Rightarrow> (outbound_email \<Rightarrow> delivery_answer) \<Rightarrow> millis \<Rightarrow> outbox_row table \<Rightarrow>
     (outbox_row table \<times> drain_outcome \<times> outbound_email option) option" where
  "drain_step e locked deliver now rows =
     (case claim e locked now rows of
        None \<Rightarrow> None
      | Some r \<Rightarrow>
          (let u = process_row e deliver now r
           in Some (update_where (\<lambda>x. ob_id x = ob_id r) (\<lambda>_. fst u) rows, fst (snd u), snd (snd u))))"

text \<open>
  The loop of at most \<open>limit\<close> claims. Claim \<open>i\<close> sees the clock \<open>clock i\<close>, the locks \<open>locks i\<close> of
  other drainers and the provider's answer \<open>deliver i\<close>.
\<close>

fun drain_loop ::
    "drain_env \<Rightarrow> (nat \<Rightarrow> uuid list) \<Rightarrow> (nat \<Rightarrow> outbound_email \<Rightarrow> delivery_answer) \<Rightarrow> (nat \<Rightarrow> millis) \<Rightarrow>
     nat \<Rightarrow> nat \<Rightarrow> outbox_row table \<Rightarrow> drain_result \<Rightarrow> outbox_row table \<times> drain_result" where
  "drain_loop e locks deliver clock i 0 rows acc = (rows, acc)"
| "drain_loop e locks deliver clock i (Suc k) rows acc =
     (case drain_step e (locks i) (deliver i) (clock i) rows of
        None \<Rightarrow> (rows, acc)
      | Some (rows', out, _) \<Rightarrow> drain_loop e locks deliver clock (i + 1) k rows' (count_step out acc))"

definition drainOutbox ::
    "drain_env option \<Rightarrow> (nat \<Rightarrow> uuid list) \<Rightarrow> (nat \<Rightarrow> outbound_email \<Rightarrow> delivery_answer) \<Rightarrow>
     (nat \<Rightarrow> millis) \<Rightarrow> nat \<Rightarrow> outbox_row table \<Rightarrow> outbox_row table \<times> drain_result" where
  "drainOutbox provider locks deliver clock limit rows =
     (case provider of
        None \<Rightarrow> (rows, no_result)
      | Some e \<Rightarrow> drain_loop e locks deliver clock 0 limit rows no_result)"

subsection \<open>The inline send\<close>

definition INLINE_MAX_ATTEMPTS :: nat where
  "INLINE_MAX_ATTEMPTS = 3"

definition PROVIDER_TIMEOUT_MS :: int where
  "PROVIDER_TIMEOUT_MS = 10000"

definition INLINE_DELIVERY_BUDGET_MS :: int where
  "INLINE_DELIVERY_BUDGET_MS = 20000"

definition INLINE_RETRY_BASE_MS :: int where
  "INLINE_RETRY_BASE_MS = 1000"

definition INLINE_DELIVERY_LEASE_MS :: int where
  "INLINE_DELIVERY_LEASE_MS = 2 * 60000"

text \<open>\<open>Math.round\<close> rounds a tie up.\<close>

definition js_round :: "real \<Rightarrow> int" where
  "js_round x = \<lfloor>x + 1 / 2\<rfloor>"

fun error_retryAfterMs :: "delivery_error \<Rightarrow> int option" where
  "error_retryAfterMs (EmailDeliveryError _ _ _ after) = after"
| "error_retryAfterMs (TransportError _) = None"

definition inlineRetryDelayMs :: "nat \<Rightarrow> delivery_error \<Rightarrow> real \<Rightarrow> int" where
  "inlineRetryDelayMs attempt err random =
     (let jittered = js_round (real_of_int (INLINE_RETRY_BASE_MS * 2 ^ (attempt - 1)) * (1 / 2 + random / 2))
      in max jittered (case error_retryAfterMs err of None \<Rightarrow> 0 | Some t \<Rightarrow> t))"

record inline_delivery =
  il_answer :: delivery_answer
  il_attempts :: nat
  il_finishedAt :: millis

text \<open>
  The attempts from number \<open>attempt\<close> on, at the time \<open>now\<close>. Attempt \<open>i\<close> is answered with
  \<open>fst (answers i)\<close> after \<open>snd (answers i)\<close> milliseconds; \<open>random i\<close> is its jitter; the sleep takes
  the delay it is given.
\<close>

function deliver_from ::
    "(nat \<Rightarrow> delivery_answer \<times> int) \<Rightarrow> (nat \<Rightarrow> real) \<Rightarrow> millis \<Rightarrow> nat \<Rightarrow> millis \<Rightarrow> inline_delivery" where
  "deliver_from answers random startedAt attempt now =
     (let answer = fst (answers attempt); after = now + snd (answers attempt);
          stop = \<lparr>il_answer = answer, il_attempts = attempt, il_finishedAt = after\<rparr>
      in case answer of
           DeliveredWith _ \<Rightarrow> stop
         | DeliveryThrew err \<Rightarrow>
             if attempt \<ge> INLINE_MAX_ATTEMPTS \<or> \<not> isRetryableDeliveryError err then stop
             else (let delay = inlineRetryDelayMs attempt err (random attempt)
                   in if after - startedAt + delay + PROVIDER_TIMEOUT_MS > INLINE_DELIVERY_BUDGET_MS then stop
                      else deliver_from answers random startedAt (attempt + 1) (after + delay)))"
  by pat_completeness auto

termination
  by (relation "measure (\<lambda>(_, _, _, attempt, _). INLINE_MAX_ATTEMPTS - attempt)") auto

declare deliver_from.simps [simp del]

definition deliverInline ::
    "(nat \<Rightarrow> delivery_answer \<times> int) \<Rightarrow> (nat \<Rightarrow> real) \<Rightarrow> millis \<Rightarrow> inline_delivery" where
  "deliverInline answers random startedAt = deliver_from answers random startedAt 1 startedAt"

subsubsection \<open>What is sent, to whom, and where it is recorded\<close>

record email_template =
  et_key :: string
  et_locale :: string
  et_subject :: string
  et_body_html :: string
  et_body_text :: "string option"

record default_template =
  dt_key :: string
  dt_subject :: string
  dt_bodyHtml :: string
  dt_bodyText :: string
  dt_translations :: "(string \<times> (string \<times> string \<times> string)) list"

text \<open>
  \<open>defaults\<close> is \<open>DEFAULT_EMAIL_TEMPLATES\<close>, the catalogue of texts; the result is the template
  with the locale's translation laid over it.
\<close>

definition getDefaultEmailTemplate ::
    "default_template list \<Rightarrow> string \<Rightarrow> string \<Rightarrow> (string \<times> string \<times> string) option" where
  "getDefaultEmailTemplate defaults key locale =
     (case List.find (\<lambda>t. dt_key t = key) defaults of
        None \<Rightarrow> None
      | Some t \<Rightarrow>
          (let base = (dt_subject t, dt_bodyHtml t, dt_bodyText t)
           in if locale = ''en'' then Some base
              else (case map_of (dt_translations t) locale of None \<Rightarrow> Some base | Some l \<Rightarrow> Some l)))"

definition resolveTemplate ::
    "default_template list \<Rightarrow> email_template table \<Rightarrow> string \<Rightarrow> string \<Rightarrow>
     (string \<times> string \<times> string option) option" where
  "resolveTemplate defaults templates key locale =
     (let rows = filter (\<lambda>t. et_key t = key \<and>
            et_locale t \<in> set (if locale = defaultLocale then [defaultLocale] else [locale, defaultLocale])) templates;
          row = (case List.find (\<lambda>t. et_locale t = locale) rows of
                   Some t \<Rightarrow> Some t | None \<Rightarrow> List.find (\<lambda>t. et_locale t = defaultLocale) rows)
      in case row of
           Some t \<Rightarrow> Some (et_subject t, et_body_html t, et_body_text t)
         | None \<Rightarrow> map_option (\<lambda>(s, h, t). (s, h, Some t)) (getDefaultEmailTemplate defaults key locale))"

datatype owning_org = OrgFromRelatedUser | OrgGiven "uuid option"

record send_app_email_input =
  si_to :: string
  si_templateKey :: string
  si_variables :: "(string \<times> string) list"
  si_locale :: "string option"
  si_relatedBetterAuthUserId :: "uuid option"
  si_organizationId :: owning_org

definition resolveOrganizationId :: "db \<Rightarrow> send_app_email_input \<Rightarrow> uuid option" where
  "resolveOrganizationId d inp =
     (case si_organizationId inp of
        OrgGiven v \<Rightarrow> v
      | OrgFromRelatedUser \<Rightarrow>
          if \<not> truthy (si_relatedBetterAuthUserId inp) then None
          else (let users = map au_id (filter (\<lambda>u. Some (au_better_auth_user_id u) = si_relatedBetterAuthUserId inp)
                      (app_users d));
                    orgIds = js_uniq (map mb_organization_id
                      (filter (\<lambda>m. mb_app_user_id m \<in> set users) (app_organization_memberships d)))
                in case orgIds of [oid] \<Rightarrow> Some oid | _ \<Rightarrow> None))"

definition resolveRecipientLocale :: "db \<Rightarrow> send_app_email_input \<Rightarrow> string" where
  "resolveRecipientLocale d inp =
     (case Option.bind (si_locale inp) (\<lambda>l. if l \<noteq> [] \<and> isSupportedLocale l then Some l else None) of
        Some l \<Rightarrow> l
      | None \<Rightarrow>
          if \<not> truthy (si_relatedBetterAuthUserId inp) then defaultLocale
          else (case List.find (\<lambda>u. Some (au_better_auth_user_id u) = si_relatedBetterAuthUserId inp) (app_users d) of
                  None \<Rightarrow> defaultLocale
                | Some u \<Rightarrow>
                    if isSupportedLocale (au_preferred_locale u) then au_preferred_locale u else defaultLocale))"

record mail_env =
  me_from :: string
  me_provider :: "string option"
  me_defaults :: "default_template list"
  me_ellipsis :: string
  me_reason :: "delivery_error \<Rightarrow> string"

definition render_email ::
    "mail_env \<Rightarrow> string \<times> string \<times> string option \<Rightarrow> (string \<times> string) list \<Rightarrow> rendered_email" where
  "render_email env template variables =
     (case template of
        (subject, html, text) \<Rightarrow>
          \<lparr>re_subject = sanitizeHeaderValue (me_ellipsis env) (renderEmailTemplate subject variables TextMode),
           re_html = renderEmailTemplate html variables HtmlMode,
           re_text = (case text of
                        None \<Rightarrow> None
                      | Some t \<Rightarrow> if t = [] then None else Some (renderEmailTemplate t variables TextMode))\<rparr>)"

text \<open>The row as it is inserted, before any delivery attempt.\<close>

definition outbox_insert ::
    "mail_env \<Rightarrow> db \<Rightarrow> send_app_email_input \<Rightarrow> rendered_email \<Rightarrow> uuid \<Rightarrow> millis \<Rightarrow> outbox_row" where
  "outbox_insert env d inp rendered newId now =
     (let redaction = redactRenderedEmail rendered (si_variables inp); stored = rd_stored redaction
      in \<lparr>ob_id = newId, ob_organization_id = resolveOrganizationId d inp,
          ob_template_key = Some (si_templateKey inp),
          ob_to_email = sanitizeHeaderValue (me_ellipsis env) (si_to inp),
          ob_from_email = sanitizeHeaderValue (me_ellipsis env) (me_from env),
          ob_subject = re_subject stored, ob_body_html = re_html stored, ob_body_text = re_text stored,
          ob_variables = rd_variables redaction,
          ob_delivery_payload = (if rd_redacted redaction then Some (delivery_payload_of rendered) else None),
          ob_status = (if me_provider env \<noteq> None then ''pending'' else ''logged''),
          ob_provider = me_provider env, ob_provider_message_id = None, ob_error = None,
          ob_related_better_auth_user_id = si_relatedBetterAuthUserId inp, ob_attempts = 0,
          ob_next_attempt_at = (if me_provider env \<noteq> None then Some (now + INLINE_DELIVERY_LEASE_MS) else None),
          ob_last_attempt_at = None, ob_created_at = now, ob_sent_at = None\<rparr>)"

text \<open>The update that records the inline outcome, at the time \<open>now\<close>.\<close>

definition inline_update :: "mail_env \<Rightarrow> inline_delivery \<Rightarrow> millis \<Rightarrow> outbox_row \<Rightarrow> outbox_row" where
  "inline_update env outcome now r =
     (case il_answer outcome of
        DeliveredWith mid \<Rightarrow>
          r\<lparr>ob_status := ''sent'', ob_provider_message_id := mid, ob_attempts := il_attempts outcome,
            ob_last_attempt_at := Some now, ob_next_attempt_at := None, ob_sent_at := Some now,
            ob_error := None, ob_delivery_payload := None\<rparr>
      | DeliveryThrew err \<Rightarrow>
          (let terminal = (\<not> isRetryableDeliveryError err);
               r' = r\<lparr>ob_status := if terminal then ''failed'' else ob_status r,
                      ob_attempts := il_attempts outcome, ob_last_attempt_at := Some now,
                      ob_next_attempt_at := if terminal then None
                                            else Some (now + backoffDelayMs (il_attempts outcome)),
                      ob_error := Some (me_reason env err)\<rparr>
           in if terminal then r'\<lparr>ob_delivery_payload := None\<rparr> else r'))"

datatype send_status = StatusSent | StatusFailed | StatusLogged | StatusPending

definition inline_status :: "inline_delivery \<Rightarrow> send_status" where
  "inline_status outcome =
     (case il_answer outcome of
        DeliveredWith _ \<Rightarrow> StatusSent
      | DeliveryThrew err \<Rightarrow> if isRetryableDeliveryError err then StatusPending else StatusFailed)"

text \<open>
  The whole send. \<open>None\<close> is the exception for an unknown template. The update may fail once the
  provider has answered (\<open>updateOk\<close>): the row then keeps its lease and the status is still the
  provider's answer.
\<close>

definition sendAppEmail ::
    "mail_env \<Rightarrow> db \<Rightarrow> email_template table \<Rightarrow> outbox_row table \<Rightarrow> send_app_email_input \<Rightarrow> uuid \<Rightarrow> millis \<Rightarrow>
     (nat \<Rightarrow> delivery_answer \<times> int) \<Rightarrow> (nat \<Rightarrow> real) \<Rightarrow> bool \<Rightarrow> (outbox_row table \<times> send_status) option" where
  "sendAppEmail env d templates rows inp newId now answers random updateOk =
     (case resolveTemplate (me_defaults env) templates (si_templateKey inp) (resolveRecipientLocale d inp) of
        None \<Rightarrow> None
      | Some template \<Rightarrow>
          (let row = outbox_insert env d inp (render_email env template (si_variables inp)) newId now;
               rows' = rows @ [row]
           in case me_provider env of
                None \<Rightarrow> Some (rows', StatusLogged)
              | Some _ \<Rightarrow>
                  (let outcome = deliverInline answers random now
                   in Some (if updateOk
                            then update_where (\<lambda>r. ob_id r = newId)
                                   (inline_update env outcome (il_finishedAt outcome)) rows'
                            else rows',
                            inline_status outcome))))"

subsection \<open>Retention\<close>

definition DAY_MS :: int where
  "DAY_MS = 24 * 60 * 60 * 1000"

definition olderThanDays :: "int \<Rightarrow> millis \<Rightarrow> millis \<Rightarrow> bool" where
  "olderThanDays days now createdAt \<longleftrightarrow> createdAt < now - days * DAY_MS"

text \<open>
  One batch: at most \<open>batchSize\<close> of the matching rows, picked by the subquery's \<open>limit\<close> in the
  order the table yields them.
\<close>

definition batch_ids :: "(outbox_row \<Rightarrow> bool) \<Rightarrow> nat \<Rightarrow> outbox_row table \<Rightarrow> uuid list" where
  "batch_ids P batchSize rows = take batchSize (map ob_id (filter P rows))"

definition prune_batch :: "int \<Rightarrow> nat \<Rightarrow> millis \<Rightarrow> outbox_row table \<Rightarrow> outbox_row table \<times> nat" where
  "prune_batch days batchSize now rows =
     (let ids = batch_ids (\<lambda>r. ob_status r \<noteq> ''pending'' \<and> olderThanDays days now (ob_created_at r)) batchSize rows;
          hit = (\<lambda>r. ob_status r \<noteq> ''pending'' \<and> ob_id r \<in> set ids)
      in (delete_where hit rows, count_where hit rows))"

definition stale_batch :: "int \<Rightarrow> nat \<Rightarrow> millis \<Rightarrow> outbox_row table \<Rightarrow> outbox_row table \<times> nat" where
  "stale_batch days batchSize now rows =
     (let ids = batch_ids (\<lambda>r. ob_status r = ''pending'' \<and> olderThanDays days now (ob_created_at r)) batchSize rows;
          hit = (\<lambda>r. ob_status r = ''pending'' \<and> ob_id r \<in> set ids)
      in (update_where hit
            (\<lambda>r. r\<lparr>ob_status := ''failed'',
                   ob_error := Some ''orphaned: no active provider claimed this row within the retry window'',
                   ob_last_attempt_at := Some now, ob_delivery_payload := None\<rparr>) rows,
          count_where hit rows))"

text \<open>
  \<open>inBatches\<close>: batches until a short one says the table is drained or the deadline has passed.
  Batch \<open>i\<close> starts at \<open>clock i\<close>; \<open>fuel\<close> bounds the loop.
\<close>

fun inBatches ::
    "nat \<Rightarrow> (nat \<Rightarrow> millis) \<Rightarrow> millis option \<Rightarrow> (millis \<Rightarrow> outbox_row table \<Rightarrow> outbox_row table \<times> nat) \<Rightarrow>
     nat \<Rightarrow> nat \<Rightarrow> outbox_row table \<Rightarrow> nat \<Rightarrow> (outbox_row table \<times> nat) option" where
  "inBatches batchSize clock deadline runBatch 0 i rows acc = None"
| "inBatches batchSize clock deadline runBatch (Suc fuel) i rows acc =
     (if (case deadline of None \<Rightarrow> False | Some t \<Rightarrow> clock i \<ge> t) then Some (rows, acc)
      else (let u = runBatch (clock i) rows
            in if snd u < batchSize then Some (fst u, acc + snd u)
               else inBatches batchSize clock deadline runBatch fuel (i + 1) (fst u) (acc + snd u)))"

definition pruneOutbox ::
    "nat \<Rightarrow> int \<Rightarrow> nat \<Rightarrow> (nat \<Rightarrow> millis) \<Rightarrow> millis option \<Rightarrow> outbox_row table \<Rightarrow>
     (outbox_row table \<times> nat) option" where
  "pruneOutbox fuel days batchSize clock deadline rows =
     (if days \<le> 0 then Some (rows, 0)
      else inBatches batchSize clock deadline (prune_batch days batchSize) fuel 0 rows 0)"

definition failStalePendingOutbox ::
    "nat \<Rightarrow> int \<Rightarrow> nat \<Rightarrow> (nat \<Rightarrow> millis) \<Rightarrow> millis option \<Rightarrow> outbox_row table \<Rightarrow>
     (outbox_row table \<times> nat) option" where
  "failStalePendingOutbox fuel days batchSize clock deadline rows =
     (if days \<le> 0 then Some (rows, 0)
      else inBatches batchSize clock deadline (stale_batch days batchSize) fuel 0 rows 0)"

end
