(* ===== verification/OutboxDelivery.thy ===== *)
theory OutboxDelivery
  imports EmailOutbox
begin

text \<open>
  What the outbox guarantees: the invariant of its rows under every writer, the lease that keeps
  the worker away from a row the inline send is delivering, the bound on the worker's attempts,
  and that a mail whose one-time link is dead is never handed to a provider.
\<close>

subsection \<open>The row invariant\<close>

definition row_ok :: "outbox_row \<Rightarrow> bool" where
  "row_ok r \<longleftrightarrow>
     ob_status r \<in> {''pending'', ''sent'', ''failed'', ''logged''} \<and>
     (ob_status r \<in> {''sent'', ''failed''} \<longrightarrow> ob_delivery_payload r = None) \<and>
     (ob_status r = ''pending'' \<longrightarrow> ob_attempts r < OUTBOX_MAX_ATTEMPTS \<and> ob_provider r \<noteq> None) \<and>
     (ob_status r = ''logged'' \<longrightarrow> ob_provider r = None \<and> ob_attempts r = 0) \<and>
     (ob_status r = ''sent'') = (ob_sent_at r \<noteq> None) \<and>
     (ob_status r \<in> {''sent'', ''logged''} \<longrightarrow> ob_next_attempt_at r = None) \<and>
     ob_attempts r \<le> OUTBOX_MAX_ATTEMPTS"

text \<open>The columns an administrator may read hold no live token.\<close>

definition shown_columns :: "outbox_row \<Rightarrow> string list" where
  "shown_columns r =
     ob_subject r # ob_body_html r # (case ob_body_text r of None \<Rightarrow> [] | Some t \<Rightarrow> [t]) @
     map snd (ob_variables r)"

definition row_redacted :: "outbox_row \<Rightarrow> bool" where
  "row_redacted r \<longleftrightarrow> (\<forall>c \<in> set (shown_columns r). \<exists>t. c = redactEmailSecrets t)"

text \<open>
  The texts the error column may hold: what a failed delivery is summarized as, of which \<open>Q\<close> is all
  that is known, or one of the writers' own reasons.
\<close>

definition own_reasons :: "string set" where
  "own_reasons =
     (\<lambda>k. ''token_expired: '' @ k @ '' link expired before delivery'') ` dom TOKEN_TTL_MS_BY_TEMPLATE \<union>
     {''invitation_link_missing: the email carries no accept link'',
      ''invitation_superseded: the invitation was revoked, resent, accepted or deleted before delivery'',
      ''orphaned: no active provider claimed this row within the retry window''}"

definition error_from :: "(string \<Rightarrow> bool) \<Rightarrow> outbox_row \<Rightarrow> bool" where
  "error_from Q r \<longleftrightarrow> (\<forall>t. ob_error r = Some t \<longrightarrow> Q t \<or> t \<in> own_reasons)"

definition token_free :: "string \<Rightarrow> bool" where
  "token_free t \<longleftrightarrow> findQueryTokens t = [] \<and> set (findResetTokens t) \<subseteq> {REDACTED_TOKEN}"

definition plain_char :: "char \<Rightarrow> bool" where
  "plain_char c \<longleftrightarrow> c \<noteq> CHR ''?'' \<and> c \<noteq> CHR ''&'' \<and> c \<noteq> CHR ''/''"

lemma plain_token_free:
  assumes "list_all plain_char t"
  shows "token_free t"
proof -
  have "query_values s = []" if "list_all plain_char s" for s
    using that
  proof (induction s)
    case (Cons c cs)
    then have "query_token_prefix (c # cs) = None" by (auto simp: plain_char_def)
    with Cons show ?case by (subst query_values.simps) (simp del: query_token_prefix.simps)
  qed (simp add: query_values.simps)
  moreover have "\<not> reset_token_at u" if "u \<in> set (suffixes t)" for u
    using that assms set_mono_suffix [of u t] by (fastforce simp: reset_token_at_iff list_all_iff plain_char_def)
  ultimately show ?thesis using assms by (simp add: token_free_def findQueryTokens_def findResetTokens_def)
qed

lemma own_reasons_token_free:
  assumes "t \<in> own_reasons"
  shows "token_free t"
proof (rule plain_token_free)
  have d: "dom TOKEN_TTL_MS_BY_TEMPLATE = {''password_reset'', ''email_verification'', ''organization_invitation''}"
    by (auto simp: TOKEN_TTL_MS_BY_TEMPLATE_def dom_def)
  have k: "list_all plain_char (''token_expired: '' @ ''password_reset'' @ '' link expired before delivery'')"
    "list_all plain_char (''token_expired: '' @ ''email_verification'' @ '' link expired before delivery'')"
    "list_all plain_char (''token_expired: '' @ ''organization_invitation'' @ '' link expired before delivery'')"
    "list_all plain_char ''invitation_link_missing: the email carries no accept link''"
    "list_all plain_char ''invitation_superseded: the invitation was revoked, resent, accepted or deleted before delivery''"
    "list_all plain_char ''orphaned: no active provider claimed this row within the retry window''"
    by code_simp+
  from assms show "list_all plain_char t"
    unfolding own_reasons_def d by (elim UnE imageE insertE emptyE) (simp_all only: k)
qed

lemma orphaned_reason:
  "error_from Q r \<Longrightarrow> error_from Q (r\<lparr>ob_status := v,
     ob_error := Some ''orphaned: no active provider claimed this row within the retry window'',
     ob_last_attempt_at := x, ob_delivery_payload := y\<rparr>)"
  by (simp add: error_from_def own_reasons_def)

lemma error_from_process:
  assumes "error_from Q r" "\<forall>err. Q (de_reason e err)"
  shows "error_from Q (fst (process_row e deliver now r))"
proof -
  have d: "error_from Q (dropped now t r)" if "t \<in> own_reasons" for t
    using that by (simp add: dropped_def error_from_def)
  have u: "error_from Q (fst (attempted e now a r))" for a
    using assms by (cases a) (auto simp: attempted_def Let_def error_from_def)
  show ?thesis
  proof (cases "outboxTokenExpired (ob_template_key r) (ob_created_at r) now")
    case True
    then have "the (ob_template_key r) \<in> dom TOKEN_TTL_MS_BY_TEMPLATE"
      by (auto simp: outboxTokenExpired_def split: option.splits)
    then have "''token_expired: '' @ the (ob_template_key r) @ '' link expired before delivery'' \<in> own_reasons"
      unfolding own_reasons_def by (intro UnI1 imageI)
    from d [OF this] show ?thesis unfolding process_row_def if_P [OF True] fst_conv .
  next
    case False
    have "error_from Q (dropped now ''invitation_link_missing: the email carries no accept link'' r)"
      "error_from Q (dropped now ''invitation_superseded: the invitation was revoked, resent, accepted or deleted before delivery'' r)"
      by (rule d, simp add: own_reasons_def)+
    with u show ?thesis unfolding process_row_def if_not_P [OF False] Let_def by (simp split: link_state.split)
  qed
qed

lemma error_from_inline:
  "error_from Q r \<Longrightarrow> \<forall>err. Q (me_reason env err) \<Longrightarrow> error_from Q (inline_update env outcome now r)"
  by (cases "il_answer outcome") (auto simp: inline_update_def Let_def error_from_def)

lemma error_from_insert: "error_from Q (outbox_insert env d inp rendered newId now)"
  by (simp add: error_from_def outbox_insert_def Let_def)

lemmas row_update_defs = dropped_def attempted_def inline_update_def Let_def

lemma attempts_bounds: "INLINE_MAX_ATTEMPTS < OUTBOX_MAX_ATTEMPTS"
  by (simp add: INLINE_MAX_ATTEMPTS_def OUTBOX_MAX_ATTEMPTS_def)

lemma row_ok_dropped: "row_ok r \<Longrightarrow> ob_status r = ''pending'' \<Longrightarrow> row_ok (dropped now reason r)"
  by (auto simp: row_ok_def dropped_def)

lemma row_ok_attempted: "row_ok r \<Longrightarrow> ob_status r = ''pending'' \<Longrightarrow> row_ok (fst (attempted e now a r))"
  by (cases a) (auto simp: row_ok_def attempted_def Let_def)

lemma row_ok_process:
  "row_ok r \<Longrightarrow> ob_status r = ''pending'' \<Longrightarrow> row_ok (fst (process_row e deliver now r))"
  by (auto simp: process_row_def Let_def row_ok_dropped row_ok_attempted split: link_state.splits if_splits)

lemma shown_unchanged:
  "shown_columns (dropped now reason r) = shown_columns r"
  "shown_columns (fst (attempted e now a r)) = shown_columns r"
  "shown_columns (inline_update env outcome now r) = shown_columns r"
  "shown_columns (fst (process_row e deliver now r)) = shown_columns r"
proof -
  show d: "shown_columns (dropped now reason r) = shown_columns r" for now reason
    by (simp add: shown_columns_def dropped_def)
  show a: "shown_columns (fst (attempted e now a r)) = shown_columns r" for a
    by (cases a) (auto simp: shown_columns_def attempted_def Let_def)
  show "shown_columns (inline_update env outcome now r) = shown_columns r"
    by (cases "il_answer outcome") (auto simp: shown_columns_def inline_update_def Let_def)
  show "shown_columns (fst (process_row e deliver now r)) = shown_columns r"
    by (auto simp: process_row_def Let_def d a split: link_state.splits)
qed

lemma id_unchanged [simp]:
  "ob_id (dropped now reason r) = ob_id r"
  "ob_id (fst (attempted e now a r)) = ob_id r"
  "ob_id (inline_update env outcome now r) = ob_id r"
  "ob_id (fst (process_row e deliver now r)) = ob_id r"
proof -
  show d: "ob_id (dropped now reason r) = ob_id r" for now reason by (simp add: dropped_def)
  show a: "ob_id (fst (attempted e now a r)) = ob_id r" for a
    by (cases a) (auto simp: attempted_def Let_def)
  show "ob_id (inline_update env outcome now r) = ob_id r"
    by (cases "il_answer outcome") (auto simp: inline_update_def Let_def)
  show "ob_id (fst (process_row e deliver now r)) = ob_id r"
    by (auto simp: process_row_def Let_def d a split: link_state.splits)
qed

subsection \<open>The inline attempts\<close>

lemma deliver_from_attempts:
  "1 \<le> k \<Longrightarrow> k \<le> INLINE_MAX_ATTEMPTS \<Longrightarrow>
   k \<le> il_attempts (deliver_from answers random t0 k now) \<and>
   il_attempts (deliver_from answers random t0 k now) \<le> INLINE_MAX_ATTEMPTS"
proof (induction answers random t0 k now rule: deliver_from.induct)
  case (1 answers random startedAt attempt now)
  show ?case
  proof (cases "fst (answers attempt)")
    case (DeliveredWith m)
    with 1(3) show ?thesis by (simp add: deliver_from.simps [of _ _ _ attempt] Let_def)
  next
    case (DeliveryThrew err)
    show ?thesis
    proof (cases "attempt \<ge> INLINE_MAX_ATTEMPTS \<or> \<not> isRetryableDeliveryError err \<or>
        now + snd (answers attempt) - startedAt + inlineRetryDelayMs attempt err (random attempt) +
          PROVIDER_TIMEOUT_MS > INLINE_DELIVERY_BUDGET_MS")
      case True
      with DeliveryThrew 1(3) show ?thesis by (auto simp: deliver_from.simps [of _ _ _ attempt] Let_def)
    next
      case False
      with DeliveryThrew 1(1) [OF refl refl refl DeliveryThrew _ refl] 1(2,3) show ?thesis
        by (simp add: deliver_from.simps [of _ _ _ attempt] Let_def)
    qed
  qed
qed

lemma deliver_from_budget:
  assumes "\<And>i. snd (answers i) \<le> PROVIDER_TIMEOUT_MS"
  shows "now - t0 + PROVIDER_TIMEOUT_MS \<le> INLINE_DELIVERY_BUDGET_MS \<Longrightarrow>
    il_finishedAt (deliver_from answers random t0 k now) - t0 \<le> INLINE_DELIVERY_BUDGET_MS"
  using assms
proof (induction answers random t0 k now rule: deliver_from.induct)
  case (1 answers random startedAt attempt now)
  have a: "now + snd (answers attempt) - startedAt \<le> INLINE_DELIVERY_BUDGET_MS"
    using 1(2) 1(3) [of attempt] by simp
  show ?case
  proof (cases "fst (answers attempt)")
    case (DeliveredWith m)
    with a show ?thesis by (simp add: deliver_from.simps [of _ _ _ attempt] Let_def)
  next
    case (DeliveryThrew err)
    show ?thesis
    proof (cases "attempt \<ge> INLINE_MAX_ATTEMPTS \<or> \<not> isRetryableDeliveryError err \<or>
        now + snd (answers attempt) - startedAt + inlineRetryDelayMs attempt err (random attempt) +
          PROVIDER_TIMEOUT_MS > INLINE_DELIVERY_BUDGET_MS")
      case True
      with DeliveryThrew a show ?thesis by (auto simp: deliver_from.simps [of _ _ _ attempt] Let_def)
    next
      case False
      with DeliveryThrew 1(1) [OF refl refl refl DeliveryThrew _ refl] 1(3) show ?thesis
        by (simp add: deliver_from.simps [of _ _ _ attempt] Let_def algebra_simps)
    qed
  qed
qed

lemma deliverInline_bounds:
  "1 \<le> il_attempts (deliverInline answers random t0)"
  "il_attempts (deliverInline answers random t0) \<le> INLINE_MAX_ATTEMPTS"
  "(\<And>i. snd (answers i) \<le> PROVIDER_TIMEOUT_MS) \<Longrightarrow>
     il_finishedAt (deliverInline answers random t0) \<le> t0 + INLINE_DELIVERY_BUDGET_MS"
  using deliver_from_attempts [of 1 answers random t0 t0]
    deliver_from_budget [of answers t0 t0 random 1]
  by (auto simp: deliverInline_def INLINE_MAX_ATTEMPTS_def INLINE_DELIVERY_BUDGET_MS_def PROVIDER_TIMEOUT_MS_def)

lemma row_ok_inline:
  assumes "row_ok r" "ob_status r = ''pending''" "il_attempts outcome \<le> INLINE_MAX_ATTEMPTS"
  shows "row_ok (inline_update env outcome now r)"
  using assms attempts_bounds by (cases "il_answer outcome") (auto simp: row_ok_def inline_update_def Let_def)

lemma row_ok_insert: "row_ok (outbox_insert env d inp rendered newId now)"
  by (cases "me_provider env") (auto simp: row_ok_def outbox_insert_def Let_def OUTBOX_MAX_ATTEMPTS_def)

lemma redacted_insert: "row_redacted (outbox_insert env d inp rendered newId now)"
  by (cases "re_text rendered")
    (auto simp: row_redacted_def shown_columns_def outbox_insert_def redactRenderedEmail_def Let_def)

subsection \<open>The writers together\<close>

text \<open>
  The deployment as a step relation. A send in flight is its row, the time of the insert and the
  time by which its process has recorded an outcome or died; time does not pass that point
  without one of the two. The bound is the inline budget plus the time the row's own queries may
  take, for which the lease leaves room. \<open>Q\<close> is what is known of the texts failed deliveries are
  summarized as.
\<close>

record outbox_sys =
  sys_now :: millis
  sys_rows :: "outbox_row table"
  sys_inflight :: "(uuid \<times> millis \<times> millis) list"

inductive outbox_step :: "(string \<Rightarrow> bool) \<Rightarrow> outbox_sys \<Rightarrow> outbox_sys \<Rightarrow> bool" for Q where
  Tick: "sys_now s \<le> t \<Longrightarrow> \<forall>(i, t0, dl) \<in> set (sys_inflight s). t \<le> dl \<Longrightarrow>
     outbox_step Q s (s\<lparr>sys_now := t\<rparr>)"
| Begin: "newId \<notin> ob_id ` set (sys_rows s) \<Longrightarrow> me_provider env \<noteq> None \<Longrightarrow>
     0 \<le> room \<Longrightarrow> room < INLINE_DELIVERY_LEASE_MS - INLINE_DELIVERY_BUDGET_MS \<Longrightarrow>
     outbox_step Q s
       (s\<lparr>sys_rows := sys_rows s @ [outbox_insert env d inp rendered newId (sys_now s)],
          sys_inflight := (newId, sys_now s, sys_now s + room + INLINE_DELIVERY_BUDGET_MS) # sys_inflight s\<rparr>)"
| Record_Only: "newId \<notin> ob_id ` set (sys_rows s) \<Longrightarrow> me_provider env = None \<Longrightarrow>
     outbox_step Q s (s\<lparr>sys_rows := sys_rows s @ [outbox_insert env d inp rendered newId (sys_now s)]\<rparr>)"
| Finish: "(i, t0, dl) \<in> set (sys_inflight s) \<Longrightarrow> outcome = deliverInline answers random t1 \<Longrightarrow>
     il_finishedAt outcome \<le> sys_now s \<Longrightarrow> \<forall>err. Q (me_reason env err) \<Longrightarrow>
     outbox_step Q s
       (s\<lparr>sys_rows := update_where (\<lambda>r. ob_id r = i) (inline_update env outcome (sys_now s)) (sys_rows s),
          sys_inflight := filter (\<lambda>f. fst f \<noteq> i) (sys_inflight s)\<rparr>)"
| Lost: "(i, t0, dl) \<in> set (sys_inflight s) \<Longrightarrow>
     outbox_step Q s (s\<lparr>sys_inflight := filter (\<lambda>f. fst f \<noteq> i) (sys_inflight s)\<rparr>)"
| Drain: "drain_step e locked deliver (sys_now s) (sys_rows s) = Some (rows', out, email) \<Longrightarrow>
     \<forall>err. Q (de_reason e err) \<Longrightarrow>
     outbox_step Q s (s\<lparr>sys_rows := rows'\<rparr>)"
| Sweep: "days > 0 \<Longrightarrow> outbox_step Q s (s\<lparr>sys_rows := fst (stale_batch days n (sys_now s) (sys_rows s))\<rparr>)"
| Prune: "days > 0 \<Longrightarrow> outbox_step Q s (s\<lparr>sys_rows := fst (prune_batch days n (sys_now s) (sys_rows s))\<rparr>)"

definition outbox_init :: "millis \<Rightarrow> outbox_sys" where
  "outbox_init t = \<lparr>sys_now = t, sys_rows = [], sys_inflight = []\<rparr>"

definition outbox_reachable :: "(string \<Rightarrow> bool) \<Rightarrow> outbox_sys \<Rightarrow> bool" where
  "outbox_reachable Q s \<longleftrightarrow> (\<exists>t. (outbox_step Q)\<^sup>*\<^sup>* (outbox_init t) s)"

definition leased :: "millis \<Rightarrow> outbox_row \<Rightarrow> bool" where
  "leased t0 r \<longleftrightarrow> ob_status r = ''pending'' \<and> ob_next_attempt_at r = Some (t0 + INLINE_DELIVERY_LEASE_MS) \<and>
     ob_created_at r = t0"

definition rows_inv :: "outbox_row table \<Rightarrow> bool" where
  "rows_inv rows \<longleftrightarrow> distinct (map ob_id rows) \<and> (\<forall>r \<in> set rows. row_ok r \<and> row_redacted r)"

definition inflight_inv :: "outbox_sys \<Rightarrow> bool" where
  "inflight_inv s \<longleftrightarrow>
     (\<forall>(i, t0, dl) \<in> set (sys_inflight s).
        sys_now s \<le> dl \<and> dl < t0 + INLINE_DELIVERY_LEASE_MS \<and> i \<in> ob_id ` set (sys_rows s) \<and>
        (\<forall>r \<in> set (sys_rows s). ob_id r = i \<longrightarrow> leased t0 r))"

definition outbox_inv :: "outbox_sys \<Rightarrow> bool" where
  "outbox_inv s \<longleftrightarrow> rows_inv (sys_rows s) \<and> inflight_inv s"

lemma rows_inv_append:
  assumes "rows_inv rows" "ob_id r \<notin> ob_id ` set rows" "row_ok r" "row_redacted r"
  shows "rows_inv (rows @ [r])"
  using assms by (auto simp: rows_inv_def)

lemma rows_inv_update:
  assumes "rows_inv rows"
    and "\<And>r. r \<in> set rows \<Longrightarrow> P r \<Longrightarrow> ob_id (f r) = ob_id r \<and> row_ok (f r) \<and> shown_columns (f r) = shown_columns r"
  shows "rows_inv (update_where P f rows)"
proof -
  have "map ob_id (update_where P f rows) = map ob_id rows"
    using assms(2) by (auto simp: update_where_def)
  moreover have "row_ok r \<and> row_redacted r" if r: "r \<in> set (update_where P f rows)" for r
  proof -
    obtain q where q: "q \<in> set rows" "r = (if P q then f q else q)" using r by (auto simp: table_simps)
    with assms have "row_ok r" "shown_columns r = shown_columns q" by (auto simp: rows_inv_def)
    with assms(1) q(1) show ?thesis by (auto simp: rows_inv_def row_redacted_def)
  qed
  ultimately show ?thesis using assms(1) by (auto simp: rows_inv_def)
qed

lemma rows_inv_delete: "rows_inv rows \<Longrightarrow> rows_inv (delete_where P rows)"
  by (auto simp: rows_inv_def delete_where_def distinct_map intro: inj_on_subset)

lemma claim_due: "claim e locked now rows = Some r \<Longrightarrow> r \<in> set rows \<and> due e now r \<and> ob_id r \<notin> set locked"
  using first_by_Some_in [of next_attempt_rank] by (fastforce simp: claim_def)

lemma due_pending: "due e now r \<Longrightarrow> ob_status r = ''pending''"
  by (simp add: due_def)

lemma leased_not_due: "leased t0 r \<Longrightarrow> now < t0 + INLINE_DELIVERY_LEASE_MS \<Longrightarrow> \<not> due e now r"
  by (auto simp: leased_def due_def)

lemma distinct_id_unique: "rows_inv rows \<Longrightarrow> r \<in> set rows \<Longrightarrow> q \<in> set rows \<Longrightarrow> ob_id r = ob_id q \<Longrightarrow> r = q"
  by (auto simp: rows_inv_def dest: eq_key_imp_eq_value [of "map (\<lambda>r. (ob_id r, r)) rows"] intro: inj_onD simp: distinct_map)

lemma drain_step_Some:
  assumes "drain_step e locked deliver now rows = Some (rows', out, email)"
  obtains r where "claim e locked now rows = Some r" "r \<in> set rows" "due e now r"
    "rows' = update_where (\<lambda>x. ob_id x = ob_id r) (\<lambda>_. fst (process_row e deliver now r)) rows"
    "out = fst (snd (process_row e deliver now r))" "email = snd (snd (process_row e deliver now r))"
  using assms claim_due by (fastforce simp: drain_step_def Let_def split: option.splits)

lemma drain_rows_inv:
  assumes "drain_step e locked deliver now rows = Some (rows', out, email)" "rows_inv rows"
  shows "rows_inv rows'"
proof -
  obtain r where r: "r \<in> set rows" "due e now r"
    "rows' = update_where (\<lambda>x. ob_id x = ob_id r) (\<lambda>_. fst (process_row e deliver now r)) rows"
    using assms(1) by (rule drain_step_Some)
  have "x = r" if "x \<in> set rows" "ob_id x = ob_id r" for x
    using distinct_id_unique [OF assms(2) that(1) r(1) that(2)] .
  moreover have "row_ok r" using assms(2) r(1) by (auto simp: rows_inv_def)
  ultimately show ?thesis
    unfolding r(3) using assms(2) r(2)
    by (intro rows_inv_update) (auto simp: shown_unchanged row_ok_process due_pending)
qed

text \<open>A row whose send is in flight is left alone by every other writer.\<close>

lemma inflight_frame:
  assumes inv: "inflight_inv s" and rows: "rows_inv rows'"
    and keep: "\<And>r t0 dl. (ob_id r, t0, dl) \<in> set (sys_inflight s) \<Longrightarrow> r \<in> set (sys_rows s) \<Longrightarrow> leased t0 r \<Longrightarrow> sys_now s < t0 + INLINE_DELIVERY_LEASE_MS \<Longrightarrow>
      r \<in> set rows'"
  shows "inflight_inv (s\<lparr>sys_rows := rows'\<rparr>)"
proof -
  have "i \<in> ob_id ` set rows' \<and> (\<forall>r \<in> set rows'. ob_id r = i \<longrightarrow> leased t0 r)"
    if f: "(i, t0, dl) \<in> set (sys_inflight s)" for i t0 dl
  proof -
    from inv f obtain q where q: "q \<in> set (sys_rows s)" "ob_id q = i" "leased t0 q"
        "sys_now s < t0 + INLINE_DELIVERY_LEASE_MS"
      by (force simp: inflight_inv_def)
    with keep f have "q \<in> set rows'" by blast
    with q distinct_id_unique [OF rows] show ?thesis by blast
  qed
  with inv show ?thesis by (fastforce simp: inflight_inv_def)
qed

lemma inflight_drop:
  "inflight_inv s \<Longrightarrow> inflight_inv (s\<lparr>sys_inflight := filter P (sys_inflight s)\<rparr>)"
  by (auto simp: inflight_inv_def)

lemma update_where_keeps: "r \<in> set rows \<Longrightarrow> \<not> P r \<Longrightarrow> r \<in> set (update_where P f rows)"
  by (force simp: table_simps)

lemma lease_young: "days > 0 \<Longrightarrow> leased t0 r \<Longrightarrow> now < t0 + INLINE_DELIVERY_LEASE_MS \<Longrightarrow>
    \<not> olderThanDays days now (ob_created_at r)"
proof -
  assume "days > 0" "leased t0 r" "now < t0 + INLINE_DELIVERY_LEASE_MS"
  moreover from this have "days * DAY_MS \<ge> DAY_MS" by (simp add: DAY_MS_def)
  ultimately show ?thesis
    by (auto simp: leased_def olderThanDays_def DAY_MS_def INLINE_DELIVERY_LEASE_MS_def)
qed

lemma batch_ids_hit:
  assumes "rows_inv rows" "r \<in> set rows" "ob_id r \<in> set (batch_ids P n rows)"
  shows "P r"
proof -
  obtain q where "q \<in> set rows" "P q" "ob_id q = ob_id r"
    using assms(3) in_set_takeD [of "ob_id r" n] by (fastforce simp: batch_ids_def)
  with assms distinct_id_unique show ?thesis by blast
qed

lemma outbox_inv_step: "outbox_step Q s s' \<Longrightarrow> outbox_inv s \<Longrightarrow> outbox_inv s'"
proof (induction rule: outbox_step.induct)
  case (Tick s t)
  then show ?case by (auto simp: outbox_inv_def inflight_inv_def)
next
  case (Begin newId s env room d inp rendered)
  let ?r = "outbox_insert env d inp rendered newId (sys_now s)"
  have id: "ob_id ?r = newId" by (simp add: outbox_insert_def Let_def)
  have rows: "rows_inv (sys_rows s @ [?r])"
    using Begin id by (intro rows_inv_append) (auto simp: outbox_inv_def row_ok_insert redacted_insert)
  have l: "leased (sys_now s) ?r"
    using Begin(2) by (auto simp: leased_def outbox_insert_def Let_def)
  have "inflight_inv (s\<lparr>sys_rows := sys_rows s @ [?r]\<rparr>)"
    using Begin(5) by (intro inflight_frame rows) (auto simp: outbox_inv_def)
  then have "inflight_inv (s\<lparr>sys_rows := sys_rows s @ [?r],
      sys_inflight := (newId, sys_now s, sys_now s + room + INLINE_DELIVERY_BUDGET_MS) # sys_inflight s\<rparr>)"
    using Begin(1,3,4) l id
    by (auto simp: inflight_inv_def INLINE_DELIVERY_BUDGET_MS_def INLINE_DELIVERY_LEASE_MS_def)
  with rows show ?case by (simp add: outbox_inv_def)
next
  case (Record_Only newId s env d inp rendered)
  have id: "ob_id (outbox_insert env d inp rendered newId (sys_now s)) = newId"
    by (simp add: outbox_insert_def Let_def)
  have rows: "rows_inv (sys_rows s @ [outbox_insert env d inp rendered newId (sys_now s)])"
    using Record_Only id by (intro rows_inv_append) (auto simp: outbox_inv_def row_ok_insert redacted_insert)
  then show ?case
    using Record_Only(3) by (auto simp: outbox_inv_def intro!: inflight_frame)
next
  case (Finish i t0 dl s outcome answers random t1 env)
  let ?rows = "update_where (\<lambda>r. ob_id r = i) (inline_update env outcome (sys_now s)) (sys_rows s)"
  let ?s = "s\<lparr>sys_inflight := filter (\<lambda>f. fst f \<noteq> i) (sys_inflight s)\<rparr>"
  have p: "ob_status r = ''pending''" if "r \<in> set (sys_rows s)" "ob_id r = i" for r
    using that Finish(1,5) by (fastforce simp: outbox_inv_def inflight_inv_def leased_def)
  have rows: "rows_inv ?rows"
    using Finish(2,5) p deliverInline_bounds(2)
    by (intro rows_inv_update) (auto simp: outbox_inv_def rows_inv_def shown_unchanged intro!: row_ok_inline)
  have "inflight_inv (?s\<lparr>sys_rows := ?rows\<rparr>)"
    using rows Finish(5) by (intro inflight_frame) (auto simp: outbox_inv_def inflight_drop intro!: update_where_keeps)
  moreover have "?s\<lparr>sys_rows := ?rows\<rparr> =
      s\<lparr>sys_rows := ?rows, sys_inflight := filter (\<lambda>f. fst f \<noteq> i) (sys_inflight s)\<rparr>" by (cases s) simp
  ultimately show ?case using rows by (simp add: outbox_inv_def)
next
  case (Lost i t0 dl s)
  then show ?case by (simp add: outbox_inv_def inflight_drop)
next
  case (Drain e locked deliver s rows' out email)
  obtain r where r: "r \<in> set (sys_rows s)" "due e (sys_now s) r"
    "rows' = update_where (\<lambda>x. ob_id x = ob_id r) (\<lambda>_. fst (process_row e deliver (sys_now s) r)) (sys_rows s)"
    using Drain(1) by (rule drain_step_Some)
  have rows: "rows_inv rows'" using Drain drain_rows_inv by (auto simp: outbox_inv_def)
  have "q \<in> set rows'" if q: "q \<in> set (sys_rows s)" "leased t0 q" "sys_now s < t0 + INLINE_DELIVERY_LEASE_MS" for q t0
  proof -
    have "ob_id q \<noteq> ob_id r"
      using q r(1,2) leased_not_due distinct_id_unique Drain(3) unfolding outbox_inv_def by blast
    with q(1) show ?thesis unfolding r(3) by (intro update_where_keeps) auto
  qed
  with rows Drain(3) show ?case by (auto simp: outbox_inv_def intro!: inflight_frame)
next
  case (Sweep days s n)
  let ?P = "\<lambda>r. ob_status r = ''pending'' \<and> olderThanDays days (sys_now s) (ob_created_at r)"
  have rows: "rows_inv (fst (stale_batch days n (sys_now s) (sys_rows s)))"
    unfolding stale_batch_def Let_def fst_conv using Sweep(2)
    by (intro rows_inv_update) (auto simp: outbox_inv_def rows_inv_def row_ok_def shown_columns_def)
  have "r \<in> set (fst (stale_batch days n (sys_now s) (sys_rows s)))"
    if "r \<in> set (sys_rows s)" "leased t0 r" "sys_now s < t0 + INLINE_DELIVERY_LEASE_MS" for r t0
    using that lease_young [OF Sweep(1)] batch_ids_hit [of "sys_rows s" r ?P n] Sweep(2)
    unfolding stale_batch_def Let_def fst_conv
    by (intro update_where_keeps) (auto simp: outbox_inv_def)
  with rows Sweep(2) show ?case by (auto simp: outbox_inv_def intro!: inflight_frame)
next
  case (Prune days s n)
  have rows: "rows_inv (fst (prune_batch days n (sys_now s) (sys_rows s)))"
    using Prune(2) rows_inv_delete by (auto simp: outbox_inv_def prune_batch_def Let_def)
  have "r \<in> set (fst (prune_batch days n (sys_now s) (sys_rows s)))"
    if "r \<in> set (sys_rows s)" "leased t0 r" for r t0
    using that by (auto simp: prune_batch_def Let_def table_simps leased_def)
  with rows Prune(2) show ?case by (auto simp: outbox_inv_def intro!: inflight_frame)
qed

lemma errors_step:
  assumes "outbox_step Q s s'" "\<forall>r \<in> set (sys_rows s). error_from Q r"
  shows "\<forall>r \<in> set (sys_rows s'). error_from Q r"
  using assms
proof (induction rule: outbox_step.induct)
  case (Drain e locked deliver s rows' out email)
  obtain r where r: "r \<in> set (sys_rows s)"
    "rows' = update_where (\<lambda>x. ob_id x = ob_id r) (\<lambda>_. fst (process_row e deliver (sys_now s) r)) (sys_rows s)"
    using Drain(1) by (rule drain_step_Some)
  with Drain(2,3) show ?case by (auto simp: table_simps error_from_process)
next
  case (Sweep days s n)
  then show ?case by (auto simp: stale_batch_def Let_def table_simps orphaned_reason)
qed (auto simp: error_from_insert error_from_inline prune_batch_def Let_def table_simps)

lemma outbox_reachable_errors: "outbox_reachable Q s \<Longrightarrow> r \<in> set (sys_rows s) \<Longrightarrow> error_from Q r"
proof -
  assume "outbox_reachable Q s" and r: "r \<in> set (sys_rows s)"
  then obtain t where "(outbox_step Q)\<^sup>*\<^sup>* (outbox_init t) s" by (auto simp: outbox_reachable_def)
  then have "\<forall>r \<in> set (sys_rows s). error_from Q r"
  proof (induction rule: rtranclp_induct)
    case base
    show ?case by (simp add: outbox_init_def)
  qed (use errors_step in blast)
  with r show ?thesis by blast
qed

lemma outbox_reachable_inv: "outbox_reachable Q s \<Longrightarrow> outbox_inv s"
proof -
  assume "outbox_reachable Q s"
  then obtain t where "(outbox_step Q)\<^sup>*\<^sup>* (outbox_init t) s" by (auto simp: outbox_reachable_def)
  then show ?thesis
  proof (induction rule: rtranclp_induct)
    case base
    show ?case by (simp add: outbox_init_def outbox_inv_def rows_inv_def inflight_inv_def)
  next
    case (step y z)
    then show ?case using outbox_inv_step by blast
  qed
qed

subsection \<open>A drain attends to every due row\<close>

text \<open>What a drain whose clock stays below \<open>u\<close> may still claim.\<close>

definition claimable :: "drain_env \<Rightarrow> millis \<Rightarrow> outbox_row \<Rightarrow> bool" where
  "claimable e u r \<longleftrightarrow>
     ob_status r = ''pending'' \<and> ob_provider r = Some (de_provider e) \<and>
     (case ob_next_attempt_at r of None \<Rightarrow> True | Some t \<Rightarrow> t < u)"

lemma due_claimable: "due e now r \<Longrightarrow> now < u \<Longrightarrow> claimable e u r"
  by (auto simp: due_def claimable_def split: option.splits)

lemma due_mono: "due e t r \<Longrightarrow> t \<le> now \<Longrightarrow> due e now r"
  by (auto simp: due_def split: option.splits)

lemma backoff_bounds: "BACKOFF_BASE_MS \<le> backoffDelayMs n" "backoffDelayMs n \<le> BACKOFF_CAP_MS"
proof -
  have "(1 :: int) \<le> 2 ^ (n - 1)" by simp
  then have "BACKOFF_BASE_MS * 1 \<le> BACKOFF_BASE_MS * 2 ^ (n - 1)" by (simp add: BACKOFF_BASE_MS_def)
  then show "BACKOFF_BASE_MS \<le> backoffDelayMs n"
    by (simp add: backoffDelayMs_def BACKOFF_BASE_MS_def BACKOFF_CAP_MS_def)
  show "backoffDelayMs n \<le> BACKOFF_CAP_MS" by (simp add: backoffDelayMs_def)
qed

text \<open>A processed row is terminal, or has one attempt more and waits for its backoff.\<close>

lemma process_row_progress:
  obtains "ob_status (fst (process_row e deliver now r)) \<in> {''sent'', ''failed''}"
  | "ob_status (fst (process_row e deliver now r)) = ''pending''"
    "ob_attempts (fst (process_row e deliver now r)) = Suc (ob_attempts r)"
    "ob_provider (fst (process_row e deliver now r)) = ob_provider r"
    "ob_next_attempt_at (fst (process_row e deliver now r)) = Some (now + backoffDelayMs (Suc (ob_attempts r)))"
proof -
  have a: "ob_status (fst (attempted e now x r)) \<in> {''sent'', ''failed''} \<or>
      ob_status (fst (attempted e now x r)) = ''pending'' \<and>
      ob_attempts (fst (attempted e now x r)) = Suc (ob_attempts r) \<and>
      ob_provider (fst (attempted e now x r)) = ob_provider r \<and>
      ob_next_attempt_at (fst (attempted e now x r)) = Some (now + backoffDelayMs (Suc (ob_attempts r)))" for x
    by (cases x) (auto simp: attempted_def Let_def)
  have "ob_status (fst (process_row e deliver now r)) \<in> {''sent'', ''failed''} \<or>
      (\<exists>x. fst (process_row e deliver now r) = fst (attempted e now x r))"
    by (auto simp: process_row_def Let_def dropped_def split: link_state.splits)
  with a show thesis using that by metis
qed

lemma processed_not_claimable:
  assumes "u \<le> now + BACKOFF_BASE_MS"
  shows "\<not> claimable e u (fst (process_row e' deliver now r))"
proof (rule process_row_progress [of e' deliver now r])
  assume "ob_status (fst (process_row e' deliver now r)) \<in> {''sent'', ''failed''}"
  then show ?thesis by (auto simp: claimable_def)
next
  assume "ob_next_attempt_at (fst (process_row e' deliver now r)) =
      Some (now + backoffDelayMs (Suc (ob_attempts r)))"
  with assms backoff_bounds(1) [of "Suc (ob_attempts r)"] show ?thesis by (auto simp: claimable_def)
qed

lemma filter_update_where_out:
  "\<not> P q \<Longrightarrow> filter P (update_where Q (\<lambda>_. q) t) = filter (\<lambda>x. \<not> Q x) (filter P t)"
  by (induction t) (auto simp: update_where_def)

lemma drain_step_count:
  assumes "drain_step e [] deliver now rows = Some (rows', out, email)" "now < u" "u \<le> now + BACKOFF_BASE_MS"
  shows "count_where (claimable e u) rows' < count_where (claimable e u) rows"
proof -
  obtain r where r: "r \<in> set rows" "due e now r"
    "rows' = update_where (\<lambda>x. ob_id x = ob_id r) (\<lambda>_. fst (process_row e deliver now r)) rows"
    using assms(1) by (rule drain_step_Some)
  have "r \<in> set (filter (claimable e u) rows)" using r due_claimable assms(2) by auto
  then show ?thesis
    unfolding count_where_def r(3) filter_update_where_out [of "claimable e u", OF processed_not_claimable [OF assms(3)]]
    by (intro length_filter_less [of r]) auto
qed

lemma drain_step_others:
  assumes "drain_step e locked deliver now rows = Some (rows', out, email)" "rows_inv rows"
    "r \<in> set rows" "\<not> due e now r"
  shows "r \<in> set rows'"
proof -
  obtain q where q: "q \<in> set rows" "due e now q"
    "rows' = update_where (\<lambda>x. ob_id x = ob_id q) (\<lambda>_. fst (process_row e deliver now q)) rows"
    using assms(1) by (rule drain_step_Some)
  with assms distinct_id_unique have "ob_id r \<noteq> ob_id q" by blast
  with assms(3) show ?thesis unfolding q(3) by (intro update_where_keeps) auto
qed

lemma drain_step_processes:
  assumes "drain_step e locked deliver now rows = Some (rows', out, email)" "rows_inv rows" "r \<in> set rows"
  shows "r \<in> set rows' \<or> fst (process_row e deliver now r) \<in> set rows'"
proof -
  obtain q where q: "q \<in> set rows"
    "rows' = update_where (\<lambda>x. ob_id x = ob_id q) (\<lambda>_. fst (process_row e deliver now q)) rows"
    using assms(1) by (rule drain_step_Some)
  show ?thesis
  proof (cases "ob_id r = ob_id q")
    case True
    with q assms distinct_id_unique have "r = q" by blast
    with assms(3) show ?thesis unfolding q(2) by (auto simp: table_simps)
  next
    case False
    with assms(3) show ?thesis unfolding q(2) by (auto intro: update_where_keeps)
  qed
qed

lemma drain_step_length:
  "drain_step e locked deliver now rows = Some (rows', out, email) \<Longrightarrow> length rows' = length rows"
  by (erule drain_step_Some) simp

lemma drain_loop_inv: "rows_inv rows \<Longrightarrow> rows_inv (fst (drain_loop e locks deliver clock i k rows acc))"
proof (induction k arbitrary: i rows acc)
  case (Suc k)
  then show ?case
    using drain_rows_inv [of e "locks i" "deliver i" "clock i" rows] by (auto split: option.split)
qed simp

lemma drain_loop_length: "length (fst (drain_loop e locks deliver clock i k rows acc)) = length rows"
proof (induction k arbitrary: i rows acc)
  case (Suc k)
  then show ?case
    using drain_step_length [of e "locks i" "deliver i" "clock i" rows] by (auto split: option.split)
qed simp

lemma drain_loop_others:
  assumes "\<And>i. clock i < u" "rows_inv rows" "r \<in> set rows" "\<not> claimable e u r"
  shows "r \<in> set (fst (drain_loop e locks deliver clock i k rows acc))"
  using assms(2,3)
proof (induction k arbitrary: i rows acc)
  case (Suc k)
  show ?case
  proof (cases "drain_step e (locks i) (deliver i) (clock i) rows")
    case None
    with Suc.prems show ?thesis by simp
  next
    case (Some v)
    obtain rows' out email where v: "v = (rows', out, email)" by (cases v)
    have "\<not> due e (clock i) r" using assms(4) due_claimable [OF _ assms(1)] by blast
    then have "r \<in> set rows'" "rows_inv rows'"
      using drain_step_others [OF _ Suc.prems] drain_rows_inv [OF _ Suc.prems(1)] Some v by blast+
    with Suc.IH Some v show ?thesis by simp
  qed
qed simp

lemma drain_loop_processes:
  assumes "\<And>i. t \<le> clock i \<and> clock i < t + BACKOFF_BASE_MS" "rows_inv rows" "r \<in> set rows" "due e t r"
    "count_where (claimable e (t + BACKOFF_BASE_MS)) rows \<le> k"
  shows "\<exists>d now. t \<le> now \<and> now < t + BACKOFF_BASE_MS \<and>
    fst (process_row e d now r) \<in> set (fst (drain_loop e (\<lambda>_. []) deliver clock i k rows acc))"
  using assms
proof (induction k arbitrary: i rows acc)
  case 0
  then have "r \<in> set (filter (claimable e (t + BACKOFF_BASE_MS)) rows)"
    using due_claimable [of e t r "t + BACKOFF_BASE_MS"] by (auto simp: BACKOFF_BASE_MS_def)
  with 0 show ?case by (auto simp: count_where_def filter_empty_conv)
next
  case (Suc k)
  have dd: "due e (clock i) r" using Suc.prems(1,4) due_mono by blast
  show ?case
  proof (cases "drain_step e [] (deliver i) (clock i) rows")
    case None
    with dd Suc.prems(3) have False by (auto simp: drain_step_def claim_def Let_def filter_empty_conv split: option.splits)
    then show ?thesis ..
  next
    case (Some v)
    obtain rows' out email where v: "v = (rows', out, email)" by (cases v)
    have inv: "rows_inv rows'" using Some v Suc.prems(2) drain_rows_inv by blast
    have c: "count_where (claimable e (t + BACKOFF_BASE_MS)) rows' \<le> k"
      using drain_step_count [of e "deliver i" "clock i" rows rows' out email "t + BACKOFF_BASE_MS"] Some v
        Suc.prems(1) [of i] Suc.prems(5) by simp
    consider "r \<in> set rows'" | "fst (process_row e (deliver i) (clock i) r) \<in> set rows'"
      using drain_step_processes [of e "[]"] Some v Suc.prems(2,3) by blast
    then show ?thesis
    proof cases
      case 1
      with Suc.IH [OF Suc.prems(1) inv 1 Suc.prems(4) c] Some v show ?thesis by simp
    next
      case 2
      have "\<not> claimable e (t + BACKOFF_BASE_MS) (fst (process_row e (deliver i) (clock i) r))"
        using Suc.prems(1) [of i] by (intro processed_not_claimable) simp
      with 2 inv Suc.prems(1) have "fst (process_row e (deliver i) (clock i) r) \<in>
          set (fst (drain_loop e (\<lambda>_. []) deliver clock (i + 1) k rows' (count_step out acc)))"
        by (intro drain_loop_others [of clock "t + BACKOFF_BASE_MS"]) auto
      with Some v Suc.prems(1) [of i] show ?thesis by auto
    qed
  qed
qed

text \<open>A schedule of drains: the start of each, its environment, the provider's answers, its clock.\<close>

type_synonym drain_run = "millis \<times> drain_env \<times> (nat \<Rightarrow> outbound_email \<Rightarrow> delivery_answer) \<times> (nat \<Rightarrow> millis)"

fun run_drains :: "nat \<Rightarrow> drain_run list \<Rightarrow> outbox_row table \<Rightarrow> outbox_row table" where
  "run_drains limit [] rows = rows"
| "run_drains limit ((t, e, deliver, clock) # ds) rows =
     run_drains limit ds (fst (drainOutbox (Some e) (\<lambda>_. []) deliver clock limit rows))"

text \<open>
  Drains for the provider \<open>p\<close>, the first no earlier than \<open>t\<close>, each done within the shortest backoff
  and followed by the next once the longest has passed. The daily cron is such a schedule.
\<close>

fun fair_schedule :: "string \<Rightarrow> millis \<Rightarrow> drain_run list \<Rightarrow> bool" where
  "fair_schedule p t [] = True"
| "fair_schedule p t ((t', e, deliver, clock) # ds) =
     (t \<le> t' \<and> de_provider e = p \<and> (\<forall>i. t' \<le> clock i \<and> clock i < t' + BACKOFF_BASE_MS) \<and>
      fair_schedule p (t' + BACKOFF_BASE_MS + BACKOFF_CAP_MS) ds)"

text \<open>What is queued for a provider, and when it is due.\<close>

definition queued :: "string \<Rightarrow> outbox_row \<Rightarrow> bool" where
  "queued p r \<longleftrightarrow> ob_status r = ''pending'' \<and> ob_provider r = Some p"

definition due_by :: "millis \<Rightarrow> outbox_row \<Rightarrow> bool" where
  "due_by t r \<longleftrightarrow> (case ob_next_attempt_at r of None \<Rightarrow> True | Some u \<Rightarrow> u \<le> t)"

definition queue_due :: "string \<Rightarrow> millis \<Rightarrow> outbox_row table \<Rightarrow> bool" where
  "queue_due p t rows \<longleftrightarrow> (\<forall>r \<in> set rows. queued p r \<longrightarrow> due_by t r)"

definition attended :: "string \<Rightarrow> millis \<Rightarrow> nat \<Rightarrow> outbox_row \<Rightarrow> bool" where
  "attended p t n r \<longleftrightarrow>
     ob_status r \<in> {''sent'', ''failed''} \<or> queued p r \<and> n \<le> ob_attempts r \<and> due_by t r"

lemma queue_due_later: "queue_due p t rows \<Longrightarrow> t \<le> t' \<Longrightarrow> queue_due p t' rows"
  by (fastforce simp: queue_due_def due_by_def split: option.splits)

text \<open>
  What one row adds to a sum over the table, when another takes its place; and how much a queue
  still has to be attempted.
\<close>

lemma sum_update:
  fixes w :: "outbox_row \<Rightarrow> nat"
  assumes "distinct (map ob_id rows)" "r \<in> set rows"
  shows "sum_list (map w (update_where (\<lambda>x. ob_id x = ob_id r) (\<lambda>_. q) rows)) + w r = sum_list (map w rows) + w q"
  using assms
proof (induction rows)
  case (Cons x rows)
  show ?case
  proof (cases "ob_id x = ob_id r")
    case True
    with Cons.prems have x: "x = r" and "\<forall>y \<in> set rows. ob_id y \<noteq> ob_id r" by (auto simp: image_iff)
    then have "update_where (\<lambda>x. ob_id x = ob_id r) (\<lambda>_. q) rows = rows" by (induction rows) (auto simp: update_where_def)
    with x show ?thesis by (simp add: update_where_def)
  next
    case False
    with Cons show ?thesis by (auto simp: update_where_def)
  qed
qed simp

lemma count_as_sum: "count_where P rows = sum_list (map (\<lambda>r. if P r then 1 else 0) rows)"
  by (induction rows) (simp_all add: count_where_def)

definition attempts_left :: "string \<Rightarrow> outbox_row \<Rightarrow> nat" where
  "attempts_left p r = (if queued p r then OUTBOX_MAX_ATTEMPTS - ob_attempts r else 0)"

definition work :: "string \<Rightarrow> outbox_row table \<Rightarrow> nat" where
  "work p rows = sum_list (map (attempts_left p) rows)"

lemma work_bounds:
  shows "work p rows \<le> OUTBOX_MAX_ATTEMPTS * count_where (queued p) rows"
    and "\<forall>r \<in> set rows. row_ok r \<Longrightarrow> count_where (queued p) rows \<le> work p rows"
proof -
  have "work p rows \<le> sum_list (map (\<lambda>r. OUTBOX_MAX_ATTEMPTS * (if queued p r then 1 else 0)) rows)"
    unfolding work_def by (rule sum_list_mono) (simp add: attempts_left_def)
  then show "work p rows \<le> OUTBOX_MAX_ATTEMPTS * count_where (queued p) rows"
    by (simp only: sum_list_const_mult count_as_sum)
  show "\<forall>r \<in> set rows. row_ok r \<Longrightarrow> count_where (queued p) rows \<le> work p rows"
    unfolding work_def count_as_sum
    by (rule sum_list_mono) (auto simp: attempts_left_def row_ok_def queued_def)
qed

text \<open>One claim of a worker for the provider: its row has an attempt less left, the others are as they were.\<close>

lemma claim_progress:
  assumes "drain_step e locked deliver now rows = Some (rows', out, email)" "rows_inv rows" "de_provider e = p"
    "t \<le> now" "now < t + BACKOFF_BASE_MS" "queue_due p (t + BACKOFF_BASE_MS + BACKOFF_CAP_MS) rows"
  shows "work p rows' + 1 \<le> work p rows"
    and "count_where (queued p) rows' \<le> count_where (queued p) rows"
    and "count_where (\<lambda>r. queued p r \<and> due_by t r) rows \<le> count_where (\<lambda>r. queued p r \<and> due_by t r) rows' + 1"
    and "queue_due p (t + BACKOFF_BASE_MS + BACKOFF_CAP_MS) rows'"
proof -
  obtain r where r: "r \<in> set rows" "due e now r"
    "rows' = update_where (\<lambda>x. ob_id x = ob_id r) (\<lambda>_. fst (process_row e deliver now r)) rows"
    using assms(1) by (rule drain_step_Some)
  let ?q = "fst (process_row e deliver now r)"
  have d: "distinct (map ob_id rows)" "row_ok r" using assms(2) r(1) by (auto simp: rows_inv_def)
  have q: "queued p r" using r(2) assms(3) by (simp add: due_def queued_def)
  have p: "\<not> queued p ?q \<or> queued p ?q \<and> ob_attempts ?q = Suc (ob_attempts r) \<and>
      due_by (t + BACKOFF_BASE_MS + BACKOFF_CAP_MS) ?q"
  proof (rule process_row_progress [of e deliver now r])
    assume "ob_status ?q \<in> {''sent'', ''failed''}"
    then show ?thesis by (auto simp: queued_def)
  next
    assume "ob_attempts ?q = Suc (ob_attempts r)" "ob_next_attempt_at ?q = Some (now + backoffDelayMs (Suc (ob_attempts r)))"
    with assms(5) backoff_bounds(2) [of "Suc (ob_attempts r)"] show ?thesis by (auto simp: due_by_def)
  qed
  have "attempts_left p ?q + 1 \<le> attempts_left p r" using p q d(2) by (auto simp: attempts_left_def row_ok_def queued_def)
  with sum_update [OF d(1) r(1), of "attempts_left p" ?q] show "work p rows' + 1 \<le> work p rows"
    by (simp add: work_def r(3))
  show "count_where (queued p) rows' \<le> count_where (queued p) rows"
    using sum_update [OF d(1) r(1), of "\<lambda>r. if queued p r then 1 else 0" ?q] q by (simp add: count_as_sum r(3) split: if_splits)
  show "count_where (\<lambda>r. queued p r \<and> due_by t r) rows \<le> count_where (\<lambda>r. queued p r \<and> due_by t r) rows' + 1"
    using sum_update [OF d(1) r(1), of "\<lambda>r. if queued p r \<and> due_by t r then 1 else 0" ?q]
    by (simp add: count_as_sum r(3) split: if_splits)
  show "queue_due p (t + BACKOFF_BASE_MS + BACKOFF_CAP_MS) rows'"
    using assms(6) p unfolding queue_due_def r(3) by (auto simp: table_simps)
qed

text \<open>
  A drain of at most \<open>k\<close> claims makes \<open>k\<close> attempts, or attempts every row that was due at its start.
\<close>

lemma drain_work:
  assumes "\<And>i. t \<le> clock i \<and> clock i < t + BACKOFF_BASE_MS" "rows_inv rows" "de_provider e = p"
    "queue_due p (t + BACKOFF_BASE_MS + BACKOFF_CAP_MS) rows"
  shows "work p (fst (drain_loop e (\<lambda>_. []) deliver clock i k rows acc)) +
      min k (count_where (\<lambda>r. queued p r \<and> due_by t r) rows) \<le> work p rows \<and>
    count_where (queued p) (fst (drain_loop e (\<lambda>_. []) deliver clock i k rows acc)) \<le> count_where (queued p) rows \<and>
    queue_due p (t + BACKOFF_BASE_MS + BACKOFF_CAP_MS) (fst (drain_loop e (\<lambda>_. []) deliver clock i k rows acc))"
  using assms(2,4)
proof (induction k arbitrary: i rows acc)
  case (Suc k)
  show ?case
  proof (cases "drain_step e [] (deliver i) (clock i) rows")
    case None
    have "\<not> (queued p r \<and> due_by t r)" if "r \<in> set rows" for r
    proof
      assume "queued p r \<and> due_by t r"
      with assms(1) [of i] assms(3) have "due e (clock i) r"
        by (auto simp: due_def queued_def due_by_def split: option.splits)
      with None that show False by (auto simp: drain_step_def claim_def Let_def filter_empty_conv split: option.splits)
    qed
    then have "count_where (\<lambda>r. queued p r \<and> due_by t r) rows = 0" by (auto simp: count_where_def filter_empty_conv)
    with None Suc.prems show ?thesis by simp
  next
    case (Some v)
    obtain rows1 out email where v: "v = (rows1, out, email)" by (cases v)
    note step = claim_progress [OF Some [unfolded v] Suc.prems(1) assms(3) _ _ Suc.prems(2)]
    have inv: "rows_inv rows1" using Some v Suc.prems(1) drain_rows_inv by blast
    have s: "work p rows1 + 1 \<le> work p rows" "count_where (queued p) rows1 \<le> count_where (queued p) rows"
      "count_where (\<lambda>r. queued p r \<and> due_by t r) rows \<le> count_where (\<lambda>r. queued p r \<and> due_by t r) rows1 + 1"
      "queue_due p (t + BACKOFF_BASE_MS + BACKOFF_CAP_MS) rows1"
      using step assms(1) [of i] by blast+
    from Suc.IH [OF inv s(4), of "i + 1" "count_step out acc"] s(1-3) show ?thesis
      using Some v by (auto simp: min_def split: if_splits)
  qed
qed simp

text \<open>A row a drain can reach is attempted, or settled, by every drain.\<close>

lemma attended_drain:
  assumes "rows_inv rows" "r \<in> set rows" "attended p t n r" "t \<le> t'" "de_provider e = p"
    "\<And>i. t' \<le> clock i \<and> clock i < t' + BACKOFF_BASE_MS" "count_where (queued p) rows \<le> limit"
  shows "\<exists>r' \<in> set (fst (drainOutbox (Some e) (\<lambda>_. []) deliver clock limit rows)).
    ob_id r' = ob_id r \<and> attended p (t' + BACKOFF_BASE_MS + BACKOFF_CAP_MS) (Suc n) r'"
proof (cases "ob_status r = ''pending''")
  case False
  then have "\<not> claimable e (t' + BACKOFF_BASE_MS) r" by (auto simp: claimable_def)
  with drain_loop_others [of clock "t' + BACKOFF_BASE_MS" rows r e "\<lambda>_. []" deliver 0 limit no_result]
    assms False show ?thesis by (auto simp: drainOutbox_def attended_def queued_def)
next
  case True
  then have "due e t r" using assms(3,5) by (auto simp: attended_def queued_def due_by_def due_def split: option.splits)
  then have d: "due e t' r" using assms(4) due_mono by blast
  have "count_where (claimable e (t' + BACKOFF_BASE_MS)) rows \<le> count_where (queued p) rows"
    unfolding count_as_sum by (rule sum_list_mono) (use assms(5) in \<open>auto simp: claimable_def queued_def\<close>)
  with assms(7) have "count_where (claimable e (t' + BACKOFF_BASE_MS)) rows \<le> limit" by simp
  then obtain d now where m: "now < t' + BACKOFF_BASE_MS"
      "fst (process_row e d now r) \<in> set (fst (drainOutbox (Some e) (\<lambda>_. []) deliver clock limit rows))"
    using drain_loop_processes [where clock = clock and i = 0 and k = limit and deliver = deliver and acc = no_result,
        OF _ assms(1,2) d] assms(6) by (auto simp: drainOutbox_def)
  have "attended p (t' + BACKOFF_BASE_MS + BACKOFF_CAP_MS) (Suc n) (fst (process_row e d now r))"
  proof (rule process_row_progress [of e d now r])
    assume "ob_status (fst (process_row e d now r)) \<in> {''sent'', ''failed''}"
    then show ?thesis by (simp add: attended_def)
  next
    assume "ob_status (fst (process_row e d now r)) = ''pending''"
      "ob_attempts (fst (process_row e d now r)) = Suc (ob_attempts r)"
      "ob_provider (fst (process_row e d now r)) = ob_provider r"
      "ob_next_attempt_at (fst (process_row e d now r)) = Some (now + backoffDelayMs (Suc (ob_attempts r)))"
    with True m(1) backoff_bounds(2) [of "Suc (ob_attempts r)"] assms(3) show ?thesis
      by (auto simp: attended_def queued_def due_by_def)
  qed
  with m(2) id_unchanged(4) [of e d now r] show ?thesis by blast
qed

text \<open>With a queue no longer than a drain's limit, each drain of a schedule takes an attempt of the row.\<close>

lemma attended_run:
  assumes "rows_inv rows" "r \<in> set rows" "attended p t n r" "fair_schedule p t ds"
    "count_where (queued p) rows \<le> limit" "queue_due p t rows"
  shows "\<exists>r' \<in> set (run_drains limit ds rows). ob_id r' = ob_id r \<and> row_ok r' \<and>
    (ob_status r' \<in> {''sent'', ''failed''} \<or> ob_status r' = ''pending'' \<and> n + length ds \<le> ob_attempts r')"
  using assms
proof (induction limit ds rows arbitrary: r t n rule: run_drains.induct)
  case (1 limit rows)
  then show ?case by (auto simp: attended_def queued_def rows_inv_def)
next
  case (2 limit t' e deliver clock ds rows)
  let ?rows = "fst (drainOutbox (Some e) (\<lambda>_. []) deliver clock limit rows)"
  from 2(5) have f: "t \<le> t'" "de_provider e = p" "\<And>i. t' \<le> clock i \<and> clock i < t' + BACKOFF_BASE_MS"
    "fair_schedule p (t' + BACKOFF_BASE_MS + BACKOFF_CAP_MS) ds" by auto
  obtain r' where r': "r' \<in> set ?rows" "ob_id r' = ob_id r"
      "attended p (t' + BACKOFF_BASE_MS + BACKOFF_CAP_MS) (Suc n) r'"
    using attended_drain [where clock = clock and deliver = deliver, OF 2(2,3,4) f(1,2) _ 2(6)] f(3) by blast
  have qd: "queue_due p (t' + BACKOFF_BASE_MS + BACKOFF_CAP_MS) rows"
    by (rule queue_due_later [OF 2(7)]) (use f(1) in \<open>simp add: BACKOFF_BASE_MS_def BACKOFF_CAP_MS_def\<close>)
  have "rows_inv ?rows" using drain_loop_inv 2(2) by (simp add: drainOutbox_def)
  moreover have "count_where (queued p) ?rows \<le> limit" "queue_due p (t' + BACKOFF_BASE_MS + BACKOFF_CAP_MS) ?rows"
    using drain_work [where clock = clock and deliver = deliver and k = limit and i = 0 and acc = no_result, OF f(3) 2(2) f(2) qd]
      2(6) by (auto simp: drainOutbox_def)
  ultimately show ?case using 2(1) [OF _ r'(1,3) f(4)] r'(2) by auto
qed

text \<open>
  The drains that settle a queue of \<open>n\<close> rows: one for each batch of attempts while the queue is
  longer than a drain, and one for each attempt of the rest.
\<close>

definition drains_needed :: "nat \<Rightarrow> nat \<Rightarrow> nat" where
  "drains_needed limit n =
     (if n \<le> limit then OUTBOX_MAX_ATTEMPTS else OUTBOX_MAX_ATTEMPTS * n div limit + OUTBOX_MAX_ATTEMPTS)"

lemma settled_stays:
  "rows_inv rows \<Longrightarrow> r \<in> set rows \<Longrightarrow> ob_status r \<in> {''sent'', ''failed''} \<Longrightarrow> fair_schedule p t ds \<Longrightarrow>
     r \<in> set (run_drains limit ds rows)"
proof (induction limit ds rows arbitrary: t rule: run_drains.induct)
  case (2 limit t' e deliver clock ds rows)
  let ?rows = "fst (drainOutbox (Some e) (\<lambda>_. []) deliver clock limit rows)"
  have "\<not> claimable e (t' + BACKOFF_BASE_MS) r" using 2(4) by (auto simp: claimable_def)
  then have "r \<in> set ?rows"
    using drain_loop_others [of clock "t' + BACKOFF_BASE_MS" rows r e "\<lambda>_. []" deliver 0 limit no_result] 2(2,3,5)
    by (auto simp: drainOutbox_def)
  with 2(1) [of "t' + BACKOFF_BASE_MS + BACKOFF_CAP_MS"] 2(2,4,5) drain_loop_inv show ?case by (simp add: drainOutbox_def)
qed simp

definition live_row :: "string \<Rightarrow> outbox_row \<Rightarrow> bool" where
  "live_row p r \<longleftrightarrow> ob_status r \<in> {''sent'', ''failed''} \<or> queued p r"

lemma live_row_claim:
  assumes "drain_step e locked deliver now rows = Some (rows', out, email)" "rows_inv rows" "r \<in> set rows" "live_row p r"
  shows "\<exists>r' \<in> set rows'. ob_id r' = ob_id r \<and> live_row p r'"
proof (cases "ob_status r \<in> {''sent'', ''failed''}")
  case True
  then have "\<not> due e now r" by (auto simp: due_def)
  with drain_step_others [OF assms(1-3)] assms(4) show ?thesis by blast
next
  case False
  with assms(4) have q: "queued p r" by (simp add: live_row_def)
  have "live_row p (fst (process_row e deliver now r))"
    by (rule process_row_progress [of e deliver now r]) (use q in \<open>auto simp: live_row_def queued_def\<close>)
  with drain_step_processes [OF assms(1-3)] assms(4) id_unchanged(4) [of e deliver now r] show ?thesis by blast
qed

lemma live_row_drain:
  "rows_inv rows \<Longrightarrow> r \<in> set rows \<Longrightarrow> live_row p r \<Longrightarrow>
     \<exists>r' \<in> set (fst (drain_loop e locks deliver clock i k rows acc)). ob_id r' = ob_id r \<and> live_row p r'"
proof (induction k arbitrary: i rows acc r)
  case (Suc k)
  show ?case
  proof (cases "drain_step e (locks i) (deliver i) (clock i) rows")
    case None
    with Suc.prems show ?thesis by auto
  next
    case (Some v)
    obtain rows' out email where v: "v = (rows', out, email)" by (cases v)
    from live_row_claim [OF Some [unfolded v] Suc.prems] obtain r1
      where r1: "r1 \<in> set rows'" "ob_id r1 = ob_id r" "live_row p r1" by blast
    have "rows_inv rows'" using drain_rows_inv [OF Some [unfolded v] Suc.prems(1)] .
    from Suc.IH [OF this r1(1,3), of "i + 1" "count_step out acc"] r1(2) Some v show ?thesis by simp
  qed
qed auto

lemma backlog_settles:
  assumes "0 < limit" "rows_inv rows" "r \<in> set rows" "attended p t 0 r" "queue_due p t rows" "fair_schedule p t ds"
    "work p rows < limit * Suc j" "j + OUTBOX_MAX_ATTEMPTS \<le> length ds"
  shows "\<exists>r' \<in> set (run_drains limit ds rows). ob_id r' = ob_id r \<and> ob_status r' \<in> {''sent'', ''failed''}"
  using assms(2-)
proof (induction j arbitrary: rows r t ds rule: less_induct)
  case (less j)
  show ?case
  proof (cases "ob_status r \<in> {''sent'', ''failed''} \<or> count_where (queued p) rows \<le> limit")
    case True
    then show ?thesis
    proof
      assume s: "ob_status r \<in> {''sent'', ''failed''}"
      from settled_stays [OF less.prems(1,2) s less.prems(5)] s show ?thesis by blast
    next
      assume "count_where (queued p) rows \<le> limit"
      from attended_run [OF less.prems(1,2,3,5) this less.prems(4)] less.prems(7) show ?thesis by (fastforce simp: row_ok_def)
    qed
  next
    case False
    have ok: "\<forall>r \<in> set rows. row_ok r" using less.prems(1) by (simp add: rows_inv_def)
    from False have long: "limit < count_where (queued p) rows" by simp
    with work_bounds(2) [OF ok, of p] less.prems(6) obtain i where j: "j = Suc i" by (cases j) auto
    with less.prems(7) obtain t' e deliver clock ds' where ds: "ds = (t', e, deliver, clock) # ds'"
      by (cases ds) (auto simp: OUTBOX_MAX_ATTEMPTS_def)
    from less.prems(5) have f: "t \<le> t'" "de_provider e = p" "\<And>i. t' \<le> clock i \<and> clock i < t' + BACKOFF_BASE_MS"
      "fair_schedule p (t' + BACKOFF_BASE_MS + BACKOFF_CAP_MS) ds'" by (auto simp: ds)
    let ?t = "t' + BACKOFF_BASE_MS + BACKOFF_CAP_MS"
    let ?rows = "fst (drainOutbox (Some e) (\<lambda>_. []) deliver clock limit rows)"
    have later: "t \<le> ?t" using f(1) by (simp add: BACKOFF_BASE_MS_def BACKOFF_CAP_MS_def)
    have due: "count_where (\<lambda>r. queued p r \<and> due_by t' r) rows = count_where (queued p) rows"
      unfolding count_where_def
      by (rule arg_cong [of _ _ length], rule filter_cong) (use queue_due_later [OF less.prems(4) f(1)] in \<open>auto simp: queue_due_def\<close>)
    have w: "work p ?rows + limit \<le> work p rows" "queue_due p ?t ?rows"
      using drain_work [where clock = clock and deliver = deliver and k = limit and i = 0 and acc = no_result,
          OF f(3) less.prems(1) f(2) queue_due_later [OF less.prems(4) later]] long
      by (simp_all add: drainOutbox_def due)
    have inv: "rows_inv ?rows" using drain_loop_inv less.prems(1) by (simp add: drainOutbox_def)
    have "live_row p r" using less.prems(3) by (auto simp: attended_def live_row_def)
    from live_row_drain [OF less.prems(1,2) this] obtain r1
      where r1: "r1 \<in> set ?rows" "ob_id r1 = ob_id r" "live_row p r1"
      unfolding drainOutbox_def option.case by blast
    then have r1': "attended p ?t 0 r1" using w(2) by (auto simp: attended_def live_row_def queue_due_def)
    have "\<exists>r' \<in> set (run_drains limit ds' ?rows). ob_id r' = ob_id r1 \<and> ob_status r' \<in> {''sent'', ''failed''}"
      by (rule less.IH [of i, OF _ inv r1(1) r1' w(2) f(4)]) (use j ds less.prems(6,7) w(1) in auto)
    with r1(2) show ?thesis by (simp add: ds)
  qed
qed

subsection \<open>The guarantees\<close>

definition sample_mail_env :: mail_env where
  "sample_mail_env =
     \<lparr>me_from = ''kit@x'', me_provider = Some ''resend'', me_defaults = [], me_ellipsis = ''...'',
      me_reason = error_message ''503''\<rparr>"

definition sample_input :: send_app_email_input where
  "sample_input =
     \<lparr>si_to = ''a@x'', si_templateKey = ''test_email'', si_variables = [], si_locale = None,
      si_relatedBetterAuthUserId = None, si_organizationId = OrgGiven None\<rparr>"

definition sample_invite_input :: send_app_email_input where
  "sample_invite_input = sample_input\<lparr>si_templateKey := ''organization_invitation''\<rparr>"

definition sample_invite_mail :: rendered_email where
  "sample_invite_mail = \<lparr>re_subject = ''hi'', re_html = ''<a href=/en/invite?token=t1>'', re_text = None\<rparr>"

definition sample_outbox :: "outbox_row table" where
  "sample_outbox = [outbox_insert sample_mail_env empty_db sample_invite_input sample_invite_mail ''o1'' 0,
     outbox_insert sample_mail_env empty_db sample_input \<lparr>re_subject = ''s'', re_html = ''h'', re_text = None\<rparr> ''o2'' 0]"

definition sample_invitation :: invitation_row where
  "sample_invitation =
     \<lparr>inv_id = ''i1'', inv_organization_id = ''A'', inv_email = ''a@x'', inv_role_id = None,
      inv_token_hash = ''t1'', inv_status = ''pending'', inv_invited_by = Some ''u2'', inv_expires_at = 9000,
      inv_accepted_at = None, inv_accepted_app_user_id = None, inv_revoked_at = None, inv_revoked_by = None\<rparr>"

definition sample_drain_env :: drain_env where
  "sample_drain_env =
     \<lparr>de_provider = ''resend'', de_hash = map char_of, de_jsonParse = (\<lambda>_. None),
      de_invitations = [sample_invitation], de_reason = error_message ''503''\<rparr>"

lemma sample_outbox_inv: "rows_inv sample_outbox"
proof -
  have "ob_id (outbox_insert env d inp m i now) = i" for env d inp m i now
    by (simp add: outbox_insert_def Let_def)
  then show ?thesis by (simp add: rows_inv_def sample_outbox_def row_ok_insert redacted_insert)
qed

text \<open>
  The schema says of \<open>next_attempt_at\<close> that it is null once a row is terminal. The sweep of
  orphaned rows is the one writer that leaves it set.
\<close>

lemma stale_sweep_leaves_next_attempt:
  "let r = sample_outbox ! 1; r' = hd (fst (stale_batch 7 10 (8 * DAY_MS) [r]))
   in ob_status r' = ''failed'' \<and> ob_next_attempt_at r' \<noteq> None"
  by code_simp

text \<open>
  The inline update names the row by its id alone. It is sound because it lands while the lease
  keeps the workers away: on a row a worker has sent meanwhile it would record a failure.
\<close>

lemma late_update_breaks_contract:
  "let r = fst (attempted sample_drain_env 500 (DeliveredWith None) (sample_outbox ! 1));
       late = \<lparr>il_answer = DeliveryThrew (EmailDeliveryError ''resend'' 422 ''no'' None), il_attempts = 1, il_finishedAt = 600\<rparr>
   in row_ok r \<and> ob_status r = ''sent'' \<and> \<not> row_ok (inline_update sample_mail_env late 600 r)"
  by code_simp

text \<open>The summary of a failure keeps what the provider says, a link it echoes included.\<close>

lemma echoed_link_shown:
  "let r = fst (attempted sample_drain_env 500
             (DeliveryThrew (EmailDeliveryError ''resend'' 503 ''bad /en/invite?token=t1'' None)) (sample_outbox ! 0))
   in row_redacted (sample_outbox ! 0) \<and> \<not> token_free (the (ob_error r))"
proof -
  have "row_redacted (sample_outbox ! 0)" using sample_outbox_inv by (simp add: rows_inv_def sample_outbox_def)
  moreover have "\<not> token_free (the (ob_error (fst (attempted sample_drain_env 500
      (DeliveryThrew (EmailDeliveryError ''resend'' 503 ''bad /en/invite?token=t1'' None)) (sample_outbox ! 0)))))"
    by code_simp
  ultimately show ?thesis unfolding Let_def by blast
qed

text \<open>
  C31: Whatever interleaving of inline sends, workers, sweeps and prunes, every outbox row keeps its
  contract: a terminal row has dropped the unredacted copy, a pending one has attempts left and a
  provider to retry with, the attempts never exceed the cap, a row is stamped as sent exactly when
  it is, and neither the stored subject, bodies and variables nor the error column, which the
  administrators' routes select too, holds a live token. Two conditions. An inline send's own update
  lands before the lease it wrote at the insert ends, or its process dies without it - C29 bounds the
  attempts, and lemma late_update_breaks_contract shows why it matters. And no failure is summarized
  in a text that carries a token itself: a summary keeps the start of what the provider answered
  (lemma echoed_link_shown).
\<close>

theorem outbox_rows_sound:
  assumes "outbox_reachable token_free s" "r \<in> set (sys_rows s)"
  shows "(ob_status r \<in> {''sent'', ''failed''} \<longrightarrow> ob_delivery_payload r = None) \<and>
    (ob_status r = ''pending'' \<longrightarrow> ob_attempts r < OUTBOX_MAX_ATTEMPTS \<and> ob_provider r \<noteq> None) \<and>
    ob_attempts r \<le> OUTBOX_MAX_ATTEMPTS \<and> (ob_status r = ''sent'') = (ob_sent_at r \<noteq> None) \<and>
    concat (map findQueryTokens (shown_columns r)) = [] \<and>
    set (concat (map findResetTokens (shown_columns r))) \<subseteq> {REDACTED_TOKEN} \<and>
    (\<forall>t. ob_error r = Some t \<longrightarrow> findQueryTokens t = [] \<and> set (findResetTokens t) \<subseteq> {REDACTED_TOKEN})"
proof -
  have r: "row_ok r" "row_redacted r"
    using outbox_reachable_inv [OF assms(1)] assms(2) by (auto simp: outbox_inv_def rows_inv_def)
  have "token_free t" if "ob_error r = Some t" for t
    using outbox_reachable_errors [OF assms] that own_reasons_token_free by (auto simp: error_from_def)
  moreover have "\<exists>ts. shown_columns r = map redactEmailSecrets ts"
    using r(2) unfolding row_redacted_def by (induction "shown_columns r" rule: rev_induct) (auto simp: ex_map_conv)
  then obtain ts where "shown_columns r = map redactEmailSecrets ts" ..
  ultimately show ?thesis using redacted_tokens_hidden [of ts] r(1) by (auto simp: row_ok_def token_free_def)
qed

lemma outbox_rows_sound_witness:
  "\<exists>s :: outbox_sys. ob_id (hd (sys_rows s)) = ''o1'' \<and> ob_attempts (hd (sys_rows s)) \<le> OUTBOX_MAX_ATTEMPTS \<and>
     concat (map findQueryTokens (shown_columns (hd (sys_rows s)))) = []"
proof -
  let ?s = "outbox_init 0"
  let ?r = "outbox_insert sample_mail_env empty_db sample_invite_input sample_invite_mail ''o1'' 0"
  let ?s' = "?s\<lparr>sys_rows := sys_rows ?s @ [?r],
      sys_inflight := (''o1'', sys_now ?s, sys_now ?s + 0 + INLINE_DELIVERY_BUDGET_MS) # sys_inflight ?s\<rparr>"
  have "outbox_step token_free ?s ?s'"
    using Begin [where Q = token_free, of "''o1''" ?s sample_mail_env 0 empty_db sample_invite_input sample_invite_mail]
    by (simp add: outbox_init_def sample_mail_env_def INLINE_DELIVERY_LEASE_MS_def INLINE_DELIVERY_BUDGET_MS_def)
  then have 1: "outbox_reachable token_free ?s'" by (auto simp: outbox_reachable_def)
  have 2: "?r \<in> set (sys_rows ?s')" by simp
  have 3: "hd (sys_rows ?s') = ?r" by (simp add: outbox_init_def)
  have 4: "ob_id ?r = ''o1''" by (simp add: outbox_insert_def Let_def)
  show ?thesis by (rule exI [of _ ?s'], unfold 3) (use outbox_rows_sound [OF 1 2] 4 in blast)
qed

text \<open>
  The worker hands a provider only mail whose one-time link still works: the row is due and
  pending for the active provider, the token of its template has not expired, and an invitation
  mail carries a token that opens a pending invitation. The mail is the row's own message under
  the row's idempotency key.
\<close>

lemma worker_delivers_live_links:
  assumes "drain_step e locked deliver now rows = Some (rows', out, Some email)"
  shows "\<exists>r \<in> set rows. ob_status r = ''pending'' \<and> ob_provider r = Some (de_provider e) \<and>
    \<not> outboxTokenExpired (ob_template_key r) (ob_created_at r) now \<and>
    email = outbox_email r (row_message e r) \<and>
    (ob_template_key r = Some ''organization_invitation'' \<longrightarrow>
       (\<exists>i \<in> set (de_invitations e). inv_status i = ''pending'' \<and>
          (\<exists>t. inv_token_hash i = de_hash e t \<and>
            (t \<in> set (findQueryTokens (oe_html email)) \<or>
             (\<exists>b. oe_text email = Some b \<and> t \<in> set (findQueryTokens b))))))"
proof -
  obtain r where r: "r \<in> set rows" "due e now r" "Some email = snd (snd (process_row e deliver now r))"
    using assms by (rule drain_step_Some)
  have x: "\<not> outboxTokenExpired (ob_template_key r) (ob_created_at r) now"
    "email = outbox_email r (row_message e r)"
    "ob_template_key r = Some ''organization_invitation'' \<Longrightarrow>
       invitationLinkState (de_hash e) (de_invitations e) (row_message e r) = LinkLive"
    using r(3) by (auto simp: process_row_def Let_def split: if_splits link_state.splits)
  have "\<exists>i \<in> set (de_invitations e). inv_status i = ''pending'' \<and>
          (\<exists>t. inv_token_hash i = de_hash e t \<and>
            (t \<in> set (findQueryTokens (oe_html email)) \<or>
             (\<exists>b. oe_text email = Some b \<and> t \<in> set (findQueryTokens b))))"
    if "ob_template_key r = Some ''organization_invitation''"
  proof -
    have n: "findQueryTokens [] = []" by (simp add: findQueryTokens_def query_values.simps)
    from x(3) [OF that] show ?thesis
      by (cases "re_text (row_message e r)")
        (auto simp: invitationLinkState_def Let_def x(2) outbox_email_def n split: if_splits; blast)+
  qed
  with r(1,2) x(1,2) show ?thesis by (auto simp: due_def)
qed

lemma worker_delivers_live_links_witness:
  "let v = the (drain_step sample_drain_env [] (\<lambda>_. DeliveredWith None) 130000 sample_outbox)
   in \<exists>r \<in> set sample_outbox. the (snd (snd v)) = outbox_email r (row_message sample_drain_env r)"
proof -
  let ?v = "drain_step sample_drain_env [] (\<lambda>_. DeliveredWith None) 130000 sample_outbox"
  have 1: "?v = Some (fst (the ?v), fst (snd (the ?v)), Some (the (snd (snd (the ?v)))))" by code_simp
  from worker_delivers_live_links [OF 1] show ?thesis by (auto simp: Let_def)
qed

text \<open>
  C30: Every queued mail is settled, whatever the provider answers and however long the queue is:
  with the provider it was queued for still active, and no row of its queue waiting for a later time
  than the first drain, five drains on a fair schedule leave the row sent or failed when the queue is
  no longer than a drain's limit; a queue of n rows behind a smaller limit takes 5 n / limit drains
  more. A fair schedule runs its drains one after the other, each within the shortest backoff of its
  start and the next once the longest has passed, while nothing else writes the outbox (no other
  worker holds a row's lock, and no mail is queued in between).
\<close>

theorem queued_mail_settles:
  assumes "0 < limit" "rows_inv rows" "r \<in> set rows" "ob_status r = ''pending''" "ob_provider r = Some p"
    "queue_due p t rows" "fair_schedule p t ds"
    "drains_needed limit (count_where (queued p) rows) \<le> length ds"
  shows "\<exists>r' \<in> set (run_drains limit ds rows). ob_id r' = ob_id r \<and> ob_status r' \<in> {''sent'', ''failed''}"
proof -
  let ?n = "count_where (queued p) rows"
  have at: "attended p t 0 r" using assms(3-6) by (simp add: attended_def queued_def queue_due_def)
  show ?thesis
  proof (cases "?n \<le> limit")
    case True
    with attended_run [OF assms(2,3) at assms(7) True assms(6)] assms(8) show ?thesis
      by (fastforce simp: row_ok_def drains_needed_def)
  next
    case False
    have "work p rows \<le> OUTBOX_MAX_ATTEMPTS * ?n" by (rule work_bounds(1))
    also have "OUTBOX_MAX_ATTEMPTS * ?n < limit * Suc (OUTBOX_MAX_ATTEMPTS * ?n div limit)"
      using assms(1) by (simp add: dividend_less_times_div)
    finally show ?thesis
      using backlog_settles [OF assms(1-3) at assms(6,7)] assms(8) False by (simp add: drains_needed_def)
  qed
qed

text \<open>Two mails behind drains of one row at a time, from a provider that is always busy.\<close>

definition sample_schedule :: "drain_run list" where
  "sample_schedule =
     map (\<lambda>k. (k * 86400000, sample_drain_env,
              \<lambda>_ _. DeliveryThrew (EmailDeliveryError ''resend'' 503 ''busy'' None), \<lambda>_. k * 86400000))
       [1, 2, 3, 4, 5, 6, 7, 8, 9, 10, 11, 12, 13, 14, 15]"

lemma queued_mail_settles_witness:
  "\<exists>r' \<in> set (run_drains 1 sample_schedule sample_outbox). ob_id r' = ''o2'' \<and> ob_status r' \<in> {''sent'', ''failed''}"
proof -
  let ?r = "sample_outbox ! 1"
  have 1: "?r \<in> set sample_outbox" "ob_id ?r = ''o2''" by code_simp+
  have 2: "ob_status ?r = ''pending''" "ob_provider ?r = Some ''resend''" by code_simp+
  have 3: "queue_due ''resend'' 86400000 sample_outbox" by code_simp
  have 4: "fair_schedule ''resend'' 86400000 sample_schedule"
    by (simp add: sample_schedule_def sample_drain_env_def BACKOFF_BASE_MS_def BACKOFF_CAP_MS_def)
  have "count_where (queued ''resend'') sample_outbox = 2" by code_simp
  then have 5: "drains_needed 1 (count_where (queued ''resend'') sample_outbox) \<le> length sample_schedule"
    by (simp add: drains_needed_def sample_schedule_def OUTBOX_MAX_ATTEMPTS_def)
  from queued_mail_settles [OF zero_less_one sample_outbox_inv 1(1) 2 3 4 5] 1(2) show ?thesis by simp
qed

text \<open>
  C29: a mail is not delivered twice by two senders at once: the inline attempts, whatever the
  provider and the jitter do, end within the lease of the row, and while a send is in flight no
  worker claims its row.
\<close>

theorem inline_send_holds_lease:
  assumes "outbox_reachable (\<lambda>_. True) s" "claim e locked (sys_now s) (sys_rows s) = Some r"
    and "\<And>i. snd (answers i) \<le> PROVIDER_TIMEOUT_MS"
  shows "ob_id r \<notin> fst ` set (sys_inflight s) \<and>
    il_attempts (deliverInline answers random t0) \<le> INLINE_MAX_ATTEMPTS \<and>
    il_finishedAt (deliverInline answers random t0) < t0 + INLINE_DELIVERY_LEASE_MS"
proof -
  have "ob_id r \<notin> fst ` set (sys_inflight s)"
  proof
    assume "ob_id r \<in> fst ` set (sys_inflight s)"
    then obtain t0 dl where f: "(ob_id r, t0, dl) \<in> set (sys_inflight s)" by auto
    have "inflight_inv s" using outbox_reachable_inv [OF assms(1)] by (simp add: outbox_inv_def)
    with f claim_due [OF assms(2)] have "leased t0 r" "sys_now s < t0 + INLINE_DELIVERY_LEASE_MS"
      by (fastforce simp: inflight_inv_def)+
    with claim_due [OF assms(2)] leased_not_due show False by blast
  qed
  moreover have "il_finishedAt (deliverInline answers random t0) < t0 + INLINE_DELIVERY_LEASE_MS"
    using deliverInline_bounds(3) [of answers random t0] assms(3)
    by (simp add: INLINE_DELIVERY_BUDGET_MS_def INLINE_DELIVERY_LEASE_MS_def)
  ultimately show ?thesis using deliverInline_bounds(2) by blast
qed

lemma inline_send_holds_lease_witness:
  "\<exists>s :: outbox_sys. sys_inflight s \<noteq> [] \<and>
     ob_id (the (claim sample_drain_env [] (sys_now s) (sys_rows s))) \<notin> fst ` set (sys_inflight s)"
proof -
  let ?row = "\<lambda>i t. outbox_insert sample_mail_env empty_db sample_input \<lparr>re_subject = ''s'', re_html = ''h'', re_text = None\<rparr> i t"
  let ?step = "outbox_step (\<lambda>_. True)"
  let ?s0 = "outbox_init 0"
  let ?s1 = "\<lparr>sys_now = 0, sys_rows = [?row ''o1'' 0], sys_inflight = [(''o1'', 0, INLINE_DELIVERY_BUDGET_MS)]\<rparr>"
  let ?s2 = "\<lparr>sys_now = 0, sys_rows = [?row ''o1'' 0], sys_inflight = []\<rparr>"
  let ?s3 = "\<lparr>sys_now = 130000, sys_rows = [?row ''o1'' 0], sys_inflight = []\<rparr>"
  let ?s4 = "\<lparr>sys_now = 130000, sys_rows = [?row ''o1'' 0, ?row ''o2'' 130000],
     sys_inflight = [(''o2'', 130000, 130000 + INLINE_DELIVERY_BUDGET_MS)]\<rparr>"
  note b = INLINE_DELIVERY_LEASE_MS_def INLINE_DELIVERY_BUDGET_MS_def
  have p: "me_provider sample_mail_env \<noteq> None" by (simp add: sample_mail_env_def)
  have id: "ob_id (?row i t) = i" for i t by (simp add: outbox_insert_def Let_def)
  have "?step ?s0 ?s1"
    using Begin [where Q = "\<lambda>_. True", of "''o1''" ?s0 sample_mail_env 0 empty_db sample_input] p by (simp add: outbox_init_def b)
  moreover have "?step ?s1 ?s2" using Lost [where Q = "\<lambda>_. True", of "''o1''" 0 INLINE_DELIVERY_BUDGET_MS ?s1] by simp
  moreover have "?step ?s2 ?s3" using Tick [where Q = "\<lambda>_. True", of ?s2 130000] by simp
  moreover have "?step ?s3 ?s4"
    using Begin [where Q = "\<lambda>_. True", of "''o2''" ?s3 sample_mail_env 0 empty_db sample_input] p by (simp add: id b)
  ultimately have 1: "outbox_reachable (\<lambda>_. True) ?s4"
    unfolding outbox_reachable_def by (meson converse_rtranclp_into_rtranclp rtranclp.rtrancl_refl)
  have 2: "claim sample_drain_env [] (sys_now ?s4) (sys_rows ?s4) = Some (?row ''o1'' 0)"
    by code_simp
  from inline_send_holds_lease [OF 1 2, of "\<lambda>_. (DeliveredWith None, 0)"] 2
  show ?thesis by (intro exI [of _ ?s4]) (simp add: PROVIDER_TIMEOUT_MS_def)
qed

end
