(* ===== verification/Grantable.thy ===== *)
theory Grantable
  imports AuthStatus Scopes
begin

text \<open>
  The no-escalation arithmetic of every grant and revocation
  (\<open>src/lib/admin/grantable-permissions.server.ts\<close>, \<open>src/lib/admin/membership-grants.server.ts\<close>):
  the permission keys a role, a group or a user carries, the keys a caller may confer, and the
  keys a request asks for beyond them.
\<close>

subsection \<open>The keys roles and groups carry\<close>

definition permissionKeysForGroup :: "db \<Rightarrow> uuid \<Rightarrow> string list" where
  "permissionKeysForGroup d gid =
     js_uniq (concat (map (\<lambda>gr. role_keys d (gr_role_id gr))
       (filter (\<lambda>gr. gr_group_id gr = gid) (app_group_roles d))))"

definition permissionKeysForRoles :: "db \<Rightarrow> uuid list \<Rightarrow> string list" where
  "permissionKeysForRoles d rids =
     (if rids = [] then []
      else js_uniq (concat (map (\<lambda>rp.
             map perm_key (filter (\<lambda>p. perm_id p = rp_permission_id rp) (app_permissions d)))
           (filter (\<lambda>rp. rp_role_id rp \<in> set rids) (app_role_permissions d)))))"

definition permissionKeysForGroups :: "db \<Rightarrow> uuid list \<Rightarrow> string list" where
  "permissionKeysForGroups d gids =
     (if gids = [] then []
      else js_uniq (concat (map (\<lambda>gr. role_keys d (gr_role_id gr))
             (filter (\<lambda>gr. gr_group_id gr \<in> set gids) (app_group_roles d)))))"

subsection \<open>The keys a user holds\<close>

definition permissionKeysHeldInOrg :: "db \<Rightarrow> uuid \<Rightarrow> uuid \<Rightarrow> string list" where
  "permissionKeysHeldInOrg d uid oid =
     (if \<not> has_active_membership d uid oid then []
      else js_uniq (directPerms d uid oid @ groupPerms d uid oid))"

definition group_in_active_org :: "db \<Rightarrow> uuid \<Rightarrow> uuid \<Rightarrow> bool" where
  "group_in_active_org d uid gid \<longleftrightarrow>
     (\<exists>g \<in> set (app_groups d). grp_id g = gid \<and> has_active_membership d uid (grp_organization_id g))"

definition permissionKeysHeldInAnyOrg :: "db \<Rightarrow> uuid \<Rightarrow> string list" where
  "permissionKeysHeldInAnyOrg d uid =
     js_uniq
       (concat (map (\<lambda>ur. role_keys d (ur_role_id ur))
          (filter (\<lambda>ur. ur_app_user_id ur = uid \<and> has_active_membership d uid (ur_organization_id ur))
            (app_user_roles d))) @
        concat (map (\<lambda>gm. concat (map (\<lambda>gr. role_keys d (gr_role_id gr))
             (filter (\<lambda>gr. gr_group_id gr = gm_group_id gm) (app_group_roles d))))
          (filter (\<lambda>gm. gm_app_user_id gm = uid \<and> group_in_active_org d uid (gm_group_id gm))
            (app_group_memberships d))))"

text \<open>
  The \<open>Map\<close> from each organization the user is an active member of to the set of its keys, as an
  association list in the order the organizations were first set.
\<close>

definition permissionKeysByActiveOrg :: "db \<Rightarrow> uuid \<Rightarrow> (uuid \<times> string list) list" where
  "permissionKeysByActiveOrg d uid =
     map (\<lambda>oid. (oid, js_uniq (directPerms d uid oid @ groupPerms d uid oid)))
       (js_uniq (map mb_organization_id
          (filter (\<lambda>m. mb_app_user_id m = uid \<and> mb_status m = ''active'') (app_organization_memberships d))))"

subsection \<open>What may be conferred\<close>

definition unheldPermissionKeys :: "string list \<Rightarrow> string list \<Rightarrow> string list" where
  "unheldPermissionKeys heldPermissions requestedKeys =
     filter (\<lambda>key. key \<notin> set heldPermissions) (js_uniq requestedKeys)"

definition conferrablePermissions :: "string list \<Rightarrow> string list option \<Rightarrow> string list" where
  "conferrablePermissions heldPermissions grantedScopes =
     (case grantedScopes of
        None \<Rightarrow> heldPermissions
      | Some _ \<Rightarrow> filter (\<lambda>key. scopesAuthorize grantedScopes key) heldPermissions)"

record revoked_role_grant =
  rrg_app_user_id :: uuid
  rrg_organization_id :: uuid
  rrg_role_id :: uuid
  rrg_role_key :: string

record removed_group_grant =
  rgg_app_user_id :: uuid
  rgg_group_id :: uuid
  rgg_group_key :: string
  rgg_organization_id :: uuid

definition unheldOnMembershipRemoval ::
    "string list \<Rightarrow> access_context \<Rightarrow> string list option \<Rightarrow> string list" where
  "unheldOnMembershipRemoval unheld access grantedScopes =
     (let ownerIsSuperadmin = isSuperadmin access
      in filter (\<lambda>key.
           if key = SHELL_BASELINE_PERMISSION then False
           else if grantedScopes = None then True
           else if key = SUPERADMIN_PERMISSION \<or> isScopeNameable key then True
           else \<not> (ownerIsSuperadmin \<or> key \<in> set (ac_permissions access))) unheld)"

definition soleOrganizationId :: "membership_row list \<Rightarrow> uuid option" where
  "soleOrganizationId memberships =
     (case js_uniq (map mb_organization_id memberships) of [oid] \<Rightarrow> Some oid | _ \<Rightarrow> None)"

definition grantIdsRemovedWith ::
    "uuid \<Rightarrow> uuid \<Rightarrow> revoked_role_grant list \<Rightarrow> removed_group_grant list \<Rightarrow> uuid list \<times> uuid list" where
  "grantIdsRemovedWith uid oid roles groups =
     (map rrg_role_id (filter (\<lambda>r. rrg_app_user_id r = uid \<and> rrg_organization_id r = oid) roles),
      map rgg_group_id (filter (\<lambda>g. rgg_app_user_id g = uid \<and> rgg_organization_id g = oid) groups))"

subsection \<open>Lemmas\<close>

lemma unheld_Nil [simp]: "unheldPermissionKeys held req = [] \<longleftrightarrow> set req \<subseteq> set held"
  by (auto simp: unheldPermissionKeys_def filter_empty_conv)

lemma set_unheld [simp]: "set (unheldPermissionKeys held req) = set req - set held"
  by (auto simp: unheldPermissionKeys_def)

lemma set_conferrable:
  "set (conferrablePermissions held gs) = {k \<in> set held. scopesAuthorize gs k}"
  by (cases gs) (auto simp: conferrablePermissions_def scopesAuthorize_def)

lemma permissionKeysForRoles_mem:
  "k \<in> set (permissionKeysForRoles d rids) \<longleftrightarrow> (\<exists>rid \<in> set rids. role_carries d rid k)"
  unfolding permissionKeysForRoles_def role_carries_def by (auto; blast)

lemma role_keys_mem: "k \<in> set (role_keys d rid) \<longleftrightarrow> role_carries d rid k"
  by (fastforce simp: role_keys_def role_carries_def)

lemma permissionKeysForGroups_mem:
  "k \<in> set (permissionKeysForGroups d gids) \<longleftrightarrow>
     (\<exists>gr \<in> set (app_group_roles d). gr_group_id gr \<in> set gids \<and> role_carries d (gr_role_id gr) k)"
  by (auto simp: permissionKeysForGroups_def role_keys_mem)

lemma permissionKeysForGroups_single: "set (permissionKeysForGroups d [g]) = set (permissionKeysForGroup d g)"
  by (auto simp: permissionKeysForGroups_def permissionKeysForGroup_def)

lemma direct_mem:
  "k \<in> set (directPerms d uid oid) \<longleftrightarrow>
     (\<exists>ur \<in> set (app_user_roles d). ur_app_user_id ur = uid \<and> ur_organization_id ur = oid \<and>
        role_carries d (ur_role_id ur) k)"
  by (auto simp: directPerms_def role_keys_mem)

lemma group_mem:
  "k \<in> set (groupPerms d uid oid) \<longleftrightarrow>
     (\<exists>gm \<in> set (app_group_memberships d). gm_app_user_id gm = uid \<and>
        (\<exists>g \<in> set (app_groups d). grp_id g = gm_group_id gm \<and> grp_organization_id g = oid) \<and>
        (\<exists>gr \<in> set (app_group_roles d). gr_group_id gr = gm_group_id gm \<and> role_carries d (gr_role_id gr) k))"
  by (fastforce simp: groupPerms_def role_keys_mem)

lemma heldInOrg_mem:
  "k \<in> set (permissionKeysHeldInOrg d uid oid) \<longleftrightarrow>
     has_active_membership d uid oid \<and>
     ((\<exists>ur \<in> set (app_user_roles d). ur_app_user_id ur = uid \<and> ur_organization_id ur = oid \<and>
         role_carries d (ur_role_id ur) k) \<or>
      (\<exists>gm \<in> set (app_group_memberships d). gm_app_user_id gm = uid \<and>
         (\<exists>g \<in> set (app_groups d). grp_id g = gm_group_id gm \<and> grp_organization_id g = oid) \<and>
         (\<exists>gr \<in> set (app_group_roles d). gr_group_id gr = gm_group_id gm \<and> role_carries d (gr_role_id gr) k)))"
  by (simp add: permissionKeysHeldInOrg_def direct_mem group_mem)

text \<open>The keys held somewhere are the union of those held in each organization of active membership.\<close>

lemma heldInAnyOrg_mem:
  "k \<in> set (permissionKeysHeldInAnyOrg d uid) \<longleftrightarrow> (\<exists>oid. k \<in> set (permissionKeysHeldInOrg d uid oid))"
proof -
  have "k \<in> set (permissionKeysHeldInAnyOrg d uid) \<longleftrightarrow>
      (\<exists>ur \<in> set (app_user_roles d). ur_app_user_id ur = uid \<and>
         has_active_membership d uid (ur_organization_id ur) \<and> role_carries d (ur_role_id ur) k) \<or>
      (\<exists>gm \<in> set (app_group_memberships d). gm_app_user_id gm = uid \<and>
         (\<exists>g \<in> set (app_groups d). grp_id g = gm_group_id gm \<and> has_active_membership d uid (grp_organization_id g)) \<and>
         (\<exists>gr \<in> set (app_group_roles d). gr_group_id gr = gm_group_id gm \<and> role_carries d (gr_role_id gr) k))"
    unfolding permissionKeysHeldInAnyOrg_def group_in_active_org_def set_js_uniq set_append Un_iff
    by (rule disj_cong) (simp_all add: role_keys_mem, blast+)
  then show ?thesis unfolding heldInOrg_mem by blast
qed

lemma byActiveOrg_lookup:
  "map_of (permissionKeysByActiveOrg d uid) oid =
     (if has_active_membership d uid oid then Some (permissionKeysHeldInOrg d uid oid) else None)"
proof -
  have "map_of (map (\<lambda>x. (x, f x)) xs) oid = (if oid \<in> set xs then Some (f oid) else None)" for f :: "uuid \<Rightarrow> string list" and xs
    by (induction xs) auto
  then show ?thesis
    unfolding permissionKeysByActiveOrg_def
    by (auto simp: permissionKeysHeldInOrg_def has_active_membership_def)
qed

end
