(* ===== verification/AuthPolicy.thy ===== *)
theory AuthPolicy
  imports AuthStatus
begin

text \<open>
  The sign-up policy (\<open>src/lib/auth-policy.server.ts\<close>) and what it resolves organizations with
  (\<open>src/lib/org-lookup.server.ts\<close>, \<open>src/lib/default-organization.server.ts\<close>,
  \<open>src/lib/provider-organization-resolver.ts\<close>). Arrays of text come from columns that may be null.
\<close>

subsection \<open>State\<close>

record auth_settings_row =
  as_organization_id :: "uuid option"
  as_require_email_verification :: bool
  as_signup_approval_mode :: string
  as_allowed_auth_methods :: "string list option"
  as_auto_approve_email_domains :: "string list option"

record provider_organization_row =
  po_organization_id :: uuid
  po_provider :: string
  po_provider_organization_key :: string

record signup_store =
  ss_db :: db
  ss_auth_settings :: "auth_settings_row table"
  ss_provider_organizations :: "provider_organization_row table"
  ss_invitations :: "invitation_row table"

subsection \<open>Organizations\<close>

definition resolveOrganizationByIdentifier :: "db \<Rightarrow> string \<Rightarrow> org_row option" where
  "resolveOrganizationByIdentifier d identifier =
     (let trimmed = trim identifier
      in if trimmed = [] \<or> length trimmed > 255 then None
         else List.find (\<lambda>r. org_status r = ''active'' \<and>
                (org_slug r = js_lower trimmed \<or> (isUuid trimmed \<and> org_id r = pg_uuid trimmed)))
              (app_organizations d))"

definition getDefaultOrganization :: "db \<Rightarrow> org_row option" where
  "getDefaultOrganization d =
     first_by (\<lambda>r. (org_created_at r, org_id r)) (filter org_is_default (app_organizations d))"

definition DEFAULT_ORGANIZATION_PROVIDER_KEY :: string where
  "DEFAULT_ORGANIZATION_PROVIDER_KEY = ''default''"

record provider_resolution =
  pr_provider :: string
  pr_providerOrganizationKey :: string
  pr_routesByEmailDomain :: bool

definition resolveProviderOrganization :: "string \<Rightarrow> bool \<Rightarrow> provider_resolution" where
  "resolveProviderOrganization provider emailVerified =
     \<lparr>pr_provider = provider, pr_providerOrganizationKey = DEFAULT_ORGANIZATION_PROVIDER_KEY,
      pr_routesByEmailDomain = (provider = ''email'' \<or> (provider = ''github'' \<and> emailVerified))\<rparr>"

text \<open>\<open>email.split("@")[1]?.trim().toLowerCase()\<close>; an absent or empty domain is falsy.\<close>

definition email_domain :: "string \<Rightarrow> string option" where
  "email_domain email =
     (case split_on (CHR ''@'') email of
        _ # d # _ \<Rightarrow> (let v = js_lower (trim d) in if v = [] then None else Some v)
      | _ \<Rightarrow> None)"

definition findEmailDomainOrganization ::
    "provider_organization_row table \<Rightarrow> string \<Rightarrow> provider_organization_row option" where
  "findEmailDomainOrganization pos email =
     (case email_domain email of
        None \<Rightarrow> None
      | Some domain \<Rightarrow> List.find (\<lambda>p. po_provider p = ''email'' \<and> po_provider_organization_key p = domain) pos)"

subsection \<open>Policies\<close>

datatype signup_approval_mode = AdminApproval | AutoActive | InviteOnly

definition toApprovalMode :: "string \<Rightarrow> signup_approval_mode option" where
  "toApprovalMode v =
     map_of [(''admin_approval'', AdminApproval), (''auto_active'', AutoActive), (''invite_only'', InviteOnly)] v"

definition AUTH_METHODS :: "string list" where
  "AUTH_METHODS = [''email'', ''google'', ''microsoft'', ''github'']"

definition isAuthMethod :: "string option \<Rightarrow> bool" where
  "isAuthMethod v = (case v of None \<Rightarrow> False | Some m \<Rightarrow> m \<in> set AUTH_METHODS)"

datatype policy_source = FromOrganization | FromPlatformDefault | FromFailClosed

record org_auth_policy =
  requireEmailVerification :: bool
  signupApprovalMode :: signup_approval_mode
  allowedAuthMethods :: "string list option"
  autoApproveEmailDomains :: "string list option"
  policySource :: policy_source

definition FAIL_CLOSED_AUTH_POLICY :: org_auth_policy where
  "FAIL_CLOSED_AUTH_POLICY =
     \<lparr>requireEmailVerification = True, signupApprovalMode = AdminApproval, allowedAuthMethods = None,
      autoApproveEmailDomains = None, policySource = FromFailClosed\<rparr>"

definition toPolicy :: "auth_settings_row \<Rightarrow> policy_source \<Rightarrow> org_auth_policy" where
  "toPolicy row source =
     (case toApprovalMode (as_signup_approval_mode row) of
        None \<Rightarrow> FAIL_CLOSED_AUTH_POLICY
      | Some mode \<Rightarrow>
          \<lparr>requireEmailVerification = as_require_email_verification row, signupApprovalMode = mode,
           allowedAuthMethods =
             map_option (filter (\<lambda>m. isAuthMethod (Some m))) (as_allowed_auth_methods row),
           autoApproveEmailDomains =
             map_option (\<lambda>ds. filter (\<lambda>x. x \<noteq> []) (map (\<lambda>x. js_lower (trim x)) ds))
               (as_auto_approve_email_domains row),
           policySource = source\<rparr>)"

definition getAuthPolicyForOrg :: "auth_settings_row table \<Rightarrow> uuid option \<Rightarrow> org_auth_policy" where
  "getAuthPolicyForOrg settings oid =
     (let orgRow = (if truthy oid then List.find (\<lambda>r. as_organization_id r = oid) settings else None);
          defaultRow = List.find (\<lambda>r. as_organization_id r = None) settings
      in case orgRow of
           Some row \<Rightarrow> toPolicy row FromOrganization
         | None \<Rightarrow> (case defaultRow of
                      Some row \<Rightarrow> toPolicy row FromPlatformDefault
                    | None \<Rightarrow> FAIL_CLOSED_AUTH_POLICY))"

subsection \<open>Decisions\<close>

datatype signup_decision_reason =
    AuthMethodNotAllowed | ByInvitation | ByAutoActive | DomainAutoApproved | InviteRequired | NeedsAdminApproval

record signup_facts =
  sf_provider :: string
  sf_email :: string
  sf_emailVerified :: bool
  sf_emailVerificationWaived :: bool
  sf_hasValidInvitation :: bool

text \<open>\<open>True\<close> is the status \<open>active\<close>, \<open>False\<close> is \<open>pending_approval\<close>.\<close>

definition decideInitialStatus ::
    "org_auth_policy \<Rightarrow> signup_facts \<Rightarrow> bool \<times> signup_decision_reason" where
  "decideInitialStatus policy inp =
     (if sf_hasValidInvitation inp then (True, ByInvitation)
      else if (case allowedAuthMethods policy of None \<Rightarrow> False | Some ms \<Rightarrow> sf_provider inp \<notin> set ms)
      then (False, AuthMethodNotAllowed)
      else if signupApprovalMode policy = AutoActive then (True, ByAutoActive)
      else
        (let domain = email_domain (sf_email inp)
         in if sf_emailVerified inp \<and> \<not> sf_emailVerificationWaived inp \<and>
               requireEmailVerification policy \<and> domain \<noteq> None \<and>
               (case autoApproveEmailDomains policy of None \<Rightarrow> False | Some ds \<Rightarrow> the domain \<in> set ds)
            then (True, DomainAutoApproved)
            else if signupApprovalMode policy = InviteOnly then (False, InviteRequired)
            else (False, NeedsAdminApproval)))"

definition decision_status :: "bool \<Rightarrow> string" where
  "decision_status active = (if active then ''active'' else ''pending_approval'')"

text \<open>
  The policy that governs a sign-up before the account exists. \<open>dbFails\<close> is the exception any of
  the lookups may raise, which degrades to the strictest policy.
\<close>

definition resolveSignupPolicy ::
    "bool \<Rightarrow> signup_store \<Rightarrow> string \<Rightarrow> string \<Rightarrow> bool \<Rightarrow> string option \<Rightarrow> org_auth_policy" where
  "resolveSignupPolicy dbFails s provider email emailVerified organizationHint =
     (if dbFails then FAIL_CLOSED_AUTH_POLICY
      else
        (case (if truthy organizationHint
               then resolveOrganizationByIdentifier (ss_db s) (the organizationHint) else None) of
           Some hinted \<Rightarrow> getAuthPolicyForOrg (ss_auth_settings s) (Some (org_id hinted))
         | None \<Rightarrow>
             (case (if pr_routesByEmailDomain (resolveProviderOrganization provider emailVerified)
                    then findEmailDomainOrganization (ss_provider_organizations s) email else None) of
                Some mapped \<Rightarrow> getAuthPolicyForOrg (ss_auth_settings s) (Some (po_organization_id mapped))
              | None \<Rightarrow>
                  (case getDefaultOrganization (ss_db s) of
                     None \<Rightarrow> FAIL_CLOSED_AUTH_POLICY
                   | Some org \<Rightarrow> getAuthPolicyForOrg (ss_auth_settings s) (Some (org_id org))))))"

subsection \<open>Activation is justified\<close>

lemma toApprovalMode_None:
  "toApprovalMode v = None \<longleftrightarrow> v \<notin> {''admin_approval'', ''auto_active'', ''invite_only''}"
  by (auto simp: toApprovalMode_def)

text \<open>A decision is active for one of three reasons, each with its evidence.\<close>

lemma decide_active:
  assumes "decideInitialStatus policy inp = (True, reason)"
  obtains "sf_hasValidInvitation inp" "reason = ByInvitation"
  | "signupApprovalMode policy = AutoActive" "reason = ByAutoActive"
    "case allowedAuthMethods policy of None \<Rightarrow> True | Some ms \<Rightarrow> sf_provider inp \<in> set ms"
  | "sf_emailVerified inp" "\<not> sf_emailVerificationWaived inp" "requireEmailVerification policy"
    "\<exists>ds dom. autoApproveEmailDomains policy = Some ds \<and> email_domain (sf_email inp) = Some dom \<and> dom \<in> set ds"
    "reason = DomainAutoApproved"
    "case allowedAuthMethods policy of None \<Rightarrow> True | Some ms \<Rightarrow> sf_provider inp \<in> set ms"
  using assms by (auto simp: decideInitialStatus_def Let_def split: if_splits option.splits)

text \<open>The strictest policy admits nobody without an invitation.\<close>

lemma fail_closed_admits_nobody:
  "fst (decideInitialStatus FAIL_CLOSED_AUTH_POLICY inp) = sf_hasValidInvitation inp"
  by (auto simp: decideInitialStatus_def FAIL_CLOSED_AUTH_POLICY_def Let_def)

end
