(* ===== verification/SingleUse.thy ===== *)
theory SingleUse
  imports Prelude
begin

text \<open>
  One-time credentials. Several components hand out a secret that may be used once (the
  invitation token, the SSO handoff nonce): their stores change by labelled steps, some labels
  are a successful use of a credential, and what each component promises is that a use finds the
  credential unspent and leaves it spent, and that spent stays spent. The consequence, at most
  one success along any interleaving, is proved once here.
\<close>

inductive run :: "('s \<Rightarrow> 'e \<Rightarrow> 's \<Rightarrow> bool) \<Rightarrow> 's \<Rightarrow> 'e list \<Rightarrow> 's \<Rightarrow> bool"
  for step :: "'s \<Rightarrow> 'e \<Rightarrow> 's \<Rightarrow> bool" where
  run_Nil: "run step s [] s"
| run_Cons: "step s e t \<Longrightarrow> run step t es u \<Longrightarrow> run step s (e # es) u"

locale single_use =
  fixes step :: "'s \<Rightarrow> 'e \<Rightarrow> 's \<Rightarrow> bool"
    and ok :: "'s \<Rightarrow> bool"
    and spent :: "'s \<Rightarrow> 'i \<Rightarrow> bool"
    and uses :: "'e \<Rightarrow> 'i \<Rightarrow> bool"
  assumes ok_step: "step s e s' \<Longrightarrow> ok s \<Longrightarrow> ok s'"
    and use_unspent: "step s e s' \<Longrightarrow> ok s \<Longrightarrow> uses e i \<Longrightarrow> \<not> spent s i"
    and use_spends: "step s e s' \<Longrightarrow> ok s \<Longrightarrow> uses e i \<Longrightarrow> spent s' i"
    and spent_stays: "step s e s' \<Longrightarrow> ok s \<Longrightarrow> spent s i \<Longrightarrow> spent s' i"
begin

lemma ok_run: "run step s es u \<Longrightarrow> ok s \<Longrightarrow> ok u"
  by (induction rule: run.induct) (auto dest: ok_step)

lemma spent_run: "run step s es u \<Longrightarrow> ok s \<Longrightarrow> spent s i \<Longrightarrow> spent u i \<and> filter (\<lambda>e. uses e i) es = []"
proof (induction rule: run.induct)
  case (run_Cons s e t es u)
  then show ?case using use_unspent spent_stays ok_step by fastforce
qed simp

lemma at_most_once: "run step s es u \<Longrightarrow> ok s \<Longrightarrow> length (filter (\<lambda>e. uses e i) es) \<le> 1"
proof (induction rule: run.induct)
  case (run_Cons s e t es u)
  show ?case
  proof (cases "uses e i")
    case True
    with run_Cons use_spends ok_step have "spent t i" "ok t" by blast+
    with spent_run run_Cons.hyps(2) have "filter (\<lambda>e. uses e i) es = []" by blast
    with True show ?thesis by simp
  next
    case False
    with run_Cons ok_step show ?thesis by simp
  qed
qed simp

end

subsection \<open>Credentials kept as rows\<close>

text \<open>
  The stores keep a credential as a row under its key; a row is live while it may still be used.
  The keys ever issued are remembered, because a generated key is not issued twice.
\<close>

definition live_keys :: "('r \<Rightarrow> 'i) \<Rightarrow> ('r \<Rightarrow> bool) \<Rightarrow> 'r table \<Rightarrow> 'i set" where
  "live_keys key live t = key ` {r \<in> set t. live r}"

definition table_ok :: "('r \<Rightarrow> 'i) \<Rightarrow> 'i list \<Rightarrow> 'r table \<Rightarrow> bool" where
  "table_ok key issued t \<longleftrightarrow> distinct (map key t) \<and> key ` set t \<subseteq> set issued"

definition key_spent :: "('r \<Rightarrow> 'i) \<Rightarrow> ('r \<Rightarrow> bool) \<Rightarrow> 'i list \<Rightarrow> 'r table \<Rightarrow> 'i \<Rightarrow> bool" where
  "key_spent key live issued t i \<longleftrightarrow> i \<in> set issued \<and> i \<notin> live_keys key live t"

definition shrinks :: "('r \<Rightarrow> 'i) \<Rightarrow> ('r \<Rightarrow> bool) \<Rightarrow> 'r table \<Rightarrow> 'r table \<Rightarrow> bool" where
  "shrinks key live t t' \<longleftrightarrow> live_keys key live t' \<subseteq> live_keys key live t \<and> key ` set t' \<subseteq> key ` set t \<and>
     (distinct (map key t) \<longrightarrow> distinct (map key t'))"

lemma live_keys_append:
  "live_keys key live (t @ [r]) = live_keys key live t \<union> (if live r then {key r} else {})"
  by (auto simp: live_keys_def)

lemma shrinks_refl [simp]: "shrinks key live t t"
  by (simp add: shrinks_def)

lemma shrinks_delete [simp]: "shrinks key live t (delete_where P t)"
  by (auto simp: shrinks_def live_keys_def delete_where_def distinct_map intro: inj_on_subset)

lemma shrinks_update:
  assumes "\<And>r. P r \<Longrightarrow> key (f r) = key r" "\<And>r. P r \<Longrightarrow> live (f r) \<Longrightarrow> live r"
  shows "shrinks key live t (update_where P f t)"
proof -
  have keys: "map key (update_where P f t) = map key t" using assms(1) by (rule map_update_where_same)
  have "live_keys key live (update_where P f t) \<subseteq> live_keys key live t"
  proof
    fix i assume "i \<in> live_keys key live (update_where P f t)"
    then obtain q where "q \<in> set t" "live (if P q then f q else q)" "i = key (if P q then f q else q)"
      by (auto simp: live_keys_def update_where_def)
    with assms show "i \<in> live_keys key live t" by (cases "P q") (auto simp: live_keys_def)
  qed
  moreover have "key ` set (update_where P f t) = key ` set t" using arg_cong [OF keys, of set] by simp
  ultimately show ?thesis using keys by (simp add: shrinks_def)
qed

lemma update_kills:
  assumes "distinct (map key t)" "p \<in> set t" "P p"
    and "\<And>r. P r \<Longrightarrow> key (f r) = key r" "\<And>r. P r \<Longrightarrow> \<not> live (f r)"
  shows "key p \<notin> live_keys key live (update_where P f t)"
proof
  assume "key p \<in> live_keys key live (update_where P f t)"
  then obtain q where q: "q \<in> set t" "live (if P q then f q else q)" "key p = key (if P q then f q else q)"
    by (auto simp: live_keys_def update_where_def)
  with assms have "key q = key p" by (cases "P q") auto
  with assms(1,2) q(1) have "q = p" by (auto simp: distinct_map inj_on_def)
  with q(2) assms(3,5) show False by simp
qed

text \<open>A step issues one new key or none, and makes nothing live that was not.\<close>

locale credential_table =
  fixes step :: "'s \<Rightarrow> 'e \<Rightarrow> 's \<Rightarrow> bool"
    and rows :: "'s \<Rightarrow> 'r table"
    and issued :: "'s \<Rightarrow> 'i list"
    and key :: "'r \<Rightarrow> 'i"
    and live :: "'r \<Rightarrow> bool"
    and uses :: "'e \<Rightarrow> 'i \<Rightarrow> bool"
  assumes shape: "step s e s' \<Longrightarrow>
      set (issued s) \<subseteq> set (issued s') \<and> shrinks key live (rows s) (rows s') \<or>
      (\<exists>t r. shrinks key live (rows s) t \<and> rows s' = t @ [r] \<and> key r \<notin> set (issued s) \<and>
        issued s' = key r # issued s)"
    and use_live: "step s e s' \<Longrightarrow> uses e i \<Longrightarrow> i \<in> live_keys key live (rows s)"
    and use_kills: "step s e s' \<Longrightarrow> uses e i \<Longrightarrow> distinct (map key (rows s)) \<Longrightarrow>
      i \<notin> live_keys key live (rows s') \<and> set (issued s) \<subseteq> set (issued s')"
begin

lemma table_ok_step:
  assumes "step s e s'" "table_ok key (issued s) (rows s)"
  shows "table_ok key (issued s') (rows s')"
  using shape [OF assms(1)]
proof
  assume "set (issued s) \<subseteq> set (issued s') \<and> shrinks key live (rows s) (rows s')"
  with assms(2) show ?thesis unfolding table_ok_def shrinks_def by (metis subset_trans)
next
  assume "\<exists>t r. shrinks key live (rows s) t \<and> rows s' = t @ [r] \<and> key r \<notin> set (issued s) \<and>
    issued s' = key r # issued s"
  then obtain t r where t: "shrinks key live (rows s) t" "rows s' = t @ [r]" "key r \<notin> set (issued s)"
    "issued s' = key r # issued s" by blast
  with assms(2) have "key ` set t \<subseteq> set (issued s)" "distinct (map key t)"
    unfolding table_ok_def shrinks_def by (metis subset_trans)+
  with t show ?thesis by (auto simp: table_ok_def)
qed

lemma spent_step:
  assumes "step s e s'" "key_spent key live (issued s) (rows s) i"
  shows "key_spent key live (issued s') (rows s') i"
  using shape [OF assms(1)] assms(2)
  by (auto simp: key_spent_def shrinks_def live_keys_append split: if_splits)

end

sublocale credential_table \<subseteq> single_use step "\<lambda>s. table_ok key (issued s) (rows s)"
  "\<lambda>s. key_spent key live (issued s) (rows s)" uses
proof
  show "table_ok key (issued s') (rows s')" if "step s e s'" "table_ok key (issued s) (rows s)" for s e s'
    using that by (rule table_ok_step)
  show "\<not> key_spent key live (issued s) (rows s) i" if "step s e s'" "uses e i" for s e s' i
    using use_live [OF that] by (simp add: key_spent_def)
  show "key_spent key live (issued s') (rows s') i"
    if "step s e s'" "table_ok key (issued s) (rows s)" "uses e i" for s e s' i
    using use_live [OF that(1,3)] use_kills [OF that(1,3)] that(2)
    by (auto simp: key_spent_def table_ok_def live_keys_def)
  show "key_spent key live (issued s') (rows s') i"
    if "step s e s'" "key_spent key live (issued s) (rows s) i" for s e s' i
    using that by (rule spent_step)
qed

end
