(* ===== verification/Invitations.thy ===== *)
theory Invitations
  imports Grantable AuthPolicy SingleUse EmailOutbox
begin

text \<open>
  Organization invitations (\<open>src/lib/invitations.server.ts\<close>) and the explicit acceptance route
  (\<open>src/app/api/invitations/accept/route.ts\<close>). The secret and its hash are arguments. The
  checks of an acceptance and its transaction run on states between which other requests may
  write, so the operation takes what they did (\<open>others\<close>) as an argument.
\<close>

definition normalizeEmail :: "string \<Rightarrow> string" where
  "normalizeEmail email = js_lower (trim email)"

record create_invitation_input =
  cv_organizationId :: uuid
  cv_email :: string
  cv_roleId :: "uuid option"
  cv_invitedByAppUserId :: "uuid option"

text \<open>
  The insert, with the two unique keys of the table: the token hash, and one pending row per
  organization and address. \<open>None\<close> is their violation.
\<close>

definition createInvitation ::
    "(string \<Rightarrow> string) \<Rightarrow> signup_store \<Rightarrow> millis \<Rightarrow> create_invitation_input \<Rightarrow> uuid \<Rightarrow> string \<Rightarrow>
     (signup_store \<times> uuid \<times> string \<times> millis) option" where
  "createInvitation hashSecret s now inp newId plaintextToken =
     (let row = \<lparr>inv_id = newId, inv_organization_id = cv_organizationId inp,
            inv_email = normalizeEmail (cv_email inp), inv_role_id = cv_roleId inp,
            inv_token_hash = hashSecret plaintextToken, inv_status = ''pending'',
            inv_invited_by = cv_invitedByAppUserId inp, inv_expires_at = now + INVITATION_TTL_MS,
            inv_accepted_at = None, inv_accepted_app_user_id = None, inv_revoked_at = None,
            inv_revoked_by = None\<rparr>
      in if \<exists>i \<in> set (ss_invitations s). inv_token_hash i = inv_token_hash row \<or>
              (inv_status i = ''pending'' \<and> inv_organization_id i = inv_organization_id row \<and>
               inv_email i = inv_email row)
         then None
         else Some (s\<lparr>ss_invitations := ss_invitations s @ [row]\<rparr>, newId, plaintextToken, inv_expires_at row))"

definition findValidInvitationByToken ::
    "(string \<Rightarrow> string) \<Rightarrow> signup_store \<Rightarrow> millis \<Rightarrow> string \<Rightarrow> invitation_row option" where
  "findValidInvitationByToken hashSecret s now plaintextToken =
     List.find (\<lambda>i. inv_token_hash i = hashSecret plaintextToken \<and> inv_status i = ''pending'' \<and>
        inv_expires_at i > now \<and> org_is_active (ss_db s) (inv_organization_id i)) (ss_invitations s)"

definition INVITE_PERMISSION :: string where
  "INVITE_PERMISSION = ''admin.orgs.manage''"

definition inviterHasStanding :: "db \<Rightarrow> millis \<Rightarrow> invitation_row \<Rightarrow> bool" where
  "inviterHasStanding d now invitation =
     (case inv_invited_by invitation of
        None \<Rightarrow> False
      | Some inviterId \<Rightarrow>
          if inviterId = [] then False
          else (case List.find (\<lambda>u. au_id u = inviterId) (app_users d) of
                  None \<Rightarrow> False
                | Some inviter \<Rightarrow>
                    if au_status inviter \<noteq> ''active'' then False
                    else if isBetterAuthUserBanned d now (au_better_auth_user_id inviter) then False
                    else if userIsGlobalSuperuser d inviterId then True
                    else (let held = permissionKeysHeldInOrg d inviterId (inv_organization_id invitation)
                          in INVITE_PERMISSION \<in> set held \<or> SUPERADMIN_PERMISSION \<in> set held)))"

datatype invitation_audit =
    InvitationAccessDenied uuid uuid      \<comment> \<open>the voided invitation and its organization\<close>
  | InvitationAccepted uuid uuid bool     \<comment> \<open>the invitation, the accepting account, whether the role was granted\<close>
  | ActiveOrganizationChanged uuid uuid

text \<open>An invitation whose inviter lost standing is voided; the audit row only when it was pending.\<close>

definition enforceInviterStanding ::
    "signup_store \<Rightarrow> millis \<Rightarrow> invitation_row \<Rightarrow> signup_store \<times> invitation_audit list \<times> bool" where
  "enforceInviterStanding s now invitation =
     (if inviterHasStanding (ss_db s) now invitation then (s, [], True)
      else
        (let hit = (\<lambda>i. inv_id i = inv_id invitation \<and> inv_status i = ''pending'');
             voided = count_where hit (ss_invitations s)
         in (s\<lparr>ss_invitations := update_where hit
                 (\<lambda>i. i\<lparr>inv_status := ''revoked'', inv_revoked_at := Some now, inv_revoked_by := None\<rparr>)
                 (ss_invitations s)\<rparr>,
             if voided > 0 then [InvitationAccessDenied (inv_id invitation) (inv_organization_id invitation)] else [],
             False)))"

definition inviterMayConferRole :: "db \<Rightarrow> uuid option \<Rightarrow> uuid \<Rightarrow> uuid \<Rightarrow> bool" where
  "inviterMayConferRole d invitedBy roleId organizationId =
     (case invitedBy of
        None \<Rightarrow> False
      | Some inviter \<Rightarrow>
          if inviter = [] then False
          else if userIsGlobalSuperuser d inviter then True
          else (let conferred = permissionKeysForRoles d [roleId]
                in if conferred = [] then True
                   else unheldPermissionKeys (permissionKeysHeldInOrg d inviter organizationId) conferred = []))"

subsection \<open>Acceptance\<close>

datatype consume_reason = AlreadyConsumed | EmailMismatch | UserNotEligible | InviterLacksStanding

datatype consume_result = Consumed bool | NotConsumed consume_reason

record invited_user =
  iu_id :: uuid
  iu_primaryEmail :: string
  iu_status :: string

text \<open>The inserts of the transaction do nothing on a duplicate key.\<close>

definition find_membership :: "db \<Rightarrow> uuid \<Rightarrow> uuid \<Rightarrow> membership_row option" where
  "find_membership d uid oid =
     List.find (\<lambda>m. mb_app_user_id m = uid \<and> mb_organization_id m = oid) (app_organization_memberships d)"

definition join_organization :: "db \<Rightarrow> millis \<Rightarrow> uuid \<Rightarrow> uuid \<Rightarrow> uuid \<Rightarrow> string \<Rightarrow> db" where
  "join_organization d now newId uid oid source =
     (case find_membership d uid oid of
        None \<Rightarrow>
          d\<lparr>app_organization_memberships := app_organization_memberships d @
              [\<lparr>mb_id = newId, mb_organization_id = oid, mb_app_user_id = uid, mb_status = ''active'',
                mb_source_provider = Some source, mb_provider_organization_key = None,
                mb_pre_deactivation_status = None, mb_created_at = now\<rparr>]\<rparr>
      | Some m \<Rightarrow>
          if mb_status m = ''pending_approval''
          then d\<lparr>app_organization_memberships :=
                   update_where (\<lambda>x. mb_id x = mb_id m \<and> mb_status x = ''pending_approval'')
                     (\<lambda>x. x\<lparr>mb_status := ''active'', mb_pre_deactivation_status := None\<rparr>)
                     (app_organization_memberships d)\<rparr>
          else d)"

definition activate_account :: "db \<Rightarrow> uuid \<Rightarrow> db" where
  "activate_account d uid =
     d\<lparr>app_users := update_where (\<lambda>u. au_id u = uid \<and> au_status u = ''pending_approval'')
         (\<lambda>u. u\<lparr>au_status := ''active''\<rparr>) (app_users d)\<rparr>"

definition grant_role :: "db \<Rightarrow> uuid \<Rightarrow> uuid \<Rightarrow> uuid \<Rightarrow> db" where
  "grant_role d uid oid rid =
     (let row = \<lparr>ur_app_user_id = uid, ur_organization_id = oid, ur_role_id = rid\<rparr>
      in if row \<in> set (app_user_roles d) then d
         else d\<lparr>app_user_roles := app_user_roles d @ [row]\<rparr>)"

text \<open>
  The transaction: \<open>None\<close> when the flip found nothing to consume, else the state and whether the
  invitation's role was granted.
\<close>

definition consume_transaction ::
    "signup_store \<Rightarrow> millis \<Rightarrow> invitation_row \<Rightarrow> invited_user \<Rightarrow> bool \<Rightarrow> string \<Rightarrow> uuid \<Rightarrow>
     (signup_store \<times> bool) option" where
  "consume_transaction s now invitation appUser inviterMayConfer source newId =
     (let oid = inv_organization_id invitation;
          hit = (\<lambda>i. inv_id i = inv_id invitation \<and> inv_status i = ''pending'' \<and>
                   org_is_active (ss_db s) (inv_organization_id i));
          role = Option.bind (inv_role_id invitation) (\<lambda>rid.
            List.find (\<lambda>r. role_id r = rid \<and> role_organization_id r = Some oid) (app_roles (ss_db s)))
      in if count_where hit (ss_invitations s) = 0 then None
         else
           (let invitations = update_where hit
                  (\<lambda>i. i\<lparr>inv_status := ''accepted'', inv_accepted_at := Some now,
                         inv_accepted_app_user_id := Some (iu_id appUser)\<rparr>) (ss_invitations s);
                d1 = activate_account (join_organization (ss_db s) now newId (iu_id appUser) oid source) (iu_id appUser);
                out = (if truthy (inv_role_id invitation) \<and> \<not> userIsGrantEligible d1 (iu_id appUser) oid
                       then (d1, False)
                       else (case role of
                               Some r \<Rightarrow> if inviterMayConfer
                                         then (grant_role d1 (iu_id appUser) oid (role_id r), True)
                                         else (d1, False)
                             | None \<Rightarrow> (d1, False)))
            in Some (s\<lparr>ss_db := fst out, ss_invitations := invitations\<rparr>, snd out)))"

definition consumeInvitation ::
    "(signup_store \<Rightarrow> signup_store) \<Rightarrow> signup_store \<Rightarrow> millis \<Rightarrow> invitation_row \<Rightarrow> invited_user \<Rightarrow>
     string option \<Rightarrow> uuid \<Rightarrow> signup_store \<times> invitation_audit list \<times> consume_result" where
  "consumeInvitation others s now invitation appUser provider newId =
     (if normalizeEmail (iu_primaryEmail appUser) \<noteq> normalizeEmail (inv_email invitation)
      then (s, [], NotConsumed EmailMismatch)
      else if iu_status appUser \<noteq> ''active'' \<and> iu_status appUser \<noteq> ''pending_approval''
      then (s, [], NotConsumed UserNotEligible)
      else
        (case enforceInviterStanding s now invitation of
           (s1, ev, False) \<Rightarrow> (s1, ev, NotConsumed InviterLacksStanding)
         | (s1, ev, True) \<Rightarrow>
             (let inviterMayConfer =
                    (case inv_role_id invitation of
                       None \<Rightarrow> False
                     | Some rid \<Rightarrow> inviterMayConferRole (ss_db s1) (inv_invited_by invitation) rid
                                     (inv_organization_id invitation))
              in case consume_transaction (others s1) now invitation appUser inviterMayConfer
                        (case provider of Some p \<Rightarrow> p | None \<Rightarrow> ''invitation'') newId of
                   None \<Rightarrow> (others s1, [], NotConsumed AlreadyConsumed)
                 | Some (s2, roleGranted) \<Rightarrow>
                     (s2, [InvitationAccepted (inv_id invitation) (iu_id appUser) roleGranted],
                      Consumed roleGranted))))"

definition revokeInvitation ::
    "signup_store \<Rightarrow> millis \<Rightarrow> uuid \<Rightarrow> uuid \<Rightarrow> uuid \<Rightarrow> signup_store \<times> bool" where
  "revokeInvitation s now invitationId organizationId revokedBy =
     (let hit = (\<lambda>i. inv_id i = invitationId \<and> inv_organization_id i = organizationId \<and> inv_status i = ''pending'')
      in (s\<lparr>ss_invitations := update_where hit
              (\<lambda>i. i\<lparr>inv_status := ''revoked'', inv_revoked_at := Some now, inv_revoked_by := Some revokedBy\<rparr>)
              (ss_invitations s)\<rparr>,
          count_where hit (ss_invitations s) > 0))"

definition regenerateInvitationToken ::
    "(string \<Rightarrow> string) \<Rightarrow> signup_store \<Rightarrow> millis \<Rightarrow> uuid \<Rightarrow> uuid \<Rightarrow> string \<Rightarrow>
     signup_store \<times> (string \<times> millis) option" where
  "regenerateInvitationToken hashSecret s now invitationId organizationId plaintextToken =
     (let hit = (\<lambda>i. inv_id i = invitationId \<and> inv_organization_id i = organizationId \<and> inv_status i = ''pending'');
          expiresAt = now + INVITATION_TTL_MS
      in (s\<lparr>ss_invitations := update_where hit
              (\<lambda>i. i\<lparr>inv_token_hash := hashSecret plaintextToken, inv_expires_at := expiresAt\<rparr>)
              (ss_invitations s)\<rparr>,
          if count_where hit (ss_invitations s) = 0 then None else Some (plaintextToken, expiresAt)))"

subsection \<open>The acceptance route\<close>

record accept_session =
  acs_user_id :: uuid
  acs_email :: string
  acs_impersonatorId :: "uuid option"

datatype accept_response =
    AcceptError string int
  | AcceptOk uuid "uuid option"      \<comment> \<open>the organization, and the one the cookie is pinned to\<close>

definition accept_POST ::
    "(string \<Rightarrow> string) \<Rightarrow> (signup_store \<Rightarrow> signup_store) \<Rightarrow> signup_store \<Rightarrow> millis \<Rightarrow> bool \<Rightarrow>
     accept_session option \<Rightarrow> accept_response option \<Rightarrow> string option \<Rightarrow> uuid \<Rightarrow>
     signup_store \<times> invitation_audit list \<times> accept_response" where
  "accept_POST hashSecret others s now originOk session limited token newId =
     (if \<not> originOk then (s, [], AcceptError ''untrusted_origin'' 403)
      else (case session of
        None \<Rightarrow> (s, [], AcceptError ''unauthenticated'' 401)
      | Some sess \<Rightarrow>
      (case limited of
        Some r \<Rightarrow> (s, [], r)
      | None \<Rightarrow>
      (case Option.bind token (\<lambda>t. if 1 \<le> length t \<and> length t \<le> 128 then Some t else None) of
        None \<Rightarrow> (s, [], AcceptError ''invalid_body'' 400)
      | Some t \<Rightarrow>
      (case findValidInvitationByToken hashSecret s now t of
        None \<Rightarrow> (s, [], AcceptError ''invitation_invalid'' 404)
      | Some invitation \<Rightarrow>
          (let sessionEmail = js_lower (trim (acs_email sess))
           in if sessionEmail \<noteq> inv_email invitation then (s, [], AcceptError ''invitation_email_mismatch'' 403)
              else (case List.find (\<lambda>u. au_better_auth_user_id u = acs_user_id sess) (app_users (ss_db s)) of
                None \<Rightarrow> (s, [], AcceptError ''forbidden'' 403)
              | Some u \<Rightarrow>
                  (case consumeInvitation others s now invitation
                          \<lparr>iu_id = au_id u, iu_primaryEmail = sessionEmail, iu_status = au_status u\<rparr> None newId of
                     (s', ev, NotConsumed UserNotEligible) \<Rightarrow> (s', ev, AcceptError ''forbidden'' 403)
                   | (s', ev, NotConsumed EmailMismatch) \<Rightarrow> (s', ev, AcceptError ''invitation_email_mismatch'' 403)
                   | (s', ev, NotConsumed _) \<Rightarrow> (s', ev, AcceptError ''invitation_invalid'' 404)
                   | (s', ev, Consumed _) \<Rightarrow>
                       (let oid = inv_organization_id invitation;
                            pin = (\<not> truthy (acs_impersonatorId sess) \<and> userHasActiveMembership (ss_db s') (au_id u) oid)
                        in (s', ev @ (if pin then [ActiveOrganizationChanged (au_id u) oid] else []),
                            AcceptOk oid (if pin then Some oid else None)))))))))))"

subsection \<open>What an acceptance needs and does\<close>

lemma enforce_db [simp]: "ss_db (fst (enforceInviterStanding s now i)) = ss_db s"
  by (simp add: enforceInviterStanding_def Let_def)

lemma enforce_True: "enforceInviterStanding s now i = (s1, ev, True) \<Longrightarrow> s1 = s \<and> ev = [] \<and> inviterHasStanding (ss_db s) now i"
  by (auto simp: enforceInviterStanding_def Let_def split: if_splits)

lemma count_where_pos: "0 < count_where P t \<longleftrightarrow> (\<exists>x \<in> set t. P x)"
  by (auto simp: count_where_def filter_empty_conv)

lemma consumed_parts:
  assumes "consumeInvitation others s now iv u provider newId = (s', ev, Consumed granted)"
  shows "normalizeEmail (iu_primaryEmail u) = normalizeEmail (inv_email iv)"
    "iu_status u = ''active'' \<or> iu_status u = ''pending_approval''"
    "inviterHasStanding (ss_db s) now iv"
    "consume_transaction (others s) now iv u
       (case inv_role_id iv of None \<Rightarrow> False
        | Some rid \<Rightarrow> inviterMayConferRole (ss_db s) (inv_invited_by iv) rid (inv_organization_id iv))
       (case provider of Some p \<Rightarrow> p | None \<Rightarrow> ''invitation'') newId = Some (s', granted)"
  using assms enforce_True
  by (fastforce simp: consumeInvitation_def Let_def split: if_splits prod.splits bool.splits option.splits)+

lemma transaction_parts:
  assumes "consume_transaction s now iv u may source newId = Some (s', granted)"
  shows "\<exists>i \<in> set (ss_invitations s). inv_id i = inv_id iv \<and> inv_status i = ''pending'' \<and>
      org_is_active (ss_db s) (inv_organization_id i)"
    "ss_invitations s' = update_where (\<lambda>i. inv_id i = inv_id iv \<and> inv_status i = ''pending'' \<and>
         org_is_active (ss_db s) (inv_organization_id i))
       (\<lambda>i. i\<lparr>inv_status := ''accepted'', inv_accepted_at := Some now,
              inv_accepted_app_user_id := Some (iu_id u)\<rparr>) (ss_invitations s)"
  using assms count_where_pos [of _ "ss_invitations s"]
  by (auto simp: consume_transaction_def Let_def split: if_splits)

definition joined :: "signup_store \<Rightarrow> millis \<Rightarrow> invitation_row \<Rightarrow> invited_user \<Rightarrow> string \<Rightarrow> uuid \<Rightarrow> db" where
  "joined s now iv u source newId =
     activate_account (join_organization (ss_db s) now newId (iu_id u) (inv_organization_id iv) source) (iu_id u)"

lemma transaction_db:
  assumes "consume_transaction s now iv u may source newId = Some (s', granted)"
  shows "granted \<Longrightarrow> may \<and> (\<exists>rid. inv_role_id iv = Some rid \<and>
      (\<exists>r \<in> set (app_roles (ss_db s)). role_id r = rid \<and> role_organization_id r = Some (inv_organization_id iv)) \<and>
      (rid \<noteq> [] \<longrightarrow> userIsGrantEligible (joined s now iv u source newId) (iu_id u) (inv_organization_id iv)) \<and>
      ss_db s' = grant_role (joined s now iv u source newId) (iu_id u) (inv_organization_id iv) rid)"
    and "\<not> granted \<Longrightarrow> ss_db s' = joined s now iv u source newId"
  using assms unfolding consume_transaction_def Let_def joined_def [symmetric]
  by (auto split: if_splits option.splits dest!: find_Some_iff_set simp: bind_eq_Some_conv)

text \<open>Joining creates or activates one membership of one account in one organization.\<close>

lemma find_membership_Some:
  "find_membership d uid oid = Some m \<Longrightarrow> m \<in> set (app_organization_memberships d) \<and>
     mb_app_user_id m = uid \<and> mb_organization_id m = oid"
  using find_Some_iff_set by (fastforce simp: find_membership_def)

lemma joined_member:
  "(\<exists>m \<in> set (app_organization_memberships (joined s now iv u source newId)).
      mb_app_user_id m = iu_id u \<and> mb_organization_id m = inv_organization_id iv \<and>
      (mb_status m = ''active'' \<or> m \<in> set (app_organization_memberships (ss_db s)) \<and> mb_status m \<noteq> ''pending_approval''))"
proof (cases "find_membership (ss_db s) (iu_id u) (inv_organization_id iv)")
  case None
  then show ?thesis by (auto simp: joined_def activate_account_def join_organization_def)
next
  case (Some m)
  note m = find_membership_Some [OF Some]
  show ?thesis
  proof (cases "mb_status m = ''pending_approval''")
    case True
    let ?m = "m\<lparr>mb_status := ''active'', mb_pre_deactivation_status := None\<rparr>"
    from True m Some have "?m \<in> set (app_organization_memberships (joined s now iv u source newId))"
      by (simp add: joined_def activate_account_def join_organization_def table_simps) (metis (mono_tags, lifting))
    with m show ?thesis by (intro bexI [of _ ?m]) auto
  next
    case False
    with Some m show ?thesis
      by (auto simp: joined_def activate_account_def join_organization_def intro!: bexI [of _ m])
  qed
qed

lemma joined_tables:
  "app_roles (joined s now iv u source newId) = app_roles (ss_db s)"
  "app_user_roles (joined s now iv u source newId) = app_user_roles (ss_db s)"
  "app_role_permissions (joined s now iv u source newId) = app_role_permissions (ss_db s)"
  "app_permissions (joined s now iv u source newId) = app_permissions (ss_db s)"
  "app_groups (joined s now iv u source newId) = app_groups (ss_db s)"
  by (auto simp: joined_def activate_account_def join_organization_def split: option.split)

lemma update_where_ex:
  "\<exists>x \<in> set t. P x \<and> Q (f x) \<Longrightarrow> \<exists>x \<in> set (update_where P f t). Q x"
  by (force simp: table_simps)

lemma grant_role_tables:
  "app_organization_memberships (grant_role d uid oid rid) = app_organization_memberships d"
  "app_roles (grant_role d uid oid rid) = app_roles d"
  by (simp_all add: grant_role_def Let_def)

lemma grant_eligible_active: "userIsGrantEligible d uid oid \<longleftrightarrow> has_active_membership d uid oid"
  by (auto simp: userIsGrantEligible_def grantEligibleUserIds_def has_active_membership_def
      GRANT_ELIGIBLE_MEMBERSHIP_STATUS_def filter_empty_conv)

lemma conferred_held:
  assumes "inviterMayConferRole d invitedBy rid oid"
  shows "\<exists>inviter. invitedBy = Some inviter \<and>
    (userIsGlobalSuperuser d inviter \<or>
     set (permissionKeysForRoles d [rid]) \<subseteq> set (permissionKeysHeldInOrg d inviter oid))"
  using assms by (cases invitedBy) (auto simp: inviterMayConferRole_def Let_def split: if_splits)

text \<open>
  C34: an accepted invitation was acceptable and confers no more than its inviter could: the
  addressee's email matches, the account was not denied, the inviter still had the standing to
  invite, and the transaction found the invitation pending in an active organization; it is then
  accepted by that account, which is a member there; and the only role it may have gained is the
  invitation's own role of that organization, granted to an active member, with every permission
  held by the inviter there unless the inviter is a superadmin.
\<close>

theorem acceptance_justified:
  assumes "consumeInvitation others s now iv u provider newId = (s', ev, Consumed granted)"
  shows "normalizeEmail (iu_primaryEmail u) = normalizeEmail (inv_email iv) \<and>
    iu_status u \<in> {''active'', ''pending_approval''} \<and>
    inviterHasStanding (ss_db s) now iv \<and>
    (\<exists>i \<in> set (ss_invitations (others s)). inv_id i = inv_id iv \<and> inv_status i = ''pending'' \<and>
       org_is_active (ss_db (others s)) (inv_organization_id i)) \<and>
    (\<exists>i \<in> set (ss_invitations s'). inv_id i = inv_id iv \<and> inv_status i = ''accepted'' \<and>
       inv_accepted_app_user_id i = Some (iu_id u)) \<and>
    userHasMembershipInOrg (ss_db s') (iu_id u) (inv_organization_id iv) \<and>
    (\<forall>ur \<in> set (app_user_roles (ss_db s')). ur \<in> set (app_user_roles (ss_db (others s))) \<or>
       granted \<and> ur_app_user_id ur = iu_id u \<and> ur_organization_id ur = inv_organization_id iv \<and>
       inv_role_id iv = Some (ur_role_id ur) \<and>
       (\<exists>r \<in> set (app_roles (ss_db s')). role_id r = ur_role_id ur \<and>
          role_organization_id r = Some (inv_organization_id iv)) \<and>
       (ur_role_id ur \<noteq> [] \<longrightarrow> has_active_membership (ss_db s') (iu_id u) (inv_organization_id iv)) \<and>
       (\<exists>inviter. inv_invited_by iv = Some inviter \<and>
          (userIsGlobalSuperuser (ss_db s) inviter \<or>
           set (permissionKeysForRoles (ss_db s) [ur_role_id ur]) \<subseteq>
             set (permissionKeysHeldInOrg (ss_db s) inviter (inv_organization_id iv)))))"
proof -
  note c = consumed_parts [OF assms]
  note t = transaction_parts [OF c(4)] and db = transaction_db [OF c(4)]
  let ?j = "joined (others s) now iv u (case provider of Some p \<Rightarrow> p | None \<Rightarrow> ''invitation'') newId"
  have same: "app_organization_memberships (ss_db s') = app_organization_memberships ?j"
    "app_roles (ss_db s') = app_roles ?j"
    using db grant_role_tables by metis+
  have acc: "\<exists>i \<in> set (ss_invitations s'). inv_id i = inv_id iv \<and> inv_status i = ''accepted'' \<and>
       inv_accepted_app_user_id i = Some (iu_id u)"
    using t(1) unfolding t(2) by (intro update_where_ex) auto
  have mem: "userHasMembershipInOrg (ss_db s') (iu_id u) (inv_organization_id iv)"
    using joined_member [where s = "others s" and u = u and iv = iv] unfolding userHasMembershipInOrg_def same by blast
  have gain: "granted \<and> ur_app_user_id ur = iu_id u \<and> ur_organization_id ur = inv_organization_id iv \<and>
       inv_role_id iv = Some (ur_role_id ur) \<and>
       (\<exists>r \<in> set (app_roles (ss_db s')). role_id r = ur_role_id ur \<and>
          role_organization_id r = Some (inv_organization_id iv)) \<and>
       (ur_role_id ur \<noteq> [] \<longrightarrow> has_active_membership (ss_db s') (iu_id u) (inv_organization_id iv)) \<and>
       (\<exists>inviter. inv_invited_by iv = Some inviter \<and>
          (userIsGlobalSuperuser (ss_db s) inviter \<or>
           set (permissionKeysForRoles (ss_db s) [ur_role_id ur]) \<subseteq>
             set (permissionKeysHeldInOrg (ss_db s) inviter (inv_organization_id iv))))"
    if ur: "ur \<in> set (app_user_roles (ss_db s'))" "ur \<notin> set (app_user_roles (ss_db (others s)))" for ur
  proof (cases granted)
    case False
    with db(2) ur show ?thesis by (simp add: joined_tables)
  next
    case True
    then obtain rid where r: "inv_role_id iv = Some rid"
      "\<exists>r \<in> set (app_roles (ss_db (others s))). role_id r = rid \<and> role_organization_id r = Some (inv_organization_id iv)"
      "rid \<noteq> [] \<longrightarrow> userIsGrantEligible ?j (iu_id u) (inv_organization_id iv)"
      "ss_db s' = grant_role ?j (iu_id u) (inv_organization_id iv) rid"
      "inviterMayConferRole (ss_db s) (inv_invited_by iv) rid (inv_organization_id iv)"
      using db(1) by (auto split: option.splits)
    have "ur = \<lparr>ur_app_user_id = iu_id u, ur_organization_id = inv_organization_id iv, ur_role_id = rid\<rparr>"
      using ur r(4) by (auto simp: grant_role_def Let_def joined_tables split: if_splits)
    with True r(1-3) conferred_held [OF r(5)] same show ?thesis
      by (auto simp: grant_eligible_active joined_tables has_active_membership_def)
  qed
  show ?thesis using c(1-3) t(1) acc mem gain by blast
qed

definition sample_signup_store :: signup_store where
  "sample_signup_store =
     \<lparr>ss_db = sample_db\<lparr>app_permissions := app_permissions sample_db @ [\<lparr>perm_id = ''p4'', perm_key = ''admin.orgs.manage''\<rparr>],
              app_role_permissions := app_role_permissions sample_db @ [\<lparr>rp_role_id = ''r1'', rp_permission_id = ''p4''\<rparr>],
              app_users := app_users sample_db @
                [\<lparr>au_id = ''u4'', au_better_auth_user_id = ''b4'', au_primary_email = ''new@x'', au_display_name = None,
                  au_status = ''pending_approval'', au_status_reason = None, au_preferred_locale = ''en'',
                  au_deactivated_at = None, au_deactivated_by = None, au_deactivated_reason = None, au_created_at = 4\<rparr>]\<rparr>,
      ss_auth_settings = [], ss_provider_organizations = [],
      ss_invitations =
        [\<lparr>inv_id = ''i1'', inv_organization_id = ''A'', inv_email = ''new@x'', inv_role_id = Some ''r1'',
          inv_token_hash = ''h1'', inv_status = ''pending'', inv_invited_by = Some ''u2'', inv_expires_at = 9000,
          inv_accepted_at = None, inv_accepted_app_user_id = None, inv_revoked_at = None,
          inv_revoked_by = None\<rparr>]\<rparr>"

definition sample_invitee :: invited_user where
  "sample_invitee = \<lparr>iu_id = ''u4'', iu_primaryEmail = '' New@X'', iu_status = ''pending_approval''\<rparr>"

lemma acceptance_justified_witness:
  "let r = consumeInvitation (\<lambda>s. s) sample_signup_store 100 (hd (ss_invitations sample_signup_store)) sample_invitee None ''m9''
   in snd (snd r) = Consumed True \<and> inviterHasStanding (ss_db sample_signup_store) 100 (hd (ss_invitations sample_signup_store)) \<and>
      userHasMembershipInOrg (ss_db (fst r)) ''u4'' ''A''"
proof -
  let ?iv = "hd (ss_invitations sample_signup_store)"
  let ?r = "consumeInvitation (\<lambda>s. s) sample_signup_store 100 ?iv sample_invitee None ''m9''"
  have 1: "?r = (fst ?r, fst (snd ?r), Consumed True)" by code_simp
  have 2: "iu_id sample_invitee = ''u4''" "inv_organization_id ?iv = ''A''" by code_simp+
  have 3: "snd (snd ?r) = Consumed True" by (subst 1) simp
  from acceptance_justified [OF 1] 2 3 show ?thesis by (simp add: Let_def)
qed

subsection \<open>Once only\<close>

text \<open>
  The life of the table under every writer. The acceptance's transaction is its own step, for any
  reading the checks before it made; the ids ever issued are remembered, since a generated id is
  not issued twice.
\<close>

record inv_sys =
  is_store :: signup_store
  is_issued :: "uuid list"

datatype inv_event = UsedInvitation uuid | OtherEvent

inductive inv_step :: "(string \<Rightarrow> string) \<Rightarrow> inv_sys \<Rightarrow> inv_event \<Rightarrow> inv_sys \<Rightarrow> bool"
  for hashSecret where
  Create: "newId \<notin> set (is_issued s) \<Longrightarrow>
     createInvitation hashSecret (is_store s) now inp newId tok = Some (st, out) \<Longrightarrow>
     inv_step hashSecret s OtherEvent (s\<lparr>is_store := st, is_issued := newId # is_issued s\<rparr>)"
| Revoke: "inv_step hashSecret s OtherEvent
     (s\<lparr>is_store := fst (revokeInvitation (is_store s) now i oid who)\<rparr>)"
| Resend: "inv_step hashSecret s OtherEvent
     (s\<lparr>is_store := fst (regenerateInvitationToken hashSecret (is_store s) now i oid tok)\<rparr>)"
| Void: "inv_step hashSecret s OtherEvent
     (s\<lparr>is_store := fst (enforceInviterStanding (is_store s) now iv)\<rparr>)"
| Accept: "consume_transaction (is_store s) now iv u may source newId = Some (st, granted) \<Longrightarrow>
     inv_step hashSecret s (UsedInvitation (inv_id iv)) (s\<lparr>is_store := st\<rparr>)"
| Tables: "inv_step hashSecret s OtherEvent (s\<lparr>is_store := (is_store s)\<lparr>ss_db := d\<rparr>\<rparr>)"
| Role_Deleted: "inv_step hashSecret s OtherEvent
     (s\<lparr>is_store := (is_store s)\<lparr>ss_invitations := update_where (\<lambda>i. inv_role_id i = Some rid)
        (\<lambda>i. i\<lparr>inv_role_id := None\<rparr>) (ss_invitations (is_store s))\<rparr>\<rparr>)"
| Inviter_Deleted: "inv_step hashSecret s OtherEvent
     (s\<lparr>is_store := (is_store s)\<lparr>ss_invitations := update_where (\<lambda>i. inv_invited_by i = Some uid)
        (\<lambda>i. i\<lparr>inv_invited_by := None\<rparr>) (ss_invitations (is_store s))\<rparr>\<rparr>)"
| Org_Deleted: "inv_step hashSecret s OtherEvent
     (s\<lparr>is_store := (is_store s)\<lparr>ss_invitations := delete_where (\<lambda>i. inv_organization_id i = oid)
        (ss_invitations (is_store s))\<rparr>\<rparr>)"

inductive_cases inv_used: "inv_step h s (UsedInvitation i) s'"

abbreviation inv_rows :: "inv_sys \<Rightarrow> invitation_row table" where
  "inv_rows s \<equiv> ss_invitations (is_store s)"

abbreviation inv_live :: "invitation_row \<Rightarrow> bool" where
  "inv_live r \<equiv> inv_status r = ''pending''"

lemma created_row:
  assumes "createInvitation h st now inp newId tok = Some (st', out)"
  shows "\<exists>r. inv_id r = newId \<and> ss_invitations st' = ss_invitations st @ [r]"
  using assms by (auto simp: createInvitation_def Let_def split: if_splits)

lemma enforce_shrinks: "shrinks inv_id inv_live (ss_invitations s) (ss_invitations (fst (enforceInviterStanding s now iv)))"
proof (cases "inviterHasStanding (ss_db s) now iv")
  case True
  then show ?thesis by (simp add: enforceInviterStanding_def)
next
  case False
  then show ?thesis by (auto simp: enforceInviterStanding_def Let_def intro!: shrinks_update)
qed

lemma inv_step_shape:
  assumes "inv_step h s e s'"
  shows "set (is_issued s) \<subseteq> set (is_issued s') \<and> shrinks inv_id inv_live (inv_rows s) (inv_rows s') \<or>
    (\<exists>t r. shrinks inv_id inv_live (inv_rows s) t \<and> inv_rows s' = t @ [r] \<and>
       inv_id r \<notin> set (is_issued s) \<and> is_issued s' = inv_id r # is_issued s)"
  using assms
proof cases
  case (Create newId now inp tok st out)
  with created_row [OF Create(4)] show ?thesis by (auto intro!: disjI2 exI [of _ "inv_rows s"])
next
  case (Accept now iv u may source newId st granted)
  then show ?thesis using transaction_parts(2) [OF Accept(3)] by (auto intro!: shrinks_update)
qed (auto simp: revokeInvitation_def regenerateInvitationToken_def enforce_shrinks Let_def intro!: shrinks_update)

lemma inv_use_live:
  "inv_step h s (UsedInvitation i) s' \<Longrightarrow> i \<in> live_keys inv_id inv_live (inv_rows s)"
  by (auto simp: live_keys_def image_iff dest!: transaction_parts(1) elim!: inv_used)

lemma inv_use_kills:
  assumes "inv_step h s (UsedInvitation i) s'" "distinct (map inv_id (inv_rows s))"
  shows "i \<notin> live_keys inv_id inv_live (inv_rows s') \<and> set (is_issued s) \<subseteq> set (is_issued s')"
proof -
  from assms(1) obtain now iv u may source newId st granted where 1: "i = inv_id iv"
      "s' = s\<lparr>is_store := st\<rparr>" "consume_transaction (is_store s) now iv u may source newId = Some (st, granted)"
    by (elim inv_used) blast
  note t = transaction_parts [OF 1(3)]
  obtain p where p: "p \<in> set (inv_rows s)" "inv_id p = i" "inv_live p"
      "org_is_active (ss_db (is_store s)) (inv_organization_id p)" using t(1) 1(1) by blast
  have "inv_id p \<notin> live_keys inv_id inv_live (ss_invitations st)"
    unfolding t(2) by (rule update_kills [OF assms(2) p(1)]) (use p 1(1) in auto)
  with p(2) 1(2) show ?thesis by simp
qed

text \<open>The invitation table keeps the contract of a table of one-time credentials.\<close>

interpretation invitation: credential_table "inv_step h" inv_rows is_issued inv_id inv_live
  "\<lambda>e i. e = UsedInvitation i" for h
proof
  show "set (is_issued s) \<subseteq> set (is_issued s') \<and> shrinks inv_id inv_live (inv_rows s) (inv_rows s') \<or>
    (\<exists>t r. shrinks inv_id inv_live (inv_rows s) t \<and> inv_rows s' = t @ [r] \<and>
       inv_id r \<notin> set (is_issued s) \<and> is_issued s' = inv_id r # is_issued s)"
    if "inv_step h s e s'" for s e s' using that by (rule inv_step_shape)
  show "i \<in> live_keys inv_id inv_live (inv_rows s)"
    if "inv_step h s e s'" "e = UsedInvitation i" for s e s' i
    using inv_use_live that by blast
  show "i \<notin> live_keys inv_id inv_live (inv_rows s') \<and> set (is_issued s) \<subseteq> set (is_issued s')"
    if "inv_step h s e s'" "e = UsedInvitation i" "distinct (map inv_id (inv_rows s))" for s e s' i
    using inv_use_kills that by blast
qed

text \<open>
  C35: An invitation is accepted at most once: whatever invitations are created, re-sent, revoked,
  voided and accepted, and whatever roles, organizations and accounts are deleted between, in any
  order, no invitation's acceptance transaction commits twice.
\<close>

theorem invitation_accepted_once:
  "run (inv_step hashSecret) s es s' \<Longrightarrow> table_ok inv_id (is_issued s) (ss_invitations (is_store s)) \<Longrightarrow>
    length (filter (\<lambda>e. e = UsedInvitation i) es) \<le> 1"
  by (rule invitation.at_most_once)

definition accepted_once :: signup_store where
  "accepted_once = fst (the (consume_transaction sample_signup_store 100 (hd (ss_invitations sample_signup_store))
     sample_invitee True ''invitation'' ''m9''))"

lemma invitation_accepted_once_witness:
  "run (inv_step (\<lambda>s. s)) \<lparr>is_store = sample_signup_store, is_issued = [''i1'']\<rparr> [UsedInvitation ''i1'']
     \<lparr>is_store = accepted_once, is_issued = [''i1'']\<rparr> \<and>
   length (filter (\<lambda>e. e = UsedInvitation ''i1'') [UsedInvitation ''i1'']) \<le> 1"
proof -
  let ?s = "\<lparr>is_store = sample_signup_store, is_issued = [''i1'']\<rparr>" and ?iv = "hd (ss_invitations sample_signup_store)"
  let ?t = "consume_transaction sample_signup_store 100 ?iv sample_invitee True ''invitation'' ''m9''"
  have "?t \<noteq> None" by code_simp
  then have t: "?t = Some (accepted_once, snd (the ?t))" by (auto simp: accepted_once_def)
  have iv: "inv_id ?iv = ''i1''" and ok: "table_ok inv_id (is_issued ?s) (ss_invitations (is_store ?s))"
    by code_simp+
  have "inv_step (\<lambda>s. s) ?s (UsedInvitation (inv_id ?iv)) (?s\<lparr>is_store := accepted_once\<rparr>)"
    by (rule inv_step.Accept) (subst inv_sys.simps(1), rule t)
  then have r: "run (inv_step (\<lambda>s. s)) ?s [UsedInvitation ''i1''] \<lparr>is_store = accepted_once, is_issued = [''i1'']\<rparr>"
    unfolding iv by (auto intro: run.intros)
  with invitation_accepted_once [OF r ok, of "''i1''"] show ?thesis by simp
qed

end
