(* ===== verification/Provisioning.thy ===== *)
theory Provisioning
  imports Invitations
begin

text \<open>
  Provisioning (\<open>src/lib/user-provisioning.server.ts\<close>): the placement of a sign-up in an
  organization, the account and membership it writes, and the re-evaluation of a pending account
  at a later sign-in. Lookups that may raise inside a \<open>try\<close> have their failure as an argument;
  \<open>NoDefaultOrganizationError\<close> is the \<open>Inl\<close> of the result. A placement's transaction is atomic,
  so the conflict branches of its inserts, which re-read a row a concurrent transaction wrote, are
  the branches that found the row at the first read.
\<close>

subsection \<open>Inputs and results\<close>

record provision_input =
  pi_betterAuthUserId :: uuid
  pi_email :: string
  pi_emailVerified :: bool
  pi_emailVerificationWaived :: bool
  pi_provider :: string
  pi_displayName :: "string option"
  pi_preferredLocale :: "string option"
  pi_isSeed :: bool
  pi_invitationToken :: "string option"
  pi_organizationHint :: "string option"

record provision_result =
  prv_appUserId :: uuid
  prv_organizationId :: uuid
  prv_status :: string
  prv_membershipStatus :: string
  prv_linkedExisting :: bool

datatype provision_error = NoDefaultOrganizationError

datatype provision_audit =
    AccountLinked uuid uuid
  | AutoActivated uuid uuid "signup_decision_reason option"   \<comment> \<open>no reason for a seed\<close>
  | ProvisionedPending uuid uuid "signup_decision_reason option"
  | FromInvitation invitation_audit

text \<open>What the environment of a call decides: the ids generated and the lookups that fail.\<close>

record provision_env =
  pe_lookupFails :: bool
  pe_consumeFails :: bool
  pe_newUserId :: uuid
  pe_newMembershipId :: uuid
  pe_consumeMembershipId :: uuid

subsection \<open>Placement\<close>

definition provision_invitation ::
    "(string \<Rightarrow> string) \<Rightarrow> provision_env \<Rightarrow> signup_store \<Rightarrow> millis \<Rightarrow> provision_input \<Rightarrow>
     signup_store \<times> invitation_audit list \<times> invitation_row option" where
  "provision_invitation hashSecret env s now inp =
     (if truthy (pi_invitationToken inp) \<and> \<not> pi_isSeed inp \<and> \<not> pe_lookupFails env
      then (case findValidInvitationByToken hashSecret s now (the (pi_invitationToken inp)) of
              None \<Rightarrow> (s, [], None)
            | Some candidate \<Rightarrow>
                if inv_email candidate = js_lower (trim (pi_email inp))
                then (case enforceInviterStanding s now candidate of
                        (s1, ev, standing) \<Rightarrow> (s1, ev, if standing then Some candidate else None))
                else (s, [], None))
      else (s, [], None))"

record placement =
  pl_organizationId :: uuid
  pl_membershipOrgKey :: "string option"
  pl_emailDomainRouted :: bool
  pl_organizationHintApplied :: bool

definition placement_of ::
    "signup_store \<Rightarrow> provision_input \<Rightarrow> invitation_row option \<Rightarrow> placement option" where
  "placement_of s inp invitation =
     (let resolution = resolveProviderOrganization (pi_provider inp) (pi_emailVerified inp) in
      case invitation of
        Some i \<Rightarrow> Some \<lparr>pl_organizationId = inv_organization_id i, pl_membershipOrgKey = None,
                        pl_emailDomainRouted = False, pl_organizationHintApplied = False\<rparr>
      | None \<Rightarrow>
      (case (if truthy (pi_organizationHint inp) \<and> \<not> pi_isSeed inp
             then resolveOrganizationByIdentifier (ss_db s) (the (pi_organizationHint inp)) else None) of
        Some hinted \<Rightarrow> Some \<lparr>pl_organizationId = org_id hinted, pl_membershipOrgKey = None,
                             pl_emailDomainRouted = False, pl_organizationHintApplied = True\<rparr>
      | None \<Rightarrow>
      (case (if pr_routesByEmailDomain resolution
             then findEmailDomainOrganization (ss_provider_organizations s) (pi_email inp) else None) of
        Some mapped \<Rightarrow> Some \<lparr>pl_organizationId = po_organization_id mapped,
                             pl_membershipOrgKey = Some (po_provider_organization_key mapped),
                             pl_emailDomainRouted = True, pl_organizationHintApplied = False\<rparr>
      | None \<Rightarrow>
          map_option (\<lambda>org. \<lparr>pl_organizationId = org_id org,
              pl_membershipOrgKey = Some (pr_providerOrganizationKey resolution),
              pl_emailDomainRouted = False, pl_organizationHintApplied = False\<rparr>)
            (getDefaultOrganization (ss_db s)))))"

definition signup_facts_of :: "provision_input \<Rightarrow> bool \<Rightarrow> signup_facts" where
  "signup_facts_of inp invited =
     \<lparr>sf_provider = pi_provider inp, sf_email = pi_email inp, sf_emailVerified = pi_emailVerified inp,
      sf_emailVerificationWaived = pi_emailVerificationWaived inp, sf_hasValidInvitation = invited\<rparr>"

definition placement_decision ::
    "signup_store \<Rightarrow> provision_input \<Rightarrow> uuid \<Rightarrow> bool \<Rightarrow> bool \<times> signup_decision_reason option" where
  "placement_decision s inp oid invited =
     (if pi_isSeed inp then (True, None)
      else (case decideInitialStatus (getAuthPolicyForOrg (ss_auth_settings s) (Some oid)) (signup_facts_of inp invited) of
              (active, reason) \<Rightarrow> (active, Some reason)))"

subsection \<open>The account and its membership\<close>

definition provision_account ::
    "db \<Rightarrow> millis \<Rightarrow> provision_input \<Rightarrow> bool \<Rightarrow> uuid \<Rightarrow> db \<times> app_user_row \<times> bool" where
  "provision_account d now inp active newId =
     (case List.find (\<lambda>u. au_better_auth_user_id u = pi_betterAuthUserId inp) (app_users d) of
        None \<Rightarrow>
          (let u = \<lparr>au_id = newId, au_better_auth_user_id = pi_betterAuthUserId inp,
                 au_primary_email = pi_email inp, au_display_name = pi_displayName inp,
                 au_status = decision_status active, au_status_reason = None,
                 au_preferred_locale = (case pi_preferredLocale inp of Some l \<Rightarrow> l | None \<Rightarrow> ''en''),
                 au_deactivated_at = None, au_deactivated_by = None, au_deactivated_reason = None, au_created_at = now\<rparr>
           in (d\<lparr>app_users := app_users d @ [u]\<rparr>, u, False))
      | Some u \<Rightarrow>
          (d\<lparr>app_users := update_where (\<lambda>x. au_id x = au_id u)
               (\<lambda>x. x\<lparr>au_primary_email := pi_email inp,
                  au_display_name := (if truthy (pi_displayName inp) then pi_displayName inp else au_display_name x),
                  au_preferred_locale :=
                    (if truthy (pi_preferredLocale inp) then the (pi_preferredLocale inp) else au_preferred_locale x)\<rparr>)
               (app_users d)\<rparr>, u, True))"

definition provision_membership ::
    "db \<Rightarrow> millis \<Rightarrow> uuid \<Rightarrow> uuid \<Rightarrow> bool \<Rightarrow> string \<Rightarrow> string option \<Rightarrow> uuid \<Rightarrow> db \<times> string" where
  "provision_membership d now uid oid active provider orgKey newId =
     (case find_membership d uid oid of
        Some m \<Rightarrow> (d, mb_status m)
      | None \<Rightarrow>
          (d\<lparr>app_organization_memberships := app_organization_memberships d @
               [\<lparr>mb_id = newId, mb_organization_id = oid, mb_app_user_id = uid,
                 mb_status = decision_status active, mb_source_provider = Some provider,
                 mb_provider_organization_key = orgKey, mb_pre_deactivation_status = None,
                 mb_created_at = now\<rparr>]\<rparr>, decision_status active))"

definition provisionUserFromAuth ::
    "(string \<Rightarrow> string) \<Rightarrow> (signup_store \<Rightarrow> signup_store) \<Rightarrow> provision_env \<Rightarrow> signup_store \<Rightarrow> millis \<Rightarrow>
     provision_input \<Rightarrow> signup_store \<times> provision_audit list \<times> (provision_error + provision_result)" where
  "provisionUserFromAuth hashSecret others env s now inp =
     (case provision_invitation hashSecret env s now inp of (s1, ev1, invitation) \<Rightarrow>
      case placement_of s1 inp invitation of
        None \<Rightarrow> (s1, map FromInvitation ev1, Inl NoDefaultOrganizationError)
      | Some p \<Rightarrow>
      (let oid = pl_organizationId p;
           decision = placement_decision s1 inp oid (invitation \<noteq> None)
       in case provision_account (ss_db s1) now inp (fst decision) (pe_newUserId env) of (d2, u, linked) \<Rightarrow>
          case provision_membership d2 now (au_id u) oid (fst decision) (pi_provider inp)
                 (pl_membershipOrgKey p) (pe_newMembershipId env) of (d3, membershipStatus) \<Rightarrow>
          (let s3 = s1\<lparr>ss_db := d3\<rparr>;
               consumed = (case invitation of
                  Some i \<Rightarrow>
                    if pe_consumeFails env then (s3, [])
                    else (case consumeInvitation others s3 now i
                              \<lparr>iu_id = au_id u, iu_primaryEmail = pi_email inp, iu_status = au_status u\<rparr>
                              (Some (pi_provider inp)) (pe_consumeMembershipId env) of
                            (s4, ev4, _) \<Rightarrow> (s4, ev4))
                | None \<Rightarrow> (s3, []));
               outcome = (if linked then AccountLinked (au_id u) oid
                          else if fst decision then AutoActivated (au_id u) oid (snd decision)
                          else ProvisionedPending (au_id u) oid (snd decision))
           in (fst consumed, map FromInvitation (ev1 @ snd consumed) @ [outcome],
               Inr \<lparr>prv_appUserId = au_id u, prv_organizationId = oid, prv_status = au_status u,
                    prv_membershipStatus = membershipStatus, prv_linkedExisting = linked\<rparr>))))"

subsection \<open>Re-evaluation at sign-in\<close>

record reevaluate_input =
  re_betterAuthUserId :: uuid
  re_email :: string
  re_emailVerified :: bool
  re_emailVerificationWaived :: bool

definition reevaluate_decision ::
    "signup_store \<Rightarrow> reevaluate_input \<Rightarrow> membership_row \<Rightarrow> signup_decision_reason option" where
  "reevaluate_decision s inp m =
     (if \<not> isAuthMethod (mb_source_provider m) then None
      else (case decideInitialStatus (getAuthPolicyForOrg (ss_auth_settings s) (Some (mb_organization_id m)))
              \<lparr>sf_provider = the (mb_source_provider m), sf_email = re_email inp,
               sf_emailVerified = re_emailVerified inp,
               sf_emailVerificationWaived = re_emailVerificationWaived inp,
               sf_hasValidInvitation = False\<rparr> of
              (active, reason) \<Rightarrow> if active then Some reason else None))"

definition pending_memberships :: "db \<Rightarrow> uuid \<Rightarrow> membership_row list" where
  "pending_memberships d uid =
     filter (\<lambda>m. mb_app_user_id m = uid \<and> mb_status m = ''pending_approval'' \<and>
        mb_pre_deactivation_status m = None) (app_organization_memberships d)"

text \<open>
  The memberships that activate are read before the transaction writes them, on the state other
  requests left (\<open>others\<close>); the audit names the account, the organizations and the first reason.
\<close>

definition reevaluatePendingActivation ::
    "(db \<Rightarrow> db) \<Rightarrow> signup_store \<Rightarrow> reevaluate_input \<Rightarrow>
     signup_store \<times> (uuid \<times> uuid list \<times> signup_decision_reason) option" where
  "reevaluatePendingActivation others s inp =
     (case List.find (\<lambda>u. au_better_auth_user_id u = re_betterAuthUserId inp) (app_users (ss_db s)) of
        None \<Rightarrow> (s, None)
      | Some u \<Rightarrow>
          if au_status u \<noteq> ''pending_approval'' then (s, None)
          else
            (let activated = filter (\<lambda>m. reevaluate_decision s inp m \<noteq> None) (pending_memberships (ss_db s) (au_id u))
             in if activated = [] then (s, None)
                else
                  (let d = others (ss_db s);
                       d1 = activate_account d (au_id u);
                       d2 = d1\<lparr>app_organization_memberships :=
                          fold (\<lambda>m. update_where (\<lambda>x. mb_id x = mb_id m \<and> mb_status x = ''pending_approval'')
                                  (\<lambda>x. x\<lparr>mb_status := ''active''\<rparr>))
                            activated (app_organization_memberships d1)\<rparr>
                   in (s\<lparr>ss_db := d2\<rparr>,
                       Some (au_id u, map mb_organization_id activated,
                             the (reevaluate_decision s inp (hd activated)))))))"

subsection \<open>The steps of a provisioning\<close>

lemma provision_invitation_keeps:
  assumes "provision_invitation h env s now inp = (s1, ev1, invitation)"
  shows "ss_db s1 = ss_db s" "ss_auth_settings s1 = ss_auth_settings s"
    "ss_provider_organizations s1 = ss_provider_organizations s"
  using assms
  by (auto simp: provision_invitation_def enforceInviterStanding_def Let_def split: if_splits option.splits)

text \<open>An honoured invitation is live, is addressed to the signing-up mailbox and has a standing inviter.\<close>

definition honoured :: "(string \<Rightarrow> string) \<Rightarrow> signup_store \<Rightarrow> millis \<Rightarrow> provision_input \<Rightarrow> invitation_row \<Rightarrow> bool" where
  "honoured h s now inp i \<longleftrightarrow> i \<in> set (ss_invitations s) \<and> (\<exists>t. pi_invitationToken inp = Some t \<and> inv_token_hash i = h t) \<and>
     inv_status i = ''pending'' \<and> inv_expires_at i > now \<and> org_is_active (ss_db s) (inv_organization_id i) \<and>
     inv_email i = normalizeEmail (pi_email inp) \<and> inviterHasStanding (ss_db s) now i"

lemma provision_invitation_honoured:
  assumes "provision_invitation h env s now inp = (s1, ev1, Some i)"
  shows "honoured h s now inp i \<and> \<not> pi_isSeed inp"
  using assms
  by (auto simp: provision_invitation_def enforceInviterStanding_def Let_def honoured_def normalizeEmail_def
      findValidInvitationByToken_def truthy_iff split: if_splits option.splits dest!: find_Some_iff_set)

lemma provision_parts:
  assumes "provisionUserFromAuth h others env s now inp = (s', ev, Inr r)"
  obtains s1 ev1 invitation p d2 u linked d3 where
    "provision_invitation h env s now inp = (s1, ev1, invitation)"
    "placement_of s1 inp invitation = Some p"
    "provision_account (ss_db s1) now inp (fst (placement_decision s1 inp (pl_organizationId p) (invitation \<noteq> None)))
       (pe_newUserId env) = (d2, u, linked)"
    "provision_membership d2 now (au_id u) (pl_organizationId p)
       (fst (placement_decision s1 inp (pl_organizationId p) (invitation \<noteq> None))) (pi_provider inp)
       (pl_membershipOrgKey p) (pe_newMembershipId env) = (d3, prv_membershipStatus r)"
    "prv_appUserId r = au_id u" "prv_organizationId r = pl_organizationId p" "prv_status r = au_status u"
    "prv_linkedExisting r = linked"
    "s' = s1\<lparr>ss_db := d3\<rparr> \<or>
     (\<exists>i ev4 res. invitation = Some i \<and>
        consumeInvitation others (s1\<lparr>ss_db := d3\<rparr>) now i
          \<lparr>iu_id = au_id u, iu_primaryEmail = pi_email inp, iu_status = au_status u\<rparr>
          (Some (pi_provider inp)) (pe_consumeMembershipId env) = (s', ev4, res))"
proof -
  obtain s1 ev1 invitation where i: "provision_invitation h env s now inp = (s1, ev1, invitation)"
    by (metis prod_cases3)
  with assms obtain p where p: "placement_of s1 inp invitation = Some p"
    by (cases "placement_of s1 inp invitation") (auto simp: provisionUserFromAuth_def)
  let ?dec = "fst (placement_decision s1 inp (pl_organizationId p) (invitation \<noteq> None))"
  obtain d2 u linked where a: "provision_account (ss_db s1) now inp ?dec (pe_newUserId env) = (d2, u, linked)"
    by (metis prod_cases3)
  obtain d3 ms where m: "provision_membership d2 now (au_id u) (pl_organizationId p) ?dec (pi_provider inp)
       (pl_membershipOrgKey p) (pe_newMembershipId env) = (d3, ms)"
    by (metis prod.exhaust)
  show ?thesis
  proof (rule that [OF i p a])
    show "provision_membership d2 now (au_id u) (pl_organizationId p) ?dec (pi_provider inp)
       (pl_membershipOrgKey p) (pe_newMembershipId env) = (d3, prv_membershipStatus r)"
      using assms m by (auto simp: provisionUserFromAuth_def i p a Let_def simp del: not_None_eq)
  qed (use assms in \<open>auto simp: provisionUserFromAuth_def i p a m Let_def simp del: not_None_eq
      split: option.splits if_splits prod.splits\<close>)
qed

text \<open>
  The policy a sign-up was told is the policy that decides it. For a sign-up no invitation is
  honoured for, the policy resolved before the account exists is that of the organization
  provisioning places the account in, and the strictest one when there is no organization to place
  it in; a new account gets the status that policy decides.
\<close>

lemma signup_policy_is_placement_policy:
  assumes "provision_invitation hashSecret env s now inp = (s1, ev1, None)" "\<not> pi_isSeed inp"
    "provisionUserFromAuth hashSecret others env s now inp = (s', ev, res)"
  defines "policy \<equiv> resolveSignupPolicy False s (pi_provider inp) (pi_email inp) (pi_emailVerified inp) (pi_organizationHint inp)"
  shows "case res of
      Inl _ \<Rightarrow> policy = FAIL_CLOSED_AUTH_POLICY
    | Inr r \<Rightarrow> policy = getAuthPolicyForOrg (ss_auth_settings s) (Some (prv_organizationId r)) \<and>
        (prv_linkedExisting r \<or>
         prv_status r = decision_status (fst (decideInitialStatus policy (signup_facts_of inp False))))"
proof -
  note keep = provision_invitation_keeps [OF assms(1)]
  have pol: "policy = (case placement_of s1 inp None of None \<Rightarrow> FAIL_CLOSED_AUTH_POLICY
      | Some p \<Rightarrow> getAuthPolicyForOrg (ss_auth_settings s) (Some (pl_organizationId p)))"
    using assms(2) unfolding policy_def resolveSignupPolicy_def placement_of_def keep
    by (auto simp: Let_def split: option.split)
  show ?thesis
  proof (cases res)
    case (Inl x)
    with assms(1,3) have "placement_of s1 inp None = None"
      by (auto simp: provisionUserFromAuth_def Let_def split: option.splits prod.splits)
    with Inl pol show ?thesis by simp
  next
    case (Inr r)
    show ?thesis
    proof (rule provision_parts [OF assms(3) [unfolded Inr]])
      fix s1' ev1' invitation p d2 u linked d3
      assume i: "provision_invitation hashSecret env s now inp = (s1', ev1', invitation)"
        and pl: "placement_of s1' inp invitation = Some p"
        and acc: "provision_account (ss_db s1') now inp
          (fst (placement_decision s1' inp (pl_organizationId p) (invitation \<noteq> None))) (pe_newUserId env) = (d2, u, linked)"
        and r: "prv_organizationId r = pl_organizationId p" "prv_status r = au_status u" "prv_linkedExisting r = linked"
      from i assms(1) have s1: "s1' = s1" "invitation = None" by simp_all
      note p = pl [unfolded s1] acc [unfolded s1] r
      have "linked \<or> au_status u = decision_status (fst (placement_decision s1 inp (pl_organizationId p) False))"
        using p(2) by (auto simp: provision_account_def Let_def split: option.splits)
      with Inr p pol assms(2) keep show ?thesis
        by (auto simp: placement_decision_def split: prod.splits)
    qed
  qed
qed

definition sample_provision_env :: provision_env where
  "sample_provision_env = \<lparr>pe_lookupFails = False, pe_consumeFails = False, pe_newUserId = ''u9'',
     pe_newMembershipId = ''m9'', pe_consumeMembershipId = ''m10''\<rparr>"

definition sample_sign_up :: provision_input where
  "sample_sign_up = \<lparr>pi_betterAuthUserId = ''b9'', pi_email = ''new@x'', pi_emailVerified = True,
     pi_emailVerificationWaived = False, pi_provider = ''google'', pi_displayName = None,
     pi_preferredLocale = None, pi_isSeed = False, pi_invitationToken = None, pi_organizationHint = Some ''B''\<rparr>"

definition sample_policy_store :: signup_store where
  "sample_policy_store = sample_signup_store\<lparr>ss_auth_settings :=
     [\<lparr>as_organization_id = Some ''B'', as_require_email_verification = True,
       as_signup_approval_mode = ''auto_active'', as_allowed_auth_methods = None,
       as_auto_approve_email_domains = None\<rparr>]\<rparr>"

lemma signup_policy_is_placement_policy_witness:
  "let res = snd (snd (provisionUserFromAuth (\<lambda>t. t) (\<lambda>x. x) sample_provision_env sample_policy_store 100 sample_sign_up));
       policy = resolveSignupPolicy False sample_policy_store ''google'' ''new@x'' True (Some ''B'')
   in isl res = False \<and> policy = getAuthPolicyForOrg (ss_auth_settings sample_policy_store) (Some (prv_organizationId (projr res)))
      \<and> prv_status (projr res) = ''active''"
proof -
  let ?p = "provisionUserFromAuth (\<lambda>t. t) (\<lambda>x. x) sample_provision_env sample_policy_store 100 sample_sign_up"
  have 1: "provision_invitation (\<lambda>t. t) sample_provision_env sample_policy_store 100 sample_sign_up =
      (sample_policy_store, [], None)" by code_simp
  have 2: "\<not> pi_isSeed sample_sign_up" by code_simp
  have 3: "?p = (fst ?p, fst (snd ?p), snd (snd ?p))" by simp
  have in_: "pi_provider sample_sign_up = ''google''" "pi_email sample_sign_up = ''new@x''"
    "pi_emailVerified sample_sign_up" "pi_organizationHint sample_sign_up = Some ''B''" by code_simp+
  have r: "isl (snd (snd ?p)) = False" "prv_status (projr (snd (snd ?p))) = ''active''" by code_simp+
  from r(1) obtain x where x: "snd (snd ?p) = Inr x" by (cases "snd (snd ?p)") auto
  from signup_policy_is_placement_policy [OF 1 2 3] show ?thesis
    using r unfolding Let_def by (simp add: x in_)
qed

subsection \<open>Who is admitted\<close>

lemma find_membership_app [simp]:
  "find_membership (d\<lparr>app_users := us\<rparr>) = find_membership d"
  by (simp add: find_membership_def fun_eq_iff)

lemma grant_role_memberships [simp]:
  "app_organization_memberships (grant_role d uid oid rid) = app_organization_memberships d"
  by (simp add: grant_role_def Let_def)

lemma joined_only:
  assumes "m \<in> set (app_organization_memberships (joined s now iv u source newId))"
    "distinct (map mb_id (app_organization_memberships (ss_db s)))"
  shows "m \<in> set (app_organization_memberships (ss_db s)) \<or>
    mb_app_user_id m = iu_id u \<and> mb_organization_id m = inv_organization_id iv"
proof (cases "find_membership (ss_db s) (iu_id u) (inv_organization_id iv)")
  case None
  with assms show ?thesis by (auto simp: joined_def activate_account_def join_organization_def)
next
  case (Some q)
  note q = find_membership_Some [OF Some]
  show ?thesis
  proof (cases "mb_status q = ''pending_approval''")
    case True
    with assms(1) Some obtain x where x: "x \<in> set (app_organization_memberships (ss_db s))"
      "m = (if mb_id x = mb_id q \<and> mb_status x = ''pending_approval''
            then x\<lparr>mb_status := ''active'', mb_pre_deactivation_status := None\<rparr> else x)"
      by (auto simp: joined_def activate_account_def join_organization_def table_simps)
    have "mb_id x = mb_id q \<Longrightarrow> x = q" using assms(2) x(1) q by (auto simp: distinct_map inj_on_def)
    with x q show ?thesis by (auto split: if_splits)
  next
    case False
    with Some assms show ?thesis by (auto simp: joined_def activate_account_def join_organization_def)
  qed
qed

lemma consumed_memberships:
  assumes "consumeInvitation others s now iv u provider newId = (s', ev, res)"
    "\<And>x. app_organization_memberships (ss_db (others x)) = app_organization_memberships (ss_db x)"
    "distinct (map mb_id (app_organization_memberships (ss_db s)))"
    "m \<in> set (app_organization_memberships (ss_db s'))"
  shows "m \<in> set (app_organization_memberships (ss_db s)) \<or>
    mb_app_user_id m = iu_id u \<and> mb_organization_id m = inv_organization_id iv"
proof (cases res)
  case (NotConsumed r)
  with assms show ?thesis
    by (auto simp: consumeInvitation_def enforceInviterStanding_def Let_def
        split: if_splits prod.splits bool.splits option.splits)
next
  case (Consumed granted)
  note c = consumed_parts(4) [OF assms(1) [unfolded Consumed]]
  note t = transaction_db [OF c]
  let ?j = "joined (others s) now iv u (case provider of Some p \<Rightarrow> p | None \<Rightarrow> ''invitation'') newId"
  have "app_organization_memberships (ss_db s') = app_organization_memberships ?j"
    using t by (cases granted) auto
  with assms(4) have "m \<in> set (app_organization_memberships ?j)" by simp
  from joined_only [OF this] assms(2,3) show ?thesis by simp
qed

text \<open>
  C36: provisioning admits nobody without a reason. A membership that is active after a sign-up was
  provisioned and was not there before belongs to the account provisioned, in the organization it
  was placed in, and either the sign-up is a seed, or it carried a live invitation to that
  organization, addressed to its mailbox, whose inviter still had the standing to invite, or that
  organization's sign-up policy admits the sign-up uninvited.
\<close>

theorem provisioning_admits_with_reason:
  assumes "provisionUserFromAuth hashSecret others env s now inp = (s', ev, Inr r)"
    "\<And>x. app_organization_memberships (ss_db (others x)) = app_organization_memberships (ss_db x)"
    "distinct (pe_newMembershipId env # map mb_id (app_organization_memberships (ss_db s)))"
    "m \<in> set (app_organization_memberships (ss_db s'))" "mb_status m = ''active''"
    "m \<notin> set (app_organization_memberships (ss_db s))"
  shows "mb_app_user_id m = prv_appUserId r \<and> mb_organization_id m = prv_organizationId r \<and>
    (pi_isSeed inp \<or>
     (\<exists>i. honoured hashSecret s now inp i \<and> inv_organization_id i = prv_organizationId r) \<or>
     fst (decideInitialStatus (getAuthPolicyForOrg (ss_auth_settings s) (Some (prv_organizationId r)))
            (signup_facts_of inp False)))"
proof (rule provision_parts [OF assms(1)])
  fix s1 ev1 and invitation :: "invitation_row option" and p :: placement and d2 and u :: app_user_row
    and linked d3
  let ?dec = "fst (placement_decision s1 inp (pl_organizationId p) (invitation \<noteq> None))"
  let ?M = "app_organization_memberships"
  assume i: "provision_invitation hashSecret env s now inp = (s1, ev1, invitation)"
    and pl: "placement_of s1 inp invitation = Some p"
    and acc: "provision_account (ss_db s1) now inp ?dec (pe_newUserId env) = (d2, u, linked)"
    and mem: "provision_membership d2 now (au_id u) (pl_organizationId p) ?dec (pi_provider inp)
       (pl_membershipOrgKey p) (pe_newMembershipId env) = (d3, prv_membershipStatus r)"
    and r: "prv_appUserId r = au_id u" "prv_organizationId r = pl_organizationId p"
    and s': "s' = s1\<lparr>ss_db := d3\<rparr> \<or>
     (\<exists>i ev4 res. invitation = Some i \<and>
        consumeInvitation others (s1\<lparr>ss_db := d3\<rparr>) now i
          \<lparr>iu_id = au_id u, iu_primaryEmail = pi_email inp, iu_status = au_status u\<rparr>
          (Some (pi_provider inp)) (pe_consumeMembershipId env) = (s', ev4, res))"
  note keep = provision_invitation_keeps [OF i]
  have d2: "?M d2 = ?M (ss_db s)"
    using acc keep by (auto simp: provision_account_def Let_def split: option.splits)
  have d3: "distinct (map mb_id (?M d3))"
    "m \<in> set (?M d3) \<Longrightarrow> mb_app_user_id m = au_id u \<and> mb_organization_id m = pl_organizationId p \<and> ?dec"
    using mem assms(3,5,6) d2
    by (auto simp: provision_membership_def decision_status_def split: option.splits if_splits)
  have by_inv: "honoured hashSecret s now inp i \<and> inv_organization_id i = pl_organizationId p"
    if "invitation = Some i" for i
    using provision_invitation_honoured [OF i [unfolded that]] pl that by (auto simp: placement_of_def)
  show ?thesis
  proof (cases "m \<in> set (?M d3)")
    case True
    show ?thesis
    proof (cases invitation)
      case None
      with d3(2) [OF True] keep r show ?thesis by (auto simp: placement_decision_def split: prod.splits if_splits)
    next
      case (Some i)
      with d3(2) [OF True] by_inv r show ?thesis by auto
    qed
  next
    case False
    with s' assms(4) obtain i ev4 res where c: "invitation = Some i"
      "consumeInvitation others (s1\<lparr>ss_db := d3\<rparr>) now i
          \<lparr>iu_id = au_id u, iu_primaryEmail = pi_email inp, iu_status = au_status u\<rparr>
          (Some (pi_provider inp)) (pe_consumeMembershipId env) = (s', ev4, res)" by auto
    from consumed_memberships [OF c(2) assms(2) _ assms(4)] d3(1) False
    have "mb_app_user_id m = au_id u \<and> mb_organization_id m = inv_organization_id i" by simp
    with by_inv [OF c(1)] r show ?thesis by auto
  qed
qed

lemma provisioning_admits_with_reason_witness:
  "\<exists>m \<in> set (app_organization_memberships (ss_db (fst
      (provisionUserFromAuth (\<lambda>t. t) (\<lambda>x. x) sample_provision_env sample_policy_store 100 sample_sign_up)))).
     mb_id m = ''m9'' \<and> mb_app_user_id m = ''u9'' \<and> mb_organization_id m = ''B''"
proof -
  let ?p = "provisionUserFromAuth (\<lambda>t. t) (\<lambda>x. x) sample_provision_env sample_policy_store 100 sample_sign_up"
  let ?m = "last (app_organization_memberships (ss_db (fst ?p)))"
  have r: "isl (snd (snd ?p)) = False" "prv_appUserId (projr (snd (snd ?p))) = ''u9''"
    "prv_organizationId (projr (snd (snd ?p))) = ''B''" by code_simp+
  then obtain x where x: "snd (snd ?p) = Inr x" by (cases "snd (snd ?p)") auto
  then have 1: "?p = (fst ?p, fst (snd ?p), Inr x)" by (metis prod.collapse)
  have 3: "distinct (pe_newMembershipId sample_provision_env #
      map mb_id (app_organization_memberships (ss_db sample_policy_store)))" by code_simp
  have 4: "app_organization_memberships (ss_db (fst ?p)) \<noteq> []" "mb_status ?m = ''active''" "mb_id ?m = ''m9''"
    by code_simp+
  then have mem: "?m \<in> set (app_organization_memberships (ss_db (fst ?p)))" by simp
  have 6: "?m \<notin> set (app_organization_memberships (ss_db sample_policy_store))" by code_simp
  from provisioning_admits_with_reason [OF 1 refl 3 mem 4(2) 6] r mem 4(3) show ?thesis
    unfolding x by auto
qed

subsection \<open>What a sign-in re-evaluates\<close>

lemma fold_update_where_source:
  assumes "\<And>m r. \<not> P m (f r)" "x \<in> set (fold (\<lambda>m. update_where (P m) f) ms t)"
  shows "x \<in> set t \<or> (\<exists>m \<in> set ms. \<exists>r \<in> set t. P m r \<and> x = f r)"
  using assms(2)
proof (induction ms arbitrary: t)
  case (Cons a ms)
  then have "x \<in> set (update_where (P a) f t) \<or>
      (\<exists>m \<in> set ms. \<exists>r \<in> set (update_where (P a) f t). P m r \<and> x = f r)" by simp
  then show ?case
  proof
    assume "x \<in> set (update_where (P a) f t)"
    then obtain r where "r \<in> set t" "x = (if P a r then f r else r)" by (auto simp: table_simps)
    then show ?case by (cases "P a r") auto
  next
    assume "\<exists>m \<in> set ms. \<exists>r \<in> set (update_where (P a) f t). P m r \<and> x = f r"
    then obtain m r q where m: "m \<in> set ms" "P m r" "x = f r" and "q \<in> set t" "r = (if P a q then f q else q)"
      by (auto simp: table_simps)
    with assms(1) have "r \<in> set t" by (cases "P a q") auto
    with m show ?case by (intro disjI2 bexI [of _ m] bexI [of _ r]) auto
  qed
qed simp

lemma reevaluate_decision_Some:
  assumes "reevaluate_decision s inp m = Some reason"
  obtains src where "mb_source_provider m = Some src" "src \<in> set AUTH_METHODS"
    "decideInitialStatus (getAuthPolicyForOrg (ss_auth_settings s) (Some (mb_organization_id m)))
       \<lparr>sf_provider = src, sf_email = re_email inp, sf_emailVerified = re_emailVerified inp,
        sf_emailVerificationWaived = re_emailVerificationWaived inp, sf_hasValidInvitation = False\<rparr> = (True, reason)"
  using assms that
  by (auto simp: reevaluate_decision_def isAuthMethod_def split: if_splits prod.splits option.splits)

text \<open>
  A sign-in re-opens only what the sign-up policy would have opened. A membership that the
  re-evaluation at a sign-in turned active was pending under the same id, and the pass that listed
  it read a membership of the signing-in account that was pending, was not held back by a restore,
  was created by a sign-up with a known method, and whose organization's policy admits that method
  uninvited; the account itself leaves only the pending status.
\<close>

lemma reevaluation_follows_policy:
  assumes "reevaluatePendingActivation others s inp = (s', Some (uid, oids, reason))"
  shows "(m \<in> set (app_organization_memberships (ss_db s')) \<longrightarrow>
      m \<in> set (app_organization_memberships (others (ss_db s))) \<or>
      (\<exists>old \<in> set (app_organization_memberships (others (ss_db s))).
         m = old\<lparr>mb_status := ''active''\<rparr> \<and> mb_status old = ''pending_approval'' \<and>
         (\<exists>q src. q \<in> set (app_organization_memberships (ss_db s)) \<and> mb_id q = mb_id old \<and>
            mb_app_user_id q = uid \<and> mb_status q = ''pending_approval'' \<and>
            mb_pre_deactivation_status q = None \<and> mb_organization_id q \<in> set oids \<and>
            mb_source_provider q = Some src \<and> src \<in> set AUTH_METHODS \<and>
            fst (decideInitialStatus (getAuthPolicyForOrg (ss_auth_settings s) (Some (mb_organization_id q)))
               \<lparr>sf_provider = src, sf_email = re_email inp, sf_emailVerified = re_emailVerified inp,
                sf_emailVerificationWaived = re_emailVerificationWaived inp,
                sf_hasValidInvitation = False\<rparr>)))) \<and>
    (u \<in> set (app_users (ss_db s')) \<longrightarrow> u \<in> set (app_users (others (ss_db s))) \<or>
      (\<exists>v \<in> set (app_users (others (ss_db s))). u = v\<lparr>au_status := ''active''\<rparr> \<and> au_id v = uid \<and>
         au_status v = ''pending_approval''))"
proof -
  have act: "oids = map mb_organization_id
        (filter (\<lambda>m. reevaluate_decision s inp m \<noteq> None) (pending_memberships (ss_db s) uid))"
    and db: "ss_db s' = (activate_account (others (ss_db s)) uid)\<lparr>app_organization_memberships :=
       fold (\<lambda>m. update_where (\<lambda>x. mb_id x = mb_id m \<and> mb_status x = ''pending_approval'') (\<lambda>x. x\<lparr>mb_status := ''active''\<rparr>))
         (filter (\<lambda>m. reevaluate_decision s inp m \<noteq> None) (pending_memberships (ss_db s) uid))
         (app_organization_memberships (activate_account (others (ss_db s)) uid))\<rparr>"
    using assms by (auto simp: reevaluatePendingActivation_def Let_def simp del: not_None_eq split: option.splits if_splits)
  let ?A = "filter (\<lambda>m. reevaluate_decision s inp m \<noteq> None) (pending_memberships (ss_db s) uid)"
  let ?M = "app_organization_memberships (others (ss_db s))"
  have M: "app_organization_memberships (activate_account (others (ss_db s)) uid) = ?M"
    by (simp add: activate_account_def)
  have mem: "m \<in> set ?M \<or> (\<exists>q \<in> set ?A. \<exists>old \<in> set ?M. (mb_id old = mb_id q \<and> mb_status old = ''pending_approval'') \<and>
      m = old\<lparr>mb_status := ''active''\<rparr>)" if "m \<in> set (app_organization_memberships (ss_db s'))"
    by (rule fold_update_where_source) (use that in \<open>simp_all add: db M\<close>)
  have users: "u \<in> set (app_users (ss_db s')) \<longrightarrow> u \<in> set (app_users (others (ss_db s))) \<or>
      (\<exists>v \<in> set (app_users (others (ss_db s))). u = v\<lparr>au_status := ''active''\<rparr> \<and> au_id v = uid \<and>
         au_status v = ''pending_approval'')"
    by (auto simp: db activate_account_def table_simps split: if_splits)
  have why: "\<exists>src. q \<in> set (app_organization_memberships (ss_db s)) \<and> mb_app_user_id q = uid \<and>
      mb_status q = ''pending_approval'' \<and> mb_pre_deactivation_status q = None \<and>
      mb_organization_id q \<in> set oids \<and> mb_source_provider q = Some src \<and> src \<in> set AUTH_METHODS \<and>
      fst (decideInitialStatus (getAuthPolicyForOrg (ss_auth_settings s) (Some (mb_organization_id q)))
         \<lparr>sf_provider = src, sf_email = re_email inp, sf_emailVerified = re_emailVerified inp,
          sf_emailVerificationWaived = re_emailVerificationWaived inp, sf_hasValidInvitation = False\<rparr>)"
    if q: "q \<in> set ?A" for q
  proof -
    from q obtain reason' where "reevaluate_decision s inp q = Some reason'" by auto
    then obtain src where "mb_source_provider q = Some src" "src \<in> set AUTH_METHODS"
      "decideInitialStatus (getAuthPolicyForOrg (ss_auth_settings s) (Some (mb_organization_id q)))
         \<lparr>sf_provider = src, sf_email = re_email inp, sf_emailVerified = re_emailVerified inp,
          sf_emailVerificationWaived = re_emailVerificationWaived inp, sf_hasValidInvitation = False\<rparr> = (True, reason')"
      by (rule reevaluate_decision_Some)
    with q show ?thesis unfolding act by (auto simp: pending_memberships_def)
  qed
  from mem why users show ?thesis by (smt (verit, best))
qed

definition sample_pending_store :: signup_store where
  "sample_pending_store = sample_policy_store\<lparr>ss_db := (ss_db sample_policy_store)
     \<lparr>app_organization_memberships := app_organization_memberships (ss_db sample_policy_store) @
        [\<lparr>mb_id = ''m7'', mb_organization_id = ''B'', mb_app_user_id = ''u4'', mb_status = ''pending_approval'',
          mb_source_provider = Some ''google'', mb_provider_organization_key = None,
          mb_pre_deactivation_status = None, mb_created_at = 30\<rparr>]\<rparr>\<rparr>"

definition sample_sign_in :: reevaluate_input where
  "sample_sign_in = \<lparr>re_betterAuthUserId = ''b4'', re_email = ''new@x'', re_emailVerified = True,
     re_emailVerificationWaived = False\<rparr>"

lemma reevaluation_follows_policy_witness:
  "let m = last (app_organization_memberships (ss_db (fst (reevaluatePendingActivation (\<lambda>d. d) sample_pending_store sample_sign_in))))
   in mb_id m = ''m7'' \<and> mb_status m = ''active'' \<and>
      (\<exists>old \<in> set (app_organization_memberships (ss_db sample_pending_store)).
         m = old\<lparr>mb_status := ''active''\<rparr> \<and> mb_status old = ''pending_approval'')"
proof -
  let ?r = "reevaluatePendingActivation (\<lambda>d. d) sample_pending_store sample_sign_in"
  let ?M = "app_organization_memberships (ss_db (fst ?r))"
  have "snd ?r = Some (''u4'', [''B''], ByAutoActive)" by code_simp
  then have 1: "?r = (fst ?r, Some (''u4'', [''B''], ByAutoActive))" by (metis prod.collapse)
  have m: "?M \<noteq> []" "mb_id (last ?M) = ''m7''" "mb_status (last ?M) = ''active''" by code_simp+
  have new: "last ?M \<notin> set (app_organization_memberships (ss_db sample_pending_store))" by code_simp
  from m(1) have "last ?M \<in> set ?M" by simp
  with reevaluation_follows_policy [OF 1, of "last ?M"] new m(2,3) show ?thesis
    unfolding Let_def by blast
qed

end
