(* ===== verification/SsoHandoff.thy ===== *)
theory SsoHandoff
  imports AuthStatus ReturnTo SingleUse
begin

text \<open>
  The cross-subdomain sign-in handoff: the signed token's lifetime and issuer rules
  (\<open>src/lib/jwt-handoff.server.ts\<close>), the launch that mints one and the nonce that makes it
  one-time (\<open>src/lib/sso.server.ts\<close>), the session it opens (\<open>src/lib/auth-sso-session.ts\<close>), the two
  routes (\<open>src/app/api/sso/launch/route.ts\<close>, \<open>src/app/api/sso/consume/route.ts\<close>), the retention
  prune of nonces, and the path a signed-out launch returns to (\<open>src/lib/sso-launch-return.ts\<close>).
  The signature library and the URL parser are arguments.
\<close>

subsection \<open>State and configuration\<close>

record sso_app_row =
  ea_id :: string
  ea_organization_id :: "uuid option"
  ea_origin :: string
  ea_sso_audience :: string
  ea_status :: string

record nonce_row =
  no_jti :: uuid
  no_app_user_id :: uuid
  no_target_application_id :: string
  no_expires_at :: millis
  no_consumed_at :: "millis option"

record opened_session =
  os_user_id :: uuid
  os_token :: string

record sso_store =
  so_db :: db
  so_apps :: "sso_app_row table"
  so_nonces :: "nonce_row table"
  so_sessions :: "opened_session table"

record sso_env =
  SSO_HANDOFF_PRIVATE_KEY :: "string option"
  SSO_HANDOFF_ISSUER :: "string option"
  SSO_BETTER_AUTH_URL :: "string option"
  SSO_HANDOFF_TTL_SECONDS :: int
  SSO_HANDOFF_AUDIENCE_PREFIX :: "string option"
  SSO_HANDOFF_APPLICATION_ID :: "string option"

subsection \<open>The token\<close>

definition SSO_HANDOFF_MAX_TTL_SECONDS :: int where
  "SSO_HANDOFF_MAX_TTL_SECONDS = 60"

definition clampSsoHandoffTtl :: "int \<Rightarrow> int" where
  "clampSsoHandoffTtl ttlSeconds = min (max ttlSeconds 1) SSO_HANDOFF_MAX_TTL_SECONDS"

definition isSsoHandoffSignerConfigured :: "sso_env \<Rightarrow> bool" where
  "isSsoHandoffSignerConfigured env = truthy (SSO_HANDOFF_PRIVATE_KEY env)"

text \<open>\<open>parseUrl\<close> is the URL parser: the protocol and the origin, or none when it throws.\<close>

definition originOf :: "(string \<Rightarrow> (string \<times> string) option) \<Rightarrow> string option \<Rightarrow> string option" where
  "originOf parseUrl v =
     (if \<not> truthy v then None
      else (case parseUrl (the v) of
              None \<Rightarrow> None
            | Some (protocol, orig) \<Rightarrow>
                if protocol \<noteq> ''http:'' \<and> protocol \<noteq> ''https:'' then None else Some orig))"

definition isSsoHandoffSelfIssuer :: "(string \<Rightarrow> (string \<times> string) option) \<Rightarrow> sso_env \<Rightarrow> bool" where
  "isSsoHandoffSelfIssuer parseUrl env =
     (if \<not> isSsoHandoffSignerConfigured env then False
      else (let issuerOrigin = originOf parseUrl (SSO_HANDOFF_ISSUER env);
                ownOrigin = originOf parseUrl (SSO_BETTER_AUTH_URL env)
            in issuerOrigin \<noteq> None \<and> ownOrigin \<noteq> None \<and> issuerOrigin = ownOrigin))"

text \<open>\<open>True\<close> when it throws.\<close>

definition assertSsoHandoffSignerIsIssuer :: "(string \<Rightarrow> (string \<times> string) option) \<Rightarrow> sso_env \<Rightarrow> bool" where
  "assertSsoHandoffSignerIsIssuer parseUrl env =
     (isSsoHandoffSignerConfigured env \<and> \<not> isSsoHandoffSelfIssuer parseUrl env)"

record handoff_claims =
  hc_iss :: string
  hc_aud :: string
  hc_sub :: string
  hc_jti :: string
  hc_iat :: int
  hc_exp :: int
  hc_email :: string
  hc_targetApplicationId :: string
  hc_locale :: string

text \<open>\<open>None\<close> when it throws; \<open>sign\<close> is the signature over the claims, none when the key does not parse.\<close>

definition signSsoHandoff ::
    "(string \<Rightarrow> (string \<times> string) option) \<Rightarrow> (handoff_claims \<Rightarrow> string option) \<Rightarrow> sso_env \<Rightarrow> millis \<Rightarrow>
     uuid \<Rightarrow> string \<Rightarrow> string \<Rightarrow> int \<Rightarrow> string \<Rightarrow> string \<Rightarrow> string \<Rightarrow> string option" where
  "signSsoHandoff parseUrl sign env now sub audience jti ttlSeconds email target locale =
     (if \<not> truthy (SSO_HANDOFF_ISSUER env) then None
      else if originOf parseUrl (SSO_HANDOFF_ISSUER env) \<noteq> SSO_HANDOFF_ISSUER env then None
      else if assertSsoHandoffSignerIsIssuer parseUrl env then None
      else if \<not> isSsoHandoffSignerConfigured env then None
      else sign \<lparr>hc_iss = the (SSO_HANDOFF_ISSUER env), hc_aud = audience, hc_sub = sub, hc_jti = jti,
                 hc_iat = now div 1000, hc_exp = now div 1000 + clampSsoHandoffTtl ttlSeconds,
                 hc_email = email, hc_targetApplicationId = target, hc_locale = locale\<rparr>)"

text \<open>
  What the verifier library answers: an expiry, any other failure, or the decoded claims, each
  present only when it has the type the schema asks for.
\<close>

datatype verify_failure = JWTExpired | VerifyError

record handoff_payload =
  hp_jti :: "string option"
  hp_sub :: "string option"
  hp_email :: "string option"
  hp_targetApplicationId :: "string option"
  hp_locale :: "string option"
  hp_iat :: "int option"
  hp_exp :: "int option"

record verified_handoff =
  vh_jti :: string
  vh_sub :: string
  vh_targetApplicationId :: string
  vh_locale :: string

text \<open>\<open>jwtVerify\<close> takes the issuer and the audience it must match, the time and the token.\<close>

definition verifySsoHandoff ::
    "(string \<Rightarrow> (string \<times> string) option) \<Rightarrow>
     (string \<Rightarrow> string \<Rightarrow> millis \<Rightarrow> string \<Rightarrow> verify_failure + handoff_payload) \<Rightarrow> sso_env \<Rightarrow> millis \<Rightarrow>
     string \<Rightarrow> string \<Rightarrow> verify_failure + verified_handoff" where
  "verifySsoHandoff parseUrl jwtVerify env now token expectedAudience =
     (if \<not> truthy (SSO_HANDOFF_ISSUER env) then Inl VerifyError
      else if \<not> isSsoHandoffSelfIssuer parseUrl env \<and> originOf parseUrl (SSO_HANDOFF_ISSUER env) = None
      then Inl VerifyError
      else (case jwtVerify (the (SSO_HANDOFF_ISSUER env)) expectedAudience now token of
              Inl e \<Rightarrow> Inl e
            | Inr p \<Rightarrow>
                (case (hp_jti p, hp_sub p, hp_email p, hp_targetApplicationId p, hp_locale p, hp_iat p, hp_exp p) of
                   (Some jti, Some sub, Some _, Some target, Some locale, Some _, Some _) \<Rightarrow>
                     if length jti < 1 \<or> length sub < 1 then Inl VerifyError
                     else Inr \<lparr>vh_jti = jti, vh_sub = sub, vh_targetApplicationId = target, vh_locale = locale\<rparr>
                 | _ \<Rightarrow> Inl VerifyError)))"

subsection \<open>The nonce\<close>

datatype nonce_result = NonceConsumed | NonceReplayed | NonceExpired | NonceUnknown

definition consumeSsoHandoffNonce ::
    "nonce_row table \<Rightarrow> millis \<Rightarrow> uuid \<Rightarrow> string \<Rightarrow> nonce_row table \<times> nonce_result" where
  "consumeSsoHandoffNonce nonces now jti target =
     (let hit = (\<lambda>n. no_jti n = jti \<and> no_target_application_id n = target \<and>
                   no_consumed_at n = None \<and> no_expires_at n > now)
      in if count_where hit nonces > 0
         then (update_where hit (\<lambda>n. n\<lparr>no_consumed_at := Some now\<rparr>) nonces, NonceConsumed)
         else (nonces,
               case List.find (\<lambda>n. no_jti n = jti \<and> no_target_application_id n = target) nonces of
                 None \<Rightarrow> NonceUnknown
               | Some n \<Rightarrow> if no_consumed_at n = None then NonceExpired else NonceReplayed))"

definition SSO_NONCE_GRACE_MS :: millis where
  "SSO_NONCE_GRACE_MS = 60 * 60 * 1000"

definition pruneExpiredSsoNonces :: "nonce_row table \<Rightarrow> millis \<Rightarrow> nonce_row table \<times> nat" where
  "pruneExpiredSsoNonces nonces now =
     (let hit = (\<lambda>n. no_expires_at n < now - SSO_NONCE_GRACE_MS)
      in (delete_where hit nonces, count_where hit nonces))"

definition endSsoHandoffsOfApplication :: "sso_store \<Rightarrow> millis \<Rightarrow> string \<Rightarrow> sso_store \<times> nat" where
  "endSsoHandoffsOfApplication s now applicationId =
     (if applicationId = [] then (s, 0)
      else
        (let marked = (\<lambda>x. starts_with (os_token x) (ssoSessionTokenPrefix applicationId))
         in (s\<lparr>so_nonces := update_where (\<lambda>n. no_target_application_id n = applicationId \<and>
                    no_consumed_at n = None \<and> no_expires_at n > now)
                 (\<lambda>n. n\<lparr>no_expires_at := now\<rparr>) (so_nonces s),
               so_sessions := delete_where marked (so_sessions s)\<rparr>,
             count_where marked (so_sessions s))))"

subsection \<open>Launching\<close>

record sso_access =
  sa_appUserId :: uuid
  sa_email :: string
  sa_organizationId :: uuid
  sa_locale :: string

text \<open>\<open>Inl\<close> is the message of the error thrown.\<close>

definition loadSsoAccessContext ::
    "db \<Rightarrow> millis \<Rightarrow> string option \<Rightarrow> uuid \<Rightarrow> sso_app_row \<Rightarrow> string + sso_access" where
  "loadSsoAccessContext d now cookie baid targetApp =
     (let access = getUserAccessContext d now cookie baid None None in
      case decideSecureAccess (ac_status access) (ac_membershipStatus access) of
        PendingApproval \<Rightarrow> Inl ''sso_denied:pending_approval''
      | Blocked \<Rightarrow> Inl ''sso_denied:blocked''
      | Allow \<Rightarrow>
          if \<not> truthy (ac_appUserId access) \<or> \<not> truthy (ac_organizationId access) \<or> \<not> truthy (ac_primaryEmail access)
          then Inl ''sso_denied:missing_context''
          else if truthy (ea_organization_id targetApp) \<and> ea_organization_id targetApp \<noteq> ac_organizationId access
          then Inl ''sso_denied:application_not_in_organization''
          else Inr \<lparr>sa_appUserId = the (ac_appUserId access), sa_email = the (ac_primaryEmail access),
                    sa_organizationId = the (ac_organizationId access),
                    sa_locale = ac_preferredLocale access\<rparr>)"

definition createSsoHandoffRedirect ::
    "(string \<Rightarrow> (string \<times> string) option) \<Rightarrow> (handoff_claims \<Rightarrow> string option) \<Rightarrow> sso_env \<Rightarrow> sso_store \<Rightarrow>
     millis \<Rightarrow> string option \<Rightarrow> string \<Rightarrow> uuid \<Rightarrow> uuid \<Rightarrow> sso_store \<times> (string + string \<times> string)" where
  "createSsoHandoffRedirect parseUrl sign env s now cookie applicationId baid jti =
     (case List.find (\<lambda>a. ea_id a = applicationId \<and> ea_status a = ''available'') (so_apps s) of
        None \<Rightarrow> (s, Inl ''sso_denied:application_unavailable'')
      | Some targetApp \<Rightarrow>
      (case loadSsoAccessContext (so_db s) now cookie baid targetApp of
        Inl e \<Rightarrow> (s, Inl e)
      | Inr context \<Rightarrow>
          (let ttlSeconds = clampSsoHandoffTtl (SSO_HANDOFF_TTL_SECONDS env);
               expiresAt = now + ttlSeconds * 1000;
               purged = delete_where (\<lambda>n. no_expires_at n < now - 60 * 60 * 1000) (so_nonces s);
               s' = s\<lparr>so_nonces := purged @ [\<lparr>no_jti = jti, no_app_user_id = sa_appUserId context,
                        no_target_application_id = applicationId, no_expires_at = expiresAt,
                        no_consumed_at = None\<rparr>]\<rparr>
           in case signSsoHandoff parseUrl sign env now baid (ea_sso_audience targetApp) jti ttlSeconds
                     (sa_email context) applicationId (sa_locale context) of
                None \<Rightarrow> (s', Inl ''signing_failed'')
              | Some token \<Rightarrow> (s', Inr (ea_origin targetApp, token)))))"

subsection \<open>The launch route\<close>

definition app_id_char :: "char \<Rightarrow> bool" where
  "app_id_char c = (let n = (of_char c :: nat) in (97 \<le> n \<and> n \<le> 122) \<or> (48 \<le> n \<and> n \<le> 57))"

text \<open>The pattern \<open>^[a-z0-9](?:[a-z0-9._-]{0,127})$\<close>.\<close>

definition APP_ID_RE :: "string \<Rightarrow> bool" where
  "APP_ID_RE v =
     (case v of
        [] \<Rightarrow> False
      | c # cs \<Rightarrow> app_id_char c \<and> length cs \<le> 127 \<and>
          (\<forall>x \<in> set cs. app_id_char x \<or> x = CHR ''.'' \<or> x = CHR ''_'' \<or> x = CHR ''-''))"

text \<open>\<open>application/x-www-form-urlencoded\<close>, as \<open>URLSearchParams\<close> writes it.\<close>

definition form_safe :: "char \<Rightarrow> bool" where
  "form_safe c =
     (let n = (of_char c :: nat)
      in (97 \<le> n \<and> n \<le> 122) \<or> (65 \<le> n \<and> n \<le> 90) \<or> (48 \<le> n \<and> n \<le> 57) \<or>
         c = CHR ''*'' \<or> c = CHR ''-'' \<or> c = CHR ''.'' \<or> c = CHR ''_'')"

definition upper_hex_byte :: "nat \<Rightarrow> string" where
  "upper_hex_byte n =
     (let digit = (\<lambda>d. if d < 10 then char_of (48 + d) else char_of (55 + d))
      in [digit (n div 16), digit (n mod 16)])"

definition form_encode :: "string \<Rightarrow> string" where
  "form_encode s =
     concat (map (\<lambda>c. if form_safe c then [c] else if c = CHR '' '' then ''+''
        else concat (map (\<lambda>b. CHR ''%'' # upper_hex_byte b) (utf8_bytes c))) s)"

record sso_launch_params =
  lp_applicationId :: string
  lp_locale :: string

definition MAX_APP_ID_LENGTH :: nat where
  "MAX_APP_ID_LENGTH = 128"

text \<open>A repeated query parameter arrives as a list, which reads as absent here.\<close>

definition parseSsoLaunchParams :: "string option \<Rightarrow> string option \<Rightarrow> sso_launch_params option" where
  "parseSsoLaunchParams applicationId locale =
     (case applicationId of
        None \<Rightarrow> None
      | Some a \<Rightarrow>
          if length a = 0 \<or> length a > MAX_APP_ID_LENGTH then None
          else if \<not> APP_ID_RE a then None
          else Some \<lparr>lp_applicationId = a,
                     lp_locale = (if truthy locale \<and> isSupportedLocale (the locale) then the locale else defaultLocale)\<rparr>)"

definition launch_query :: "sso_launch_params \<Rightarrow> string" where
  "launch_query p = ''applicationId='' @ form_encode (lp_applicationId p) @ ''&locale='' @ form_encode (lp_locale p)"

definition buildSsoLaunchReturnPath :: "string option \<Rightarrow> string option \<Rightarrow> string option" where
  "buildSsoLaunchReturnPath applicationId locale =
     map_option (\<lambda>p. ''/'' @ lp_locale p @ ''/sso/launch?'' @ launch_query p) (parseSsoLaunchParams applicationId locale)"

definition buildSsoLaunchApiPath :: "string option \<Rightarrow> string option \<Rightarrow> string option" where
  "buildSsoLaunchApiPath applicationId locale =
     map_option (\<lambda>p. ''/api/sso/launch?'' @ launch_query p) (parseSsoLaunchParams applicationId locale)"

record launch_session =
  ls_user_id :: uuid
  ls_impersonatorId :: "uuid option"

datatype sso_audit =
    LaunchSucceeded uuid string
  | LaunchDenied uuid string string       \<comment> \<open>actor, application, reason\<close>
  | ConsumeFailed "uuid option" string    \<comment> \<open>actor, reason\<close>
  | ConsumeSucceeded uuid string

datatype sso_response =
    SsoError string int
  | SsoErrorPage string string            \<comment> \<open>the locale of the failure page and the code\<close>
  | SsoLimited int
  | ToSignIn string "string option"       \<comment> \<open>the locale and the return target\<close>
  | ToApplication string string           \<comment> \<open>the origin of the application and the token\<close>
  | ToConfirm string string               \<comment> \<open>the locale and the token\<close>
  | ToDashboard string string             \<comment> \<open>the locale and the session token set as a cookie\<close>

definition launch_GET ::
    "(string \<Rightarrow> (string \<times> string) option) \<Rightarrow> (handoff_claims \<Rightarrow> string option) \<Rightarrow> sso_env \<Rightarrow> sso_store \<Rightarrow>
     millis \<Rightarrow> string option \<Rightarrow> string option \<Rightarrow> string option \<Rightarrow> launch_session option \<Rightarrow> int option \<Rightarrow>
     uuid \<Rightarrow> sso_store \<times> sso_audit list \<times> sso_response" where
  "launch_GET parseUrl sign env s now cookie applicationId localeParam session limited jti =
     (let locale = (if truthy localeParam \<and> isSupportedLocale (the localeParam) then the localeParam else defaultLocale) in
      if \<not> truthy applicationId then (s, [], SsoError ''missing_application_id'' 400)
      else if \<not> APP_ID_RE (the applicationId) then (s, [], SsoError ''invalid_application_id'' 400)
      else (case limited of Some retryAfter \<Rightarrow> (s, [], SsoLimited retryAfter) | None \<Rightarrow>
      (case session of
        None \<Rightarrow> (s, [], ToSignIn locale (buildSsoLaunchReturnPath applicationId (Some locale)))
      | Some sess \<Rightarrow>
          if truthy (ls_impersonatorId sess)
          then (s, [LaunchDenied (the (ls_impersonatorId sess)) (the applicationId) ''forbidden_while_impersonating''],
                SsoError ''forbidden_while_impersonating'' 403)
          else if \<not> isSsoHandoffSignerConfigured env
          then (s, [LaunchDenied (ls_user_id sess) (the applicationId) ''signing_key_not_configured''],
                SsoError ''sso_not_configured'' 503)
          else if \<not> isSsoHandoffSelfIssuer parseUrl env
          then (s, [LaunchDenied (ls_user_id sess) (the applicationId) ''not_the_issuer''],
                SsoError ''sso_not_configured'' 503)
          else (case createSsoHandoffRedirect parseUrl sign env s now cookie (the applicationId) (ls_user_id sess) jti of
                  (s', Inl e) \<Rightarrow> (s', [LaunchDenied (ls_user_id sess) (the applicationId) e], SsoError ''sso_launch_failed'' 403)
                | (s', Inr (origin, token)) \<Rightarrow>
                    (s', [LaunchSucceeded (ls_user_id sess) (the applicationId)], ToApplication origin token)))))"

subsection \<open>Opening a session\<close>

text \<open>The endpoint refuses an HTTP caller (\<open>viaHttp\<close>); \<open>random\<close> is the hex of 32 random bytes.\<close>

definition ssoSessionToken :: "string \<Rightarrow> string \<Rightarrow> string" where
  "ssoSessionToken applicationId random = ssoSessionTokenPrefix applicationId @ random"

definition createSsoSession ::
    "bool \<Rightarrow> sso_store \<Rightarrow> millis \<Rightarrow> uuid \<Rightarrow> string \<Rightarrow> string \<Rightarrow> sso_store \<times> (string + string)" where
  "createSsoSession viaHttp s now userId applicationId random =
     (if length userId < 1 \<or> length applicationId < 1 then (s, Inl ''invalid body'')
      else if viaHttp then (s, Inl ''NOT_FOUND'')
      else (case List.find (\<lambda>u. bu_id u = userId) (auth_users (so_db s)) of
              None \<Rightarrow> (s, Inl ''unknown user'')
            | Some u \<Rightarrow>
                if isBanActive (bannable_of u) now then (s, Inl ''user is banned'')
                else (s\<lparr>so_sessions := so_sessions s @
                        [\<lparr>os_user_id = bu_id u, os_token = ssoSessionToken applicationId random\<rparr>]\<rparr>,
                      Inr (ssoSessionToken applicationId random))))"

subsection \<open>The consume route\<close>

record consume_request =
  cr_accept :: "string option"
  cr_localeParam :: "string option"

definition wantsPage :: "consume_request \<Rightarrow> bool" where
  "wantsPage request =
     (let accept = (case cr_accept request of Some a \<Rightarrow> js_lower a | None \<Rightarrow> [])
      in includes_str accept ''text/html'' \<and> \<not> includes_str accept ''application/json'')"

definition landingLocale :: "string option \<Rightarrow> string option \<Rightarrow> string" where
  "landingLocale payloadLocale fallback =
     (case payloadLocale of
        Some l \<Rightarrow> if isSupportedLocale l then l
                  else if truthy fallback \<and> isSupportedLocale (the fallback) then the fallback else defaultLocale
      | None \<Rightarrow> if truthy fallback \<and> isSupportedLocale (the fallback) then the fallback else defaultLocale)"

definition ssoErrorResponse :: "consume_request \<Rightarrow> string \<Rightarrow> int \<Rightarrow> string option \<Rightarrow> sso_response" where
  "ssoErrorResponse request code status payloadLocale =
     (if wantsPage request then SsoErrorPage (landingLocale payloadLocale (cr_localeParam request)) code
      else SsoError code status)"

definition rateLimitConsume :: "consume_request \<Rightarrow> int option \<Rightarrow> sso_response option" where
  "rateLimitConsume request limited =
     (case limited of
        None \<Rightarrow> None
      | Some retryAfter \<Rightarrow>
          if wantsPage request then Some (ssoErrorResponse request ''rate_limited'' 429 None)
          else Some (SsoLimited retryAfter))"

definition resolveExpectedAudience :: "sso_env \<Rightarrow> (string \<times> string) option" where
  "resolveExpectedAudience env =
     (if \<not> truthy (SSO_HANDOFF_AUDIENCE_PREFIX env) then None
      else if \<not> truthy (SSO_HANDOFF_APPLICATION_ID env) then None
      else Some (the (SSO_HANDOFF_AUDIENCE_PREFIX env) @ '':'' @ the (SSO_HANDOFF_APPLICATION_ID env),
                 the (SSO_HANDOFF_APPLICATION_ID env)))"

definition verify_code :: "verify_failure \<Rightarrow> string" where
  "verify_code e = (case e of JWTExpired \<Rightarrow> ''token_expired'' | VerifyError \<Rightarrow> ''invalid_token'')"

definition NONCE_REFUSALS :: "nonce_result \<Rightarrow> string \<times> string" where
  "NONCE_REFUSALS r =
     (case r of NonceReplayed \<Rightarrow> (''nonce_replay'', ''token_already_used'')
      | NonceExpired \<Rightarrow> (''nonce_expired'', ''token_expired'')
      | _ \<Rightarrow> (''nonce_unknown'', ''invalid_token''))"

definition consume_GET ::
    "(string \<Rightarrow> string \<Rightarrow> verify_failure + verified_handoff) \<Rightarrow> sso_env \<Rightarrow> consume_request \<Rightarrow> int option \<Rightarrow>
     string option \<Rightarrow> sso_audit list \<times> sso_response" where
  "consume_GET verify env request limited token =
     (case rateLimitConsume request limited of Some r \<Rightarrow> ([], r) | None \<Rightarrow>
      if \<not> truthy token then ([], ssoErrorResponse request ''missing_token'' 400 None)
      else (case resolveExpectedAudience env of
        None \<Rightarrow> ([], ssoErrorResponse request ''audience_not_configured'' 500 None)
      | Some (audience, applicationId) \<Rightarrow>
      (case verify (the token) audience of
        Inl e \<Rightarrow> ([], ssoErrorResponse request (verify_code e) 401 None)
      | Inr v \<Rightarrow>
          if vh_targetApplicationId v \<noteq> applicationId
          then ([ConsumeFailed None ''target_application_mismatch''],
                ssoErrorResponse request ''invalid_token'' 401 (Some (vh_locale v)))
          else ([], ToConfirm (landingLocale (Some (vh_locale v)) (cr_localeParam request)) (the token)))))"

datatype form_body = FormTooLarge | FormUnreadable | FormToken "string option"

text \<open>
  \<open>others\<close> is what other requests write between the burn of the nonce and the opening of the
  session.
\<close>

definition consume_POST ::
    "(string \<Rightarrow> string \<Rightarrow> verify_failure + verified_handoff) \<Rightarrow> (sso_store \<Rightarrow> sso_store) \<Rightarrow> sso_env \<Rightarrow>
     sso_store \<Rightarrow> millis \<Rightarrow> consume_request \<Rightarrow> int option \<Rightarrow> bool \<Rightarrow> form_body \<Rightarrow> string \<Rightarrow>
     sso_store \<times> sso_audit list \<times> sso_response" where
  "consume_POST verify others env s now request limited originOk body random =
     (case rateLimitConsume request limited of Some r \<Rightarrow> (s, [], r) | None \<Rightarrow>
      if \<not> originOk then (s, [], ssoErrorResponse request ''forbidden'' 403 None)
      else if body = FormTooLarge then (s, [], ssoErrorResponse request ''payload_too_large'' 413 None)
      else (let token = (case body of FormToken t \<Rightarrow> t | _ \<Rightarrow> None) in
      if \<not> truthy token then (s, [], ssoErrorResponse request ''missing_token'' 400 None)
      else (case resolveExpectedAudience env of
        None \<Rightarrow> (s, [], ssoErrorResponse request ''audience_not_configured'' 500 None)
      | Some (audience, applicationId) \<Rightarrow>
      (case verify (the token) audience of
        Inl e \<Rightarrow> (s, [], ssoErrorResponse request (verify_code e) 401 None)
      | Inr v \<Rightarrow>
          if vh_targetApplicationId v \<noteq> applicationId
          then (s, [ConsumeFailed None ''target_application_mismatch''],
                ssoErrorResponse request ''invalid_token'' 401 (Some (vh_locale v)))
          else (case consumeSsoHandoffNonce (so_nonces s) now (vh_jti v) applicationId of
            (nonces, NonceConsumed) \<Rightarrow>
              (case createSsoSession False (others (s\<lparr>so_nonces := nonces\<rparr>)) now (vh_sub v) applicationId random of
                 (s', Inl _) \<Rightarrow>
                   (s', [ConsumeFailed (Some (vh_sub v)) ''session_establishment_failed''],
                    ssoErrorResponse request ''session_establishment_failed'' 401 (Some (vh_locale v)))
               | (s', Inr sessionToken) \<Rightarrow>
                   (s', [ConsumeSucceeded (vh_sub v) (vh_targetApplicationId v)],
                    ToDashboard (landingLocale (Some (vh_locale v)) (cr_localeParam request)) sessionToken))
          | (nonces, burn) \<Rightarrow>
              (s, [ConsumeFailed None (fst (NONCE_REFUSALS burn))],
               ssoErrorResponse request (snd (NONCE_REFUSALS burn)) 401 (Some (vh_locale v))))))))"

subsection \<open>A handoff is used once\<close>

text \<open>
  The life of the nonce table under every writer; a burn is its own step, whatever the request that
  performs it does before and after. \<open>crypto.randomUUID\<close> does not return an identifier twice.
\<close>

record sso_sys =
  sy_store :: sso_store
  sy_issued :: "uuid list"

datatype sso_event = Burned uuid | OtherSsoEvent

inductive sso_step ::
    "(string \<Rightarrow> (string \<times> string) option) \<Rightarrow> (handoff_claims \<Rightarrow> string option) \<Rightarrow>
     sso_sys \<Rightarrow> sso_event \<Rightarrow> sso_sys \<Rightarrow> bool"
  for parseUrl sign where
  Launch: "jti \<notin> set (sy_issued s) \<Longrightarrow>
     createSsoHandoffRedirect parseUrl sign env (sy_store s) now cookie app baid jti = (st, out) \<Longrightarrow>
     sso_step parseUrl sign s OtherSsoEvent (s\<lparr>sy_store := st, sy_issued := jti # sy_issued s\<rparr>)"
| Burn: "consumeSsoHandoffNonce (so_nonces (sy_store s)) now jti app = (ns, NonceConsumed) \<Longrightarrow>
     sso_step parseUrl sign s (Burned jti) (s\<lparr>sy_store := (sy_store s)\<lparr>so_nonces := ns\<rparr>\<rparr>)"
| Miss: "consumeSsoHandoffNonce (so_nonces (sy_store s)) now jti app = (ns, r) \<Longrightarrow> r \<noteq> NonceConsumed \<Longrightarrow>
     sso_step parseUrl sign s OtherSsoEvent (s\<lparr>sy_store := (sy_store s)\<lparr>so_nonces := ns\<rparr>\<rparr>)"
| Open_Session: "sso_step parseUrl sign s OtherSsoEvent
     (s\<lparr>sy_store := fst (createSsoSession viaHttp (sy_store s) now u app random)\<rparr>)"
| End_Handoffs: "sso_step parseUrl sign s OtherSsoEvent
     (s\<lparr>sy_store := fst (endSsoHandoffsOfApplication (sy_store s) now app)\<rparr>)"
| Prune: "sso_step parseUrl sign s OtherSsoEvent
     (s\<lparr>sy_store := (sy_store s)\<lparr>so_nonces := fst (pruneExpiredSsoNonces (so_nonces (sy_store s)) now)\<rparr>\<rparr>)"
| App_Deleted: "sso_step parseUrl sign s OtherSsoEvent
     (s\<lparr>sy_store := (sy_store s)\<lparr>so_apps := delete_where (\<lambda>a. ea_id a = app) (so_apps (sy_store s)),
        so_nonces := delete_where (\<lambda>n. no_target_application_id n = app) (so_nonces (sy_store s))\<rparr>\<rparr>)"
| Tables: "sso_step parseUrl sign s OtherSsoEvent
     (s\<lparr>sy_store := (sy_store s)\<lparr>so_db := d, so_apps := apps, so_sessions := ss\<rparr>\<rparr>)"

inductive_cases burned_step: "sso_step parseUrl sign s (Burned i) s'"

abbreviation nonce_rows :: "sso_sys \<Rightarrow> nonce_row table" where
  "nonce_rows s \<equiv> so_nonces (sy_store s)"

abbreviation nonce_live :: "nonce_row \<Rightarrow> bool" where
  "nonce_live n \<equiv> no_consumed_at n = None"

lemma consume_parts:
  assumes "consumeSsoHandoffNonce ns now jti app = (ns', NonceConsumed)"
  shows "\<exists>n \<in> set ns. no_jti n = jti \<and> no_target_application_id n = app \<and> no_consumed_at n = None \<and> no_expires_at n > now"
    and "ns' = update_where (\<lambda>n. no_jti n = jti \<and> no_target_application_id n = app \<and>
        no_consumed_at n = None \<and> no_expires_at n > now) (\<lambda>n. n\<lparr>no_consumed_at := Some now\<rparr>) ns"
  using assms
  by (auto simp: consumeSsoHandoffNonce_def Let_def count_where_def filter_empty_conv split: if_splits option.splits)

lemma consume_missed:
  "consumeSsoHandoffNonce ns now jti app = (ns', r) \<Longrightarrow> r \<noteq> NonceConsumed \<Longrightarrow> ns' = ns"
  by (auto simp: consumeSsoHandoffNonce_def Let_def split: if_splits)

lemma launch_nonces:
  assumes "createSsoHandoffRedirect parseUrl sign env s now cookie app baid jti = (s', out)"
  shows "so_nonces s' = so_nonces s \<or>
    (\<exists>r. no_jti r = jti \<and> so_nonces s' =
       delete_where (\<lambda>n. no_expires_at n < now - 60 * 60 * 1000) (so_nonces s) @ [r])"
  using assms
  by (auto simp: createSsoHandoffRedirect_def Let_def split: option.splits sum.splits)

lemma createSsoSession_nonces [simp]: "so_nonces (fst (createSsoSession v s now u app r)) = so_nonces s"
  by (auto simp: createSsoSession_def split: option.splits)

lemma end_shrinks:
  "shrinks no_jti nonce_live (so_nonces s) (so_nonces (fst (endSsoHandoffsOfApplication s now app)))"
  by (auto simp: endSsoHandoffsOfApplication_def Let_def intro!: shrinks_update)

lemma sso_step_shape:
  assumes "sso_step parseUrl sign s e s'"
  shows "set (sy_issued s) \<subseteq> set (sy_issued s') \<and> shrinks no_jti nonce_live (nonce_rows s) (nonce_rows s') \<or>
    (\<exists>t r. shrinks no_jti nonce_live (nonce_rows s) t \<and> nonce_rows s' = t @ [r] \<and>
       no_jti r \<notin> set (sy_issued s) \<and> sy_issued s' = no_jti r # sy_issued s)"
  using assms
proof cases
  case (Launch jti env now cookie app baid st out)
  from launch_nonces [OF Launch(4)] show ?thesis
  proof
    assume "so_nonces st = so_nonces (sy_store s)"
    with Launch show ?thesis by auto
  next
    assume "\<exists>r. no_jti r = jti \<and> so_nonces st =
       delete_where (\<lambda>n. no_expires_at n < now - 60 * 60 * 1000) (so_nonces (sy_store s)) @ [r]"
    then obtain r where "no_jti r = jti" "so_nonces st =
       delete_where (\<lambda>n. no_expires_at n < now - 60 * 60 * 1000) (so_nonces (sy_store s)) @ [r]" by blast
    with Launch show ?thesis
      by (intro disjI2 exI [of _ "delete_where (\<lambda>n. no_expires_at n < now - 60 * 60 * 1000) (nonce_rows s)"] exI [of _ r]) simp
  qed
next
  case (Burn now jti app ns)
  then show ?thesis using consume_parts(2) [OF Burn(3)] by (auto intro!: shrinks_update)
next
  case (Miss now jti app ns r)
  with consume_missed [OF Miss(3,4)] show ?thesis by simp
qed (auto simp: end_shrinks pruneExpiredSsoNonces_def Let_def)

lemma burn_live:
  "sso_step parseUrl sign s (Burned i) s' \<Longrightarrow> i \<in> live_keys no_jti nonce_live (nonce_rows s)"
  by (auto simp: live_keys_def image_iff dest!: consume_parts(1) elim!: burned_step)

lemma burn_kills:
  assumes "sso_step parseUrl sign s (Burned i) s'" "distinct (map no_jti (nonce_rows s))"
  shows "i \<notin> live_keys no_jti nonce_live (nonce_rows s') \<and> set (sy_issued s) \<subseteq> set (sy_issued s')"
proof -
  from assms(1) obtain now app ns where b: "s' = s\<lparr>sy_store := (sy_store s)\<lparr>so_nonces := ns\<rparr>\<rparr>"
      "consumeSsoHandoffNonce (nonce_rows s) now i app = (ns, NonceConsumed)"
    by (elim burned_step) blast
  note c = consume_parts [OF b(2)]
  obtain n where n: "n \<in> set (nonce_rows s)" "no_jti n = i" "no_target_application_id n = app"
      "no_consumed_at n = None" "no_expires_at n > now" using c(1) by blast
  have "no_jti n \<notin> live_keys no_jti nonce_live ns"
    unfolding c(2) by (rule update_kills [OF assms(2) n(1)]) (use n in auto)
  with n(2) b(1) show ?thesis by simp
qed

text \<open>The nonce table keeps the contract of a table of one-time credentials.\<close>

interpretation nonce: credential_table "sso_step parseUrl sign" nonce_rows sy_issued no_jti nonce_live
  "\<lambda>e i. e = Burned i" for parseUrl sign
proof
  show "set (sy_issued s) \<subseteq> set (sy_issued s') \<and> shrinks no_jti nonce_live (nonce_rows s) (nonce_rows s') \<or>
    (\<exists>t r. shrinks no_jti nonce_live (nonce_rows s) t \<and> nonce_rows s' = t @ [r] \<and>
       no_jti r \<notin> set (sy_issued s) \<and> sy_issued s' = no_jti r # sy_issued s)"
    if "sso_step parseUrl sign s e s'" for s e s' using that by (rule sso_step_shape)
  show "i \<in> live_keys no_jti nonce_live (nonce_rows s)"
    if "sso_step parseUrl sign s e s'" "e = Burned i" for s e s' i
    using burn_live that by blast
  show "i \<notin> live_keys no_jti nonce_live (nonce_rows s') \<and> set (sy_issued s) \<subseteq> set (sy_issued s')"
    if "sso_step parseUrl sign s e s'" "e = Burned i" "distinct (map no_jti (nonce_rows s))" for s e s' i
    using burn_kills that by blast
qed

text \<open>
  C27: a handoff nonce is burned at most once. Whatever launches, burns, missed burns, session
  openings, application disablings and deletions, and prunes happen between and in whatever order,
  no identifier is reported consumed twice.
\<close>

theorem handoff_burned_once:
  "run (sso_step parseUrl sign) s es s' \<Longrightarrow> table_ok no_jti (sy_issued s) (so_nonces (sy_store s)) \<Longrightarrow>
    length (filter (\<lambda>e. e = Burned jti) es) \<le> 1"
  by (rule nonce.at_most_once)

subsection \<open>Who may launch, and what a launch writes\<close>

lemma sso_access_parts:
  assumes "loadSsoAccessContext d now cookie baid app = Inr c"
  shows "decideSecureAccess (ac_status (getUserAccessContext d now cookie baid None None))
      (ac_membershipStatus (getUserAccessContext d now cookie baid None None)) = Allow"
    "ac_organizationId (getUserAccessContext d now cookie baid None None) = Some (sa_organizationId c)"
    "truthy (ea_organization_id app) \<Longrightarrow> ea_organization_id app = Some (sa_organizationId c)"
  using assms
  by (auto simp: loadSsoAccessContext_def Let_def truthy_iff split: access_decision.splits if_splits)

lemma clamp_bounds: "1 \<le> clampSsoHandoffTtl t" "clampSsoHandoffTtl t \<le> 60"
  by (simp_all add: clampSsoHandoffTtl_def SSO_HANDOFF_MAX_TTL_SECONDS_def)

lemma clamp_idem [simp]: "clampSsoHandoffTtl (clampSsoHandoffTtl t) = clampSsoHandoffTtl t"
  by (simp add: clampSsoHandoffTtl_def SSO_HANDOFF_MAX_TTL_SECONDS_def)

lemma redirect_parts:
  assumes "createSsoHandoffRedirect parseUrl sign env s now cookie appId baid jti = (s', Inr (orig, token))"
  obtains app c where
    "app \<in> set (so_apps s)" "ea_id app = appId" "ea_status app = ''available''" "orig = ea_origin app"
    "loadSsoAccessContext (so_db s) now cookie baid app = Inr c"
    "so_nonces s' = delete_where (\<lambda>n. no_expires_at n < now - 60 * 60 * 1000) (so_nonces s) @
       [\<lparr>no_jti = jti, no_app_user_id = sa_appUserId c, no_target_application_id = appId,
         no_expires_at = now + clampSsoHandoffTtl (SSO_HANDOFF_TTL_SECONDS env) * 1000, no_consumed_at = None\<rparr>]"
    "s' = s\<lparr>so_nonces := so_nonces s'\<rparr>"
    "signSsoHandoff parseUrl sign env now baid (ea_sso_audience app) jti
       (clampSsoHandoffTtl (SSO_HANDOFF_TTL_SECONDS env)) (sa_email c) appId (sa_locale c) = Some token"
    "List.find (\<lambda>a. ea_id a = appId \<and> ea_status a = ''available'') (so_apps s) = Some app"
proof -
  obtain app where f: "List.find (\<lambda>a. ea_id a = appId \<and> ea_status a = ''available'') (so_apps s) = Some app"
    using assms by (auto simp: createSsoHandoffRedirect_def split: option.splits)
  obtain c where c: "loadSsoAccessContext (so_db s) now cookie baid app = Inr c"
    using assms f by (auto simp: createSsoHandoffRedirect_def split: sum.splits)
  from find_Some_iff_set [OF f] assms f c show ?thesis
    by (intro that [of app c]) (auto simp: createSsoHandoffRedirect_def Let_def split: option.splits)
qed

lemma launch_parts:
  assumes "launch_GET parseUrl sign env s now cookie applicationId localeParam session limited jti =
      (s', ev, ToApplication orig token)"
  obtains appId sess where "applicationId = Some appId" "session = Some sess" "\<not> truthy (ls_impersonatorId sess)"
    "isSsoHandoffSelfIssuer parseUrl env" "limited = None" "APP_ID_RE appId"
    "createSsoHandoffRedirect parseUrl sign env s now cookie appId (ls_user_id sess) jti = (s', Inr (orig, token))"
    "ev = [LaunchSucceeded (ls_user_id sess) appId]"
proof -
  from assms obtain appId sess where a: "applicationId = Some appId" "session = Some sess" "limited = None"
    by (auto simp: launch_GET_def Let_def truthy_iff split: if_splits option.splits)
  with assms show ?thesis
    by (intro that [OF a(1,2)])
      (auto simp: launch_GET_def Let_def truthy_iff split: if_splits sum.splits prod.splits)
qed

text \<open>
  A handoff is minted only for a user who could enter the application's organization. A launch
  that redirects to an application comes from a session that is not an impersonation, on a
  deployment that is the issuer, for an available application; the user's own access is allowed,
  and in the application's organization when it has one; and the nonce it adds is unspent and lives
  at most sixty seconds.
\<close>

lemma launch_justified:
  assumes "launch_GET parseUrl sign env s now cookie applicationId localeParam session limited jti =
      (s', ev, ToApplication orig token)"
  shows "\<exists>sess (app :: sso_app_row) access. session = Some sess \<and> \<not> truthy (ls_impersonatorId sess) \<and>
    isSsoHandoffSelfIssuer parseUrl env \<and> app \<in> set (so_apps s) \<and> applicationId = Some (ea_id app) \<and>
    ea_status app = ''available'' \<and> orig = ea_origin app \<and>
    access = getUserAccessContext (so_db s) now cookie (ls_user_id sess) None None \<and>
    decideSecureAccess (ac_status access) (ac_membershipStatus access) = Allow \<and>
    (truthy (ea_organization_id app) \<longrightarrow> ac_organizationId access = ea_organization_id app) \<and>
    (\<exists>n :: nonce_row. no_jti n = jti \<and> no_target_application_id n = ea_id app \<and> no_consumed_at n = None \<and>
       now < no_expires_at n \<and> no_expires_at n \<le> now + 60000 \<and>
       set (so_nonces s') \<subseteq> insert n (set (so_nonces s)) \<and> n \<in> set (so_nonces s'))"
proof (rule launch_parts [OF assms])
  fix appId and sess :: launch_session
  assume l: "applicationId = Some appId" "session = Some sess" "\<not> truthy (ls_impersonatorId sess)"
    "isSsoHandoffSelfIssuer parseUrl env"
    and red: "createSsoHandoffRedirect parseUrl sign env s now cookie appId (ls_user_id sess) jti = (s', Inr (orig, token))"
  show ?thesis
  proof (rule redirect_parts [OF red])
    fix app :: sso_app_row and c :: sso_access
    let ?n = "\<lparr>no_jti = jti, no_app_user_id = sa_appUserId c, no_target_application_id = appId,
         no_expires_at = now + clampSsoHandoffTtl (SSO_HANDOFF_TTL_SECONDS env) * 1000, no_consumed_at = None\<rparr>"
    assume a: "app \<in> set (so_apps s)" "ea_id app = appId" "ea_status app = ''available''" "orig = ea_origin app"
      and c: "loadSsoAccessContext (so_db s) now cookie (ls_user_id sess) app = Inr c"
      and n: "so_nonces s' = delete_where (\<lambda>n. no_expires_at n < now - 60 * 60 * 1000) (so_nonces s) @ [?n]"
    have "\<exists>n :: nonce_row. no_jti n = jti \<and> no_target_application_id n = ea_id app \<and> no_consumed_at n = None \<and>
       now < no_expires_at n \<and> no_expires_at n \<le> now + 60000 \<and>
       set (so_nonces s') \<subseteq> insert n (set (so_nonces s)) \<and> n \<in> set (so_nonces s')"
      using clamp_bounds [of "SSO_HANDOFF_TTL_SECONDS env"] a(2)
      by (intro exI [of _ ?n]) (auto simp: n table_simps)
    with l a sso_access_parts [OF c] show ?thesis by auto
  qed
qed

subsection \<open>What opens a session\<close>

lemma session_parts:
  assumes "createSsoSession viaHttp s now userId appId random = (s', Inr token)"
  shows "\<exists>u \<in> set (auth_users (so_db s)). bu_id u = userId \<and> \<not> isBanActive (bannable_of u) now"
    "token = ssoSessionToken appId random" "\<not> viaHttp"
    "so_sessions s' = so_sessions s @ [\<lparr>os_user_id = userId, os_token = ssoSessionToken appId random\<rparr>]"
  using assms
  by (auto simp: createSsoSession_def split: option.splits if_splits dest!: find_Some_iff_set)

lemma createSsoSession_Inl: "createSsoSession v s now u app r = (s', Inl e) \<Longrightarrow> s' = s"
  by (auto simp: createSsoSession_def split: option.splits if_splits)

lemma error_response_not_dashboard [simp]:
  "ssoErrorResponse request code status l \<noteq> ToDashboard a b" "ToDashboard a b \<noteq> ssoErrorResponse request code status l"
  "rateLimitConsume request limited \<noteq> Some (ToDashboard a b)"
  by (auto simp: ssoErrorResponse_def rateLimitConsume_def split: option.splits)

lemma consume_POST_parts:
  assumes "consume_POST verify others env s now request limited originOk body random = (s', ev, ToDashboard loc token)"
  obtains t audience appId v ns where
    "originOk" "body = FormToken (Some t)" "resolveExpectedAudience env = Some (audience, appId)"
    "verify t audience = Inr v" "vh_targetApplicationId v = appId"
    "consumeSsoHandoffNonce (so_nonces s) now (vh_jti v) appId = (ns, NonceConsumed)"
    "createSsoSession False (others (s\<lparr>so_nonces := ns\<rparr>)) now (vh_sub v) appId random = (s', Inr token)"
    "ev = [ConsumeSucceeded (vh_sub v) (vh_targetApplicationId v)]"
proof -
  have a: "rateLimitConsume request limited = None" "originOk"
    using assms by (auto simp: consume_POST_def split: option.splits if_splits)
  from assms a obtain t where t: "body = FormToken (Some t)" "t \<noteq> []"
    by (cases body) (auto simp: consume_POST_def Let_def truthy_iff split: if_splits)
  from assms a t obtain audience appId where r: "resolveExpectedAudience env = Some (audience, appId)"
    by (auto simp: consume_POST_def Let_def split: option.splits)
  from assms a t r obtain v where v: "verify t audience = Inr v" "vh_targetApplicationId v = appId"
    by (auto simp: consume_POST_def Let_def split: sum.splits if_splits)
  obtain ns b where n: "consumeSsoHandoffNonce (so_nonces s) now (vh_jti v) appId = (ns, b)"
    by (metis prod.exhaust)
  from assms a t r v n have b: "b = NonceConsumed"
    by (cases b) (auto simp: consume_POST_def Let_def)
  from assms a t r v n b show ?thesis
    by (intro that [OF a(2) t(1) r v n [unfolded b]])
      (auto simp: consume_POST_def Let_def split: sum.splits prod.splits)
qed

text \<open>A nonce that was burned reads as replayed from then on.\<close>

lemma consume_replay:
  assumes "consumeSsoHandoffNonce ns now jti app = (ns', NonceConsumed)" "distinct (map no_jti ns)"
  shows "consumeSsoHandoffNonce ns' later jti app = (ns', NonceReplayed)"
proof -
  note c = consume_parts [OF assms(1)]
  obtain n where n: "n \<in> set ns" "no_jti n = jti" "no_target_application_id n = app"
      "no_consumed_at n = None" "no_expires_at n > now" using c(1) by blast
  have "no_jti n \<notin> live_keys no_jti nonce_live ns'"
    unfolding c(2) by (rule update_kills [OF assms(2) n(1)]) (use n in auto)
  then have dead: "\<And>m. m \<in> set ns' \<Longrightarrow> no_jti m = jti \<Longrightarrow> no_consumed_at m \<noteq> None"
    using n(2) by (force simp: live_keys_def)
  have "n\<lparr>no_consumed_at := Some now\<rparr> \<in> set ns'"
    unfolding c(2) table_simps using n by (intro bexI [of _ n]) auto
  then have "List.find (\<lambda>m. no_jti m = jti \<and> no_target_application_id m = app) ns' \<noteq> None"
    using n unfolding find_None_set by (intro notI) (drule (1) bspec, simp)
  then obtain m where m: "List.find (\<lambda>m. no_jti m = jti \<and> no_target_application_id m = app) ns' = Some m" by blast
  have "count_where (\<lambda>n. no_jti n = jti \<and> no_target_application_id n = app \<and>
      no_consumed_at n = None \<and> no_expires_at n > later) ns' = 0"
    using dead by (auto simp: count_where_def filter_empty_conv)
  with m find_Some_iff_set [OF m] dead show ?thesis by (simp add: consumeSsoHandoffNonce_def Let_def)
qed

text \<open>
  C26: a handoff session has a handoff behind it. When the confirmation form opens a session, the
  form came from a trusted origin and carried a token that verified for this deployment's audience
  and names this deployment's application; the token's nonce was recorded for that application,
  unspent and unexpired, and every later burn of it answers that it was replayed; the account
  exists and is not banned; and the session is of that account and its token carries the
  application's mark, so that it can be ended with the application.
\<close>

theorem handoff_session_justified:
  assumes "consume_POST verify others env s now request limited originOk body random = (s', ev, ToDashboard loc token)"
    "distinct (map no_jti (so_nonces s))"
  shows "\<exists>t audience appId v ns. originOk \<and> body = FormToken (Some t) \<and>
    resolveExpectedAudience env = Some (audience, appId) \<and> verify t audience = Inr v \<and>
    vh_targetApplicationId v = appId \<and>
    (\<exists>n \<in> set (so_nonces s). no_jti n = vh_jti v \<and> no_target_application_id n = appId \<and>
       no_consumed_at n = None \<and> now < no_expires_at n) \<and>
    consumeSsoHandoffNonce (so_nonces s) now (vh_jti v) appId = (ns, NonceConsumed) \<and>
    (\<forall>later. consumeSsoHandoffNonce ns later (vh_jti v) appId = (ns, NonceReplayed)) \<and>
    (\<exists>u \<in> set (auth_users (so_db (others (s\<lparr>so_nonces := ns\<rparr>)))).
       bu_id u = vh_sub v \<and> \<not> isBanActive (bannable_of u) now) \<and>
    so_sessions s' = so_sessions (others (s\<lparr>so_nonces := ns\<rparr>)) @ [\<lparr>os_user_id = vh_sub v, os_token = token\<rparr>] \<and>
    starts_with token (ssoSessionTokenPrefix appId)"
proof (rule consume_POST_parts [OF assms(1)])
  fix t audience appId ns and v :: verified_handoff
  assume p: "originOk" "body = FormToken (Some t)" "resolveExpectedAudience env = Some (audience, appId)"
    "verify t audience = Inr v" "vh_targetApplicationId v = appId"
    and c: "consumeSsoHandoffNonce (so_nonces s) now (vh_jti v) appId = (ns, NonceConsumed)"
    and o: "createSsoSession False (others (s\<lparr>so_nonces := ns\<rparr>)) now (vh_sub v) appId random = (s', Inr token)"
  from p c session_parts [OF o] consume_parts(1) [OF c] consume_replay [OF c assms(2)] show ?thesis
    by (intro exI [of _ t] exI [of _ audience] exI [of _ appId] exI [of _ v] exI [of _ ns])
      (auto simp: ssoSessionToken_def)
qed

subsection \<open>Ending an application's handoffs\<close>

lemma app_token_marks:
  "starts_with (ssoSessionToken b random) (ssoSessionTokenPrefix a) \<longleftrightarrow> a = b"
proof -
  have "starts_with (ssoSessionToken b random) (ssoSessionTokenPrefix b)" by (simp add: ssoSessionToken_def)
  from sso_mark_identifies_application [OF this] show ?thesis by blast
qed

text \<open>
  Disabling an application ends its handoffs and nobody else's. Afterwards no session carries
  the application's mark, no nonce of the application can be burned at any later time, and the
  sessions of every other application, and those no handoff opened, are all still there.
\<close>

lemma ended_application_is_out:
  assumes "endSsoHandoffsOfApplication s now app = (s', ended)" "app \<noteq> []" "now \<le> later"
  shows "(\<forall>x \<in> set (so_sessions s'). \<not> starts_with (os_token x) (ssoSessionTokenPrefix app)) \<and>
    snd (consumeSsoHandoffNonce (so_nonces s') later jti app) \<noteq> NonceConsumed \<and>
    (\<forall>x \<in> set (so_sessions s). (\<exists>b random. b \<noteq> app \<and> os_token x = ssoSessionToken b random) \<or>
        \<not> isSsoHandoffSession (Some (y\<lparr>sess_token := Some (os_token x)\<rparr>)) \<longrightarrow> x \<in> set (so_sessions s')) \<and>
    length (so_sessions s') + ended = length (so_sessions s)"
proof -
  let ?m = "\<lambda>x. starts_with (os_token x) (ssoSessionTokenPrefix app)"
  have s': "so_sessions s' = delete_where ?m (so_sessions s)" "ended = count_where ?m (so_sessions s)"
    "so_nonces s' = update_where (\<lambda>n. no_target_application_id n = app \<and> no_consumed_at n = None \<and> no_expires_at n > now)
       (\<lambda>n. n\<lparr>no_expires_at := now\<rparr>) (so_nonces s)"
    using assms(1,2) by (auto simp: endSsoHandoffsOfApplication_def Let_def)
  have "\<not> (no_target_application_id n = app \<and> no_consumed_at n = None \<and> no_expires_at n > later)"
    if n: "n \<in> set (so_nonces s')" for n
  proof -
    from n obtain r where "n = (if no_target_application_id r = app \<and> no_consumed_at r = None \<and> no_expires_at r > now
        then r\<lparr>no_expires_at := now\<rparr> else r)" unfolding s' by (auto simp: table_simps)
    with assms(3) show ?thesis by (auto split: if_splits)
  qed
  then have burn: "snd (consumeSsoHandoffNonce (so_nonces s') later jti app) \<noteq> NonceConsumed"
    using consume_parts(1) [of "so_nonces s'" later jti app] by (metis prod.collapse)
  have marked: "?m x \<Longrightarrow> isSsoHandoffSession (Some (y\<lparr>sess_token := Some (os_token x)\<rparr>))" for x
    by (auto simp: isSsoHandoffSession_def ssoSessionTokenPrefix_def prefix_def)
  have len: "length (delete_where ?m (so_sessions s)) + count_where ?m (so_sessions s) = length (so_sessions s)"
    using sum_length_filter_compl [of ?m "so_sessions s"] by (simp add: delete_where_def count_where_def)
  show ?thesis
    using burn marked app_token_marks len by (auto simp: s' table_simps)
qed

subsection \<open>From launch to session\<close>

definition payload_of :: "handoff_claims \<Rightarrow> handoff_payload" where
  "payload_of c =
     \<lparr>hp_jti = Some (hc_jti c), hp_sub = Some (hc_sub c), hp_email = Some (hc_email c),
      hp_targetApplicationId = Some (hc_targetApplicationId c), hp_locale = Some (hc_locale c),
      hp_iat = Some (hc_iat c), hp_exp = Some (hc_exp c)\<rparr>"

text \<open>
  What the signature library documents: a token it signed verifies, for its own issuer and
  audience, from the second it was issued to the second it expires, and decodes to its claims.
\<close>

definition jose_round_trips ::
    "(handoff_claims \<Rightarrow> string option) \<Rightarrow> (string \<Rightarrow> string \<Rightarrow> millis \<Rightarrow> string \<Rightarrow> verify_failure + handoff_payload) \<Rightarrow> bool" where
  "jose_round_trips sign jwtVerify \<longleftrightarrow>
     (\<forall>c token t. sign c = Some token \<longrightarrow> hc_iat c \<le> t div 1000 \<longrightarrow> t div 1000 \<le> hc_exp c \<longrightarrow>
        token \<noteq> [] \<and> jwtVerify (hc_iss c) (hc_aud c) t token = Inr (payload_of c))"

lemma sign_parts:
  assumes "signSsoHandoff parseUrl sign env now sub audience jti ttl email target locale = Some token"
  obtains iss where "SSO_HANDOFF_ISSUER env = Some iss" "iss \<noteq> []" "originOf parseUrl (Some iss) = Some iss"
    "isSsoHandoffSelfIssuer parseUrl env"
    "sign \<lparr>hc_iss = iss, hc_aud = audience, hc_sub = sub, hc_jti = jti, hc_iat = now div 1000,
       hc_exp = now div 1000 + clampSsoHandoffTtl ttl, hc_email = email, hc_targetApplicationId = target,
       hc_locale = locale\<rparr> = Some token"
  using assms
  by (auto simp: signSsoHandoff_def truthy_iff assertSsoHandoffSignerIsIssuer_def split: if_splits)

lemma signed_verifies:
  assumes "signSsoHandoff parseUrl sign env now sub audience jti ttl email target locale = Some token"
    "jose_round_trips sign jwtVerify" "SSO_HANDOFF_ISSUER cenv = SSO_HANDOFF_ISSUER env"
    "now \<le> t" "t < now + clampSsoHandoffTtl ttl * 1000" "jti \<noteq> []" "sub \<noteq> []"
  shows "token \<noteq> [] \<and> verifySsoHandoff parseUrl jwtVerify cenv t token audience =
    Inr \<lparr>vh_jti = jti, vh_sub = sub, vh_targetApplicationId = target, vh_locale = locale\<rparr>"
proof (rule sign_parts [OF assms(1)])
  fix iss
  let ?c = "\<lparr>hc_iss = iss, hc_aud = audience, hc_sub = sub, hc_jti = jti, hc_iat = now div 1000,
       hc_exp = now div 1000 + clampSsoHandoffTtl ttl, hc_email = email, hc_targetApplicationId = target,
       hc_locale = locale\<rparr>"
  assume iss: "SSO_HANDOFF_ISSUER env = Some iss" "iss \<noteq> []" "originOf parseUrl (Some iss) = Some iss"
    and sig: "sign ?c = Some token"
  have "now div 1000 \<le> t div 1000" "t div 1000 \<le> now div 1000 + clampSsoHandoffTtl ttl"
    using assms(4,5) by linarith+
  with assms(2) [unfolded jose_round_trips_def, rule_format, OF sig]
  have "token \<noteq> []" "jwtVerify iss audience t token = Inr (payload_of ?c)"
    by simp_all
  with iss assms(3,6,7) show ?thesis by (simp add: verifySsoHandoff_def payload_of_def Suc_le_eq)
qed

text \<open>
  C28: A launch that succeeds signs the user in, once, at an application that is set up for it. The
  token it redirects with, posted to the confirmation route within its lifetime, opens a session of
  the launching user marked for that application; posted again, it opens none and is recorded as a
  replay. This holds when the consumer is configured as the application the token names (the same
  issuer, its application id, an audience prefix that gives the registered audience); when the post
  comes from a trusted origin and the limiter admits it; when the user's account exists and is not
  banned at that moment; and when nothing else writes the store from the launch to the second post.
  The nonce's id is new, and the JWT library verifies what it signed.
\<close>

theorem launched_handoff_signs_in:
  assumes launch: "launch_GET parseUrl sign env s now cookie applicationId localeParam (Some sess) limited jti =
      (s1, ev, ToApplication orig token)"
    and fresh: "jti \<noteq> []" "jti \<notin> no_jti ` set (so_nonces s)" "distinct (map no_jti (so_nonces s))"
    and jose: "jose_round_trips sign jwtVerify"
    and consumer: "SSO_HANDOFF_ISSUER cenv = SSO_HANDOFF_ISSUER env"
      "SSO_HANDOFF_APPLICATION_ID cenv = applicationId"
      "SSO_HANDOFF_AUDIENCE_PREFIX cenv = Some audiencePrefix" "audiencePrefix \<noteq> []"
      "\<forall>app \<in> set (so_apps s). Some (ea_id app) = applicationId \<longrightarrow>
         ea_sso_audience app = audiencePrefix @ '':'' @ ea_id app"
    and time: "now \<le> later" "later < now + clampSsoHandoffTtl (SSO_HANDOFF_TTL_SECONDS env) * 1000"
    and account: "ls_user_id sess \<noteq> []"
      "List.find (\<lambda>u. bu_id u = ls_user_id sess) (auth_users (so_db s)) = Some u"
      "\<not> isBanActive (bannable_of u) later"
  shows "\<exists>s2 loc. consume_POST (verifySsoHandoff parseUrl jwtVerify cenv later) (\<lambda>x. x) cenv s1 later request None
      True (FormToken (Some token)) random =
      (s2, [ConsumeSucceeded (ls_user_id sess) (the applicationId)],
       ToDashboard loc (ssoSessionToken (the applicationId) random)) \<and>
    so_sessions s2 = so_sessions s @ [\<lparr>os_user_id = ls_user_id sess, os_token = ssoSessionToken (the applicationId) random\<rparr>] \<and>
    (\<exists>r. consume_POST (verifySsoHandoff parseUrl jwtVerify cenv later) (\<lambda>x. x) cenv s2 later request None
      True (FormToken (Some token)) random2 = (s2, [ConsumeFailed None ''nonce_replay''], r))"
proof (rule launch_parts [OF launch])
  fix appId and sess' :: launch_session
  assume l: "applicationId = Some appId" "Some sess = Some sess'" "APP_ID_RE appId"
    and red: "createSsoHandoffRedirect parseUrl sign env s now cookie appId (ls_user_id sess') jti = (s1, Inr (orig, token))"
  let ?uid = "ls_user_id sess" and ?ttl = "clampSsoHandoffTtl (SSO_HANDOFF_TTL_SECONDS env)"
  have appId: "appId \<noteq> []" using l(3) by (auto simp: APP_ID_RE_def)
  show ?thesis
  proof (rule redirect_parts [OF red])
    fix app :: sso_app_row and c :: sso_access
    let ?n = "\<lparr>no_jti = jti, no_app_user_id = sa_appUserId c, no_target_application_id = appId,
         no_expires_at = now + ?ttl * 1000, no_consumed_at = None\<rparr>"
    let ?v = "\<lparr>vh_jti = jti, vh_sub = ?uid, vh_targetApplicationId = appId, vh_locale = sa_locale c\<rparr>"
    assume a: "app \<in> set (so_apps s)" "ea_id app = appId"
      and n: "so_nonces s1 = delete_where (\<lambda>n. no_expires_at n < now - 60 * 60 * 1000) (so_nonces s) @ [?n]"
      and s1: "s1 = s\<lparr>so_nonces := so_nonces s1\<rparr>"
      and sg: "signSsoHandoff parseUrl sign env now (ls_user_id sess') (ea_sso_audience app) jti ?ttl
         (sa_email c) appId (sa_locale c) = Some token"
    have aud: "resolveExpectedAudience cenv = Some (ea_sso_audience app, appId)"
      using consumer a l(1) appId by (auto simp: resolveExpectedAudience_def)
    have ver: "token \<noteq> []" "verifySsoHandoff parseUrl jwtVerify cenv later token (ea_sso_audience app) = Inr ?v"
      using signed_verifies [OF sg jose consumer(1) time(1) _ fresh(1)] time(2) account(1) l(2) by auto
    have db: "so_db s1 = so_db s" "so_sessions s1 = so_sessions s" by (subst s1, simp)+
    have dist: "distinct (map no_jti (so_nonces s1))"
      using fresh unfolding n by (auto simp: delete_where_def distinct_map intro: inj_on_subset)
    have "?n \<in> set (so_nonces s1)" by (simp add: n)
    then have "count_where (\<lambda>n. no_jti n = jti \<and> no_target_application_id n = appId \<and>
        no_consumed_at n = None \<and> no_expires_at n > later) (so_nonces s1) > 0"
      using time by (force simp: count_where_def filter_empty_conv)
    then obtain ns where burn: "consumeSsoHandoffNonce (so_nonces s1) later jti appId = (ns, NonceConsumed)"
      by (simp add: consumeSsoHandoffNonce_def Let_def)
    let ?tok = "ssoSessionToken appId random"
    let ?s2 = "s1\<lparr>so_nonces := ns, so_sessions := so_sessions s @ [\<lparr>os_user_id = ?uid, os_token = ?tok\<rparr>]\<rparr>"
    have "bu_id u = ?uid" using find_Some_iff_set [OF account(2)] by simp
    with account appId have sess: "createSsoSession False (s1\<lparr>so_nonces := ns\<rparr>) later ?uid appId random = (?s2, Inr ?tok)"
      by (simp add: createSsoSession_def db Suc_le_eq)
    have rate: "rateLimitConsume request None = None" by (simp add: rateLimitConsume_def)
    note steps = consume_POST_def rate Let_def aud ver
    have 1: "consume_POST (verifySsoHandoff parseUrl jwtVerify cenv later) (\<lambda>x. x) cenv s1 later request None
      True (FormToken (Some token)) random = (?s2, [ConsumeSucceeded ?uid appId],
       ToDashboard (landingLocale (Some (sa_locale c)) (cr_localeParam request)) ?tok)"
      by (simp add: steps burn sess)
    have 2: "consumeSsoHandoffNonce ns later jti appId = (ns, NonceReplayed)"
      by (rule consume_replay [OF burn dist])
    have "consume_POST (verifySsoHandoff parseUrl jwtVerify cenv later) (\<lambda>x. x) cenv ?s2 later request None
      True (FormToken (Some token)) random2 = (?s2, [ConsumeFailed None ''nonce_replay''],
        ssoErrorResponse request ''token_already_used'' 401 (Some (sa_locale c)))"
      by (simp add: steps 2 NONCE_REFUSALS_def)
    with 1 l(1) show ?thesis by auto
  qed
qed

subsection \<open>The launch survives sign-in\<close>

lemma form_encode_safe: "\<forall>c \<in> set s. form_safe c \<Longrightarrow> form_encode s = s"
  by (induction s) (simp_all add: form_encode_def)

lemma app_id_form_safe: "APP_ID_RE v \<Longrightarrow> c \<in> set v \<Longrightarrow> form_safe c"
  by (auto simp: APP_ID_RE_def app_id_char_def form_safe_def Let_def split: list.splits)

lemma supported_form_safe: "isSupportedLocale l \<Longrightarrow> c \<in> set l \<Longrightarrow> form_safe c"
  by (drule supported_cases) (auto simp: form_safe_def)

text \<open>A query of safe characters: no backslash, no control character and no trailing space.\<close>

lemma query_rest_ok:
  assumes "\<forall>c \<in> set q. form_safe c \<or> c = CHR ''='' \<or> c = CHR ''&''"
  shows "rest_ok (''sso/launch?'' @ q)"
proof -
  have path: "path_part (''sso/launch?'' @ q) = ''sso/launch''" by (simp add: path_part_def)
  have q: "c \<noteq> CHR 0x5C \<and> c \<noteq> CHR '' '' \<and> \<not> control_char c" if "c \<in> set q" for c
    using assms that by (force simp: form_safe_def control_char_def Let_def)
  have "\<not> CONTROL_CHARACTER (''sso/launch?'' @ q)"
    using q by (auto simp: CONTROL_CHARACTER_def control_char_def Let_def)
  moreover have "\<not> ends_with (CHR ''/'' # ''sso/launch?'' @ q) '' ''"
    using q by (cases q rule: rev_cases) (auto simp: suffix_def)
  moreover have "CHR 0x5C \<notin> set (''sso/launch?'' @ q)" using q by auto
  moreover have "\<not> ENCODED_PATH_SEPARATOR (CHR ''/'' # ''sso/launch'')"
    "\<forall>s \<in> set (split_on (CHR ''/'') ''sso/launch''). \<not> DOT_SEGMENT s"
    "part_or_empty (split_on (CHR ''/'') ''sso/launch'') 0 \<notin> set AUTH_SEGMENTS" by code_simp+
  ultimately show ?thesis unfolding rest_ok_def path by blast
qed

lemma launch_params:
  assumes "parseSsoLaunchParams applicationId locale = Some p"
  shows "applicationId = Some (lp_applicationId p)" "APP_ID_RE (lp_applicationId p)"
    "isSupportedLocale (lp_locale p)"
    "launch_query p = ''applicationId='' @ lp_applicationId p @ ''&locale='' @ lp_locale p"
proof -
  show a: "applicationId = Some (lp_applicationId p)" "APP_ID_RE (lp_applicationId p)"
    "isSupportedLocale (lp_locale p)"
    using assms by (auto simp: parseSsoLaunchParams_def isSupportedLocale_def defaultLocale_def locales_def
        split: option.splits if_splits)
  show "launch_query p = ''applicationId='' @ lp_applicationId p @ ''&locale='' @ lp_locale p"
    unfolding launch_query_def using a(2,3) app_id_form_safe supported_form_safe by (simp add: form_encode_safe)
qed

text \<open>
  The launch of a signed-out user survives the sign-in. The return target the launch route
  builds is accepted unchanged by the redirect sanitizer, in any locale, and names the very
  application id that was asked for and a locale the program has.
\<close>

lemma launch_survives_sign_in:
  assumes "buildSsoLaunchReturnPath applicationId locale = Some path"
  shows "getSafeReturnTo (Some path) current = path \<and>
    (\<exists>a l. applicationId = Some a \<and> APP_ID_RE a \<and> isSupportedLocale l \<and>
       path = ''/'' @ l @ ''/sso/launch?applicationId='' @ a @ ''&locale='' @ l)"
proof -
  from assms obtain p where p: "parseSsoLaunchParams applicationId locale = Some p"
    "path = ''/'' @ lp_locale p @ ''/'' @ (''sso/launch?'' @ launch_query p)"
    by (auto simp: buildSsoLaunchReturnPath_def)
  note q = launch_params [OF p(1)]
  have "\<forall>c \<in> set (launch_query p). form_safe c \<or> c = CHR ''='' \<or> c = CHR ''&''"
    unfolding q(4) using app_id_form_safe [OF q(2)] supported_form_safe [OF q(3)] by (auto simp: form_safe_def)
  then have "accepted path" unfolding p(2) accepted_rest [OF q(3)] by (rule query_rest_ok)
  then show ?thesis using accepted_fixed p(2) q by (auto simp: q(4))
qed

lemma launch_survives_sign_in_witness:
  "getSafeReturnTo (Some ''/fr/sso/launch?applicationId=acme.crm&locale=fr'') ''en'' =
     ''/fr/sso/launch?applicationId=acme.crm&locale=fr''"
proof -
  have "buildSsoLaunchReturnPath (Some ''acme.crm'') (Some ''fr'') =
      Some ''/fr/sso/launch?applicationId=acme.crm&locale=fr''" by code_simp
  from launch_survives_sign_in [OF this] show ?thesis by blast
qed

subsection \<open>Witnesses\<close>

definition sample_url :: "string \<Rightarrow> (string \<times> string) option" where
  "sample_url v = Some (''https:'', v)"

definition sample_sso_env :: sso_env where
  "sample_sso_env = \<lparr>SSO_HANDOFF_PRIVATE_KEY = Some ''k'', SSO_HANDOFF_ISSUER = Some ''https://p'',
     SSO_BETTER_AUTH_URL = Some ''https://p'', SSO_HANDOFF_TTL_SECONDS = 300,
     SSO_HANDOFF_AUDIENCE_PREFIX = Some ''d'', SSO_HANDOFF_APPLICATION_ID = Some ''a''\<rparr>"

definition sample_sso_store :: sso_store where
  "sample_sso_store = \<lparr>so_db = sample_db,
     so_apps = [\<lparr>ea_id = ''a'', ea_organization_id = Some ''A'', ea_origin = ''https://a'',
       ea_sso_audience = ''d:a'', ea_status = ''available''\<rparr>],
     so_nonces = [], so_sessions = [\<lparr>os_user_id = ''b1'', os_token = ''plain''\<rparr>]\<rparr>"

text \<open>A stand-in for the signature: it signs one set of claims, and the verifier knows that one.\<close>

definition sample_claims :: handoff_claims where
  "sample_claims = \<lparr>hc_iss = ''https://p'', hc_aud = ''d:a'', hc_sub = ''b2'', hc_jti = ''j1'', hc_iat = 5,
     hc_exp = 65, hc_email = ''u2@a'', hc_targetApplicationId = ''a'', hc_locale = ''en''\<rparr>"

definition sample_sign :: "handoff_claims \<Rightarrow> string option" where
  "sample_sign c = (if c = sample_claims then Some ''t'' else None)"

definition sample_verify :: "string \<Rightarrow> string \<Rightarrow> millis \<Rightarrow> string \<Rightarrow> verify_failure + handoff_payload" where
  "sample_verify iss aud t token = (if token = ''t'' then Inr (payload_of sample_claims) else Inl VerifyError)"

lemma sample_jose: "jose_round_trips sample_sign sample_verify"
  by (auto simp: jose_round_trips_def sample_sign_def sample_verify_def split: if_splits)

definition sample_launch :: "sso_store \<times> sso_audit list \<times> sso_response" where
  "sample_launch = launch_GET sample_url sample_sign sample_sso_env sample_sso_store 5000 None (Some ''a'') None
     (Some \<lparr>ls_user_id = ''b2'', ls_impersonatorId = None\<rparr>) None ''j1''"

lemma sample_launch_answer:
  "sample_launch = (fst sample_launch, [LaunchSucceeded ''b2'' ''a''], ToApplication ''https://a'' ''t'')"
  by code_simp

lemma launch_justified_witness:
  "decideSecureAccess (ac_status (getUserAccessContext sample_db 5000 None ''b2'' None None))
     (ac_membershipStatus (getUserAccessContext sample_db 5000 None ''b2'' None None)) = Allow"
  using launch_justified [OF sample_launch_answer [unfolded sample_launch_def]]
  by (simp add: sample_sso_store_def)

lemma handoff_burned_once_witness:
  "\<exists>s' :: sso_sys. run (sso_step sample_url sample_sign) \<lparr>sy_store = fst sample_launch, sy_issued = [''j1'']\<rparr> [Burned ''j1''] s' \<and>
     length (filter (\<lambda>e. e = Burned ''j1'') [Burned ''j1'']) \<le> 1"
proof -
  let ?s = "\<lparr>sy_store = fst sample_launch, sy_issued = [''j1'']\<rparr>"
  have "snd (consumeSsoHandoffNonce (so_nonces (sy_store ?s)) 6000 ''j1'' ''a'') = NonceConsumed" by code_simp
  then obtain ns where "consumeSsoHandoffNonce (so_nonces (sy_store ?s)) 6000 ''j1'' ''a'' = (ns, NonceConsumed)"
    by (metis prod.collapse)
  from sso_step.Burn [OF this] have "run (sso_step sample_url sample_sign) ?s [Burned ''j1''] (?s\<lparr>sy_store := (sy_store ?s)\<lparr>so_nonces := ns\<rparr>\<rparr>)"
    by (rule run_Cons) (rule run_Nil)
  moreover have "table_ok no_jti (sy_issued ?s) (so_nonces (sy_store ?s))" by code_simp
  ultimately show ?thesis using handoff_burned_once by blast
qed

definition sample_request :: consume_request where
  "sample_request = \<lparr>cr_accept = Some ''text/html'', cr_localeParam = None\<rparr>"

definition sample_post :: "sso_store \<times> sso_audit list \<times> sso_response" where
  "sample_post = consume_POST (verifySsoHandoff sample_url sample_verify sample_sso_env 6000) (\<lambda>x. x) sample_sso_env
     (fst sample_launch) 6000 sample_request None True (FormToken (Some ''t'')) ''ff''"

lemma handoff_session_justified_witness:
  "starts_with ''sso.61.ff'' (ssoSessionTokenPrefix ''a'') \<and> snd (snd sample_post) = ToDashboard ''en'' ''sso.61.ff''"
proof -
  have 1: "sample_post = (fst sample_post, fst (snd sample_post), ToDashboard ''en'' ''sso.61.ff'')" by code_simp
  have 2: "distinct (map no_jti (so_nonces (fst sample_launch)))" by code_simp
  have 3: "resolveExpectedAudience sample_sso_env = Some (''d:a'', ''a'')" by code_simp
  from handoff_session_justified [OF 1 [unfolded sample_post_def] 2] 3
  have "starts_with ''sso.61.ff'' (ssoSessionTokenPrefix ''a'')" by auto
  with 1 show ?thesis by (metis snd_conv)
qed

lemma ended_application_is_out_witness:
  "let s' = fst (endSsoHandoffsOfApplication (fst sample_post) 7000 ''a'')
   in length (so_sessions s') = 1 \<and> (\<forall>x \<in> set (so_sessions s'). \<not> starts_with (os_token x) (ssoSessionTokenPrefix ''a''))"
proof -
  let ?e = "endSsoHandoffsOfApplication (fst sample_post) 7000 ''a''"
  have "?e = (fst ?e, snd ?e)" by simp
  from ended_application_is_out [OF this, of 8000] have
    "\<forall>x \<in> set (so_sessions (fst ?e)). \<not> starts_with (os_token x) (ssoSessionTokenPrefix ''a'')" by simp
  moreover have "length (so_sessions (fst ?e)) = 1" by code_simp
  ultimately show ?thesis by (simp add: Let_def)
qed

lemma launched_handoff_signs_in_witness:
  "\<exists>s2 loc. consume_POST (verifySsoHandoff sample_url sample_verify sample_sso_env 6000) (\<lambda>x. x) sample_sso_env
     (fst sample_launch) 6000 sample_request None True (FormToken (Some ''t'')) ''ff'' =
     (s2, [ConsumeSucceeded ''b2'' ''a''], ToDashboard loc (ssoSessionToken ''a'' ''ff''))"
proof -
  have app: "\<forall>app \<in> set (so_apps sample_sso_store). Some (ea_id app) = Some ''a'' \<longrightarrow>
      ea_sso_audience app = ''d'' @ '':'' @ ea_id app" by code_simp
  have find: "List.find (\<lambda>u. bu_id u = ''b2'') (auth_users (so_db sample_sso_store)) =
      Some \<lparr>bu_id = ''b2'', bu_banned = Some False, bu_ban_expires = None, bu_ban_reason = None\<rparr>" by code_simp
  have ban: "\<not> isBanActive (bannable_of \<lparr>bu_id = ''b2'', bu_banned = Some False, bu_ban_expires = None, bu_ban_reason = None\<rparr>) 6000" by code_simp
  have ttl: "(6000 :: int) < 5000 + clampSsoHandoffTtl (SSO_HANDOFF_TTL_SECONDS sample_sso_env) * 1000" by code_simp
  have fresh: "''j1'' \<noteq> []" "''j1'' \<notin> no_jti ` set (so_nonces sample_sso_store)"
    "distinct (map no_jti (so_nonces sample_sso_store))" by code_simp+
  have env: "SSO_HANDOFF_APPLICATION_ID sample_sso_env = Some ''a''" "SSO_HANDOFF_AUDIENCE_PREFIX sample_sso_env = Some ''d''"
    "''d'' \<noteq> []" by code_simp+
  let ?sess = "\<lparr>ls_user_id = ''b2'', ls_impersonatorId = None\<rparr>"
  have find': "List.find (\<lambda>u. bu_id u = ls_user_id ?sess) (auth_users (so_db sample_sso_store)) =
      Some \<lparr>bu_id = ''b2'', bu_banned = Some False, bu_ban_expires = None, bu_ban_reason = None\<rparr>" using find by simp
  have now: "(5000 :: int) \<le> 6000" and uid: "ls_user_id ?sess \<noteq> []" by simp_all
  have answer: "launch_GET sample_url sample_sign sample_sso_env sample_sso_store 5000 None (Some ''a'') None
      (Some ?sess) None ''j1'' = (fst sample_launch, [LaunchSucceeded ''b2'' ''a''], ToApplication ''https://a'' ''t'')"
    using sample_launch_answer unfolding sample_launch_def by simp
  from launched_handoff_signs_in [OF answer fresh sample_jose refl env app now ttl uid find' ban, of sample_request "''ff''" "''f0''"]
  show ?thesis by auto
qed

end
