(* ===== verification/AdminUsers.thy ===== *)
theory AdminUsers
  imports Grantable Credentials Impersonation
begin

text \<open>
  The administrator's actions on an account: who may be acted on
  (\<open>src/lib/admin/user-target.server.ts\<close>), the ban writes of
  \<open>src/lib/admin/auth-admin.server.ts\<close>, the status change of \<open>src/lib/admin-status.server.ts\<close> and
  the actions, single and bulk, of \<open>src/lib/admin/user-actions.server.ts\<close>. A call that may throw
  has its failure as an argument; the version column of the compare-and-swap is not kept, and
  whether the claim still matched it is an input.
\<close>

subsection \<open>State\<close>

record ban_snapshot =
  bs_reason :: "string option"
  bs_expiresAt :: "millis option"

record admin_audit =
  aa_eventType :: string
  aa_outcome :: string
  aa_actor :: uuid
  aa_appUserId :: "uuid option"
  aa_organizationId :: "uuid option"
  aa_reason :: "string option"
  aa_priorBan :: "ban_snapshot option"
  aa_created_at :: millis

record admin_store =
  ad_db :: db
  ad_credentials :: credential_store
  ad_revocations :: "revocation_audit list"
  ad_audit :: "admin_audit table"

subsection \<open>Accounts that need care\<close>

definition USE_RESTORE_ERROR :: string where
  "USE_RESTORE_ERROR = ''use_restore''"

definition mustUseRestore :: "string \<Rightarrow> bool" where
  "mustUseRestore status \<longleftrightarrow> status = ''deactivated''"

definition USER_ERASED_ERROR :: string where
  "USER_ERASED_ERROR = ''user_erased''"

definition erasedEmailFor :: "uuid \<Rightarrow> string" where
  "erasedEmailFor appUserId = ''erased+'' @ js_lower appUserId @ ''@erased.invalid''"

definition isErasedAccount :: "uuid \<Rightarrow> string \<Rightarrow> bool" where
  "isErasedAccount appUserId primaryEmail \<longleftrightarrow> primaryEmail = erasedEmailFor appUserId"

definition MCP_AGENT_ID_PREFIX :: string where
  "MCP_AGENT_ID_PREFIX = ''mcp-agent:''"

definition SERVICE_ACCOUNT_ERROR :: string where
  "SERVICE_ACCOUNT_ERROR = ''not_applicable_to_service_account''"

definition AGENT_ACTIVATION_PERMISSION :: string where
  "AGENT_ACTIVATION_PERMISSION = ''admin.clients.manage''"

definition isAgentServiceAccount :: "uuid \<Rightarrow> bool" where
  "isAgentServiceAccount betterAuthUserId \<longleftrightarrow> starts_with betterAuthUserId MCP_AGENT_ID_PREFIX"

definition mayActivateAgents :: "access_context \<Rightarrow> string list option \<Rightarrow> bool" where
  "mayActivateAgents access grantedScopes \<longleftrightarrow>
     (SUPERADMIN_PERMISSION \<in> set (ac_permissions access) \<or>
      AGENT_ACTIVATION_PERMISSION \<in> set (ac_permissions access)) \<and>
     scopesAuthorize grantedScopes AGENT_ACTIVATION_PERMISSION"

subsection \<open>The target and its rank\<close>

record user_target =
  tg_appUserId :: uuid
  tg_betterAuthUserId :: uuid
  tg_primaryEmail :: string
  tg_status :: string

definition target_of :: "app_user_row \<Rightarrow> user_target" where
  "target_of u = \<lparr>tg_appUserId = au_id u, tg_betterAuthUserId = au_better_auth_user_id u,
     tg_primaryEmail = au_primary_email u, tg_status = au_status u\<rparr>"

datatype target_failure = InvalidTargetId | TargetNotFound

definition resolveTargetUser :: "db \<Rightarrow> access_context \<Rightarrow> string \<Rightarrow> target_failure + user_target" where
  "resolveTargetUser d access i =
     (if \<not> isUuid i then Inl InvalidTargetId
      else (case List.find (\<lambda>u. au_id u = pg_uuid i) (app_users d) of
              None \<Rightarrow> Inl TargetNotFound
            | Some row \<Rightarrow> if canAccessUser d access (au_id row) then Inr (target_of row) else Inl TargetNotFound))"

definition targetOutranksActor :: "db \<Rightarrow> millis \<Rightarrow> access_context \<Rightarrow> user_target \<Rightarrow> bool" where
  "targetOutranksActor d now access target =
     (if hasCrossOrgReach access then False
      else if userHoldsSuperuserGrant d (tg_appUserId target) then True
      else if isSuperadmin access then False
      else if \<not> truthy (ac_organizationId access) then True
      else (let targetAccess = getUserAccessContext d now None (tg_betterAuthUserId target)
                  (Some \<lparr>bo_organization_id = ac_organizationId access\<rparr>) None
            in \<exists>perm \<in> set (ac_permissions targetAccess). perm \<notin> set (ac_permissions access)))"

subsection \<open>Sessions and bans\<close>

definition revokeSessionsImpersonatedBy :: "admin_store \<Rightarrow> uuid \<Rightarrow> admin_store" where
  "revokeSessionsImpersonatedBy s u =
     (if u = [] then s
      else s\<lparr>ad_credentials := (ad_credentials s)\<lparr>auth_sessions :=
             delete_where (\<lambda>x. as_impersonated_by x = Some u) (auth_sessions (ad_credentials s))\<rparr>\<rparr>)"

definition deleteUserSessions :: "admin_store \<Rightarrow> uuid \<Rightarrow> admin_store" where
  "deleteUserSessions s u =
     s\<lparr>ad_credentials := (ad_credentials s)\<lparr>auth_sessions :=
         delete_where (\<lambda>x. as_user_id x = u) (auth_sessions (ad_credentials s))\<rparr>\<rparr>"

text \<open>Which of the two deletions throws, if one does; the answer says whether both ran.\<close>

datatype session_fault = NoSessionFault | OwnSessionsFail | BorrowedSessionsFail

fun revokeAllBetterAuthUserSessions :: "session_fault \<Rightarrow> admin_store \<Rightarrow> uuid \<Rightarrow> admin_store \<times> bool" where
  "revokeAllBetterAuthUserSessions NoSessionFault s u =
     (revokeSessionsImpersonatedBy (deleteUserSessions s u) u, True)"
| "revokeAllBetterAuthUserSessions OwnSessionsFail s u = (s, False)"
| "revokeAllBetterAuthUserSessions BorrowedSessionsFail s u = (deleteUserSessions s u, False)"

definition banInForce :: "auth_user_row \<Rightarrow> millis \<Rightarrow> ban_snapshot option" where
  "banInForce u now =
     (if isBanActive (bannable_of u) now
      then Some \<lparr>bs_reason = bu_ban_reason u, bs_expiresAt = bu_ban_expires u\<rparr> else None)"

definition set_ban :: "admin_store \<Rightarrow> uuid \<Rightarrow> bool \<Rightarrow> string option \<Rightarrow> millis option \<Rightarrow> admin_store" where
  "set_ban s u banned reason expires =
     s\<lparr>ad_db := (ad_db s)\<lparr>auth_users := update_where (\<lambda>b. bu_id b = u)
         (\<lambda>b. b\<lparr>bu_banned := Some banned, bu_ban_reason := reason, bu_ban_expires := expires\<rparr>)
         (auth_users (ad_db s))\<rparr>\<rparr>"

definition auth_user_by_id :: "admin_store \<Rightarrow> uuid \<Rightarrow> auth_user_row option" where
  "auth_user_by_id s u = List.find (\<lambda>b. bu_id b = u) (auth_users (ad_db s))"

definition ban_until :: "millis \<Rightarrow> int option \<Rightarrow> millis option" where
  "ban_until now banExpiresIn =
     (case banExpiresIn of Some n \<Rightarrow> if n = 0 then None else Some (now + n * 1000) | None \<Rightarrow> None)"

text \<open>
  The ban call: \<open>None\<close> when it throws, on its write or on one of the two deletions after it,
  and otherwise the ban it replaced.
\<close>

definition banBetterAuthUser ::
    "bool \<Rightarrow> session_fault \<Rightarrow> admin_store \<Rightarrow> millis \<Rightarrow> uuid \<Rightarrow> string \<Rightarrow> int option \<Rightarrow> uuid \<Rightarrow>
     admin_store \<times> ban_snapshot option option" where
  "banBetterAuthUser writeFails fault s now u banReason banExpiresIn actor =
     (case auth_user_by_id s u of
        None \<Rightarrow> (s, None)
      | Some before \<Rightarrow>
          if u = actor \<or> writeFails then (s, None)
          else
            (let (s', ended) =
                   revokeAllBetterAuthUserSessions fault
                     (set_ban s u True (Some (if banReason = [] then ''No reason'' else banReason))
                        (ban_until now banExpiresIn)) u
             in (s', if ended then Some (banInForce before now) else None)))"

definition unbanBetterAuthUser :: "bool \<Rightarrow> admin_store \<Rightarrow> uuid \<Rightarrow> admin_store option" where
  "unbanBetterAuthUser fails s u =
     (if fails \<or> auth_user_by_id s u = None then None else Some (set_ban s u False None None))"

text \<open>The answer says whether a ban is in force afterwards.\<close>

definition restoreBetterAuthBan ::
    "bool \<Rightarrow> admin_store \<Rightarrow> millis \<Rightarrow> uuid \<Rightarrow> ban_snapshot option \<Rightarrow> (admin_store \<times> bool) option" where
  "restoreBetterAuthBan fails s now u ban =
     (case ban of
        Some b \<Rightarrow>
          if isBanActive \<lparr>usr_banned = Some True,
               usr_banExpires = (case bs_expiresAt b of None \<Rightarrow> NoDate | Some e \<Rightarrow> DateMs e)\<rparr> now
          then if fails \<or> auth_user_by_id s u = None then None
               else Some (set_ban s u True (bs_reason b) (bs_expiresAt b), True)
          else map_option (\<lambda>s'. (s', False)) (unbanBetterAuthUser fails s u)
      | None \<Rightarrow> map_option (\<lambda>s'. (s', False)) (unbanBetterAuthUser fails s u))"

subsection \<open>The audit table\<close>

definition audit_admin ::
    "admin_store \<Rightarrow> millis \<Rightarrow> string \<Rightarrow> string \<Rightarrow> uuid \<Rightarrow> user_target \<Rightarrow> uuid option \<Rightarrow> string option \<Rightarrow>
     ban_snapshot option \<Rightarrow> admin_store" where
  "audit_admin s now event outcome actor target oid reason prior =
     s\<lparr>ad_audit := ad_audit s @ [\<lparr>aa_eventType = event, aa_outcome = outcome, aa_actor = actor,
         aa_appUserId = Some (tg_appUserId target), aa_organizationId = oid, aa_reason = reason,
         aa_priorBan = prior, aa_created_at = now\<rparr>]\<rparr>"

definition SOFT_DELETED_EVENT :: string where
  "SOFT_DELETED_EVENT = ''admin.user.soft_deleted''"

definition LAST_SUPERADMIN_EVENT :: string where
  "LAST_SUPERADMIN_EVENT = ''admin.superuser.revocation_denied''"

definition LAST_SUPERADMIN_ERROR :: string where
  "LAST_SUPERADMIN_ERROR = ''last_superadmin''"

definition LAST_SUPERADMIN_REASON :: string where
  "LAST_SUPERADMIN_REASON = ''last_global_superuser''"

definition USER_ACTION_DENIED_EVENT :: string where
  "USER_ACTION_DENIED_EVENT = ''admin.user.action_denied''"

text \<open>\<open>order by created_at desc limit 1\<close>.\<close>

definition recordedPriorBan :: "admin_store \<Rightarrow> uuid \<Rightarrow> ban_snapshot option" where
  "recordedPriorBan s uid =
     Option.bind (first_by (\<lambda>r. - aa_created_at r)
         (rev (filter (\<lambda>r. aa_appUserId r = Some uid \<and> aa_eventType r = SOFT_DELETED_EVENT \<and> aa_outcome r = ''success'')
           (ad_audit s))))
       aa_priorBan"

subsection \<open>The status change\<close>

text \<open>What fails around one action: Better Auth's calls, the checks and the transaction.\<close>

record faults =
  fa_ban :: bool
  fa_sessions :: session_fault
  fa_unban :: bool
  fa_check :: bool
  fa_transaction :: bool
  fa_others :: "nat \<Rightarrow> credential_store \<Rightarrow> credential_store"

definition no_faults :: faults where
  "no_faults = \<lparr>fa_ban = False, fa_sessions = NoSessionFault, fa_unban = False, fa_check = False,
     fa_transaction = False, fa_others = (\<lambda>_ cs. cs)\<rparr>"

text \<open>\<open>{ ok: true }\<close>, \<open>{ ok: false, error }\<close>, or an exception that leaves the call.\<close>

datatype action_outcome = ActionOk | ActionError string | ActionThrows

record status_change =
  sc_actor :: uuid
  sc_scope :: org_scope
  sc_target :: uuid
  sc_newStatus :: string
  sc_newMembershipStatus :: string
  sc_eventType :: string
  sc_reason :: "string option"
  sc_claim :: "bool option"

definition with_db :: "(db \<Rightarrow> db) \<Rightarrow> admin_store \<Rightarrow> admin_store" where
  "with_db f s = s\<lparr>ad_db := f (ad_db s)\<rparr>"

definition set_account_status :: "uuid \<Rightarrow> string \<Rightarrow> string option \<Rightarrow> db \<Rightarrow> db" where
  "set_account_status t st reason d =
     d\<lparr>app_users := update_where (\<lambda>u. au_id u = t)
         (\<lambda>u. u\<lparr>au_status := st, au_status_reason := reason\<rparr>) (app_users d)\<rparr>"

definition lift_pending_account :: "uuid \<Rightarrow> db \<Rightarrow> db" where
  "lift_pending_account t d =
     d\<lparr>app_users := update_where (\<lambda>u. au_id u = t \<and> au_status u = ''pending_approval'')
         (\<lambda>u. u\<lparr>au_status := ''active''\<rparr>) (app_users d)\<rparr>"

definition set_membership_status :: "uuid \<Rightarrow> uuid option \<Rightarrow> string \<Rightarrow> db \<Rightarrow> db" where
  "set_membership_status t oid st d =
     d\<lparr>app_organization_memberships :=
         update_where (\<lambda>m. mb_app_user_id m = t \<and> (case oid of None \<Rightarrow> True | Some x \<Rightarrow> mb_organization_id m = x))
           (\<lambda>m. m\<lparr>mb_status := st, mb_pre_deactivation_status := None\<rparr>) (app_organization_memberships d)\<rparr>"

definition account_wide :: "db \<Rightarrow> org_scope \<Rightarrow> uuid \<Rightarrow> bool" where
  "account_wide d scope t \<longleftrightarrow>
     (case scope of AllOrgs \<Rightarrow> True | OneOrg oid \<Rightarrow> \<not> userHasMembershipOutsideOrg d t oid)"

text \<open>What the transaction writes once every check has passed.\<close>

definition write_status :: "status_change \<Rightarrow> db \<Rightarrow> db" where
  "write_status c d =
     set_membership_status (sc_target c) (scopeOrganizationId (Some (sc_scope c))) (sc_newMembershipStatus c)
       (if account_wide d (sc_scope c) (sc_target c)
        then set_account_status (sc_target c) (sc_newStatus c) (sc_reason c) d
        else if sc_newStatus c = ''active'' then lift_pending_account (sc_target c) d else d)"

definition performAdminStatusChange ::
    "faults \<Rightarrow> admin_store \<Rightarrow> millis \<Rightarrow> status_change \<Rightarrow> admin_store \<times> action_outcome" where
  "performAdminStatusChange f s now c =
     (let d = ad_db s; oid = scopeOrganizationId (Some (sc_scope c))
      in case app_user_by_id d (sc_target c) of
           None \<Rightarrow> (s, ActionError ''not_found'')
         | Some row \<Rightarrow>
             let stripsLast = sc_newMembershipStatus c \<noteq> ''active'' \<and>
                   membershipCascadeStripsLastGlobalSuperuser (sc_target c) d now oid;
                 endsSessions = account_wide d (sc_scope c) (sc_target c) \<and> sc_newStatus c \<noteq> ''active'';
                 log = (\<lambda>s event outcome reason. audit_admin s now event outcome (sc_actor c) (target_of row) oid reason None)
             in if fa_transaction f then (s, ActionThrows)
                else if sc_claim c = Some False then (s, ActionError ''precondition_failed'')
                else if mustUseRestore (au_status row) then (s, ActionError USE_RESTORE_ERROR)
                else if stripsLast
                then (log s LAST_SUPERADMIN_EVENT ''denied'' (Some LAST_SUPERADMIN_REASON),
                      ActionError LAST_SUPERADMIN_ERROR)
                else
                  (let s1 = with_db (write_status c) s;
                       (s2, ended) =
                         (if endsSessions
                          then revokeAllBetterAuthUserSessions (fa_sessions f) s1 (au_better_auth_user_id row)
                          else (s1, True));
                       s3 = log s2 (sc_eventType c) ''success'' (sc_reason c)
                   in if ended then (s3, ActionOk)
                      else (log s3 ''admin.user.sessions_revoke_all_failed'' ''failure''
                              (Some ''auth_revoke_all_failed''),
                            ActionError ''auth_revoke_all_failed'')))"

subsection \<open>What a write touches\<close>

text \<open>
  The frame of every action on one account: apart from the account's row, its memberships and
  its Better Auth user, the tables are as they were, and no row changes its keys.
\<close>

definition membership_keys :: "membership_row \<Rightarrow> uuid \<times> uuid \<times> uuid" where
  "membership_keys m = (mb_id m, mb_app_user_id m, mb_organization_id m)"

definition confined :: "uuid \<Rightarrow> uuid \<Rightarrow> db \<Rightarrow> db \<Rightarrow> bool" where
  "confined t ba d d' \<longleftrightarrow>
     d'\<lparr>app_users := app_users d, app_organization_memberships := app_organization_memberships d,
        auth_users := auth_users d\<rparr> = d \<and>
     map au_id (app_users d') = map au_id (app_users d) \<and>
     map au_better_auth_user_id (app_users d') = map au_better_auth_user_id (app_users d) \<and>
     map bu_id (auth_users d') = map bu_id (auth_users d) \<and>
     map membership_keys (app_organization_memberships d') = map membership_keys (app_organization_memberships d) \<and>
     filter (\<lambda>u. au_id u \<noteq> t) (app_users d') = filter (\<lambda>u. au_id u \<noteq> t) (app_users d) \<and>
     filter (\<lambda>m. mb_app_user_id m \<noteq> t) (app_organization_memberships d') =
       filter (\<lambda>m. mb_app_user_id m \<noteq> t) (app_organization_memberships d) \<and>
     filter (\<lambda>b. bu_id b \<noteq> ba) (auth_users d') = filter (\<lambda>b. bu_id b \<noteq> ba) (auth_users d)"

lemma confined_refl [simp, intro]: "confined t ba d d"
  by (simp add: confined_def)

lemma confined_trans [trans]: "confined t ba a b \<Longrightarrow> confined t ba b c \<Longrightarrow> confined t ba a c"
  by (cases a; cases b; cases c) (simp add: confined_def)

text \<open>The primary keys the actions rely on.\<close>

definition accounts_wf :: "db \<Rightarrow> bool" where
  "accounts_wf d \<longleftrightarrow> users_wf d \<and> distinct (map bu_id (auth_users d))"

lemma confined_accounts_wf: "confined t ba d d' \<Longrightarrow> accounts_wf d' = accounts_wf d"
  by (simp add: confined_def accounts_wf_def users_wf_def)

lemma confined_authority:
  assumes "confined t ba d d'"
  shows "app_user_roles d' = app_user_roles d" "org_is_active d' = org_is_active d"
    "role_carries d' = role_carries d"
  using assms by (cases d; cases d'; auto simp: confined_def org_is_active_def role_carries_def fun_eq_iff)+

lemma filter_set_eq: "filter P xs = filter P ys \<Longrightarrow> P x \<Longrightarrow> x \<in> set xs \<longleftrightarrow> x \<in> set ys"
  by (drule arg_cong [where f = "\<lambda>zs. x \<in> set zs"]) simp

lemma confined_membership:
  "confined t ba d d' \<Longrightarrow> uid \<noteq> t \<Longrightarrow> has_active_membership d' uid oid = has_active_membership d uid oid"
  unfolding confined_def has_active_membership_def
  using filter_set_eq [of "\<lambda>m. mb_app_user_id m \<noteq> t" "app_organization_memberships d'" "app_organization_memberships d"]
  by blast

text \<open>The target names a row of the table.\<close>

definition names_account :: "db \<Rightarrow> uuid \<Rightarrow> uuid \<Rightarrow> bool" where
  "names_account d t ba \<longleftrightarrow> (\<exists>u \<in> set (app_users d). au_id u = t \<and> au_better_auth_user_id u = ba)"

lemma other_account:
  assumes "users_wf d" "names_account d t ba" "u \<in> set (app_users d)" "au_id u \<noteq> t"
  shows "au_better_auth_user_id u \<noteq> ba"
  using assms user_unique [OF assms(1) _ assms(3)] unfolding names_account_def by metis

lemma can_sign_in_mono: "sql_can_sign_in now None b \<Longrightarrow> sql_can_sign_in now x b"
  by (auto simp: sql_can_sign_in_def)

lemma can_sign_in_other: "bu_id b \<noteq> ba \<Longrightarrow> sql_can_sign_in now (Some ba) b = sql_can_sign_in now None b"
  by (auto simp: sql_can_sign_in_def)

lemma confined_sign_in:
  assumes c: "confined t ba d d'" and wf: "users_wf d" and n: "names_account d t ba" and "uid \<noteq> t"
    and x: "x = None \<or> x = Some ba" and y: "account_can_sign_in d now x uid"
  shows "account_can_sign_in d' now None uid"
proof -
  from y obtain u b where u: "u \<in> set (app_users d)" "au_id u = uid" "au_status u = ''active''"
    and b: "b \<in> set (auth_users d)" "bu_id b = au_better_auth_user_id u" "sql_can_sign_in now x b"
    unfolding account_can_sign_in_def by blast
  have ne: "bu_id b \<noteq> ba" using other_account [OF wf n u(1)] u(2) b(2) assms(4) by simp
  have "u \<in> set (app_users d')" using c u(1,2) assms(4)
      filter_set_eq [of "\<lambda>u. au_id u \<noteq> t" "app_users d'" "app_users d" u] by (auto simp: confined_def)
  moreover have "b \<in> set (auth_users d')" using c b(1) ne
      filter_set_eq [of "\<lambda>b. bu_id b \<noteq> ba" "auth_users d'" "auth_users d" b] by (auto simp: confined_def)
  moreover have "sql_can_sign_in now None b" using x b(3) can_sign_in_other [OF ne] by auto
  ultimately show ?thesis using u b(2) unfolding account_can_sign_in_def by blast
qed

subsection \<open>A superuser survives\<close>

definition superuser_survives :: "db \<Rightarrow> millis \<Rightarrow> bool" where
  "superuser_survives d now \<longleftrightarrow> activeGlobalSuperuserGrants d now None \<noteq> []"

lemma survives_iff: "superuser_survives d now \<longleftrightarrow> (\<exists>g. g \<in> set (activeGlobalSuperuserGrants d now None))"
  unfolding superuser_survives_def by (metis list.set_intros(1) neq_Nil_conv equals0D set_empty)

lemma survives_at:
  assumes c: "confined t ba d d'" and wf: "users_wf d" and n: "names_account d t ba"
    and x: "x = None \<or> x = Some ba" and g: "g \<in> set (activeGlobalSuperuserGrants d now x)"
    and t: "sg_app_user_id g = t \<Longrightarrow>
      has_active_membership d' t (sg_organization_id g) \<and> account_can_sign_in d' now None t"
  shows "superuser_survives d' now"
proof -
  from g obtain ur where ur: "ur \<in> set (app_user_roles d)" "sg_app_user_id g = ur_app_user_id ur"
      "sg_organization_id g = ur_organization_id ur" "sg_role_id g = ur_role_id ur"
      "has_active_membership d (ur_app_user_id ur) (ur_organization_id ur)"
      "org_is_active d (ur_organization_id ur)" "account_can_sign_in d now x (ur_app_user_id ur)"
      "role_carries d (ur_role_id ur) SUPERADMIN_PERMISSION" unfolding grants_mem by blast
  have "has_active_membership d' (ur_app_user_id ur) (ur_organization_id ur) \<and>
      account_can_sign_in d' now None (ur_app_user_id ur)"
  proof (cases "ur_app_user_id ur = t")
    case True with t ur show ?thesis by simp
  next
    case False
    with ur(5,7) confined_membership [OF c] confined_sign_in [OF c wf n _ x] show ?thesis by blast
  qed
  then have "g \<in> set (activeGlobalSuperuserGrants d' now None)"
    unfolding grants_mem using ur confined_authority [OF c] by auto
  then show ?thesis unfolding survives_iff by blast
qed

text \<open>A write that takes nothing from the account it touches takes no superuser.\<close>

lemma survives_mono:
  assumes "confined t ba d d'" "users_wf d" "names_account d t ba" "superuser_survives d now"
    and "\<And>oid. has_active_membership d t oid \<Longrightarrow> has_active_membership d' t oid"
    and "account_can_sign_in d now None t \<Longrightarrow> account_can_sign_in d' now None t"
  shows "superuser_survives d' now"
proof -
  from assms(4) obtain g where g: "g \<in> set (activeGlobalSuperuserGrants d now None)"
    unfolding survives_iff by blast
  show ?thesis
    by (rule survives_at [OF assms(1,2,3) _ g]) (use g assms(5,6) in \<open>auto simp: grants_mem\<close>)
qed

lemma survives_no_account:
  assumes "confined t ba d d'" "users_wf d" "names_account d t ba" "superuser_survives d now"
    and "\<not> account_can_sign_in d now None t"
  shows "superuser_survives d' now"
proof -
  from assms(4) obtain g where g: "g \<in> set (activeGlobalSuperuserGrants d now None)"
    unfolding survives_iff by blast
  show ?thesis
    by (rule survives_at [OF assms(1,2,3) _ g]) (use g assms(5) in \<open>auto simp: grants_mem\<close>)
qed

subsection \<open>The writes, framed\<close>

lemma ad_db_simps [simp]:
  "ad_db (revokeSessionsImpersonatedBy s u) = ad_db s"
  "ad_db (deleteUserSessions s u) = ad_db s"
  "ad_db (fst (revokeAllBetterAuthUserSessions fault s u)) = ad_db s"
  "ad_db (audit_admin s now event outcome actor target oid reason prior) = ad_db s"
  "ad_db (with_db g s) = g (ad_db s)"
  by (cases fault; simp add: revokeSessionsImpersonatedBy_def deleteUserSessions_def audit_admin_def with_db_def)+

lemma revoke_ad_db: "revokeAllBetterAuthUserSessions fault s u = (s', ended) \<Longrightarrow> ad_db s' = ad_db s"
  by (metis ad_db_simps(3) fst_conv)

lemmas frame_simps = confined_def membership_keys_def map_update_where_same filter_update_where_other

lemma confined_writes [simp, intro]:
  "confined t ba d (set_account_status t st reason d)"
  "confined t ba d (lift_pending_account t d)"
  "confined t ba d (set_membership_status t oid st d)"
  "confined t ba (ad_db s) (ad_db (set_ban s ba banned why expires))"
  by (simp_all add: frame_simps set_account_status_def lift_pending_account_def set_membership_status_def set_ban_def)
    (rule filter_update_where_other; simp)+

lemma confined_write_status: "confined (sc_target c) ba d (write_status c d)"
  unfolding write_status_def by (auto intro: confined_trans [OF _ confined_writes(3)])

lemma names_account_confined: "confined t ba d d' \<Longrightarrow> names_account d t' ba' = names_account d' t' ba'"
proof -
  assume c: "confined t ba d d'"
  have zip: "names_account x t' ba' \<longleftrightarrow>
      (t', ba') \<in> set (zip (map au_id (app_users x)) (map au_better_auth_user_id (app_users x)))" for x
    unfolding names_account_def zip_map_map zip_same_conv_map by (auto simp: image_iff)
  from c have "map au_id (app_users d') = map au_id (app_users d)"
    "map au_better_auth_user_id (app_users d') = map au_better_auth_user_id (app_users d)"
    by (simp_all add: confined_def)
  then show ?thesis unfolding zip by (simp only:)
qed

subsection \<open>The status change keeps a superuser\<close>

lemma membership_write_active:
  assumes "has_active_membership d uid oid"
    and "uid = t \<Longrightarrow> (case oid' of None \<Rightarrow> True | Some x \<Rightarrow> oid = x) \<Longrightarrow> st = ''active''"
  shows "has_active_membership (set_membership_status t oid' st d) uid oid"
proof -
  let ?P = "\<lambda>m. mb_app_user_id m = t \<and> (case oid' of None \<Rightarrow> True | Some x \<Rightarrow> mb_organization_id m = x)"
  let ?f = "\<lambda>m. m\<lparr>mb_status := st, mb_pre_deactivation_status := None\<rparr>"
  from assms(1) obtain m where m: "m \<in> set (app_organization_memberships d)" "mb_app_user_id m = uid"
    "mb_organization_id m = oid" "mb_status m = ''active''" unfolding has_active_membership_def by blast
  let ?m = "if ?P m then ?f m else m"
  have "?m \<in> set (update_where ?P ?f (app_organization_memberships d))"
    using m(1) by (auto simp: update_where_def)
  moreover have "mb_app_user_id ?m = uid" "mb_organization_id ?m = oid" "mb_status ?m = ''active''"
    using m(2-) assms(2) by auto
  ultimately show ?thesis unfolding has_active_membership_def set_membership_status_def by auto
qed

lemma sign_in_other_tables [simp]:
  "account_can_sign_in (set_membership_status t oid' st d) now x uid = account_can_sign_in d now x uid"
  "has_active_membership (set_account_status t st reason d) uid oid = has_active_membership d uid oid"
  "has_active_membership (lift_pending_account t d) uid oid = has_active_membership d uid oid"
  "app_organization_memberships (set_account_status t st reason d) = app_organization_memberships d"
  "app_organization_memberships (lift_pending_account t d) = app_organization_memberships d"
  by (simp_all add: account_can_sign_in_def has_active_membership_def set_membership_status_def
      set_account_status_def lift_pending_account_def)

lemma sign_in_update:
  assumes "account_can_sign_in d now x uid"
    and "\<And>u. P u \<Longrightarrow> au_id (f u) = au_id u \<and> au_better_auth_user_id (f u) = au_better_auth_user_id u \<and>
      (au_status u = ''active'' \<longrightarrow> au_status (f u) = ''active'')"
  shows "account_can_sign_in (d\<lparr>app_users := update_where P f (app_users d)\<rparr>) now x uid"
proof -
  from assms(1) obtain u where u: "u \<in> set (app_users d)" "au_id u = uid" "au_status u = ''active''"
    "\<exists>b \<in> set (auth_users d). bu_id b = au_better_auth_user_id u \<and> sql_can_sign_in now x b"
    unfolding account_can_sign_in_def by blast
  define u' where "u' = (if P u then f u else u)"
  have "u' \<in> set (update_where P f (app_users d))" using u(1) by (auto simp: update_where_def u'_def)
  moreover have "au_id u' = uid" "au_status u' = ''active''" "au_better_auth_user_id u' = au_better_auth_user_id u"
    using u assms(2) [of u] by (auto simp: u'_def)
  ultimately show ?thesis using u(4) unfolding account_can_sign_in_def
    by (intro bexI [where x = u']) auto
qed

lemma activation_keeps_sign_in:
  "account_can_sign_in d now x uid \<Longrightarrow> account_can_sign_in (set_account_status t ''active'' reason d) now x uid"
  "account_can_sign_in d now x uid \<Longrightarrow> account_can_sign_in (lift_pending_account t d) now x uid"
  unfolding set_account_status_def lift_pending_account_def by (rule sign_in_update; simp)+

lemma write_status_survives:
  assumes wf: "users_wf d" and n: "names_account d (sc_target c) ba" and s: "superuser_survives d now"
    and act: "sc_newStatus c = ''active'' \<longleftrightarrow> sc_newMembershipStatus c = ''active''"
    and strip: "sc_newMembershipStatus c \<noteq> ''active'' \<Longrightarrow>
      \<not> membershipCascadeStripsLastGlobalSuperuser (sc_target c) d now (scopeOrganizationId (Some (sc_scope c)))"
  shows "superuser_survives (write_status c d) now"
proof (cases "sc_newMembershipStatus c = ''active''")
  case True
  show ?thesis
    by (rule survives_mono [OF confined_write_status wf n s])
      (use True act in \<open>auto simp: write_status_def activation_keeps_sign_in intro!: membership_write_active\<close>)
next
  case False
  let ?oid = "scopeOrganizationId (Some (sc_scope c))"
  from strip [OF False] s obtain g where g: "g \<in> set (activeGlobalSuperuserGrants d now None)"
    and kept: "\<not> (sg_app_user_id g = sc_target c \<and>
      (\<exists>m \<in> set (app_organization_memberships d). mb_app_user_id m = sc_target c \<and>
         (case ?oid of None \<Rightarrow> True | Some x \<Rightarrow> mb_organization_id m = x) \<and>
         mb_organization_id m = sg_organization_id g))"
    unfolding membershipCascadeStripsLastGlobalSuperuser_def wouldStripLastGlobalSuperuser_def
      superuser_survives_def strips_False_survivor Let_def
    by (auto simp: grantIsRemoved_def no_removal_def image_iff split: if_splits)
  have mem: "has_active_membership d (sg_app_user_id g) (sg_organization_id g)"
    and sign: "account_can_sign_in d now None (sg_app_user_id g)" using g unfolding grants_mem by auto
  show ?thesis
  proof (rule survives_at [OF confined_write_status wf n _ g])
    assume t: "sg_app_user_id g = sc_target c"
    from mem t kept obtain o' where o': "sc_scope c = OneOrg o'" "o' \<noteq> sg_organization_id g"
      by (cases "sc_scope c") (auto simp: has_active_membership_def scopeOrganizationId_def)
    with mem t have "\<not> account_wide d (sc_scope c) (sc_target c)"
      by (auto simp: account_wide_def userHasMembershipOutsideOrg_def has_active_membership_def)
    with False act have w: "write_status c d =
        set_membership_status (sc_target c) (Some o') (sc_newMembershipStatus c) d"
      by (simp add: write_status_def o'(1) scopeOrganizationId_def)
    show "has_active_membership (write_status c d) (sc_target c) (sg_organization_id g) \<and>
        account_can_sign_in (write_status c d) now None (sc_target c)"
      using mem sign t o'(2) unfolding w by (auto intro!: membership_write_active)
  qed simp
qed

lemma status_change_framed:
  "confined (sc_target c) ba (ad_db s) (ad_db (fst (performAdminStatusChange f s now c)))"
  by (auto simp: performAdminStatusChange_def Let_def confined_write_status
      dest!: revoke_ad_db split: option.splits prod.splits)

lemma status_change_survives:
  assumes "users_wf (ad_db s)" "names_account (ad_db s) (sc_target c) ba" "superuser_survives (ad_db s) now"
    and "sc_newStatus c = ''active'' \<longleftrightarrow> sc_newMembershipStatus c = ''active''"
  shows "superuser_survives (ad_db (fst (performAdminStatusChange f s now c))) now"
  using assms(3) write_status_survives [OF assms]
  by (auto simp: performAdminStatusChange_def Let_def dest!: revoke_ad_db split: option.splits prod.splits)

end
