(* ===== verification/UserActions.thy ===== *)
theory UserActions
  imports AdminUsers
begin

text \<open>
  The per-user actions of the administrator, single and in bulk
  (\<open>src/lib/admin/user-actions.server.ts\<close>, \<open>src/app/api/administrator/users/bulk/route.ts\<close>): ban and
  unban, soft-delete and restore as sagas over the application's tables and Better Auth's, and
  the dispatcher with its refusals. One clock reading serves one action.
\<close>

subsection \<open>Actions and actors\<close>

datatype bulk_user_action = Approve | Block | Suspend | Reactivate | Ban | Unban | SoftDelete | Restore

record bulk_user_actor =
  ba_betterAuthUserId :: uuid
  ba_impersonatorId :: "uuid option"
  ba_appUserId :: "uuid option"
  ba_scope :: org_scope
  ba_access :: access_context
  ba_mayActivateAgents :: bool

record bulk_user_options =
  op_reason :: "string option"
  op_expiresInSeconds :: "int option"

definition CANNOT_ACT_ON_SELF_ERROR :: string where
  "CANNOT_ACT_ON_SELF_ERROR = ''cannot_act_on_self''"

definition AGENT_ACTIVATION_DENIED_ERROR :: string where
  "AGENT_ACTIVATION_DENIED_ERROR = ''forbidden_agent_activation''"

definition SHARED_TARGET_REASON :: string where
  "SHARED_TARGET_REASON = ''shared_target_requires_superadmin''"

definition AGENT_ACTIVATION_REASON :: string where
  "AGENT_ACTIVATION_REASON = ''agent_requires_clients_manage''"

definition LOGIN_ACCOUNT_ACTIONS :: "bulk_user_action list" where
  "LOGIN_ACCOUNT_ACTIONS = [Ban, Unban, SoftDelete, Restore]"

fun STATUS_ACTION_MAP :: "bulk_user_action \<Rightarrow> (string \<times> string \<times> string) option" where
  "STATUS_ACTION_MAP Approve = Some (''active'', ''active'', ''admin.user.approved'')"
| "STATUS_ACTION_MAP Block = Some (''blocked'', ''blocked'', ''admin.user.blocked'')"
| "STATUS_ACTION_MAP Suspend = Some (''suspended'', ''suspended'', ''admin.user.suspended'')"
| "STATUS_ACTION_MAP Reactivate = Some (''active'', ''active'', ''admin.user.reactivated'')"
| "STATUS_ACTION_MAP _ = None"

fun BULK_USER_ACTION_PERMISSIONS :: "bulk_user_action \<Rightarrow> string" where
  "BULK_USER_ACTION_PERMISSIONS Approve = ''admin.users.manage''"
| "BULK_USER_ACTION_PERMISSIONS Block = ''admin.users.manage''"
| "BULK_USER_ACTION_PERMISSIONS Suspend = ''admin.users.manage''"
| "BULK_USER_ACTION_PERMISSIONS Reactivate = ''admin.users.manage''"
| "BULK_USER_ACTION_PERMISSIONS Ban = ''admin.users.ban''"
| "BULK_USER_ACTION_PERMISSIONS Unban = ''admin.users.ban''"
| "BULK_USER_ACTION_PERMISSIONS SoftDelete = ''admin.users.delete''"
| "BULK_USER_ACTION_PERMISSIONS Restore = ''admin.users.delete''"

text \<open>An audit row of the actor about the target, stamped with the organization of its scope.\<close>

definition log_action ::
    "bulk_user_actor \<Rightarrow> user_target \<Rightarrow> millis \<Rightarrow> string \<Rightarrow> string \<Rightarrow> string option \<Rightarrow> admin_store \<Rightarrow> admin_store" where
  "log_action actor target now event outcome reason s =
     audit_admin s now event outcome (ba_betterAuthUserId actor) target
       (scopeOrganizationId (Some (ba_scope actor))) reason None"

definition refuseSharedAccountGlobal ::
    "admin_store \<Rightarrow> millis \<Rightarrow> user_target \<Rightarrow> bulk_user_actor \<Rightarrow> (admin_store \<times> action_outcome) option" where
  "refuseSharedAccountGlobal s now target actor =
     (if requiresSuperadminForSharedTarget (ad_db s) (ba_scope actor) (tg_appUserId target)
      then Some (log_action actor target now USER_ACTION_DENIED_EVENT ''denied'' (Some SHARED_TARGET_REASON) s,
                 ActionError ''forbidden_shared_target'')
      else None)"

subsection \<open>Status actions\<close>

definition performStatusAction ::
    "faults \<Rightarrow> admin_store \<Rightarrow> millis \<Rightarrow> bulk_user_action \<Rightarrow> user_target \<Rightarrow> bulk_user_actor \<Rightarrow>
     bulk_user_options \<Rightarrow> admin_store \<times> action_outcome" where
  "performStatusAction f s now action target actor options =
     (case STATUS_ACTION_MAP action of
        None \<Rightarrow> (s, ActionError ''invalid_action'')
      | Some (newStatus, newMembershipStatus, eventType) \<Rightarrow>
          performAdminStatusChange f s now
            \<lparr>sc_actor = ba_betterAuthUserId actor, sc_scope = ba_scope actor,
             sc_target = tg_appUserId target, sc_newStatus = newStatus,
             sc_newMembershipStatus = newMembershipStatus, sc_eventType = eventType,
             sc_reason = op_reason options, sc_claim = None\<rparr>)"

subsection \<open>Ban and unban\<close>

text \<open>Both sagas undo their ban with this step: a failure to undo is audited and goes no further.\<close>

definition undo_ban ::
    "faults \<Rightarrow> admin_store \<Rightarrow> millis \<Rightarrow> user_target \<Rightarrow> bulk_user_actor \<Rightarrow> string \<Rightarrow> ban_snapshot option \<Rightarrow>
     admin_store" where
  "undo_ban f s now target actor failedEvent previousBan =
     (case restoreBetterAuthBan (fa_unban f) s now (tg_betterAuthUserId target) previousBan of
        Some (s', _) \<Rightarrow> s'
      | None \<Rightarrow> log_action actor target now failedEvent ''error'' (Some ''compensation_unban_failed'') s)"

definition guardAppliedBan ::
    "faults \<Rightarrow> admin_store \<Rightarrow> millis \<Rightarrow> user_target \<Rightarrow> bulk_user_actor \<Rightarrow> ban_snapshot option \<Rightarrow>
     admin_store \<times> action_outcome" where
  "guardAppliedBan f s now target actor previousBan =
     (let stripsLast = \<not> fa_check f \<and>
            banStripsLastGlobalSuperuser (tg_appUserId target) (tg_betterAuthUserId target) (ad_db s) now
      in if \<not> stripsLast \<and> \<not> fa_check f then (s, ActionOk)
         else
           (let s' = undo_ban f s now target actor ''admin.user.ban_compensation_failed'' previousBan
            in if fa_check f
               then (log_action actor target now ''admin.user.ban_failed'' ''error'' (Some ''revocation_check_failed'') s',
                     ActionError ''revocation_check_failed'')
               else (log_action actor target now LAST_SUPERADMIN_EVENT ''denied'' (Some LAST_SUPERADMIN_REASON) s',
                     ActionError LAST_SUPERADMIN_ERROR)))"

definition performBan ::
    "faults \<Rightarrow> admin_store \<Rightarrow> millis \<Rightarrow> user_target \<Rightarrow> bulk_user_actor \<Rightarrow> bulk_user_options \<Rightarrow>
     admin_store \<times> action_outcome" where
  "performBan f s now target actor options =
     (if \<not> truthy (op_reason options) then (s, ActionError ''reason_required'')
      else (case refuseSharedAccountGlobal s now target actor of
              Some refused \<Rightarrow> refused
            | None \<Rightarrow>
                (case banBetterAuthUser (fa_ban f) (fa_sessions f) s now (tg_betterAuthUserId target)
                        (the (op_reason options)) (op_expiresInSeconds options) (ba_betterAuthUserId actor) of
                   (s1, None) \<Rightarrow>
                     (log_action actor target now ''admin.user.ban_failed'' ''error'' (Some ''auth_ban_failed'') s1,
                      ActionError ''auth_ban_failed'')
                 | (s1, Some previousBan) \<Rightarrow>
                     (case guardAppliedBan f s1 now target actor previousBan of
                        (s2, ActionOk) \<Rightarrow>
                          (log_action actor target now ''admin.user.banned'' ''success'' (op_reason options) s2, ActionOk)
                      | refused \<Rightarrow> refused))))"

definition performUnban ::
    "faults \<Rightarrow> admin_store \<Rightarrow> millis \<Rightarrow> user_target \<Rightarrow> bulk_user_actor \<Rightarrow> admin_store \<times> action_outcome" where
  "performUnban f s now target actor =
     (case refuseSharedAccountGlobal s now target actor of
        Some refused \<Rightarrow> refused
      | None \<Rightarrow>
          (case unbanBetterAuthUser (fa_unban f) s (tg_betterAuthUserId target) of
             None \<Rightarrow> (log_action actor target now ''admin.user.unban_failed'' ''error'' (Some ''auth_unban_failed'') s,
                       ActionError ''auth_unban_failed'')
           | Some s1 \<Rightarrow> (log_action actor target now ''admin.user.unbanned'' ''success'' None s1, ActionOk)))"

subsection \<open>Soft-delete\<close>

text \<open>The outer option is \<open>undefined\<close> in the source: nothing to carry forward.\<close>

definition carriedPriorBan :: "admin_store \<Rightarrow> user_target \<Rightarrow> ban_snapshot option option" where
  "carriedPriorBan s target =
     (if mustUseRestore (tg_status target) then Some (recordedPriorBan s (tg_appUserId target)) else None)"

text \<open>The ban replaced, which the saga puts back, and the ban restore must put back.\<close>

definition banForSoftDelete ::
    "faults \<Rightarrow> admin_store \<Rightarrow> millis \<Rightarrow> user_target \<Rightarrow> string \<Rightarrow> uuid \<Rightarrow> ban_snapshot option option \<Rightarrow>
     admin_store \<times> (ban_snapshot option \<times> ban_snapshot option) option" where
  "banForSoftDelete f s now target banReason actor carried =
     (let (s', r) = banBetterAuthUser (fa_ban f) (fa_sessions f) s now (tg_betterAuthUserId target) banReason None actor
      in (s', map_option (\<lambda>previousBan. (previousBan, case carried of None \<Rightarrow> previousBan | Some c \<Rightarrow> c)) r))"

definition deactivate_account :: "uuid \<Rightarrow> millis \<Rightarrow> uuid \<Rightarrow> string option \<Rightarrow> db \<Rightarrow> db" where
  "deactivate_account t now by reason d =
     d\<lparr>app_users := update_where (\<lambda>u. au_id u = t)
         (\<lambda>u. u\<lparr>au_status := ''deactivated'', au_status_reason := reason, au_deactivated_at := Some now,
                au_deactivated_by := Some by, au_deactivated_reason := reason\<rparr>) (app_users d)\<rparr>"

definition block_memberships :: "uuid \<Rightarrow> db \<Rightarrow> db" where
  "block_memberships t d =
     d\<lparr>app_organization_memberships :=
         update_where (\<lambda>m. mb_app_user_id m = t \<and> mb_status m \<noteq> ''blocked'')
           (\<lambda>m. m\<lparr>mb_pre_deactivation_status := Some (mb_status m), mb_status := ''blocked''\<rparr>)
           (app_organization_memberships d)\<rparr>"

definition finishSoftDelete ::
    "faults \<Rightarrow> admin_store \<Rightarrow> millis \<Rightarrow> user_target \<Rightarrow> ban_snapshot option \<Rightarrow> bulk_user_actor \<Rightarrow>
     string option \<Rightarrow> admin_store \<times> bool" where
  "finishSoftDelete f s now target priorBan actor reason =
     (let (cs, revoked, revocations) =
            revokeBearerCredentialsOf (fa_others f) (ad_db s) (ad_credentials s) now
              \<lparr>ri_betterAuthUserId = tg_betterAuthUserId target, ri_trigger = OwnerDeleted,
               ri_actorBetterAuthUserId = ba_betterAuthUserId actor,
               ri_revokedByAppUserId = ba_appUserId actor\<rparr>;
          s1 = s\<lparr>ad_credentials := cs, ad_revocations := ad_revocations s @ revocations\<rparr>;
          s2 = audit_admin s1 now SOFT_DELETED_EVENT ''success'' (ba_betterAuthUserId actor) target
                 (scopeOrganizationId (Some (ba_scope actor))) reason priorBan
      in if revoked \<noteq> None then (s2, True)
         else (log_action actor target now ''admin.user.soft_delete_failed'' ''error''
                 (Some ''credential_revocation_failed'') s2, False))"

definition performSoftDelete ::
    "faults \<Rightarrow> admin_store \<Rightarrow> millis \<Rightarrow> user_target \<Rightarrow> bulk_user_actor \<Rightarrow> bulk_user_options \<Rightarrow>
     admin_store \<times> action_outcome" where
  "performSoftDelete f s now target actor options =
     (case refuseSharedAccountGlobal s now target actor of
        Some refused \<Rightarrow> refused
      | None \<Rightarrow>
          let reason = op_reason options;
              carried = carriedPriorBan s target
          in case banForSoftDelete f s now target (case reason of Some r \<Rightarrow> r | None \<Rightarrow> ''deleted'')
                    (ba_betterAuthUserId actor) carried of
               (s1, None) \<Rightarrow>
                 (log_action actor target now ''admin.user.soft_delete_failed'' ''error'' (Some ''auth_ban_failed'') s1,
                  ActionError ''auth_ban_failed'')
             | (s1, Some (previousBan, priorBan)) \<Rightarrow>
                 let stripsLast = banStripsLastGlobalSuperuser (tg_appUserId target) (tg_betterAuthUserId target)
                       (ad_db s1) now
                 in if fa_transaction f \<or> stripsLast
                    then
                      (let s2 = undo_ban f s1 now target actor ''admin.user.soft_delete_compensation_failed'' previousBan
                       in if \<not> fa_transaction f
                          then (log_action actor target now LAST_SUPERADMIN_EVENT ''denied''
                                  (Some LAST_SUPERADMIN_REASON) s2,
                                ActionError LAST_SUPERADMIN_ERROR)
                          else (log_action actor target now ''admin.user.soft_delete_failed'' ''error''
                                  (Some ''db_cascade_failed'') s2,
                                ActionError ''db_cascade_failed''))
                    else
                      (let s2 = with_db (block_memberships (tg_appUserId target) \<circ>
                                  deactivate_account (tg_appUserId target) now
                                    (humanActorId (ba_betterAuthUserId actor) (ba_impersonatorId actor)) reason) s1;
                           (s3, finished) = finishSoftDelete f s2 now target priorBan actor reason
                       in (s3, if finished then ActionOk else ActionError ''credential_revocation_failed'')))"

subsection \<open>Restore\<close>

definition restore_snapshot :: "membership_row \<Rightarrow> membership_row" where
  "restore_snapshot m =
     (case mb_pre_deactivation_status m of
        None \<Rightarrow> m
      | Some p \<Rightarrow>
          m\<lparr>mb_status := (if p = ''active'' then ''pending_approval'' else p),
            mb_pre_deactivation_status := (if p \<in> {''active'', ''pending_approval''} then Some p else None)\<rparr>)"

definition restoreSnapshottedMemberships :: "uuid \<Rightarrow> db \<Rightarrow> db" where
  "restoreSnapshottedMemberships t d =
     d\<lparr>app_organization_memberships :=
         update_where (\<lambda>m. mb_app_user_id m = t \<and> mb_pre_deactivation_status m \<noteq> None) restore_snapshot
           (app_organization_memberships d)\<rparr>"

definition reopen_account :: "uuid \<Rightarrow> db \<Rightarrow> db" where
  "reopen_account t d =
     d\<lparr>app_users := update_where (\<lambda>u. au_id u = t)
         (\<lambda>u. u\<lparr>au_status := ''pending_approval'', au_status_reason := None, au_deactivated_at := None,
                au_deactivated_by := None, au_deactivated_reason := None\<rparr>) (app_users d)\<rparr>"

definition performRestore ::
    "faults \<Rightarrow> admin_store \<Rightarrow> millis \<Rightarrow> user_target \<Rightarrow> bulk_user_actor \<Rightarrow> admin_store \<times> action_outcome" where
  "performRestore f s now target actor =
     (case refuseSharedAccountGlobal s now target actor of
        Some refused \<Rightarrow> refused
      | None \<Rightarrow>
          if \<not> mustUseRestore (tg_status target) then (s, ActionError ''not_deactivated'')
          else if isErasedAccount (tg_appUserId target) (tg_primaryEmail target)
          then (s, ActionError USER_ERASED_ERROR)
          else (case restoreBetterAuthBan (fa_unban f) s now (tg_betterAuthUserId target)
                       (recordedPriorBan s (tg_appUserId target)) of
                  None \<Rightarrow>
                    (log_action actor target now ''admin.user.restore_failed'' ''error'' (Some ''auth_unban_failed'') s,
                     ActionError ''auth_unban_failed'')
                | Some (s1, banned) \<Rightarrow>
                    if fa_transaction f then (s1, ActionThrows)
                    else (log_action actor target now ''admin.user.restored'' ''success'' None
                            (with_db (restoreSnapshottedMemberships (tg_appUserId target) \<circ>
                                      reopen_account (tg_appUserId target)) s1),
                          ActionOk)))"

subsection \<open>The dispatcher\<close>

definition executeBulkUserAction ::
    "faults \<Rightarrow> admin_store \<Rightarrow> millis \<Rightarrow> bulk_user_action \<Rightarrow> user_target \<Rightarrow> bulk_user_actor \<Rightarrow>
     bulk_user_options \<Rightarrow> admin_store \<times> action_outcome" where
  "executeBulkUserAction f s now action target actor options =
     (if action \<in> {Block, Suspend} \<and> tg_betterAuthUserId target = ba_betterAuthUserId actor
      then (s, ActionError CANNOT_ACT_ON_SELF_ERROR)
      else if targetOutranksActor (ad_db s) now (ba_access actor) target
      then (log_action actor target now USER_ACTION_DENIED_EVENT ''denied'' (Some ''target_outranks_actor'') s,
            ActionError ''forbidden_target_outranks_actor'')
      else if isAgentServiceAccount (tg_betterAuthUserId target) \<and> action \<in> set LOGIN_ACCOUNT_ACTIONS
      then (s, ActionError SERVICE_ACCOUNT_ERROR)
      else if isAgentServiceAccount (tg_betterAuthUserId target) \<and> action \<in> {Approve, Reactivate} \<and>
              \<not> ba_mayActivateAgents actor
      then (log_action actor target now USER_ACTION_DENIED_EVENT ''denied'' (Some AGENT_ACTIVATION_REASON) s,
            ActionError AGENT_ACTIVATION_DENIED_ERROR)
      else if action \<noteq> SoftDelete \<and> action \<noteq> Restore \<and> mustUseRestore (tg_status target)
      then (s, ActionError USE_RESTORE_ERROR)
      else (case action of
              Ban \<Rightarrow> performBan f s now target actor options
            | Unban \<Rightarrow> performUnban f s now target actor
            | SoftDelete \<Rightarrow> performSoftDelete f s now target actor options
            | Restore \<Rightarrow> performRestore f s now target actor
            | _ \<Rightarrow> performStatusAction f s now action target actor options))"

subsection \<open>Bans and the superusers\<close>

lemma set_ban_twice: "ad_db s1 = ad_db (set_ban s u b r e) \<Longrightarrow>
    ad_db (set_ban s1 u b' r' e') = ad_db (set_ban s u b' r' e')"
  by (auto simp: set_ban_def update_where_def)

lemma banned_cannot_sign_in: "banInForce b now \<noteq> None \<Longrightarrow> \<not> sql_can_sign_in now None b"
  by (auto simp: banInForce_def bannable_of_def isBanActive_def sql_can_sign_in_def split: if_splits option.splits)

lemma set_ban_membership [simp]: "has_active_membership (ad_db (set_ban s u b r e)) = has_active_membership (ad_db s)"
  by (simp add: fun_eq_iff has_active_membership_def set_ban_def)

text \<open>A ban write that leaves the account no worse off takes no superuser.\<close>

lemma reban_survives:
  assumes wf: "accounts_wf (ad_db s)" and n: "names_account (ad_db s) t u" and v: "superuser_survives (ad_db s) now"
    and w: "\<And>b. auth_user_by_id s u = Some b \<Longrightarrow> sql_can_sign_in now None b \<Longrightarrow>
      \<not> banned \<or> (case expires of None \<Rightarrow> False | Some e \<Rightarrow> e \<le> now)"
  shows "superuser_survives (ad_db (set_ban s u banned why expires)) now"
proof -
  have "account_can_sign_in (ad_db (set_ban s u banned why expires)) now None t"
    if "account_can_sign_in (ad_db s) now None t"
  proof -
    from that obtain a b where ab: "a \<in> set (app_users (ad_db s))" "au_id a = t" "au_status a = ''active''"
      "b \<in> set (auth_users (ad_db s))" "bu_id b = au_better_auth_user_id a" "sql_can_sign_in now None b"
      unfolding account_can_sign_in_def by blast
    define b' where "b' = (if bu_id b = u
      then b\<lparr>bu_banned := Some banned, bu_ban_reason := why, bu_ban_expires := expires\<rparr> else b)"
    have "b' \<in> set (auth_users (ad_db (set_ban s u banned why expires)))"
      using ab(4) by (auto simp: b'_def set_ban_def update_where_def)
    moreover have "sql_can_sign_in now None b'"
    proof (cases "bu_id b = u")
      case True
      have "auth_user_by_id s u = Some b"
        using wf find_key [OF _ ab(4), where k = bu_id] True
        by (simp add: auth_user_by_id_def accounts_wf_def)
      from w [OF this ab(6)] True show ?thesis
        by (auto simp: b'_def sql_can_sign_in_def split: option.splits)
    qed (simp add: b'_def ab(6))
    moreover have "bu_id b' = au_better_auth_user_id a" by (simp add: b'_def ab(5))
    moreover have "a \<in> set (app_users (ad_db (set_ban s u banned why expires)))" using ab(1) by (simp add: set_ban_def)
    ultimately show ?thesis using ab(2,3) unfolding account_can_sign_in_def by blast
  qed
  with survives_mono [OF confined_writes(4) _ n v, of banned why expires] wf show ?thesis
    by (simp add: accounts_wf_def)
qed

lemma ban_disregarded:
  assumes "superuser_survives (ad_db s) now"
  shows "activeGlobalSuperuserGrants (ad_db (set_ban s u banned why expires)) now (Some u) \<noteq> []"
proof -
  let ?d = "ad_db (set_ban s u banned why expires)"
  have same: "org_is_active ?d = org_is_active (ad_db s)" "role_carries ?d = role_carries (ad_db s)"
    "app_user_roles ?d = app_user_roles (ad_db s)" "app_users ?d = app_users (ad_db s)"
    by (simp_all add: fun_eq_iff org_is_active_def role_carries_def set_ban_def)
  have "account_can_sign_in ?d now (Some u) uid" if "account_can_sign_in (ad_db s) now None uid" for uid
  proof -
    from that obtain a b where ab: "a \<in> set (app_users (ad_db s))" "au_id a = uid" "au_status a = ''active''"
      "b \<in> set (auth_users (ad_db s))" "bu_id b = au_better_auth_user_id a" "sql_can_sign_in now None b"
      unfolding account_can_sign_in_def by blast
    define b' where "b' = (if bu_id b = u
      then b\<lparr>bu_banned := Some banned, bu_ban_reason := why, bu_ban_expires := expires\<rparr> else b)"
    have "b' \<in> set (auth_users ?d)" using ab(4) by (auto simp: b'_def set_ban_def update_where_def)
    moreover have "sql_can_sign_in now (Some u) b'" "bu_id b' = au_better_auth_user_id a"
      using ab(5,6) by (auto simp: b'_def sql_can_sign_in_def)
    ultimately show ?thesis using ab(1-3) same(4) unfolding account_can_sign_in_def by auto
  qed
  then show ?thesis using assms
    unfolding superuser_survives_def activeGlobalSuperuserGrants_def same set_ban_membership
    by (auto simp: filter_empty_conv)
qed

lemma ban_check_survives:
  assumes "\<not> banStripsLastGlobalSuperuser t u d now" "activeGlobalSuperuserGrants d now (Some u) \<noteq> []"
    and "confined t u d d'" "users_wf d" "names_account d t u"
  shows "superuser_survives d' now"
proof -
  from assms(1,2) obtain g where g: "g \<in> set (activeGlobalSuperuserGrants d now (Some u))" "sg_app_user_id g \<noteq> t"
    unfolding banStripsLastGlobalSuperuser_def strips_False_survivor
    by (auto simp: grantIsRemoved_def no_removal_def split: if_splits)
  show ?thesis by (rule survives_at [OF assms(3,4,5) _ g(1)]) (use g(2) in auto)
qed

lemma ad_db_log [simp]: "ad_db (log_action actor target now event outcome reason s) = ad_db s"
  by (simp add: log_action_def)

lemma ban_call_framed: "confined t u (ad_db s) (ad_db (fst (banBetterAuthUser bad fault s now u reason e actor)))"
  by (auto simp: banBetterAuthUser_def Let_def dest!: revoke_ad_db split: option.splits prod.splits)

lemma ban_call:
  assumes "banBetterAuthUser bad NoSessionFault s now u reason e actor = (s', r)"
  shows "r = None \<and> s' = s \<or>
    (\<exists>before why x. auth_user_by_id s u = Some before \<and> u \<noteq> actor \<and> r = Some (banInForce before now) \<and>
       ad_db s' = ad_db (set_ban s u True why x))"
proof (cases "auth_user_by_id s u")
  case None
  with assms show ?thesis by (simp add: banBetterAuthUser_def)
next
  case (Some before)
  have "ad_db s' = ad_db (set_ban s u True (Some (if reason = [] then ''No reason'' else reason)) (ban_until now e)) \<and>
      r = Some (banInForce before now) \<and> u \<noteq> actor \<or> r = None \<and> s' = s"
    using assms Some by (auto simp: banBetterAuthUser_def Let_def split: if_splits)
  with Some show ?thesis by blast
qed

lemma undo_framed:
  "confined t (tg_betterAuthUserId target) (ad_db s) (ad_db (undo_ban f s now target actor ev prior))"
  by (auto simp: undo_ban_def restoreBetterAuthBan_def unbanBetterAuthUser_def split: option.splits if_splits)

lemma auth_user_None: "auth_user_by_id s u = None \<longleftrightarrow> u \<notin> set (map bu_id (auth_users (ad_db s)))"
  by (auto simp: auth_user_by_id_def find_None_set)

lemma set_ban_keys: "map bu_id (auth_users (ad_db (set_ban s u b r e))) = map bu_id (auth_users (ad_db s))"
  by (simp add: set_ban_def map_update_where_same)

lemma restore_ban_runs:
  "auth_user_by_id s u \<noteq> None \<Longrightarrow> \<not> fails \<Longrightarrow> \<exists>s' banned. restoreBetterAuthBan fails s now u prior = Some (s', banned)"
  by (cases prior) (auto simp: restoreBetterAuthBan_def unbanBetterAuthUser_def)

lemma restore_ban_is_set:
  "restoreBetterAuthBan fails s now u prior = Some (s', banned) \<Longrightarrow>
     \<exists>r e. s' = set_ban s u banned r e \<and> (banned \<longrightarrow> prior \<noteq> None)"
  unfolding restoreBetterAuthBan_def unbanBetterAuthUser_def
  by (cases prior) (simp split: if_splits; metis)+

lemma undo_survives:
  assumes "accounts_wf (ad_db s)" "names_account (ad_db s) t u" "superuser_survives (ad_db s) now"
    and b: "auth_user_by_id s u = Some before" and s1: "ad_db s1 = ad_db (set_ban s u True why x)"
    and "\<not> fa_unban f" and u: "u = tg_betterAuthUserId target"
  shows "superuser_survives (ad_db (undo_ban f s1 now target actor ev (banInForce before now))) now"
proof -
  have mem: "auth_user_by_id s1 u \<noteq> None"
    unfolding auth_user_None s1 set_ban_keys using auth_user_None [of s u] b by simp
  obtain s' banned where r: "restoreBetterAuthBan (fa_unban f) s1 now u (banInForce before now) = Some (s', banned)"
    using restore_ban_runs [OF mem assms(6)] by blast
  from restore_ban_is_set [OF r] set_ban_twice [OF s1] r
  have "\<exists>banned r e. ad_db (undo_ban f s1 now target actor ev (banInForce before now)) =
      ad_db (set_ban s u banned r e) \<and> (banned \<longrightarrow> banInForce before now \<noteq> None)"
    by (metis (no_types, lifting) undo_ban_def option.case(2) case_prod_conv u)
  then obtain banned r e where d: "ad_db (undo_ban f s1 now target actor ev (banInForce before now)) =
      ad_db (set_ban s u banned r e)" "banned \<longrightarrow> banInForce before now \<noteq> None" by blast
  show ?thesis unfolding d(1)
    by (rule reban_survives [OF assms(1-3)]) (use d(2) b banned_cannot_sign_in in auto)
qed

subsection \<open>Every action keeps a superuser\<close>

text \<open>Better Auth's writes go through once they have begun.\<close>

definition calm :: "faults \<Rightarrow> bool" where
  "calm f \<longleftrightarrow> fa_sessions f = NoSessionFault \<and> \<not> fa_unban f"

lemma refuse_ad_db: "refuseSharedAccountGlobal s now target actor = Some r \<Longrightarrow> ad_db (fst r) = ad_db s"
  by (auto simp: refuseSharedAccountGlobal_def split: if_splits)

lemma guard_outcome:
  "guardAppliedBan f s1 now target actor prior = (s2, out) \<Longrightarrow>
     (out = ActionOk \<and> s2 = s1 \<and>
      \<not> banStripsLastGlobalSuperuser (tg_appUserId target) (tg_betterAuthUserId target) (ad_db s1) now) \<or>
     (out \<noteq> ActionOk \<and>
      ad_db s2 = ad_db (undo_ban f s1 now target actor ''admin.user.ban_compensation_failed'' prior))"
  by (auto simp: guardAppliedBan_def Let_def split: if_splits)

lemma applied_ban_checked:
  assumes "accounts_wf (ad_db s)" "names_account (ad_db s) t u" "superuser_survives (ad_db s) now"
    and "ad_db s1 = ad_db (set_ban s u True why x)" "\<not> banStripsLastGlobalSuperuser t u (ad_db s1) now"
    and "confined t u (ad_db s1) d'"
  shows "superuser_survives d' now"
proof -
  have c: "confined t u (ad_db s) (ad_db s1)" unfolding assms(4) by simp
  show ?thesis
    by (rule ban_check_survives [OF assms(5) _ assms(6)])
      (use ban_disregarded [OF assms(3)] assms(1,2,4) confined_accounts_wf [OF c] names_account_confined [OF c]
        in \<open>auto simp: accounts_wf_def\<close>)
qed

lemma performBan_survives:
  assumes "accounts_wf (ad_db s)" "names_account (ad_db s) (tg_appUserId target) (tg_betterAuthUserId target)"
    and "superuser_survives (ad_db s) now" "calm f"
  shows "superuser_survives (ad_db (fst (performBan f s now target actor options))) now"
proof -
  obtain s1 r where b: "banBetterAuthUser (fa_ban f) (fa_sessions f) s now (tg_betterAuthUserId target)
      (the (op_reason options)) (op_expiresInSeconds options) (ba_betterAuthUserId actor) = (s1, r)" by fastforce
  obtain s2 out where g: "guardAppliedBan f s1 now target actor (the r) = (s2, out)" by fastforce
  from assms(4) have f: "fa_sessions f = NoSessionFault" "\<not> fa_unban f" by (simp_all add: calm_def)
  from ban_call [OF b [unfolded f]] consider "r = None" "s1 = s"
    | before why x where "auth_user_by_id s (tg_betterAuthUserId target) = Some before"
      "r = Some (banInForce before now)" "ad_db s1 = ad_db (set_ban s (tg_betterAuthUserId target) True why x)"
    by blast
  then show ?thesis
  proof cases
    case 1
    with b assms(3) show ?thesis by (auto simp: performBan_def dest: refuse_ad_db split: option.splits)
  next
    case (2 before why x)
    have "superuser_survives (ad_db s2) now"
      using guard_outcome [OF g] undo_survives [OF assms(1-3) 2(1,3) f(2) refl]
        applied_ban_checked [OF assms(1-3) 2(3), where d' = "ad_db s1"] 2(2) by auto
    with b 2(2) g assms(3) show ?thesis
      by (auto simp: performBan_def dest: refuse_ad_db split: option.splits action_outcome.splits)
  qed
qed

lemma unban_survives:
  assumes "accounts_wf (ad_db s)" "names_account (ad_db s) t u" "superuser_survives (ad_db s) now"
    and "unbanBetterAuthUser fails s u = Some s'"
  shows "superuser_survives (ad_db s') now"
proof -
  have "s' = set_ban s u False None None" using assms(4) by (auto simp: unbanBetterAuthUser_def split: if_splits)
  then show ?thesis using reban_survives [OF assms(1-3), of False None None] by simp
qed

lemma performUnban_survives:
  assumes "accounts_wf (ad_db s)" "names_account (ad_db s) (tg_appUserId target) (tg_betterAuthUserId target)"
    and "superuser_survives (ad_db s) now"
  shows "superuser_survives (ad_db (fst (performUnban f s now target actor))) now"
  using assms(3) unban_survives [OF assms]
  by (auto simp: performUnban_def dest: refuse_ad_db split: option.splits)

lemma restore_snapshot_keeps [simp]:
  "mb_id (restore_snapshot m) = mb_id m" "mb_app_user_id (restore_snapshot m) = mb_app_user_id m"
  "mb_organization_id (restore_snapshot m) = mb_organization_id m"
  by (simp_all add: restore_snapshot_def split: option.splits)

lemma cascade_framed [simp, intro]:
  "confined t ba d (deactivate_account t now by' reason d)" "confined t ba d (block_memberships t d)"
  "confined t ba d (reopen_account t d)" "confined t ba d (restoreSnapshottedMemberships t d)"
  by (simp_all add: frame_simps deactivate_account_def block_memberships_def reopen_account_def
      restoreSnapshottedMemberships_def)
    (rule filter_update_where_other; simp)+

lemma finish_ad_db: "finishSoftDelete f s now target prior actor reason = (s', ok) \<Longrightarrow> ad_db s' = ad_db s"
  by (auto simp: finishSoftDelete_def Let_def split: prod.splits if_splits)

lemma performSoftDelete_survives:
  assumes "accounts_wf (ad_db s)" "names_account (ad_db s) (tg_appUserId target) (tg_betterAuthUserId target)"
    and "superuser_survives (ad_db s) now" "calm f"
  shows "superuser_survives (ad_db (fst (performSoftDelete f s now target actor options))) now"
proof -
  let ?t = "tg_appUserId target" and ?u = "tg_betterAuthUserId target"
  obtain s1 r where b: "banBetterAuthUser (fa_ban f) (fa_sessions f) s now ?u
      (case op_reason options of Some r \<Rightarrow> r | None \<Rightarrow> ''deleted'') None (ba_betterAuthUserId actor) = (s1, r)" by fastforce
  from assms(4) have f: "fa_sessions f = NoSessionFault" "\<not> fa_unban f" by (simp_all add: calm_def)
  from ban_call [OF b [unfolded f]] consider "r = None" "s1 = s"
    | before why x where "auth_user_by_id s ?u = Some before"
      "r = Some (banInForce before now)" "ad_db s1 = ad_db (set_ban s ?u True why x)"
    by blast
  then show ?thesis
  proof cases
    case 1
    with b assms(3) show ?thesis
      by (auto simp: performSoftDelete_def banForSoftDelete_def Let_def dest: refuse_ad_db split: option.splits)
  next
    case (2 before why x)
    define d2 where "d2 = block_memberships ?t (deactivate_account ?t now
      (humanActorId (ba_betterAuthUserId actor) (ba_impersonatorId actor)) (op_reason options) (ad_db s1))"
    have "confined ?t ?u (ad_db s1) d2" unfolding d2_def by (rule confined_trans [OF cascade_framed(1,2)])
    note kept = applied_ban_checked [OF assms(1-3) 2(3) _ this]
    note undone = undo_survives [OF assms(1-3) 2(1,3) f(2) refl]
    from b 2(2) kept undone assms(3) show ?thesis
      by (auto simp: performSoftDelete_def banForSoftDelete_def Let_def d2_def dest: refuse_ad_db
          dest!: finish_ad_db split: option.splits prod.splits)
  qed
qed

text \<open>
  Restore relies on the status it was handed being the account's: then no grant of the account
  counts, whatever it writes.
\<close>

lemma deactivated_cannot_sign_in:
  assumes "users_wf d" "u \<in> set (app_users d)" "au_status u \<noteq> ''active''"
  shows "\<not> account_can_sign_in d now x (au_id u)"
proof
  assume "account_can_sign_in d now x (au_id u)"
  then obtain v where "v \<in> set (app_users d)" "au_id v = au_id u" "au_status v = ''active''"
    unfolding account_can_sign_in_def by blast
  with assms show False unfolding users_wf_def distinct_map by (metis inj_onD)
qed

lemma performRestore_framed:
  "confined (tg_appUserId target) (tg_betterAuthUserId target) (ad_db s)
     (ad_db (fst (performRestore f s now target actor)))"
  by (auto simp: performRestore_def intro: confined_trans [OF _ confined_trans [OF cascade_framed(3,4)]]
      dest: refuse_ad_db dest!: restore_ban_is_set split: option.splits prod.splits)

lemma performRestore_survives:
  assumes "accounts_wf (ad_db s)" "u \<in> set (app_users (ad_db s))" "target = target_of u"
    and "superuser_survives (ad_db s) now"
  shows "superuser_survives (ad_db (fst (performRestore f s now target actor))) now"
proof (cases "mustUseRestore (tg_status target)")
  case False
  with assms(4) show ?thesis by (auto simp: performRestore_def dest: refuse_ad_db split: option.splits)
next
  case True
  with assms(3) have "au_status u \<noteq> ''active''" by (simp add: target_of_def mustUseRestore_def)
  with assms have "\<not> account_can_sign_in (ad_db s) now None (tg_appUserId target)"
    using deactivated_cannot_sign_in [of "ad_db s" u] by (simp add: target_of_def accounts_wf_def)
  then show ?thesis
    by (intro survives_no_account [OF performRestore_framed])
      (use assms in \<open>auto simp: names_account_def target_of_def accounts_wf_def\<close>)
qed

subsection \<open>The dispatcher, framed\<close>

lemma performBan_framed:
  "confined (tg_appUserId target) (tg_betterAuthUserId target) (ad_db s)
     (ad_db (fst (performBan f s now target actor options)))"
proof -
  obtain s1 r where b: "banBetterAuthUser (fa_ban f) (fa_sessions f) s now (tg_betterAuthUserId target)
      (the (op_reason options)) (op_expiresInSeconds options) (ba_betterAuthUserId actor) = (s1, r)" by fastforce
  have 1: "confined (tg_appUserId target) (tg_betterAuthUserId target) (ad_db s) (ad_db s1)"
    using ban_call_framed by (metis b fst_conv)
  obtain s2 out where g: "guardAppliedBan f s1 now target actor (the r) = (s2, out)" by fastforce
  have "confined (tg_appUserId target) (tg_betterAuthUserId target) (ad_db s) (ad_db s2)"
    using guard_outcome [OF g] 1 confined_trans [OF 1 undo_framed] by auto
  moreover have "ad_db (fst (performBan f s now target actor options)) \<in> {ad_db s, ad_db s1, ad_db s2}"
    using b g refuse_ad_db [of s now target actor]
    by (cases r; cases out; cases "refuseSharedAccountGlobal s now target actor") (auto simp: performBan_def)
  ultimately show ?thesis using 1 by auto
qed

lemma performUnban_framed:
  "confined (tg_appUserId target) (tg_betterAuthUserId target) (ad_db s)
     (ad_db (fst (performUnban f s now target actor)))"
  by (auto simp: performUnban_def unbanBetterAuthUser_def dest: refuse_ad_db split: option.splits if_splits)

lemma performSoftDelete_framed:
  "confined (tg_appUserId target) (tg_betterAuthUserId target) (ad_db s)
     (ad_db (fst (performSoftDelete f s now target actor options)))"
proof -
  obtain s1 r where b: "banBetterAuthUser (fa_ban f) (fa_sessions f) s now (tg_betterAuthUserId target)
      (case op_reason options of Some r \<Rightarrow> r | None \<Rightarrow> ''deleted'') None (ba_betterAuthUserId actor) = (s1, r)" by fastforce
  have 1: "confined (tg_appUserId target) (tg_betterAuthUserId target) (ad_db s) (ad_db s1)"
    using ban_call_framed by (metis b fst_conv)
  note 2 = confined_trans [OF 1 undo_framed] confined_trans [OF 1 confined_trans [OF cascade_framed(1,2)]]
  from b 1 2 show ?thesis
    by (auto simp: performSoftDelete_def banForSoftDelete_def Let_def dest: refuse_ad_db
        dest!: finish_ad_db split: option.splits prod.splits)
qed

lemma performStatusAction_framed:
  "confined (tg_appUserId target) ba (ad_db s) (ad_db (fst (performStatusAction f s now action target actor options)))"
  using status_change_framed [of "\<lparr>sc_actor = ba_betterAuthUserId actor, sc_scope = ba_scope actor,
      sc_target = tg_appUserId target, sc_newStatus = x, sc_newMembershipStatus = y, sc_eventType = z,
      sc_reason = op_reason options, sc_claim = None\<rparr>" ba s f now for x y z]
  by (auto simp: performStatusAction_def split: option.splits prod.splits)

lemma executeBulkUserAction_framed:
  "confined (tg_appUserId target) (tg_betterAuthUserId target) (ad_db s)
     (ad_db (fst (executeBulkUserAction f s now action target actor options)))"
  using performBan_framed performUnban_framed performSoftDelete_framed performRestore_framed
    performStatusAction_framed
  by (auto simp: executeBulkUserAction_def split: bulk_user_action.splits)

lemma performStatusAction_survives:
  assumes "accounts_wf (ad_db s)" "names_account (ad_db s) (tg_appUserId target) (tg_betterAuthUserId target)"
    and "superuser_survives (ad_db s) now"
  shows "superuser_survives (ad_db (fst (performStatusAction f s now action target actor options))) now"
  using assms(1,2) by (cases action) (auto simp: performStatusAction_def accounts_wf_def assms(3)
      intro!: status_change_survives [where ba = "tg_betterAuthUserId target"])

lemma executeBulkUserAction_survives:
  assumes "accounts_wf (ad_db s)" "u \<in> set (app_users (ad_db s))" "target = target_of u"
    and "superuser_survives (ad_db s) now" "calm f"
  shows "superuser_survives (ad_db (fst (executeBulkUserAction f s now action target actor options))) now"
proof -
  have n: "names_account (ad_db s) (tg_appUserId target) (tg_betterAuthUserId target)"
    using assms(2,3) by (auto simp: names_account_def target_of_def)
  show ?thesis
    using performBan_survives [OF assms(1) n assms(4,5)] performUnban_survives [OF assms(1) n assms(4)]
      performSoftDelete_survives [OF assms(1) n assms(4,5)] performRestore_survives [OF assms(1-4)]
      performStatusAction_survives [OF assms(1) n assms(4)] assms(4)
    by (auto simp: executeBulkUserAction_def split: bulk_user_action.splits)
qed

end
