(* ===== verification/ActionLaws.thy ===== *)
theory ActionLaws
  imports UserActions
begin

text \<open>
  What the actions of \<open>UserActions\<close> promise: an administrator of one organization leaves a shared
  account alone outside it, a refused action leaves the account as it was, and a restore takes
  back what the soft-delete did, for each organization to approve again.
\<close>

subsection \<open>A store to evaluate on\<close>

definition sample_admin_store :: admin_store where
  "sample_admin_store = \<lparr>ad_db = sample_db, ad_credentials = sample_store, ad_revocations = [], ad_audit = []\<rparr>"

definition sample_superadmin :: bulk_user_actor where
  "sample_superadmin =
     \<lparr>ba_betterAuthUserId = ''b3'', ba_impersonatorId = None, ba_appUserId = Some ''u3'', ba_scope = AllOrgs,
      ba_access = getUserAccessContext sample_db 100 None ''b3'' None None, ba_mayActivateAgents = True\<rparr>"

definition sample_org_admin :: bulk_user_actor where
  "sample_org_admin =
     \<lparr>ba_betterAuthUserId = ''b2'', ba_impersonatorId = None, ba_appUserId = Some ''u2'', ba_scope = OneOrg ''A'',
      ba_access = getUserAccessContext sample_db 100 None ''b2'' None None, ba_mayActivateAgents = False\<rparr>"

definition sample_options :: bulk_user_options where
  "sample_options = \<lparr>op_reason = Some ''abuse'', op_expiresInSeconds = None\<rparr>"

definition sample_target :: user_target where
  "sample_target = target_of (app_users sample_db ! 0)"

subsection \<open>An organization's administrator\<close>

lemma refuse_shared:
  "requiresSuperadminForSharedTarget (ad_db s) (ba_scope actor) (tg_appUserId target) \<Longrightarrow>
     refuseSharedAccountGlobal s now target actor =
       Some (log_action actor target now USER_ACTION_DENIED_EVENT ''denied'' (Some SHARED_TARGET_REASON) s,
             ActionError ''forbidden_shared_target'')"
  by (simp add: refuseSharedAccountGlobal_def)

lemma log_credentials [simp]:
  "ad_credentials (log_action actor target now ev out why s) = ad_credentials s"
  "ad_credentials (audit_admin s now ev out act target oid why prior) = ad_credentials s"
  "ad_credentials (with_db g s) = ad_credentials s"
  by (simp_all add: log_action_def audit_admin_def with_db_def)

lemma shared_status_change:
  assumes "sc_scope c = OneOrg oid" "userHasMembershipOutsideOrg (ad_db s) (sc_target c) oid"
    and "performAdminStatusChange f s now c = (s', out)"
  shows "ad_credentials s' = ad_credentials s \<and>
    (ad_db s' = ad_db s \<or> ad_db s' = write_status c (ad_db s))"
  using assms
  by (auto simp: performAdminStatusChange_def Let_def account_wide_def split: option.splits if_splits)

lemma shared_write:
  assumes "sc_scope c = OneOrg oid" "userHasMembershipOutsideOrg d (sc_target c) oid"
  shows "auth_users (write_status c d) = auth_users d"
    "filter (\<lambda>m. mb_organization_id m \<noteq> oid) (app_organization_memberships (write_status c d)) =
       filter (\<lambda>m. mb_organization_id m \<noteq> oid) (app_organization_memberships d)"
    "app_users (write_status c d) =
       (if sc_newStatus c = ''active''
        then update_where (\<lambda>u. au_id u = sc_target c \<and> au_status u = ''pending_approval'') (\<lambda>u. u\<lparr>au_status := ''active''\<rparr>)
               (app_users d)
        else app_users d)"
proof -
  have f: "filter (\<lambda>m. mb_organization_id m \<noteq> oid)
      (update_where (\<lambda>m. mb_app_user_id m = t \<and> mb_organization_id m = oid)
        (\<lambda>m. m\<lparr>mb_status := st, mb_pre_deactivation_status := None\<rparr>) ms) =
      filter (\<lambda>m. mb_organization_id m \<noteq> oid) ms" for t st ms
    by (rule filter_update_where_other) simp
  show "auth_users (write_status c d) = auth_users d"
    "filter (\<lambda>m. mb_organization_id m \<noteq> oid) (app_organization_memberships (write_status c d)) =
       filter (\<lambda>m. mb_organization_id m \<noteq> oid) (app_organization_memberships d)"
    "app_users (write_status c d) =
       (if sc_newStatus c = ''active''
        then update_where (\<lambda>u. au_id u = sc_target c \<and> au_status u = ''pending_approval'') (\<lambda>u. u\<lparr>au_status := ''active''\<rparr>)
               (app_users d)
        else app_users d)"
    using assms f by (simp_all add: write_status_def account_wide_def scopeOrganizationId_def
        set_membership_status_def lift_pending_account_def)
qed

text \<open>
  C21: an administrator confined to one organization, acting on an account that also belongs to
  another, changes none of its memberships elsewhere, neither its ban nor its sessions nor its
  credentials, and of the account itself at most a pending status into an active one, by an
  approval or a reactivation.
\<close>

theorem shared_account_confined:
  assumes "ba_scope actor = OneOrg oid" "userHasMembershipOutsideOrg (ad_db s) (tg_appUserId target) oid"
    and "executeBulkUserAction f s now action target actor options = (s', out)"
  shows "ad_credentials s' = ad_credentials s \<and> auth_users (ad_db s') = auth_users (ad_db s) \<and>
    filter (\<lambda>m. mb_organization_id m \<noteq> oid) (app_organization_memberships (ad_db s')) =
      filter (\<lambda>m. mb_organization_id m \<noteq> oid) (app_organization_memberships (ad_db s)) \<and>
    (app_users (ad_db s') = app_users (ad_db s) \<or>
     action \<in> {Approve, Reactivate} \<and>
     app_users (ad_db s') = update_where (\<lambda>u. au_id u = tg_appUserId target \<and> au_status u = ''pending_approval'')
       (\<lambda>u. u\<lparr>au_status := ''active''\<rparr>) (app_users (ad_db s)))"
proof -
  let ?c = "\<lambda>x y z. \<lparr>sc_actor = ba_betterAuthUserId actor, sc_scope = ba_scope actor, sc_target = tg_appUserId target,
      sc_newStatus = x, sc_newMembershipStatus = y, sc_eventType = z, sc_reason = op_reason options,
      sc_claim = None\<rparr> :: status_change"
  have r: "requiresSuperadminForSharedTarget (ad_db s) (ba_scope actor) (tg_appUserId target)"
    using assms(1,2) by (simp add: requiresSuperadminForSharedTarget_def)
  have "ad_credentials s' = ad_credentials s \<and>
      (ad_db s' = ad_db s \<or>
       (\<exists>x y z. STATUS_ACTION_MAP action = Some (x, y, z) \<and> ad_db s' = write_status (?c x y z) (ad_db s)))"
    using assms(3) refuse_shared [OF r] shared_status_change [of "?c x y z" oid s f now for x y z] assms(1,2)
    by (auto simp: executeBulkUserAction_def performBan_def performUnban_def performSoftDelete_def performRestore_def
        performStatusAction_def split: bulk_user_action.splits if_splits option.splits prod.splits)
  with shared_write [of "?c x y z" oid "ad_db s" for x y z] assms(1,2) show ?thesis
    by (cases action) auto
qed

lemma shared_account_confined_witness:
  "let r = executeBulkUserAction no_faults sample_admin_store 100 Block sample_target sample_org_admin sample_options
   in snd r = ActionOk \<and>
      ad_credentials (fst r) = ad_credentials sample_admin_store \<and> auth_users (ad_db (fst r)) = auth_users sample_db \<and>
      filter (\<lambda>m. mb_organization_id m \<noteq> ''A'') (app_organization_memberships (ad_db (fst r))) =
        filter (\<lambda>m. mb_organization_id m \<noteq> ''A'') (app_organization_memberships sample_db)"
proof -
  let ?r = "executeBulkUserAction no_faults sample_admin_store 100 Block sample_target sample_org_admin sample_options"
  have 1: "ba_scope sample_org_admin = OneOrg ''A''" by code_simp
  have 2: "userHasMembershipOutsideOrg (ad_db sample_admin_store) (tg_appUserId sample_target) ''A''" by code_simp
  have 3: "?r = (fst ?r, snd ?r)" by simp
  have 4: "snd ?r = ActionOk" by code_simp
  from 4 shared_account_confined [OF 1 2 3] show ?thesis
    unfolding Let_def by (simp add: sample_admin_store_def)
qed

subsection \<open>A refused action\<close>

lemma find_update_key:
  "(\<And>r. k (f r) = k r) \<Longrightarrow> List.find (\<lambda>r. k r = v) (update_where P f t) =
     map_option (\<lambda>r. if P r then f r else r) (List.find (\<lambda>r. k r = v) t)"
  by (induction t) (auto simp: update_where_def)

lemma undo_exact:
  assumes "auth_user_by_id s u = Some before" and s1: "ad_db s1 = ad_db (set_ban s u True why x)"
    and "\<not> fa_unban f" and u: "u = tg_betterAuthUserId target"
  shows "ad_db (undo_ban f s1 now target actor ev (banInForce before now)) =
    ad_db (case banInForce before now of None \<Rightarrow> set_ban s u False None None
           | Some b \<Rightarrow> set_ban s u True (bs_reason b) (bs_expiresAt b))"
proof -
  have mem: "auth_user_by_id s1 u \<noteq> None"
    unfolding auth_user_None s1 set_ban_keys using auth_user_None [of s u] assms(1) by simp
  have live: "isBanActive \<lparr>usr_banned = Some True, usr_banExpires = (case bs_expiresAt b of None \<Rightarrow> NoDate | Some e \<Rightarrow> DateMs e)\<rparr> now"
    if "banInForce before now = Some b" for b
    using that by (auto simp: banInForce_def bannable_of_def isBanActive_def split: if_splits option.splits)
  show ?thesis
    using mem live assms(3) set_ban_twice [OF s1]
    by (auto simp: undo_ban_def restoreBetterAuthBan_def unbanBetterAuthUser_def u split: option.splits)
qed

text \<open>Two states of Better Auth's table that no ban check from a time on can tell apart.\<close>

definition same_bans :: "millis \<Rightarrow> db \<Rightarrow> db \<Rightarrow> bool" where
  "same_bans now d d' \<longleftrightarrow>
     (\<forall>now' uid. now \<le> now' \<longrightarrow> isBetterAuthUserBanned d' now' uid = isBetterAuthUserBanned d now' uid)"

lemma same_bans_refl [simp, intro]: "same_bans now d d"
  by (simp add: same_bans_def)

definition ban_holds :: "bool option \<Rightarrow> millis option \<Rightarrow> millis \<Rightarrow> bool" where
  "ban_holds banned expires now \<longleftrightarrow> banned = Some True \<and> (case expires of None \<Rightarrow> True | Some e \<Rightarrow> now < e)"

lemma isBanActive_row [simp]:
  "isBanActive (bannable_of b) now = ban_holds (bu_banned b) (bu_ban_expires b) now"
  by (auto simp: isBanActive_def bannable_of_def ban_holds_def split: option.splits)

lemma banned_set_ban:
  "isBetterAuthUserBanned (ad_db (set_ban s u banned r e)) now uid =
     (if uid = u then auth_user_by_id s u \<noteq> None \<and> ban_holds (Some banned) e now
      else isBetterAuthUserBanned (ad_db s) now uid)"
proof (cases "List.find (\<lambda>b. bu_id b = uid) (auth_users (ad_db s))")
  case None
  then show ?thesis
    by (auto simp: isBetterAuthUserBanned_def set_ban_def find_update_key auth_user_by_id_def)
next
  case (Some b)
  with find_Some_iff_set [OF Some] show ?thesis
    by (auto simp: isBetterAuthUserBanned_def set_ban_def find_update_key auth_user_by_id_def)
qed

lemma undone_ban_unnoticed:
  assumes b: "auth_user_by_id s u = Some before"
  shows "same_bans now (ad_db s)
    (ad_db (case banInForce before now of None \<Rightarrow> set_ban s u False None None
            | Some b \<Rightarrow> set_ban s u True (bs_reason b) (bs_expiresAt b)))"
proof -
  have "isBetterAuthUserBanned (ad_db s) now' u = ban_holds (bu_banned before) (bu_ban_expires before) now'" for now'
    using b by (simp add: isBetterAuthUserBanned_def auth_user_by_id_def)
  then show ?thesis using b
    by (auto simp: same_bans_def banned_set_ban banInForce_def ban_holds_def split: option.splits if_splits)
qed

text \<open>Everything the account holds, as a later request reads it; sessions are not kept through a ban.\<close>

definition holdings_kept :: "millis \<Rightarrow> admin_store \<Rightarrow> admin_store \<Rightarrow> bool" where
  "holdings_kept now s s' \<longleftrightarrow>
     app_users (ad_db s') = app_users (ad_db s) \<and>
     app_organization_memberships (ad_db s') = app_organization_memberships (ad_db s) \<and>
     app_api_keys (ad_credentials s') = app_api_keys (ad_credentials s) \<and>
     app_oauth_clients (ad_credentials s') = app_oauth_clients (ad_credentials s) \<and>
     same_bans now (ad_db s) (ad_db s')"

lemma holdings_kept_refl [simp, intro]: "holdings_kept now s s"
  by (simp add: holdings_kept_def)

lemma holdings_kept_log [simp]:
  "holdings_kept now s (log_action actor target now' ev out why s') = holdings_kept now s s'"
  "holdings_kept now s (audit_admin s' now' ev out act target oid why prior) = holdings_kept now s s'"
  by (simp_all add: holdings_kept_def)

lemma set_ban_tables [simp]:
  "app_users (ad_db (set_ban s u b r e)) = app_users (ad_db s)"
  "app_organization_memberships (ad_db (set_ban s u b r e)) = app_organization_memberships (ad_db s)"
  "ad_credentials (set_ban s u b r e) = ad_credentials s"
  by (simp_all add: set_ban_def)

lemma undo_credentials: "ad_credentials (undo_ban f s now target actor ev prior) = ad_credentials s"
  by (auto simp: undo_ban_def restoreBetterAuthBan_def unbanBetterAuthUser_def split: option.splits)

lemma ban_call_credentials:
  "banBetterAuthUser bad NoSessionFault s now u reason e actor = (s', r) \<Longrightarrow>
     app_api_keys (ad_credentials s') = app_api_keys (ad_credentials s) \<and>
     app_oauth_clients (ad_credentials s') = app_oauth_clients (ad_credentials s)"
  by (auto simp: banBetterAuthUser_def Let_def revokeSessionsImpersonatedBy_def deleteUserSessions_def
      split: option.splits if_splits)

lemma undone_keeps:
  assumes b: "banBetterAuthUser bad NoSessionFault s now u reason e actor' = (s1, Some prior)"
    and "\<not> fa_unban f" and u: "u = tg_betterAuthUserId target"
    and "ad_db s2 = ad_db (undo_ban f s1 now target actor ev prior)" "ad_credentials s2 = ad_credentials s1"
  shows "holdings_kept now s s2"
proof -
  from ban_call [OF b] obtain before why x where w: "auth_user_by_id s u = Some before"
    "prior = banInForce before now" "ad_db s1 = ad_db (set_ban s u True why x)" by blast
  have d: "ad_db s2 = ad_db (case banInForce before now of None \<Rightarrow> set_ban s u False None None
      | Some b \<Rightarrow> set_ban s u True (bs_reason b) (bs_expiresAt b))"
    unfolding assms(4) w(2) by (rule undo_exact [OF w(1,3) assms(2) u])
  from undone_ban_unnoticed [OF w(1), of now] ban_call_credentials [OF b] assms(5) show ?thesis
    unfolding holdings_kept_def d by (simp split: option.splits)
qed

lemma refuse_keeps: "refuseSharedAccountGlobal s now target actor = Some (s', out) \<Longrightarrow> holdings_kept now s s'"
  by (auto simp: refuseSharedAccountGlobal_def split: if_splits)

lemma performBan_refused:
  assumes "performBan f s now target actor options = (s', ActionError e)" "calm f"
  shows "holdings_kept now s s'"
proof -
  obtain s1 r where b: "banBetterAuthUser (fa_ban f) (fa_sessions f) s now (tg_betterAuthUserId target)
      (the (op_reason options)) (op_expiresInSeconds options) (ba_betterAuthUserId actor) = (s1, r)" by fastforce
  from assms(2) have f: "fa_sessions f = NoSessionFault" "\<not> fa_unban f" by (simp_all add: calm_def)
  show ?thesis
  proof (cases r)
    case None
    with ban_call [OF b [unfolded f]] b assms(1) show ?thesis
      by (auto simp: performBan_def dest: refuse_keeps split: option.splits if_splits)
  next
    case (Some prior)
    obtain s2 out where g: "guardAppliedBan f s1 now target actor prior = (s2, out)" by fastforce
    then have "ad_credentials s2 = ad_credentials s1"
      by (auto simp: guardAppliedBan_def Let_def undo_credentials split: if_splits)
    with guard_outcome [OF g] undone_keeps [OF b [unfolded f Some] f(2) refl] 
    have "out \<noteq> ActionOk \<Longrightarrow> holdings_kept now s s2" by blast
    with b g Some assms(1) show ?thesis
      by (auto simp: performBan_def dest: refuse_keeps split: option.splits if_splits action_outcome.splits)
  qed
qed

lemma performSoftDelete_refused:
  assumes "performSoftDelete f s now target actor options = (s', ActionError e)" "calm f"
    and "e \<noteq> ''credential_revocation_failed''"
  shows "holdings_kept now s s'"
proof -
  obtain s1 r where b: "banBetterAuthUser (fa_ban f) (fa_sessions f) s now (tg_betterAuthUserId target)
      (case op_reason options of Some r \<Rightarrow> r | None \<Rightarrow> ''deleted'') None (ba_betterAuthUserId actor) = (s1, r)" by fastforce
  from assms(2) have f: "fa_sessions f = NoSessionFault" "\<not> fa_unban f" by (simp_all add: calm_def)
  show ?thesis
  proof (cases r)
    case None
    with ban_call [OF b [unfolded f]] b assms(1) show ?thesis
      by (auto simp: performSoftDelete_def banForSoftDelete_def Let_def dest: refuse_keeps split: option.splits)
  next
    case (Some prior)
    have "holdings_kept now s (undo_ban f s1 now target actor ev prior)" for ev
      by (rule undone_keeps [OF b [unfolded f Some] f(2) refl refl]) (rule undo_credentials)
    with b Some assms(1,3) show ?thesis
      by (auto simp: performSoftDelete_def banForSoftDelete_def Let_def dest: refuse_keeps
          split: option.splits prod.splits if_splits)
  qed
qed

lemma status_change_refused:
  assumes "performAdminStatusChange f s now c = (s', ActionError e)" "fa_sessions f = NoSessionFault"
  shows "holdings_kept now s s'"
  using assms by (auto simp: performAdminStatusChange_def Let_def split: option.splits if_splits)

text \<open>
  C22: an action that is refused, or that fails where the code undoes it, leaves every account,
  membership and machine credential as it was and every later ban check with the same answer,
  as long as Better Auth carries through the writes it has begun. The one failure left out
  reports a deletion that did commit.
\<close>

theorem refused_action_undone:
  assumes "executeBulkUserAction f s now action target actor options = (s', ActionError e)" "calm f"
    and "e \<noteq> ''credential_revocation_failed''"
  shows "app_users (ad_db s') = app_users (ad_db s) \<and>
     app_organization_memberships (ad_db s') = app_organization_memberships (ad_db s) \<and>
     app_api_keys (ad_credentials s') = app_api_keys (ad_credentials s) \<and>
     app_oauth_clients (ad_credentials s') = app_oauth_clients (ad_credentials s) \<and>
     (\<forall>now' uid. now \<le> now' \<longrightarrow> isBetterAuthUserBanned (ad_db s') now' uid = isBetterAuthUserBanned (ad_db s) now' uid)"
proof -
  have "performUnban f s now target actor = (s', ActionError e) \<Longrightarrow> holdings_kept now s s'"
    by (auto simp: performUnban_def dest: refuse_keeps split: option.splits)
  moreover have "performRestore f s now target actor = (s', ActionError e) \<Longrightarrow> holdings_kept now s s'"
    by (auto simp: performRestore_def dest: refuse_keeps split: option.splits if_splits prod.splits)
  moreover have "performStatusAction f s now action target actor options = (s', ActionError e) \<Longrightarrow> holdings_kept now s s'"
    using assms(2) by (auto simp: performStatusAction_def calm_def dest: status_change_refused
        split: option.splits prod.splits)
  ultimately have "holdings_kept now s s'"
    using assms(1) performBan_refused [OF _ assms(2)] performSoftDelete_refused [OF _ assms(2,3)]
    by (auto simp: executeBulkUserAction_def split: bulk_user_action.splits if_splits)
  then show ?thesis unfolding holdings_kept_def same_bans_def .
qed

lemma refused_action_undone_witness:
  "let r = executeBulkUserAction no_faults sample_admin_store 100 SoftDelete (target_of (app_users sample_db ! 2))
        (sample_superadmin\<lparr>ba_betterAuthUserId := ''b9''\<rparr>) sample_options
   in snd r = ActionError LAST_SUPERADMIN_ERROR \<and>
      app_users (ad_db (fst r)) = app_users sample_db \<and>
      (\<forall>uid. isBetterAuthUserBanned (ad_db (fst r)) 100 uid = isBetterAuthUserBanned sample_db 100 uid)"
proof -
  let ?r = "executeBulkUserAction no_faults sample_admin_store 100 SoftDelete (target_of (app_users sample_db ! 2))
        (sample_superadmin\<lparr>ba_betterAuthUserId := ''b9''\<rparr>) sample_options"
  have 1: "snd ?r = ActionError LAST_SUPERADMIN_ERROR" by code_simp
  then have 2: "?r = (fst ?r, ActionError LAST_SUPERADMIN_ERROR)" by (metis prod.collapse)
  have 3: "calm no_faults" by code_simp
  have 4: "LAST_SUPERADMIN_ERROR \<noteq> ''credential_revocation_failed''" by code_simp
  from 1 refused_action_undone [OF 2 3 4] show ?thesis
    unfolding Let_def by (simp add: sample_admin_store_def)
qed

subsection \<open>Soft-delete and restore\<close>

lemma ban_call_audit:
  "banBetterAuthUser bad NoSessionFault s now u reason e actor = (s', r) \<Longrightarrow> ad_audit s' = ad_audit s"
  by (auto simp: banBetterAuthUser_def Let_def revokeSessionsImpersonatedBy_def deleteUserSessions_def set_ban_def
      split: option.splits if_splits)

lemma latest_row:
  assumes "\<forall>r \<in> set rs. aa_created_at r \<le> aa_created_at x"
  shows "first_by (\<lambda>r. - aa_created_at r) (x # rs) = Some x"
proof (cases "first_by (\<lambda>r. - aa_created_at r) rs")
  case (Some y)
  with assms first_by_Some_in [OF Some] show ?thesis by auto
qed simp

text \<open>What a completed soft-delete leaves, when the account was not deleted already.\<close>

lemma soft_delete_done:
  assumes "performSoftDelete f s now target actor options = (s1, ActionOk)" "calm f"
    and "tg_status target \<noteq> ''deactivated''" and clock: "\<forall>r \<in> set (ad_audit s). aa_created_at r \<le> now"
  shows "\<exists>before why x by' reason. auth_user_by_id s (tg_betterAuthUserId target) = Some before \<and>
    ad_db s1 = block_memberships (tg_appUserId target) (deactivate_account (tg_appUserId target) now by' reason
      (ad_db (set_ban s (tg_betterAuthUserId target) True why x))) \<and>
    recordedPriorBan s1 (tg_appUserId target) = banInForce before now"
proof -
  obtain sb r where b: "banBetterAuthUser (fa_ban f) (fa_sessions f) s now (tg_betterAuthUserId target)
      (case op_reason options of Some r \<Rightarrow> r | None \<Rightarrow> ''deleted'') None (ba_betterAuthUserId actor) = (sb, r)" by fastforce
  from assms(2) have f: "fa_sessions f = NoSessionFault" by (simp add: calm_def)
  define d2 where "d2 = with_db (block_memberships (tg_appUserId target) \<circ>
      deactivate_account (tg_appUserId target) now
        (humanActorId (ba_betterAuthUserId actor) (ba_impersonatorId actor)) (op_reason options)) sb"
  from assms(1,3) b obtain prior where p: "r = Some prior"
    and fin: "finishSoftDelete f d2 now target prior actor (op_reason options) = (s1, True)"
    by (auto simp: performSoftDelete_def banForSoftDelete_def Let_def carriedPriorBan_def mustUseRestore_def d2_def
        refuseSharedAccountGlobal_def split: option.splits prod.splits if_splits)
  from ban_call [OF b [unfolded f]] p obtain before why x where w:
    "auth_user_by_id s (tg_betterAuthUserId target) = Some before" "prior = banInForce before now"
    "ad_db sb = ad_db (set_ban s (tg_betterAuthUserId target) True why x)" by blast
  have a: "ad_audit d2 = ad_audit s" using ban_call_audit [OF b [unfolded f]] by (simp add: d2_def with_db_def)
  from fin have au: "\<exists>row. ad_audit s1 = ad_audit s @ [row] \<and> aa_priorBan row = prior \<and> aa_created_at row = now \<and>
      aa_appUserId row = Some (tg_appUserId target) \<and> aa_eventType row = SOFT_DELETED_EVENT \<and> aa_outcome row = ''success''"
    by (auto simp: finishSoftDelete_def Let_def audit_admin_def a split: prod.splits if_splits)
  then obtain row where row: "ad_audit s1 = ad_audit s @ [row]" "aa_priorBan row = prior" "aa_created_at row = now"
    "aa_appUserId row = Some (tg_appUserId target)" "aa_eventType row = SOFT_DELETED_EVENT" "aa_outcome row = ''success''"
    by blast
  have "recordedPriorBan s1 (tg_appUserId target) = prior"
    using latest_row [of "rev (filter (\<lambda>r. aa_appUserId r = Some (tg_appUserId target) \<and>
        aa_eventType r = SOFT_DELETED_EVENT \<and> aa_outcome r = ''success'') (ad_audit s))" row] clock row
    by (simp add: recordedPriorBan_def del: first_by.simps)
  moreover have "ad_db s1 = ad_db d2" by (rule finish_ad_db [OF fin])
  ultimately show ?thesis using w by (auto simp: d2_def)
qed

lemma restore_done:
  assumes "performRestore f s now target actor = (s', ActionOk)"
  shows "\<exists>s0 banned. restoreBetterAuthBan (fa_unban f) s now (tg_betterAuthUserId target)
      (recordedPriorBan s (tg_appUserId target)) = Some (s0, banned) \<and>
    ad_db s' = restoreSnapshottedMemberships (tg_appUserId target) (reopen_account (tg_appUserId target) (ad_db s0))"
  using assms
  by (auto simp: performRestore_def refuseSharedAccountGlobal_def split: option.splits if_splits prod.splits)

text \<open>The ban put back is the recorded one while it still holds, and none afterwards.\<close>

lemma ban_put_back:
  assumes r: "restoreBetterAuthBan fails s now u prior = Some (s', banned)"
  obtains "\<nexists>k. prior = Some k \<and> ban_holds (Some True) (bs_expiresAt k) now" "s' = set_ban s u False None None"
  | k where "prior = Some k" "ban_holds (Some True) (bs_expiresAt k) now"
      "s' = set_ban s u True (bs_reason k) (bs_expiresAt k)"
proof -
  have live: "isBanActive \<lparr>usr_banned = Some True, usr_banExpires = (case e of None \<Rightarrow> NoDate | Some e \<Rightarrow> DateMs e)\<rparr> now
      = ban_holds (Some True) e now" for e
    by (auto simp: isBanActive_def ban_holds_def split: option.splits)
  show ?thesis
  proof (cases prior)
    case None
    with r that(1) show ?thesis by (auto simp: restoreBetterAuthBan_def unbanBetterAuthUser_def split: if_splits)
  next
    case (Some k)
    with r that show ?thesis
      by (cases "ban_holds (Some True) (bs_expiresAt k) now")
        (auto simp: restoreBetterAuthBan_def unbanBetterAuthUser_def live split: if_splits)
  qed
qed

text \<open>A membership after a soft-delete and a restore: an active one waits for its organization.\<close>

definition handed_back :: "membership_row \<Rightarrow> membership_row" where
  "handed_back m =
     (if mb_status m = ''blocked'' then m
      else m\<lparr>mb_status := (if mb_status m = ''active'' then ''pending_approval'' else mb_status m),
             mb_pre_deactivation_status :=
               (if mb_status m \<in> {''active'', ''pending_approval''} then Some (mb_status m) else None)\<rparr>)"

lemma restored_memberships:
  assumes "\<forall>m \<in> set (app_organization_memberships d).
      mb_app_user_id m = t \<and> mb_status m = ''blocked'' \<longrightarrow> mb_pre_deactivation_status m = None"
  shows "app_organization_memberships (restoreSnapshottedMemberships t (block_memberships t d)) =
    map (\<lambda>m. if mb_app_user_id m = t then handed_back m else m) (app_organization_memberships d)"
proof -
  have "(if mb_app_user_id (if mb_app_user_id m = t \<and> mb_status m \<noteq> ''blocked''
            then m\<lparr>mb_pre_deactivation_status := Some (mb_status m), mb_status := ''blocked''\<rparr> else m) = t \<and>
          mb_pre_deactivation_status (if mb_app_user_id m = t \<and> mb_status m \<noteq> ''blocked''
            then m\<lparr>mb_pre_deactivation_status := Some (mb_status m), mb_status := ''blocked''\<rparr> else m) \<noteq> None
        then restore_snapshot (if mb_app_user_id m = t \<and> mb_status m \<noteq> ''blocked''
            then m\<lparr>mb_pre_deactivation_status := Some (mb_status m), mb_status := ''blocked''\<rparr> else m)
        else (if mb_app_user_id m = t \<and> mb_status m \<noteq> ''blocked''
            then m\<lparr>mb_pre_deactivation_status := Some (mb_status m), mb_status := ''blocked''\<rparr> else m)) =
      (if mb_app_user_id m = t then handed_back m else m)"
    if "m \<in> set (app_organization_memberships d)" for m
    using that assms by (cases m) (auto simp: restore_snapshot_def handed_back_def)
  then show ?thesis
    by (simp add: restoreSnapshottedMemberships_def block_memberships_def update_where_def comp_def)
qed

text \<open>
  C23: restoring a soft-deleted account leaves it pending approval, with each membership as it
  was except that an active one waits for its organization again, and with the ban it had before
  the deletion, if that has not run out; every other account's ban stands.
\<close>

theorem restore_reverses_soft_delete:
  assumes "accounts_wf (ad_db s)" "u \<in> set (app_users (ad_db s))" "au_status u \<noteq> ''deactivated''"
    and clean: "\<forall>m \<in> set (app_organization_memberships (ad_db s)).
      mb_app_user_id m = au_id u \<and> mb_status m = ''blocked'' \<longrightarrow> mb_pre_deactivation_status m = None"
    and clock: "\<forall>r \<in> set (ad_audit s). aa_created_at r \<le> now" "now \<le> now'"
    and del: "performSoftDelete f s now (target_of u) actor options = (s1, ActionOk)" "calm f"
    and res: "performRestore f' s1 now' ((target_of u)\<lparr>tg_status := ''deactivated''\<rparr>) actor' = (s2, ActionOk)"
  shows "app_organization_memberships (ad_db s2) =
      map (\<lambda>m. if mb_app_user_id m = au_id u then handed_back m else m) (app_organization_memberships (ad_db s)) \<and>
    (\<forall>v \<in> set (app_users (ad_db s2)). au_id v = au_id u \<longrightarrow> au_status v = ''pending_approval'') \<and>
    (\<forall>now'' uid. now' \<le> now'' \<longrightarrow> isBetterAuthUserBanned (ad_db s2) now'' uid = isBetterAuthUserBanned (ad_db s) now'' uid)"
proof -
  let ?t = "au_id u" and ?u = "au_better_auth_user_id u"
  have "tg_status (target_of u) \<noteq> ''deactivated''" using assms(3) by (simp add: target_of_def)
  from soft_delete_done [OF del this clock(1)] obtain before why x by' reason where
    b: "auth_user_by_id s ?u = Some before" and d1: "ad_db s1 = block_memberships ?t
      (deactivate_account ?t now by' reason (ad_db (set_ban s ?u True why x)))"
    and prior: "recordedPriorBan s1 ?t = banInForce before now" by (auto simp: target_of_def)
  from restore_done [OF res] obtain s0 banned where
    r: "restoreBetterAuthBan (fa_unban f') s1 now' ?u (banInForce before now) = Some (s0, banned)"
    and d2: "ad_db s2 = restoreSnapshottedMemberships ?t (reopen_account ?t (ad_db s0))"
    by (auto simp: target_of_def prior)
  have s0: "app_organization_memberships (ad_db s0) = app_organization_memberships (ad_db s1)"
    by (rule ban_put_back [OF r]) simp_all
  have "app_organization_memberships (ad_db s2) =
      app_organization_memberships (restoreSnapshottedMemberships ?t (block_memberships ?t (ad_db s)))"
    by (simp add: d2 restoreSnapshottedMemberships_def reopen_account_def s0)
      (simp add: d1 block_memberships_def deactivate_account_def)
  with restored_memberships [OF clean] have m: "app_organization_memberships (ad_db s2) =
      map (\<lambda>m. if mb_app_user_id m = ?t then handed_back m else m) (app_organization_memberships (ad_db s))" by simp
  have p: "\<forall>v \<in> set (app_users (ad_db s2)). au_id v = ?t \<longrightarrow> au_status v = ''pending_approval''"
    by (auto simp: d2 restoreSnapshottedMemberships_def reopen_account_def update_where_def)
  have au: "auth_users (ad_db s1) = auth_users (ad_db (set_ban s ?u True why x))"
    by (simp add: d1 block_memberships_def deactivate_account_def)
  have here: "auth_user_by_id s1 ?u \<noteq> None"
    unfolding auth_user_None au set_ban_keys using auth_user_None [of s ?u] b by simp
  have earlier: "isBetterAuthUserBanned (ad_db s) n ?u = ban_holds (bu_banned before) (bu_ban_expires before) n" for n
    using b by (simp add: isBetterAuthUserBanned_def auth_user_by_id_def)
  have later: "isBetterAuthUserBanned (ad_db s2) n uid = isBetterAuthUserBanned (ad_db s0) n uid"
    "isBetterAuthUserBanned (ad_db s1) n uid = isBetterAuthUserBanned (ad_db (set_ban s ?u True why x)) n uid" for n uid
    by (simp_all add: d2 isBetterAuthUserBanned_def restoreSnapshottedMemberships_def reopen_account_def au)
  have "isBetterAuthUserBanned (ad_db s2) n uid = isBetterAuthUserBanned (ad_db s) n uid" if n: "now' \<le> n" for n uid
  proof (cases "uid = ?u")
    case False
    have "isBetterAuthUserBanned (ad_db s0) n uid = isBetterAuthUserBanned (ad_db s1) n uid"
      by (rule ban_put_back [OF r]) (simp_all add: banned_set_ban False)
    then show ?thesis by (simp add: later banned_set_ban False)
  next
    case True
    have "isBetterAuthUserBanned (ad_db s0) n ?u = ban_holds (bu_banned before) (bu_ban_expires before) n"
      by (rule ban_put_back [OF r])
        (use here n clock(2) in \<open>auto simp: banned_set_ban banInForce_def ban_holds_def split: if_splits option.splits\<close>)
    then show ?thesis by (simp add: later earlier True)
  qed
  with m p show ?thesis by blast
qed

lemma restore_reverses_soft_delete_witness:
  "let u = app_users sample_db ! 0;
       s1 = fst (performSoftDelete no_faults sample_admin_store 100 (target_of u) sample_superadmin sample_options);
       s2 = fst (performRestore no_faults s1 200 ((target_of u)\<lparr>tg_status := ''deactivated''\<rparr>) sample_superadmin)
   in app_organization_memberships (ad_db s2) =
        map (\<lambda>m. if mb_app_user_id m = ''u1'' then handed_back m else m) (app_organization_memberships sample_db) \<and>
      (\<forall>uid. isBetterAuthUserBanned (ad_db s2) 200 uid = isBetterAuthUserBanned sample_db 200 uid)"
proof -
  let ?u = "app_users sample_db ! 0"
  let ?r1 = "performSoftDelete no_faults sample_admin_store 100 (target_of ?u) sample_superadmin sample_options"
  let ?r2 = "performRestore no_faults (fst ?r1) 200 ((target_of ?u)\<lparr>tg_status := ''deactivated''\<rparr>) sample_superadmin"
  have "snd ?r1 = ActionOk" "snd ?r2 = ActionOk" by code_simp+
  then have 1: "?r1 = (fst ?r1, ActionOk)" "?r2 = (fst ?r2, ActionOk)" by (metis prod.collapse)+
  have 2: "accounts_wf (ad_db sample_admin_store)" by code_simp
  have 3: "?u \<in> set (app_users (ad_db sample_admin_store))" unfolding sample_admin_store_def
    by simp (rule nth_mem, code_simp)
  have 4: "au_status ?u \<noteq> ''deactivated''" "calm no_faults" "au_id ?u = ''u1''" by code_simp+
  have 5: "\<forall>m \<in> set (app_organization_memberships (ad_db sample_admin_store)).
      mb_app_user_id m = au_id ?u \<and> mb_status m = ''blocked'' \<longrightarrow> mb_pre_deactivation_status m = None" by code_simp
  have 6: "\<forall>r \<in> set (ad_audit sample_admin_store). aa_created_at r \<le> 100" by code_simp
  from restore_reverses_soft_delete [OF 2 3 4(1) 5 6 _ 1(1) 4(2) 1(2)] show ?thesis
    unfolding Let_def by (simp add: 4(3) sample_admin_store_def)
qed

subsection \<open>Interrupted bans\<close>

text \<open>
  The assumption \<open>calm\<close> is needed. When the deletion of sessions fails after the ban was written,
  the ban stays and no check follows it, so it can be the last superuser's; and a soft-delete
  interrupted there, then retried, records its own ban as the one to put back.
\<close>

definition interrupted :: faults where
  "interrupted = no_faults\<lparr>fa_sessions := BorrowedSessionsFail\<rparr>"

lemma interrupted_ban_unchecked:
  "let r = executeBulkUserAction interrupted sample_admin_store 100 Ban (target_of (app_users sample_db ! 2))
        (sample_superadmin\<lparr>ba_betterAuthUserId := ''b9''\<rparr>) sample_options
   in snd r = ActionError ''auth_ban_failed'' \<and> superuser_survives sample_db 100 \<and>
      \<not> superuser_survives (ad_db (fst r)) 100"
  by code_simp

lemma interrupted_delete_forgets_the_ban:
  "let u = app_users sample_db ! 0;
       s1 = fst (performSoftDelete interrupted sample_admin_store 100 (target_of u) sample_superadmin sample_options);
       r2 = performSoftDelete no_faults s1 110 (target_of u) sample_superadmin sample_options;
       r3 = performRestore no_faults (fst r2) 200 ((target_of u)\<lparr>tg_status := ''deactivated''\<rparr>) sample_superadmin
   in snd r2 = ActionOk \<and> snd r3 = ActionOk \<and>
      \<not> isBetterAuthUserBanned sample_db 200 ''b1'' \<and> isBetterAuthUserBanned (ad_db (fst r3)) 200 ''b1''"
  by code_simp

end
