(* ===== verification/Keyset.thy ===== *)
theory Keyset
  imports JsString
begin

text \<open>
  Keyset pagination (\<open>src/lib/admin/list-query.server.ts\<close>) and the CSV export that walks it
  (\<open>src/app/api/administrator/export/[resource]/route.ts\<close>). A row is its columns, a null column
  \<open>None\<close>. A cursor carries text: \<open>render\<close> is Postgres's rendering of a column value and \<open>cast\<close> its
  reading of a parameter as the column's type. A comparison with null is not true, which is all
  a \<open>where\<close> without negation needs of three-valued logic.
\<close>

type_synonym 'v sql_row = "string \<Rightarrow> 'v option"

datatype sort_direction = Asc | Desc

record sort_spec =
  ss_field :: string
  ss_direction :: sort_direction

record keyset_field =
  kf_field :: string
  kf_direction :: sort_direction
  kf_nullable :: bool

type_synonym keyset_cursor = "string \<Rightarrow> string option"

fun keyset_fields :: "string list \<Rightarrow> string list \<Rightarrow> sort_spec list \<Rightarrow> keyset_field list" where
  "keyset_fields nullableFields seen [] =
     (if ''id'' \<notin> set seen then [\<lparr>kf_field = ''id'', kf_direction = Asc, kf_nullable = False\<rparr>] else [])"
| "keyset_fields nullableFields seen (s # ss) =
     (if ss_field s \<in> set seen then keyset_fields nullableFields seen ss
      else \<lparr>kf_field = ss_field s, kf_direction = ss_direction s,
             kf_nullable = ss_field s \<in> set nullableFields\<rparr>
           # keyset_fields nullableFields (ss_field s # seen) ss)"

definition buildKeysetSort :: "sort_spec list \<Rightarrow> string list \<Rightarrow> keyset_field list" where
  "buildKeysetSort keys nullableFields = keyset_fields nullableFields [] keys"

text \<open>The added column of a selected row, and the cursor read back from it.\<close>

definition renderSeekColumns :: "('v \<Rightarrow> string) \<Rightarrow> keyset_field list \<Rightarrow> 'v sql_row \<Rightarrow> string option list" where
  "renderSeekColumns render keys row = map (\<lambda>f. map_option render (row (kf_field f))) keys"

definition keysetCursorFrom :: "string option list \<Rightarrow> keyset_field list \<Rightarrow> keyset_cursor option" where
  "keysetCursorFrom rendered keys =
     (if length rendered \<noteq> length keys then None
      else Some (\<lambda>x. Option.bind (map_of (rev (zip (map kf_field keys) rendered)) x) id))"

definition levelAfter :: "(string \<Rightarrow> 'v::linorder) \<Rightarrow> keyset_field \<Rightarrow> string option \<Rightarrow> 'v sql_row \<Rightarrow> bool" where
  "levelAfter cast f value row =
     (case value of
        None \<Rightarrow> False
      | Some t \<Rightarrow>
          (case row (kf_field f) of
             None \<Rightarrow> kf_nullable f
           | Some x \<Rightarrow> if kf_direction f = Asc then x > cast t else x < cast t))"

definition levelEqual :: "(string \<Rightarrow> 'v) \<Rightarrow> keyset_field \<Rightarrow> string option \<Rightarrow> 'v sql_row \<Rightarrow> bool" where
  "levelEqual cast f value row =
     (case value of None \<Rightarrow> row (kf_field f) = None | Some t \<Rightarrow> row (kf_field f) = Some (cast t))"

definition seekPredicate ::
    "(string \<Rightarrow> 'v::linorder) \<Rightarrow> keyset_field list \<Rightarrow> keyset_cursor \<Rightarrow> 'v sql_row \<Rightarrow> bool" where
  "seekPredicate cast keys cursor row =
     list_ex (\<lambda>p. list_all (\<lambda>e. levelEqual cast e (cursor (kf_field e)) row) (take p keys) \<and>
                  levelAfter cast (keys ! p) (cursor (kf_field (keys ! p))) row)
       [0..<length keys]"

text \<open>
  Postgres's order on one column: nulls last where the query says so and in an ascending order,
  first in a descending one.
\<close>

fun col_less :: "keyset_field \<Rightarrow> 'v::linorder option \<Rightarrow> 'v option \<Rightarrow> bool" where
  "col_less f None None = False"
| "col_less f (Some x) None = (kf_nullable f \<or> kf_direction f = Asc)"
| "col_less f None (Some y) = (\<not> kf_nullable f \<and> kf_direction f = Desc)"
| "col_less f (Some x) (Some y) = (if kf_direction f = Asc then x < y else y < x)"

fun row_less :: "keyset_field list \<Rightarrow> 'v::linorder sql_row \<Rightarrow> 'v sql_row \<Rightarrow> bool" where
  "row_less [] r s = False"
| "row_less (f # fs) r s =
     (col_less f (r (kf_field f)) (s (kf_field f)) \<or> r (kf_field f) = s (kf_field f) \<and> row_less fs r s)"

fun order_insert :: "('r \<Rightarrow> 'r \<Rightarrow> bool) \<Rightarrow> 'r \<Rightarrow> 'r list \<Rightarrow> 'r list" where
  "order_insert lt x [] = [x]"
| "order_insert lt x (y # ys) = (if lt y x then y # order_insert lt x ys else x # y # ys)"

definition order_rows :: "('r \<Rightarrow> 'r \<Rightarrow> bool) \<Rightarrow> 'r list \<Rightarrow> 'r list" where
  "order_rows lt rows = foldr (order_insert lt) rows []"

text \<open>One query: the rows past the cursor, in the order of the key, at most \<open>limit\<close> of them.\<close>

definition applyKeyset ::
    "('v::linorder \<Rightarrow> string) \<Rightarrow> (string \<Rightarrow> 'v) \<Rightarrow> 'v sql_row list \<Rightarrow> keyset_field list \<Rightarrow> keyset_cursor option \<Rightarrow>
     nat \<Rightarrow> ('v sql_row \<times> string option list) list" where
  "applyKeyset render cast rows keys cursor limit =
     map (\<lambda>r. (r, renderSeekColumns render keys r))
       (take limit (order_rows (row_less keys)
          (case cursor of None \<Rightarrow> rows | Some c \<Rightarrow> filter (seekPredicate cast keys c) rows)))"

definition pageCursor ::
    "('v sql_row \<times> string option list) list \<Rightarrow> keyset_field list \<Rightarrow> keyset_cursor option option" where
  "pageCursor rows keys =
     (if rows = [] then Some None else map_option Some (keysetCursorFrom (snd (last rows)) keys))"

text \<open>\<open>fetchPage\<close>; \<open>None\<close> is the exception of \<open>keysetCursorFrom\<close>.\<close>

definition fetchPage ::
    "('v::linorder \<Rightarrow> string) \<Rightarrow> (string \<Rightarrow> 'v) \<Rightarrow> 'v sql_row list \<Rightarrow> keyset_field list \<Rightarrow> nat \<Rightarrow> keyset_cursor option \<Rightarrow>
     ('v sql_row list \<times> keyset_cursor option) option" where
  "fetchPage render cast rows keys limit cursor =
     (let page = applyKeyset render cast rows keys cursor limit
      in map_option (\<lambda>c. (map fst page, c)) (pageCursor page keys))"

subsection \<open>The export loop\<close>

text \<open>
  \<open>stream_pages fetch maxRows pageSize emitted cursor\<close> is the loop from a cursor with \<open>emitted\<close> rows
  written: the rows it writes, whether it was cut at the cap, and whether a page failed.
\<close>

datatype stream_end = Exhausted | Truncated | Failed

function stream_pages ::
    "(nat \<Rightarrow> keyset_cursor option \<Rightarrow> ('r list \<times> keyset_cursor option) option) \<Rightarrow> nat \<Rightarrow> nat \<Rightarrow> nat \<Rightarrow>
     keyset_cursor option \<Rightarrow> 'r list \<times> stream_end" where
  "stream_pages fetch maxRows pageSize emitted cursor =
     (if cursor = None then ([], Exhausted)
      else if maxRows \<le> emitted then ([], Truncated)
      else
        (case fetch (min pageSize (maxRows - emitted)) cursor of
           None \<Rightarrow> ([], Failed)
         | Some (rows, cursor') \<Rightarrow>
             if rows = [] then ([], Exhausted)
             else if length rows < min pageSize (maxRows - emitted) then (rows, Exhausted)
             else (let (more, how) = stream_pages fetch maxRows pageSize (emitted + length rows) cursor'
                   in (rows @ more, how))))"
  by pat_completeness auto

termination
  by (relation "measure (\<lambda>(fetch, maxRows, pageSize, emitted, cursor). maxRows - emitted)")
    (auto simp: length_greater_0_conv [symmetric] simp del: length_greater_0_conv)

declare stream_pages.simps [simp del]

text \<open>The export: \<open>None\<close> is the preflight failure, before any row is written.\<close>

definition export_rows ::
    "(nat \<Rightarrow> keyset_cursor option \<Rightarrow> ('r list \<times> keyset_cursor option) option) \<Rightarrow> nat \<Rightarrow> nat \<Rightarrow>
     ('r list \<times> stream_end) option" where
  "export_rows fetch maxRows pageSize =
     (case fetch (min pageSize maxRows) None of
        None \<Rightarrow> None
      | Some (rows, cursor) \<Rightarrow>
          if length rows \<ge> min pageSize maxRows
          then (let (more, how) = stream_pages fetch maxRows pageSize (length rows) cursor in Some (rows @ more, how))
          else Some (rows, Exhausted))"

subsection \<open>The order of the key\<close>

lemma col_less_irrefl [simp]: "\<not> col_less f x x"
  by (cases x) auto

lemma col_less_trans: "col_less f x y \<Longrightarrow> col_less f y z \<Longrightarrow> col_less f x z"
  by (cases x; cases y; cases z) (auto split: if_splits)

lemma col_less_total: "x \<noteq> y \<Longrightarrow> col_less f x y \<or> col_less f y x"
  by (cases x; cases y; cases "kf_direction f") (auto simp: neq_iff)

lemma row_less_irrefl [simp]: "\<not> row_less fs r r"
  by (induction fs) auto

lemma row_less_trans: "row_less fs r s \<Longrightarrow> row_less fs s t \<Longrightarrow> row_less fs r t"
  by (induction fs) (auto dest: col_less_trans)

lemma row_less_asym: "row_less fs r s \<Longrightarrow> \<not> row_less fs s r"
  using row_less_trans row_less_irrefl by blast

lemma row_less_total: "f \<in> set fs \<Longrightarrow> r (kf_field f) \<noteq> s (kf_field f) \<Longrightarrow> row_less fs r s \<or> row_less fs s r"
  by (induction fs) (auto dest: col_less_total)

lemma keyset_fields_id: "''id'' \<in> set seen \<or> ''id'' \<in> kf_field ` set (keyset_fields nulls seen ss)"
  by (induction nulls seen ss rule: keyset_fields.induct) auto

lemma buildKeysetSort_id: "\<exists>f \<in> set (buildKeysetSort ss nulls). kf_field f = ''id''"
  using keyset_fields_id [of "[]" nulls ss] by (auto simp: buildKeysetSort_def)

lemma keyset_fields_distinct:
  "distinct (map kf_field (keyset_fields nulls seen ss)) \<and>
     set (map kf_field (keyset_fields nulls seen ss)) \<inter> set seen = {}"
  by (induction nulls seen ss rule: keyset_fields.induct) auto

lemma buildKeysetSort_distinct: "distinct (map kf_field (buildKeysetSort ss nulls))"
  using keyset_fields_distinct [of nulls "[]" ss] by (simp add: buildKeysetSort_def)

lemma keyset_fields_nullable:
  "f \<in> set (keyset_fields nulls seen ss) \<Longrightarrow> \<not> kf_nullable f \<Longrightarrow>
     kf_field f = ''id'' \<or> (\<exists>s \<in> set ss. ss_field s = kf_field f) \<and> kf_field f \<notin> set nulls"
  by (induction nulls seen ss rule: keyset_fields.induct) (auto split: if_splits)

subsection \<open>Ordering rows\<close>

lemma set_order_insert [simp]: "set (order_insert lt x ys) = insert x (set ys)"
  by (induction lt x ys rule: order_insert.induct) auto

lemma order_rows_simps [simp]:
  "order_rows lt [] = []" "order_rows lt (x # xs) = order_insert lt x (order_rows lt xs)"
  by (simp_all add: order_rows_def)

lemma set_order_rows [simp]: "set (order_rows lt rows) = set rows"
  by (induction rows) auto

lemma length_order_insert [simp]: "length (order_insert lt x ys) = Suc (length ys)"
  by (induction lt x ys rule: order_insert.induct) auto

lemma length_order_rows [simp]: "length (order_rows lt rows) = length rows"
  by (induction rows) auto

text \<open>On rows the order tells apart, the result is strictly ascending.\<close>

definition told_apart :: "('r \<Rightarrow> 'r \<Rightarrow> bool) \<Rightarrow> 'r list \<Rightarrow> bool" where
  "told_apart lt rows \<longleftrightarrow>
     (\<forall>r s t. lt r s \<longrightarrow> lt s t \<longrightarrow> lt r t) \<and> (\<forall>r. \<not> lt r r) \<and> distinct rows \<and>
     (\<forall>r \<in> set rows. \<forall>s \<in> set rows. r \<noteq> s \<longrightarrow> lt r s \<or> lt s r)"

lemma sorted_insert:
  assumes "sorted_wrt lt ys" and tr: "\<And>r s t. lt r s \<Longrightarrow> lt s t \<Longrightarrow> lt r t"
    and "\<And>y. y \<in> set ys \<Longrightarrow> lt x y \<or> lt y x"
  shows "sorted_wrt lt (order_insert lt x ys)"
  using assms(1,3)
proof (induction ys)
  case Nil
  then show ?case by simp
next
  case (Cons y ys)
  then show ?case by (auto intro: tr)
qed

lemma order_rows_sorted: "told_apart lt rows \<Longrightarrow> sorted_wrt lt (order_rows lt rows)"
proof (induction rows)
  case (Cons x xs)
  then have "told_apart lt xs" by (simp add: told_apart_def)
  with Cons show ?case
    by (simp, intro sorted_insert) (auto simp: told_apart_def)
qed simp

lemma insert_front: "\<forall>z \<in> set zs. \<not> lt z x \<Longrightarrow> order_insert lt x zs = x # zs"
  by (cases zs) auto

lemma filter_insert:
  assumes "sorted_wrt lt ys" and tr: "\<And>r s t. lt r s \<Longrightarrow> lt s t \<Longrightarrow> lt r t"
    and "\<And>y. y \<in> set ys \<Longrightarrow> lt x y \<or> lt y x" and irr: "\<And>r. \<not> lt r r"
  shows "filter P (order_insert lt x ys) = (if P x then order_insert lt x (filter P ys) else filter P ys)"
  using assms(1,3)
proof (induction ys)
  case Nil
  then show ?case by simp
next
  case (Cons y ys)
  show ?case
  proof (cases "lt y x")
    case True
    with Cons show ?thesis by auto
  next
    case False
    with Cons.prems(2) [of y] have xy: "lt x y" by simp
    have "order_insert lt x (filter P (y # ys)) = x # filter P (y # ys)"
    proof -
      have "\<not> lt z x" if "z \<in> set (y # ys)" for z
        using that Cons.prems(1) xy tr irr by (metis set_ConsD sorted_wrt.simps(2))
      then show ?thesis by (intro insert_front) auto
    qed
    with False show ?thesis by simp
  qed
qed

lemma filter_order_rows: "told_apart lt rows \<Longrightarrow> filter P (order_rows lt rows) = order_rows lt (filter P rows)"
proof (induction rows)
  case (Cons x xs)
  then have t: "told_apart lt xs" by (simp add: told_apart_def)
  have "filter P (order_insert lt x (order_rows lt xs)) =
      (if P x then order_insert lt x (filter P (order_rows lt xs)) else filter P (order_rows lt xs))"
    by (rule filter_insert) (use order_rows_sorted [OF t] Cons.prems in \<open>auto simp: told_apart_def\<close>)
  with Cons.IH [OF t] show ?case by simp
qed simp

lemma after_nth:
  assumes "sorted_wrt lt xs" "n < length xs" and "\<And>r s. lt r s \<Longrightarrow> \<not> lt s r"
  shows "filter (lt (xs ! n)) xs = drop (Suc n) xs"
proof -
  have "xs = take (Suc n) xs @ drop (Suc n) xs" by simp
  moreover have "filter (lt (xs ! n)) (take (Suc n) xs) = []"
  proof -
    have "\<not> lt (xs ! n) y" if "y \<in> set (take (Suc n) xs)" for y
    proof -
      from that obtain i where "i < Suc n" "i < length xs" "y = xs ! i" by (auto simp: in_set_conv_nth)
      with assms show ?thesis by (metis less_Suc_eq sorted_wrt_nth_less)
    qed
    then show ?thesis by (simp add: filter_empty_conv)
  qed
  moreover have "filter (lt (xs ! n)) (drop (Suc n) xs) = drop (Suc n) xs"
  proof -
    have "lt (xs ! n) y" if "y \<in> set (drop (Suc n) xs)" for y
    proof -
      from that obtain i where i: "i < length xs - Suc n" "y = xs ! (Suc n + i)" by (auto simp: in_set_conv_nth)
      then show ?thesis using sorted_wrt_nth_less [OF assms(1), of n "Suc n + i"] by simp
    qed
    then show ?thesis by (simp add: filter_id_conv)
  qed
  ultimately show ?thesis by (metis filter_append append_Nil)
qed

subsection \<open>The seek predicate is the order\<close>

text \<open>The columns that may not be null are not.\<close>

definition keyed :: "keyset_field list \<Rightarrow> 'v sql_row \<Rightarrow> bool" where
  "keyed keys r \<longleftrightarrow> (\<forall>f \<in> set keys. \<not> kf_nullable f \<longrightarrow> r (kf_field f) \<noteq> None)"

lemma level_after:
  "(\<And>v. cast (render v) = v) \<Longrightarrow> kf_nullable f \<or> c (kf_field f) \<noteq> None \<and> r (kf_field f) \<noteq> None \<Longrightarrow>
     levelAfter cast f (map_option render (c (kf_field f))) r = col_less f (c (kf_field f)) (r (kf_field f))"
  by (cases "c (kf_field f)"; cases "r (kf_field f)") (auto simp: levelAfter_def)

lemma level_equal:
  "(\<And>v. cast (render v) = v) \<Longrightarrow>
     levelEqual cast f (map_option render (c (kf_field f))) r = (c (kf_field f) = r (kf_field f))"
  by (auto simp: levelEqual_def split: option.splits)

lemma seek_Nil: "\<not> seekPredicate cast [] cursor r"
  by (simp add: seekPredicate_def)

lemma seek_Cons:
  "seekPredicate cast (f # fs) cursor r \<longleftrightarrow>
     levelAfter cast f (cursor (kf_field f)) r \<or>
     levelEqual cast f (cursor (kf_field f)) r \<and> seekPredicate cast fs cursor r"
proof -
  have ex: "seekPredicate cast ks cursor r \<longleftrightarrow>
      (\<exists>p<length ks. list_all (\<lambda>e. levelEqual cast e (cursor (kf_field e)) r) (take p ks) \<and>
         levelAfter cast (ks ! p) (cursor (kf_field (ks ! p))) r)" for ks
    by (auto simp: seekPredicate_def list_ex_iff)
  show ?thesis unfolding ex length_Cons Ex_less_Suc2 by auto
qed

lemma seek_is_row_less:
  assumes rc: "\<And>v. cast (render v) = v" and "keyed keys c" "keyed keys r"
    and cur: "\<And>f. f \<in> set keys \<Longrightarrow> cursor (kf_field f) = map_option render (c (kf_field f))"
  shows "seekPredicate cast keys cursor r = row_less keys c r"
  using assms(2-)
proof (induction keys)
  case Nil
  then show ?case by (simp add: seek_Nil)
next
  case (Cons f fs)
  then have "seekPredicate cast fs cursor r = row_less fs c r" by (simp add: keyed_def)
  moreover have "levelAfter cast f (cursor (kf_field f)) r = col_less f (c (kf_field f)) (r (kf_field f))"
  proof -
    have "kf_nullable f \<or> c (kf_field f) \<noteq> None \<and> r (kf_field f) \<noteq> None"
      using Cons.prems(1,2) by (auto simp: keyed_def)
    from level_after [of cast render f c r, OF rc this] Cons.prems(3) [of f] show ?thesis by simp
  qed
  ultimately show ?case using Cons.prems level_equal [OF rc] by (simp add: seek_Cons)
qed

lemma cursor_of_row:
  assumes "keysetCursorFrom (renderSeekColumns render keys c) keys = Some cursor" "distinct (map kf_field keys)" "f \<in> set keys"
  shows "cursor (kf_field f) = map_option render (c (kf_field f))"
proof -
  have "map_of (rev (map (\<lambda>f. (kf_field f, map_option render (c (kf_field f)))) keys)) (kf_field f) =
      Some (map_option render (c (kf_field f)))"
    using assms(2,3) by (intro map_of_is_SomeI) (auto simp: comp_def distinct_rev rev_map [symmetric])
  moreover have "zip (map kf_field keys) (renderSeekColumns render keys c) =
      map (\<lambda>f. (kf_field f, map_option render (c (kf_field f)))) keys"
    by (simp add: renderSeekColumns_def zip_map_map zip_same_conv_map)
  ultimately show ?thesis using assms(1) by (auto simp: keysetCursorFrom_def split: if_splits)
qed

lemma cursor_exists: "\<exists>cursor. keysetCursorFrom (renderSeekColumns render keys c) keys = Some cursor"
  by (simp add: keysetCursorFrom_def renderSeekColumns_def)

subsection \<open>Pages and the whole listing\<close>

text \<open>
  The rows of one listing under a sort key: the database tells them apart by their id, columns
  declared \<open>NOT NULL\<close> hold values, and a rendered value is read back as itself.
\<close>

definition listing :: "('v::linorder \<Rightarrow> string) \<Rightarrow> (string \<Rightarrow> 'v) \<Rightarrow> keyset_field list \<Rightarrow> 'v sql_row list \<Rightarrow> bool" where
  "listing render cast keys rows \<longleftrightarrow>
     (\<forall>v. cast (render v) = v) \<and> distinct (map (\<lambda>r. r ''id'') rows) \<and> (\<forall>r \<in> set rows. keyed keys r) \<and>
     distinct (map kf_field keys) \<and> ''id'' \<in> kf_field ` set keys"

lemma listing_told_apart: "listing render cast keys rows \<Longrightarrow> told_apart (row_less keys) rows"
proof -
  assume l: "listing render cast keys rows"
  then obtain f where f: "f \<in> set keys" "kf_field f = ''id''" by (auto simp: listing_def)
  have "row_less keys r s \<or> row_less keys s r" if "r \<in> set rows" "s \<in> set rows" "r \<noteq> s" for r s
  proof -
    have "r ''id'' \<noteq> s ''id''" using l that by (auto simp: listing_def distinct_map inj_on_def)
    with row_less_total [OF f(1), of r s] f(2) show ?thesis by simp
  qed
  with l show ?thesis unfolding told_apart_def
    using row_less_trans by (auto simp: listing_def distinct_map)
qed

lemma seek_after_row:
  assumes l: "listing render cast keys rows" and n: "n < length rows"
    and c: "keysetCursorFrom (renderSeekColumns render keys (order_rows (row_less keys) rows ! n)) keys = Some cursor"
  shows "order_rows (row_less keys) (filter (seekPredicate cast keys cursor) rows) =
    drop (Suc n) (order_rows (row_less keys) rows)"
proof -
  let ?L = "order_rows (row_less keys) rows"
  note t = listing_told_apart [OF l]
  have at: "?L ! n \<in> set rows" using n nth_mem [of n ?L] by simp
  have rc: "\<And>v. cast (render v) = v" using l by (simp add: listing_def)
  have "filter (seekPredicate cast keys cursor) rows = filter (row_less keys (?L ! n)) rows"
  proof (rule filter_cong [OF refl])
    fix r assume r: "r \<in> set rows"
    show "seekPredicate cast keys cursor r = row_less keys (?L ! n) r"
    proof (rule seek_is_row_less [of cast render keys])
      show "\<And>f. f \<in> set keys \<Longrightarrow> cursor (kf_field f) = map_option render ((?L ! n) (kf_field f))"
        using cursor_of_row [OF c] l by (simp add: listing_def)
    qed (use l at r in \<open>auto simp: listing_def\<close>)
  qed
  then have "order_rows (row_less keys) (filter (seekPredicate cast keys cursor) rows) = filter (row_less keys (?L ! n)) ?L"
    by (simp add: filter_order_rows [OF t])
  also have "\<dots> = drop (Suc n) ?L"
    by (rule after_nth [OF order_rows_sorted [OF t] _ row_less_asym]) (use n in simp)
  finally show ?thesis .
qed

lemma fetch_first:
  "fetchPage render cast rows keys limit None =
     (let page = take limit (order_rows (row_less keys) rows)
      in map_option (\<lambda>c. (page, c))
           (if page = [] then Some None
            else map_option Some (keysetCursorFrom (renderSeekColumns render keys (last page)) keys)))"
  by (simp add: fetchPage_def applyKeyset_def pageCursor_def Let_def comp_def last_map option.map_comp)

text \<open>A cursor that stands on row \<open>n\<close> of the ordered listing.\<close>

definition stands_on :: "('v::linorder \<Rightarrow> string) \<Rightarrow> keyset_field list \<Rightarrow> 'v sql_row list \<Rightarrow> nat \<Rightarrow> keyset_cursor \<Rightarrow> bool" where
  "stands_on render keys rows n cursor \<longleftrightarrow> n < length rows \<and>
     keysetCursorFrom (renderSeekColumns render keys (order_rows (row_less keys) rows ! n)) keys = Some cursor"

lemma fetch_next:
  fixes limit :: nat
  assumes l: "listing render cast keys rows" and c: "stands_on render keys rows n cursor"
  defines "page \<equiv> take limit (drop (Suc n) (order_rows (row_less keys) rows))"
  shows "\<exists>cursor'. fetchPage render cast rows keys limit (Some cursor) = Some (page, cursor') \<and>
    (page \<noteq> [] \<longrightarrow> (\<exists>c'. cursor' = Some c' \<and> stands_on render keys rows (n + length page) c'))"
proof -
  let ?L = "order_rows (row_less keys) rows"
  have f: "order_rows (row_less keys) (filter (seekPredicate cast keys cursor) rows) = drop (Suc n) ?L"
    using c seek_after_row [OF l] by (simp add: stands_on_def)
  obtain c' where c': "keysetCursorFrom (renderSeekColumns render keys (last page)) keys = Some c'"
    using cursor_exists by blast
  have "last page = ?L ! (n + length page)" "n + length page < length rows" if "page \<noteq> []"
  proof -
    have "length page \<le> length rows - Suc n" "0 < length page" using that by (simp_all add: page_def)
    then show "n + length page < length rows" by linarith
    have "length page \<le> limit" by (simp add: page_def)
    with \<open>0 < length page\<close> have "length page - 1 < limit" by linarith
    then have "last page = drop (Suc n) ?L ! (length page - 1)"
      using last_conv_nth [OF that] by (simp add: page_def nth_take del: nth_drop length_take)
    also have "\<dots> = ?L ! (Suc n + (length page - 1))"
      using \<open>n + length page < length rows\<close> by (intro nth_drop) simp
    finally show "last page = ?L ! (n + length page)" using \<open>0 < length page\<close> by simp
  qed
  with c' have "page \<noteq> [] \<Longrightarrow> stands_on render keys rows (n + length page) c'" by (simp add: stands_on_def)
  moreover have "fetchPage render cast rows keys limit (Some cursor) = Some (page, if page = [] then None else Some c')"
    using c' by (simp add: fetchPage_def applyKeyset_def pageCursor_def Let_def comp_def last_map f page_def [symmetric])
  ultimately show ?thesis by auto
qed

lemma stream_is_rest:
  assumes l: "listing render cast keys rows" and "stands_on render keys rows n cursor" and "0 < pageSize"
    and "Suc n \<le> maxRows"
  shows "stream_pages (fetchPage render cast rows keys) maxRows pageSize (Suc n) (Some cursor) =
    (drop (Suc n) (take maxRows (order_rows (row_less keys) rows)),
     if maxRows \<le> length rows then Truncated else Exhausted)"
  using assms(2,4)
proof (induction "maxRows - n" arbitrary: n cursor rule: less_induct)
  case less
  let ?L = "order_rows (row_less keys) rows"
  have n: "n < length rows" using less.prems(1) by (simp add: stands_on_def)
  show ?case
  proof (cases "maxRows \<le> Suc n")
    case True
    with less.prems(2) n show ?thesis by (simp add: stream_pages.simps)
  next
    case False
    define limit where "limit = min pageSize (maxRows - Suc n)"
    define page where "page = take limit (drop (Suc n) ?L)"
    have lim: "0 < limit" using False assms(3) by (simp add: limit_def)
    from fetch_next [OF l less.prems(1), of limit] obtain cursor' where
      f: "fetchPage render cast rows keys limit (Some cursor) = Some (page, cursor')"
      and nxt: "page \<noteq> [] \<longrightarrow> (\<exists>c'. cursor' = Some c' \<and> stands_on render keys rows (n + length page) c')"
      unfolding page_def by blast
    have len: "length page = min limit (length rows - Suc n)" by (simp add: page_def)
    show ?thesis
    proof (cases "length page < limit")
      case True
      then have "length rows - Suc n < limit" "page = drop (Suc n) ?L" using len by (simp_all add: page_def)
      moreover from this(1) have "length rows < maxRows" by (auto simp: limit_def)
      ultimately show ?thesis using False f
        by (subst stream_pages.simps) (simp add: limit_def [symmetric])
    next
      case full: False
      with len have len': "length page = limit" by simp
      with lim nxt obtain c' where c': "cursor' = Some c'" "stands_on render keys rows (n + limit) c'" by fastforce
      have le: "Suc (n + limit) \<le> maxRows" "maxRows - (n + limit) < maxRows - n" using lim False by (auto simp: limit_def)
      note ih = less.hyps [OF le(2) c'(2) le(1)]
      have "page @ drop (Suc (n + limit)) (take maxRows ?L) = drop (Suc n) (take maxRows ?L)"
      proof -
        have "page = take limit (drop (Suc n) (take maxRows ?L))"
          using le(1) by (simp add: page_def drop_take min_def)
        moreover have "drop (Suc (n + limit)) (take maxRows ?L) = drop limit (drop (Suc n) (take maxRows ?L))"
          by (simp add: add.commute)
        ultimately show ?thesis by (metis append_take_drop_id)
      qed
      with ih c'(1) len' lim False f full show ?thesis
        by (subst stream_pages.simps) (auto simp: limit_def [symmetric] simp del: take_drop drop_take)
    qed
  qed
qed

text \<open>
  C14: the export writes the listing in its order, each row once and none left out, up to the
  cap: the walk by pages with cursors implements one ordered query with the cap as its limit.
\<close>

theorem export_refines_listing:
  assumes "\<forall>v. cast (render v) = v" and "distinct (map (\<lambda>r. r ''id'') rows)"
    and "\<forall>r \<in> set rows. keyed (buildKeysetSort sorts nulls) r" and "0 < pageSize" "0 < maxRows"
  shows "export_rows (fetchPage render cast rows (buildKeysetSort sorts nulls)) maxRows pageSize =
    Some (take maxRows (order_rows (row_less (buildKeysetSort sorts nulls)) rows),
          if maxRows \<le> length rows then Truncated else Exhausted)"
proof -
  let ?keys = "buildKeysetSort sorts nulls"
  let ?L = "order_rows (row_less ?keys) rows"
  define limit where "limit = min pageSize maxRows"
  have lim: "0 < limit" "limit \<le> maxRows" using assms(4,5) by (simp_all add: limit_def)
  have l: "listing render cast ?keys rows"
    using assms(1-3) buildKeysetSort_distinct [of sorts nulls] buildKeysetSort_id [of sorts nulls]
    unfolding listing_def image_iff by metis
  obtain c where c: "keysetCursorFrom (renderSeekColumns render ?keys (last (take limit ?L))) ?keys = Some c"
    using cursor_exists by blast
  have f: "fetchPage render cast rows ?keys limit None = Some (take limit ?L, if take limit ?L = [] then None else Some c)"
    using c by (simp add: fetch_first Let_def)
  show ?thesis
  proof (cases "limit \<le> length rows")
    case False
    with f lim show ?thesis by (simp add: export_rows_def limit_def [symmetric])
  next
    case True
    have "take limit ?L \<noteq> []" "last (take limit ?L) = ?L ! (limit - 1)"
    proof -
      have len: "length (take limit ?L) = limit" using True by simp
      then show ne: "take limit ?L \<noteq> []" using lim(1) by (metis length_greater_0_conv)
      have "limit - 1 < limit" using lim(1) by simp
      then show "last (take limit ?L) = ?L ! (limit - 1)" unfolding last_conv_nth [OF ne] len by (rule nth_take)
    qed
    with c lim True have "stands_on render ?keys rows (limit - 1) c" by (simp add: stands_on_def)
    from stream_is_rest [OF l this assms(4)] lim
    have "stream_pages (fetchPage render cast rows ?keys) maxRows pageSize limit (Some c) =
        (drop limit (take maxRows ?L), if maxRows \<le> length rows then Truncated else Exhausted)" by simp
    moreover have "take limit ?L @ drop limit (take maxRows ?L) = take maxRows ?L"
      using append_take_drop_id [of limit "take maxRows ?L"] lim by (simp add: take_take min.absorb1)
    ultimately show ?thesis using f True \<open>take limit ?L \<noteq> []\<close> lim
      by (simp add: export_rows_def limit_def [symmetric] del: take_eq_Nil)
  qed
qed

text \<open>Users by display name, which may be null, then by id: pages of two.\<close>

definition sample_listing :: "string sql_row list" where
  "sample_listing =
     [[''id'' \<mapsto> ''3'', ''display_name'' \<mapsto> ''Bo''], [''id'' \<mapsto> ''1''], [''id'' \<mapsto> ''2'', ''display_name'' \<mapsto> ''Al''],
      [''id'' \<mapsto> ''0'', ''display_name'' \<mapsto> ''Bo''], [''id'' \<mapsto> ''4'']]"

definition sample_sort :: "sort_spec list" where
  "sample_sort = [\<lparr>ss_field = ''display_name'', ss_direction = Desc\<rparr>]"

lemma export_refines_listing_witness:
  "export_rows (fetchPage (\<lambda>v. v) (\<lambda>v. v) sample_listing (buildKeysetSort sample_sort [''display_name''])) 4 2 =
     Some (take 4 (order_rows (row_less (buildKeysetSort sample_sort [''display_name''])) sample_listing),
           if 4 \<le> length sample_listing then Truncated else Exhausted) \<and>
   map (\<lambda>r. r ''id'') (order_rows (row_less (buildKeysetSort sample_sort [''display_name''])) sample_listing) =
     map Some [''0'', ''3'', ''2'', ''1'', ''4'']"
proof -
  have 1: "\<forall>v::string. (\<lambda>v. v) ((\<lambda>v. v) v) = v" by simp
  have 2: "distinct (map (\<lambda>r. r ''id'') sample_listing)" by code_simp
  have 3: "\<forall>r \<in> set sample_listing. keyed (buildKeysetSort sample_sort [''display_name'']) r" by code_simp
  have 4: "map (\<lambda>r. r ''id'') (order_rows (row_less (buildKeysetSort sample_sort [''display_name''])) sample_listing) =
     map Some [''0'', ''3'', ''2'', ''1'', ''4'']" by code_simp
  show ?thesis using export_refines_listing [OF 1 2 3, of 2 4] 4 by simp
qed

end
