(* ===== verification/ListQuery.thy ===== *)
theory ListQuery
  imports Keyset AuthStatus
begin

text \<open>
  The list-query contract of the admin endpoints (\<open>src/lib/admin/list-query.server.ts\<close>): the
  lenient parser of the grids, the strict parser of \<open>/api/v1\<close>, the search pattern and the page
  window. The query string is the list of its parameters; a refusal carries what its text
  names. Names of the object prototype are no filter of any list.
\<close>

type_synonym search_params = "(string \<times> string) list"

definition param_get :: "search_params \<Rightarrow> string \<Rightarrow> string option" where
  "param_get params name = map_of params name"

definition param_getAll :: "search_params \<Rightarrow> string \<Rightarrow> string list" where
  "param_getAll params name = map snd (filter (\<lambda>p. fst p = name) params)"

subsection \<open>Numbers\<close>

definition digits_value :: "string \<Rightarrow> int" where
  "digits_value ds = foldl (\<lambda>n c. 10 * n + (of_char c - 48)) 0 ds"

text \<open>\<open>Number.parseInt(s, 10)\<close> before rounding to a double; \<open>None\<close> is \<open>NaN\<close>.\<close>

definition js_parseInt :: "string \<Rightarrow> int option" where
  "js_parseInt s =
     (let t = trim_start s;
          neg = (t \<noteq> [] \<and> hd t = CHR ''-'');
          u = (if t \<noteq> [] \<and> hd t \<in> {CHR ''-'', CHR ''+''} then tl t else t);
          ds = takeWhile is_digit u
      in if ds = [] then None else Some (if neg then - digits_value ds else digits_value ds))"

text \<open>Past this magnitude a number rounds to an infinity.\<close>

definition js_finite :: "int \<Rightarrow> bool" where
  "js_finite n \<longleftrightarrow> \<bar>n\<bar> < 2 ^ 1024 - 2 ^ 970"

subsection \<open>The search pattern\<close>

definition like_escape :: "char \<Rightarrow> string" where
  "like_escape c = (if c \<in> {CHR 0x5C, CHR ''%'', CHR ''_''} then [CHR 0x5C, c] else [c])"

definition likeContains :: "string \<Rightarrow> string" where
  "likeContains term = ''%'' @ concat (map like_escape term) @ ''%''"

text \<open>
  \<open>ilike\<close> with its default escape character; \<open>lower\<close> is the case folding of the database. A
  pattern may not end in the escape character.
\<close>

function sql_ilike :: "(char \<Rightarrow> char) \<Rightarrow> string \<Rightarrow> string \<Rightarrow> bool" where
  "sql_ilike lower [] s = (s = [])"
| "sql_ilike lower (c # p) s =
     (if c = CHR ''%'' then sql_ilike lower p s \<or> (case s of [] \<Rightarrow> False | x # t \<Rightarrow> sql_ilike lower (c # p) t)
      else if c = CHR ''_'' then (case s of [] \<Rightarrow> False | x # t \<Rightarrow> sql_ilike lower p t)
      else if c = CHR 0x5C
      then (case p of [] \<Rightarrow> False
            | e # p' \<Rightarrow> (case s of [] \<Rightarrow> False | x # t \<Rightarrow> lower e = lower x \<and> sql_ilike lower p' t))
      else (case s of [] \<Rightarrow> False | x # t \<Rightarrow> lower c = lower x \<and> sql_ilike lower p t))"
  by pat_completeness auto

termination
  by (relation "measure (\<lambda>(lower, p, s). length p + length s)") auto

subsection \<open>The lenient parser\<close>

datatype filter_value = FilterText string | FilterMany "string list" | FilterRange "string option" "string option"

type_synonym filter_values = "(string \<times> filter_value) list"

record 'f list_query =
  lq_page :: int
  lq_pageSize :: int
  lq_sort :: "sort_spec list"
  lq_q :: "string option"
  lq_filters :: 'f

record list_options =
  lo_allowedSortFields :: "string list"
  lo_allowedFilters :: "string list option"
  lo_defaultSort :: "sort_spec list option"
  lo_maxPageSize :: "int option"
  lo_defaultPageSize :: "int option"
  lo_uuidFilters :: "(string \<times> string list) list"

datatype list_query_error =
    PageTooDeep | NotUuid string "string list" | RepeatedScalar string | SearchNotAccepted | SortNotAccepted
  | BadSort string | FiltersNotAccepted | UnsupportedFilter | EmptyFilter string | BadFilterValue string string

definition DEFAULT_PAGE_SIZE :: int where
  "DEFAULT_PAGE_SIZE = 25"

definition DEFAULT_MAX_PAGE_SIZE :: int where
  "DEFAULT_MAX_PAGE_SIZE = 200"

definition MAX_Q_LENGTH :: nat where
  "MAX_Q_LENGTH = 200"

definition MAX_PAGE :: int where
  "MAX_PAGE = 1000000"

definition parseSortDirective :: "string \<Rightarrow> sort_spec option" where
  "parseSortDirective raw =
     (let field = takeWhile (\<lambda>c. c \<noteq> CHR ''.'') raw;
          direction = (case dropWhile (\<lambda>c. c \<noteq> CHR ''.'') raw of [] \<Rightarrow> ''asc'' | _ # rest \<Rightarrow> rest)
      in if field = [] \<or> direction \<notin> {''asc'', ''desc''} then None
         else Some \<lparr>ss_field = field, ss_direction = (if direction = ''asc'' then Asc else Desc)\<rparr>)"

text \<open>The match of \<open>filter[name]\<close> and \<open>filter[name][sub]\<close>.\<close>

definition filter_key :: "string \<Rightarrow> (string \<times> string option) option" where
  "filter_key key =
     (if \<not> starts_with key ''filter['' then None
      else
        (let body = drop 7 key;
             name = takeWhile (\<lambda>c. c \<noteq> CHR '']'') body
         in if name = [] then None
            else (case dropWhile (\<lambda>c. c \<noteq> CHR '']'') body of
                    [] \<Rightarrow> None
                  | _ # rest \<Rightarrow>
                      (case rest of
                         [] \<Rightarrow> Some (name, None)
                       | c # tail \<Rightarrow>
                           (let sub = takeWhile (\<lambda>c. c \<noteq> CHR '']'') tail
                            in if c = CHR ''['' \<and> sub \<noteq> [] \<and> dropWhile (\<lambda>c. c \<noteq> CHR '']'') tail = '']''
                               then Some (name, Some sub) else None)))))"

definition put_filter :: "string \<Rightarrow> filter_value \<Rightarrow> filter_values \<Rightarrow> filter_values" where
  "put_filter name v fs =
     (if map_of fs name = None then fs @ [(name, v)]
      else map (\<lambda>(n, w). (n, if n = name then v else w)) fs)"

definition add_range :: "string \<Rightarrow> string \<Rightarrow> filter_value option \<Rightarrow> filter_value" where
  "add_range sub value existing =
     (let (f, t) = (case existing of Some (FilterRange f t) \<Rightarrow> (f, t) | _ \<Rightarrow> (None, None))
      in if sub = ''from'' then FilterRange (Some value) t else FilterRange f (Some value))"

definition add_filter :: "string \<Rightarrow> string \<Rightarrow> filter_values \<Rightarrow> filter_values" where
  "add_filter name value fs =
     (case map_of fs name of
        None \<Rightarrow> put_filter name (FilterText value) fs
      | Some (FilterMany vs) \<Rightarrow> put_filter name (FilterMany (vs @ [value])) fs
      | Some (FilterText v) \<Rightarrow> put_filter name (FilterMany [v, value]) fs
      | Some (FilterRange _ _) \<Rightarrow> fs)"

fun collect_filters :: "list_options \<Rightarrow> search_params \<Rightarrow> filter_values \<Rightarrow> list_query_error + filter_values" where
  "collect_filters options [] fs = Inr fs"
| "collect_filters options ((key, value) # params) fs =
     (case filter_key key of
        None \<Rightarrow> collect_filters options params fs
      | Some (name, sub) \<Rightarrow>
          if (case lo_allowedFilters options of None \<Rightarrow> False | Some names \<Rightarrow> name \<notin> set names)
          then collect_filters options params fs
          else if sub = Some ''from'' \<or> sub = Some ''to''
          then collect_filters options params (put_filter name (add_range (the sub) value (map_of fs name)) fs)
          else
            (case map_of (lo_uuidFilters options) name of
               Some keywords \<Rightarrow>
                 if value = [] then collect_filters options params fs
                 else if \<not> isUuid value \<and> value \<notin> set keywords then Inl (NotUuid name keywords)
                 else collect_filters options params (add_filter name value fs)
             | None \<Rightarrow> collect_filters options params (add_filter name value fs)))"

definition parse_page :: "search_params \<Rightarrow> int" where
  "parse_page params =
     (case js_parseInt (case param_get params ''page'' of Some v \<Rightarrow> v | None \<Rightarrow> ''1'') of
        Some n \<Rightarrow> if n \<ge> 1 then n else 1
      | None \<Rightarrow> 1)"

text \<open>An absent \<open>pageSize\<close> parses the text of the default, which is the default.\<close>

definition parse_page_size :: "search_params \<Rightarrow> int \<Rightarrow> int \<Rightarrow> int" where
  "parse_page_size params defaultPageSize maxPageSize =
     (case (case param_get params ''pageSize'' of Some v \<Rightarrow> js_parseInt v | None \<Rightarrow> Some defaultPageSize) of
        Some n \<Rightarrow> if js_finite n then min (max n 1) maxPageSize else defaultPageSize
      | None \<Rightarrow> defaultPageSize)"

definition parse_sort :: "search_params \<Rightarrow> list_options \<Rightarrow> sort_spec list" where
  "parse_sort params options =
     (let sort' = filter (\<lambda>s. ss_field s \<in> set (lo_allowedSortFields options))
            (List.map_filter parseSortDirective (param_getAll params ''sort''))
      in if sort' \<noteq> [] then sort' else (case lo_defaultSort options of Some d \<Rightarrow> d | None \<Rightarrow> []))"

definition parse_q :: "search_params \<Rightarrow> string option" where
  "parse_q params =
     (let q = take MAX_Q_LENGTH (case param_get params ''q'' of Some v \<Rightarrow> trim v | None \<Rightarrow> [])
      in if q \<noteq> [] then Some q else None)"

definition parseListQuery :: "search_params \<Rightarrow> list_options \<Rightarrow> list_query_error + filter_values list_query" where
  "parseListQuery params options =
     (let maxPageSize = (case lo_maxPageSize options of Some n \<Rightarrow> n | None \<Rightarrow> DEFAULT_MAX_PAGE_SIZE);
          defaultPageSize = (case lo_defaultPageSize options of Some n \<Rightarrow> n | None \<Rightarrow> DEFAULT_PAGE_SIZE)
      in if parse_page params > MAX_PAGE then Inl PageTooDeep
         else (case collect_filters options params [] of
                 Inl e \<Rightarrow> Inl e
               | Inr fs \<Rightarrow>
                   Inr \<lparr>lq_page = parse_page params,
                        lq_pageSize = parse_page_size params defaultPageSize maxPageSize,
                        lq_sort = parse_sort params options, lq_q = parse_q params, lq_filters = fs\<rparr>))"

definition filterValues :: "filter_values list_query \<Rightarrow> string \<Rightarrow> string list" where
  "filterValues query name =
     filter (\<lambda>v. length v > 0)
       (case map_of (lq_filters query) name of
          Some (FilterText v) \<Rightarrow> [v] | Some (FilterMany vs) \<Rightarrow> vs | _ \<Rightarrow> [])"

definition offsetFor :: "'f list_query \<Rightarrow> int" where
  "offsetFor query = (lq_page query - 1) * lq_pageSize query"

subsection \<open>The strict parser\<close>

type_synonym strict_filters = "(string \<times> string list) list"

text \<open>The declared filters with their vocabularies, if closed; the options' own list is not read.\<close>

record strict_options = list_options +
  lo_filters :: "(string \<times> string list option) list"
  lo_search :: bool

fun strict_sort :: "string list \<Rightarrow> string list \<Rightarrow> string list \<Rightarrow> list_query_error + sort_spec list" where
  "strict_sort allowed seen [] = Inr []"
| "strict_sort allowed seen (raw # raws) =
     (if allowed = [] then Inl SortNotAccepted
      else (case parseSortDirective raw of
              None \<Rightarrow> Inl (BadSort raw)
            | Some d \<Rightarrow>
                if ss_field d \<notin> set allowed then Inl (BadSort raw)
                else if ss_field d \<in> set seen then strict_sort allowed seen raws
                else map_sum id (\<lambda>ds. d # ds) (strict_sort allowed (ss_field d # seen) raws)))"

text \<open>\<open>filter[name]\<close> alone.\<close>

definition strict_filter_key :: "string \<Rightarrow> string option" where
  "strict_filter_key key = (case filter_key key of Some (name, None) \<Rightarrow> Some name | _ \<Rightarrow> None)"

definition add_strict :: "string \<Rightarrow> string \<Rightarrow> strict_filters \<Rightarrow> strict_filters" where
  "add_strict name value fs =
     (case map_of fs name of
        None \<Rightarrow> fs @ [(name, [value])]
      | Some vs \<Rightarrow> if value \<in> set vs then fs else map (\<lambda>(n, ws). (n, if n = name then ws @ [value] else ws)) fs)"

fun strict_filters ::
    "(string \<times> string list option) list \<Rightarrow> search_params \<Rightarrow> strict_filters \<Rightarrow> list_query_error + strict_filters" where
  "strict_filters specs [] fs = Inr fs"
| "strict_filters specs ((key, value) # params) fs =
     (if \<not> starts_with key ''filter['' then strict_filters specs params fs
      else
        (case Option.bind (strict_filter_key key) (\<lambda>name. map_option (Pair name) (map_of specs name)) of
           None \<Rightarrow> Inl (if specs = [] then FiltersNotAccepted else UnsupportedFilter)
         | Some (name, vocabulary) \<Rightarrow>
             if length value = 0 then Inl (EmptyFilter name)
             else if (case vocabulary of None \<Rightarrow> False | Some vs \<Rightarrow> value \<notin> set vs) then Inl (BadFilterValue name value)
             else strict_filters specs params (add_strict name value fs)))"

definition parseListQueryStrict ::
    "search_params \<Rightarrow> strict_options \<Rightarrow> list_query_error + strict_filters list_query" where
  "parseListQueryStrict params options =
     (case parseListQuery params
             (list_options.truncate (options\<lparr>lo_allowedFilters := Some (map fst (lo_filters options))\<rparr>)) of
        Inl e \<Rightarrow> Inl e
      | Inr base \<Rightarrow>
          (case List.find (\<lambda>name. length (param_getAll params name) > 1) [''page'', ''pageSize'', ''q''] of
             Some name \<Rightarrow> Inl (RepeatedScalar name)
           | None \<Rightarrow>
               if \<not> lo_search options \<and> param_get params ''q'' \<noteq> None then Inl SearchNotAccepted
               else (case strict_sort (lo_allowedSortFields options) [] (param_getAll params ''sort'') of
                       Inl e \<Rightarrow> Inl e
                     | Inr sort' \<Rightarrow>
                         (case strict_filters (lo_filters options) params [] of
                            Inl e \<Rightarrow> Inl e
                          | Inr fs \<Rightarrow>
                              Inr \<lparr>lq_page = lq_page base, lq_pageSize = lq_pageSize base,
                                   lq_sort = (if sort' \<noteq> [] then sort'
                                              else (case lo_defaultSort options of Some d \<Rightarrow> d | None \<Rightarrow> [])),
                                   lq_q = lq_q base, lq_filters = fs\<rparr>))))"

subsection \<open>Pages\<close>

text \<open>The \<open>order by\<close> terms of a list: the sort, then the tiebreaker columns it does not name.\<close>

definition order_terms :: "'f list_query \<Rightarrow> string list \<Rightarrow> (string \<times> sort_direction) list" where
  "order_terms query tiebreaker =
     map (\<lambda>s. (ss_field s, ss_direction s)) (lq_sort query) @
     map (\<lambda>x. (x, Asc)) (filter (\<lambda>x. x \<notin> ss_field ` set (lq_sort query)) tiebreaker)"

text \<open>
  The page of the ordered rows and their total: the window count when the page has a row, the
  second query only past the end.
\<close>

definition executeListWithTotal :: "'r list \<Rightarrow> 'f list_query \<Rightarrow> 'r list \<times> nat" where
  "executeListWithTotal ordered query =
     (let rows = take (nat (lq_pageSize query)) (drop (nat (offsetFor query)) ordered)
      in if length rows > 0 then (rows, length ordered)
         else ([], if offsetFor query = 0 then 0 else length ordered))"

subsection \<open>The search finds what was typed\<close>

lemma ilike_literal:
  "c \<notin> {CHR ''%'', CHR ''_'', CHR 0x5C} \<Longrightarrow>
     sql_ilike lower (c # p) s = (case s of [] \<Rightarrow> False | x # t \<Rightarrow> lower c = lower x \<and> sql_ilike lower p t)"
  by simp

lemma ilike_escaped:
  "sql_ilike lower (CHR 0x5C # e # p) s = (case s of [] \<Rightarrow> False | x # t \<Rightarrow> lower e = lower x \<and> sql_ilike lower p t)"
  by simp

lemma ilike_any: "sql_ilike lower ''%'' s"
  by (induction s) auto

lemma ilike_percent:
  "sql_ilike lower (CHR ''%'' # p) s \<longleftrightarrow> (\<exists>u v. s = u @ v \<and> sql_ilike lower p v)"
proof (induction s)
  case Nil
  then show ?case by simp
next
  case (Cons x s)
  have "sql_ilike lower (CHR ''%'' # p) (x # s) \<longleftrightarrow> sql_ilike lower p (x # s) \<or> sql_ilike lower (CHR ''%'' # p) s" by simp
  also have "\<dots> \<longleftrightarrow> (\<exists>u v. x # s = u @ v \<and> sql_ilike lower p v)"
    unfolding Cons.IH by (metis append_eq_Cons_conv)
  finally show ?case .
qed

declare sql_ilike.simps [simp del]

lemma ilike_prefix:
  "sql_ilike lower (concat (map like_escape term) @ ''%'') s \<longleftrightarrow>
     prefix (map lower term) (map lower s)"
proof (induction "term" arbitrary: s)
  case Nil
  show ?case using ilike_any [of lower s] by simp
next
  case (Cons c cs)
  let ?rest = "concat (map like_escape cs) @ ''%''"
  have "sql_ilike lower (like_escape c @ ?rest) s =
      (case s of [] \<Rightarrow> False | x # t \<Rightarrow> lower c = lower x \<and> sql_ilike lower ?rest t)"
  proof (cases "c \<in> {CHR 0x5C, CHR ''%'', CHR ''_''}")
    case True
    then have "like_escape c = [CHR 0x5C, c]" by (simp add: like_escape_def)
    then show ?thesis using ilike_escaped [of lower c ?rest s] by simp
  next
    case False
    then have "like_escape c = [c]" "c \<notin> {CHR ''%'', CHR ''_'', CHR 0x5C}" by (simp_all add: like_escape_def)
    then show ?thesis using ilike_literal [of c lower ?rest s] by simp
  qed
  then show ?case using Cons.IH by (cases s) auto
qed

lemma includes_iff: "includes_str s p \<longleftrightarrow> (\<exists>u v. s = u @ v \<and> prefix p v)"
proof (induction s)
  case (Cons c s)
  then show ?case by (auto simp: append_eq_Cons_conv Cons_eq_append_conv intro: exI [where x = "[]"])
qed auto

text \<open>
  The pattern built from a search term matches exactly the texts that contain the term, up to
  the case folding of the database: a wildcard or escape character typed into the search is a
  character like any other.
\<close>

lemma search_matches_the_term:
  "sql_ilike lower (likeContains term) s \<longleftrightarrow> includes_str (map lower s) (map lower term)"
proof -
  have "sql_ilike lower (likeContains term) s \<longleftrightarrow> (\<exists>u v. s = u @ v \<and> prefix (map lower term) (map lower v))"
    unfolding likeContains_def by (simp only: append_Cons append_Nil ilike_percent ilike_prefix)
  also have "\<dots> \<longleftrightarrow> (\<exists>u v. map lower s = u @ v \<and> prefix (map lower term) v)"
    by (auto simp: map_eq_append_conv)
  finally show ?thesis by (simp add: includes_iff)
qed

subsection \<open>What the strict parser answers\<close>

lemma map_of_update: "map_of (map (\<lambda>(n, w). (n, g n w)) fs) x = map_option (g x) (map_of fs x)"
  by (induction fs) auto

text \<open>The filters of an answer: declared, never empty, of their vocabulary, each value once.\<close>

definition filters_typed :: "(string \<times> string list option) list \<Rightarrow> strict_filters \<Rightarrow> bool" where
  "filters_typed specs fs \<longleftrightarrow> distinct (map fst fs) \<and>
     (\<forall>(n, vs) \<in> set fs. vs \<noteq> [] \<and> distinct vs \<and>
        (\<exists>voc. map_of specs n = Some voc \<and>
           (\<forall>v \<in> set vs. v \<noteq> [] \<and> (case voc of None \<Rightarrow> True | Some ws \<Rightarrow> v \<in> set ws))))"

definition filter_holds :: "strict_filters \<Rightarrow> string \<Rightarrow> string \<Rightarrow> bool" where
  "filter_holds fs n v \<longleftrightarrow> (\<exists>vs. map_of fs n = Some vs \<and> v \<in> set vs)"

lemma add_strict_holds: "filter_holds (add_strict name value fs) n v \<longleftrightarrow> filter_holds fs n v \<or> n = name \<and> v = value"
  by (auto simp: filter_holds_def add_strict_def map_of_update map_of_append map_add_def split: option.splits)

lemma add_strict_typed:
  assumes "filters_typed specs fs" "map_of specs name = Some voc" "value \<noteq> []"
    and "case voc of None \<Rightarrow> True | Some ws \<Rightarrow> value \<in> set ws"
  shows "filters_typed specs (add_strict name value fs)"
proof (cases "map_of fs name")
  case None
  then have "name \<notin> fst ` set fs" by (simp add: map_of_eq_None_iff)
  moreover have "add_strict name value fs = fs @ [(name, [value])]" using None by (simp add: add_strict_def)
  ultimately show ?thesis using assms by (auto simp: filters_typed_def)
next
  case (Some vs)
  have names: "map fst (map (\<lambda>(n, ws). (n, if n = name then ws @ [value] else ws)) fs) = map fst fs"
    by (simp add: comp_def case_prod_beta)
  show ?thesis
  proof (cases "value \<in> set vs")
    case True
    with assms(1) Some show ?thesis by (simp add: add_strict_def)
  next
    case False
    then have e: "add_strict name value fs = map (\<lambda>(n, ws). (n, if n = name then ws @ [value] else ws)) fs"
      using Some by (simp add: add_strict_def)
    show ?thesis unfolding filters_typed_def e names
    proof (intro conjI ballI)
      show "distinct (map fst fs)" using assms(1) by (simp add: filters_typed_def)
      fix x assume "x \<in> set (map (\<lambda>(n, ws). (n, if n = name then ws @ [value] else ws)) fs)"
      then obtain n ws where w: "(n, ws) \<in> set fs" "x = (n, if n = name then ws @ [value] else ws)" by auto
      have "value \<notin> set ws" if "n = name"
        using w(1) that Some False assms(1) by (simp add: filters_typed_def)
      with w assms show "case x of (n, vs) \<Rightarrow> vs \<noteq> [] \<and> distinct vs \<and>
          (\<exists>voc. map_of specs n = Some voc \<and>
             (\<forall>v \<in> set vs. v \<noteq> [] \<and> (case voc of None \<Rightarrow> True | Some ws \<Rightarrow> v \<in> set ws)))"
        unfolding filters_typed_def by (cases "n = name") auto
    qed
  qed
qed

lemma strict_filters_answer:
  "strict_filters specs params fs = Inr fs' \<Longrightarrow> filters_typed specs fs \<Longrightarrow>
     filters_typed specs fs' \<and>
     (\<forall>(k, v) \<in> set params. starts_with k ''filter['' \<longrightarrow> strict_filter_key k \<noteq> None) \<and>
     (\<forall>n v. filter_holds fs' n v \<longleftrightarrow>
        filter_holds fs n v \<or> (\<exists>k. (k, v) \<in> set params \<and> starts_with k ''filter['' \<and> strict_filter_key k = Some n))"
proof (induction specs params fs rule: strict_filters.induct)
  case (1 specs fs)
  then show ?case by simp
next
  case (2 specs key "value" params fs)
  show ?case
  proof (cases "starts_with key ''filter[''")
    case False
    with 2 show ?thesis by auto
  next
    case True
    from 2(3) True obtain name voc where n: "strict_filter_key key = Some name" "map_of specs name = Some voc"
      by (cases "strict_filter_key key"; cases "map_of specs (the (strict_filter_key key))") auto
    with 2(3) True have v: "value \<noteq> []" "case voc of None \<Rightarrow> True | Some ws \<Rightarrow> value \<in> set ws"
      and rec: "strict_filters specs params (add_strict name value fs) = Inr fs'"
      by (auto split: if_splits option.splits)
    have ih: "filters_typed specs fs' \<and>
        (\<forall>(k, v) \<in> set params. starts_with k ''filter['' \<longrightarrow> strict_filter_key k \<noteq> None) \<and>
        (\<forall>m v. filter_holds fs' m v \<longleftrightarrow> filter_holds (add_strict name value fs) m v \<or>
           (\<exists>k. (k, v) \<in> set params \<and> starts_with k ''filter['' \<and> strict_filter_key k = Some m))"
      using 2(2) [of "(name, voc)" name voc] True n v rec add_strict_typed [OF 2(4) n(2) v]
      by (auto split: option.splits)
    then show ?thesis using n(1) True by (auto simp: add_strict_holds)
  qed
qed

lemma strict_sort_answer:
  "strict_sort allowed seen raws = Inr ds \<Longrightarrow>
     ss_field ` set ds \<subseteq> set allowed - set seen \<and> distinct (map ss_field ds) \<and>
     (\<forall>raw \<in> set raws. \<exists>d. parseSortDirective raw = Some d \<and> ss_field d \<in> set seen \<union> ss_field ` set ds) \<and>
     (\<forall>d \<in> set ds. \<exists>raw \<in> set raws. parseSortDirective raw = Some d)"
proof (induction allowed seen raws arbitrary: ds rule: strict_sort.induct)
  case (1 allowed seen)
  then show ?case by simp
next
  case (2 allowed seen raw raws)
  then obtain d where d: "parseSortDirective raw = Some d" "ss_field d \<in> set allowed"
    by (auto split: if_splits option.splits)
  show ?case
  proof (cases "ss_field d \<in> set seen")
    case True
    with 2 d show ?thesis by (auto split: if_splits)
  next
    case False
    with 2(3) d obtain es where es: "strict_sort allowed (ss_field d # seen) raws = Inr es" "ds = d # es"
      by (cases "strict_sort allowed (ss_field d # seen) raws") (auto split: if_splits)
    have "allowed \<noteq> []" using d(2) by auto
    from 2(2) [OF this d(1) _ False es(1)] d False es(2) show ?thesis by auto
  qed
qed

lemma parse_page_pos: "1 \<le> parse_page params"
  by (simp add: parse_page_def split: option.splits)

lemma parse_page_size_bounds: "1 \<le> dflt \<Longrightarrow> dflt \<le> most \<Longrightarrow> 1 \<le> parse_page_size params dflt most \<and> parse_page_size params dflt most \<le> most"
  by (auto simp: parse_page_size_def split: option.splits)

lemma parse_q_short: "parse_q params = Some q \<Longrightarrow> q \<noteq> [] \<and> length q \<le> MAX_Q_LENGTH"
  by (auto simp: parse_q_def Let_def split: if_splits)

lemma collected_uuids:
  "collect_filters options params fs = Inr fs' \<Longrightarrow> (k, v) \<in> set params \<Longrightarrow> filter_key k = Some (name, None) \<Longrightarrow>
     map_of (lo_uuidFilters options) name = Some words \<Longrightarrow> v \<noteq> [] \<Longrightarrow>
     (case lo_allowedFilters options of None \<Rightarrow> True | Some names \<Rightarrow> name \<in> set names) \<Longrightarrow> isUuid v \<or> v \<in> set words"
  by (induction options params fs rule: collect_filters.induct) (auto split: option.splits if_splits prod.splits)

lemma strict_parse:
  assumes "parseListQueryStrict params options = Inr q"
  obtains fs0 ds where
    "collect_filters (list_options.truncate (options\<lparr>lo_allowedFilters := Some (map fst (lo_filters options))\<rparr>)) params [] = Inr fs0"
    "parse_page params \<le> MAX_PAGE" "lq_page q = parse_page params"
    "lq_pageSize q = parse_page_size params
       (case lo_defaultPageSize options of Some n \<Rightarrow> n | None \<Rightarrow> DEFAULT_PAGE_SIZE)
       (case lo_maxPageSize options of Some n \<Rightarrow> n | None \<Rightarrow> DEFAULT_MAX_PAGE_SIZE)"
    "lq_q q = parse_q params" "lo_search options \<or> param_get params ''q'' = None"
    "\<forall>name \<in> {''page'', ''pageSize'', ''q''}. length (param_getAll params name) \<le> 1"
    "strict_sort (lo_allowedSortFields options) [] (param_getAll params ''sort'') = Inr ds"
    "lq_sort q = (if ds \<noteq> [] then ds else (case lo_defaultSort options of Some d \<Rightarrow> d | None \<Rightarrow> []))"
    "strict_filters (lo_filters options) params [] = Inr (lq_filters q)"
  using assms
  by (auto simp: parseListQueryStrict_def parseListQuery_def Let_def list_options.defs not_less
      split: sum.splits if_splits option.splits)

lemma filters_typed_Nil: "filters_typed specs []"
  by (simp add: filters_typed_def)

text \<open>
  C24: whatever the query string, the query the strict (v1 API) parser answers with is well formed: a page
  within bounds, sort columns of the allow-list and each once, declared filters with non-empty
  values of their vocabularies, UUIDs where the column is one, and a bounded search term.
\<close>

theorem strict_query_well_typed:
  assumes "parseListQueryStrict params options = Inr q"
    and "dflt = (case lo_defaultPageSize options of Some n \<Rightarrow> n | None \<Rightarrow> DEFAULT_PAGE_SIZE)"
    and "most = (case lo_maxPageSize options of Some n \<Rightarrow> n | None \<Rightarrow> DEFAULT_MAX_PAGE_SIZE)"
    and "1 \<le> dflt" "dflt \<le> most"
    and "\<forall>d \<in> set (case lo_defaultSort options of Some d \<Rightarrow> d | None \<Rightarrow> []). ss_field d \<in> set (lo_allowedSortFields options)"
    and "distinct (map ss_field (case lo_defaultSort options of Some d \<Rightarrow> d | None \<Rightarrow> []))"
  shows "1 \<le> lq_page q \<and> lq_page q \<le> MAX_PAGE \<and> 1 \<le> lq_pageSize q \<and> lq_pageSize q \<le> most \<and>
    0 \<le> offsetFor q \<and> offsetFor q \<le> (MAX_PAGE - 1) * most \<and>
    ss_field ` set (lq_sort q) \<subseteq> set (lo_allowedSortFields options) \<and> distinct (map ss_field (lq_sort q)) \<and>
    filters_typed (lo_filters options) (lq_filters q) \<and>
    (\<forall>n v words. filter_holds (lq_filters q) n v \<and> map_of (lo_uuidFilters options) n = Some words \<longrightarrow>
       isUuid v \<or> v \<in> set words) \<and>
    (\<forall>t. lq_q q = Some t \<longrightarrow> t \<noteq> [] \<and> length t \<le> MAX_Q_LENGTH)"
proof -
  obtain fs0 ds where p:
    "collect_filters (list_options.truncate (options\<lparr>lo_allowedFilters := Some (map fst (lo_filters options))\<rparr>)) params [] = Inr fs0"
    "parse_page params \<le> MAX_PAGE" "lq_page q = parse_page params"
    "lq_pageSize q = parse_page_size params dflt most" "lq_q q = parse_q params"
    "strict_sort (lo_allowedSortFields options) [] (param_getAll params ''sort'') = Inr ds"
    "lq_sort q = (if ds \<noteq> [] then ds else (case lo_defaultSort options of Some d \<Rightarrow> d | None \<Rightarrow> []))"
    "strict_filters (lo_filters options) params [] = Inr (lq_filters q)"
    using strict_parse [OF assms(1)] assms(2,3) by metis
  note f = strict_filters_answer [OF p(8) filters_typed_Nil]
  have size: "1 \<le> lq_pageSize q" "lq_pageSize q \<le> most" using parse_page_size_bounds [OF assms(4,5)] p(4) by simp_all
  have page: "1 \<le> lq_page q" "lq_page q \<le> MAX_PAGE" using parse_page_pos p(2,3) by simp_all
  have off: "0 \<le> offsetFor q" "offsetFor q \<le> (MAX_PAGE - 1) * most"
    using page size unfolding offsetFor_def by (auto intro: mult_mono)
  have srt: "ss_field ` set (lq_sort q) \<subseteq> set (lo_allowedSortFields options)" "distinct (map ss_field (lq_sort q))"
    using strict_sort_answer [OF p(6)] assms(6,7) p(7) by auto
  have "isUuid v \<or> v \<in> set words"
    if h: "filter_holds (lq_filters q) n v" and u: "map_of (lo_uuidFilters options) n = Some words" for n v words
  proof -
    from f h obtain k where k: "(k, v) \<in> set params" "strict_filter_key k = Some n"
      by (auto simp: filter_holds_def)
    from h obtain vs where vs: "(n, vs) \<in> set (lq_filters q)" "v \<in> set vs"
      by (auto simp: filter_holds_def dest: map_of_SomeD)
    from f vs(1) obtain voc where "map_of (lo_filters options) n = Some voc" "\<forall>v \<in> set vs. v \<noteq> []"
      unfolding filters_typed_def by fast
    with vs(2) have "v \<noteq> []" "n \<in> fst ` set (lo_filters options)"
      by (auto dest: map_of_SomeD intro: rev_image_eqI)
    moreover have "filter_key k = Some (n, None)" using k(2) by (auto simp: strict_filter_key_def split: option.splits)
    ultimately show ?thesis using collected_uuids [OF p(1) k(1), of n words] u by (simp add: list_options.defs)
  qed
  then show ?thesis using page size off srt f parse_q_short p(5) by auto
qed

subsection \<open>A query the strict parser accepts\<close>

definition lenient_holds :: "filter_values \<Rightarrow> string \<Rightarrow> string \<Rightarrow> bool" where
  "lenient_holds fs n v \<longleftrightarrow> v \<noteq> [] \<and>
     (case map_of fs n of Some (FilterText w) \<Rightarrow> v = w | Some (FilterMany ws) \<Rightarrow> v \<in> set ws | _ \<Rightarrow> False)"

definition no_ranges :: "filter_values \<Rightarrow> bool" where
  "no_ranges fs \<longleftrightarrow> (\<forall>n x y. map_of fs n \<noteq> Some (FilterRange x y))"

lemma put_filter_lookup: "map_of (put_filter name w fs) n = (if n = name then Some w else map_of fs n)"
  by (auto simp: put_filter_def map_of_update map_of_append map_add_def split: option.splits)

lemma add_filter_holds:
  "no_ranges fs \<Longrightarrow> no_ranges (add_filter name v fs) \<and>
     (\<forall>n w. lenient_holds (add_filter name v fs) n w \<longleftrightarrow> lenient_holds fs n w \<or> w \<noteq> [] \<and> n = name \<and> w = v)"
  by (cases "map_of fs name"; cases "the (map_of fs name)")
    (auto simp: add_filter_def no_ranges_def lenient_holds_def put_filter_lookup)

lemma collect_filters_answer:
  "collect_filters options params fs = Inr fs' \<Longrightarrow> no_ranges fs \<Longrightarrow>
     \<forall>(k, v) \<in> set params. \<forall>n sub. filter_key k = Some (n, sub) \<longrightarrow>
       sub = None \<and> (case lo_allowedFilters options of None \<Rightarrow> True | Some names \<Rightarrow> n \<in> set names) \<Longrightarrow>
     no_ranges fs' \<and> (\<forall>n v. lenient_holds fs' n v \<longleftrightarrow>
       lenient_holds fs n v \<or> v \<noteq> [] \<and> (\<exists>k. (k, v) \<in> set params \<and> filter_key k = Some (n, None)))"
proof (induction options params fs rule: collect_filters.induct)
  case (1 options fs)
  then show ?case by simp
next
  case (2 options key "value" params fs)
  show ?case
  proof (cases "filter_key key")
    case None
    with 2 show ?thesis by auto
  next
    case (Some p)
    with "2.prems"(3) obtain n where n: "p = (n, None)" "case lo_allowedFilters options of None \<Rightarrow> True | Some names \<Rightarrow> n \<in> set names"
      by (cases p) auto
    have keep: "\<not> (case lo_allowedFilters options of None \<Rightarrow> False | Some names \<Rightarrow> n \<notin> set names)"
      using n(2) by (auto split: option.splits)
    have rest: "\<forall>(k, v) \<in> set params. \<forall>n sub. filter_key k = Some (n, sub) \<longrightarrow>
        sub = None \<and> (case lo_allowedFilters options of None \<Rightarrow> True | Some names \<Rightarrow> n \<in> set names)" using "2.prems"(3) by auto
    show ?thesis
    proof (cases "map_of (lo_uuidFilters options) n \<noteq> None \<and> value = []")
      case True
      with "2.prems"(1) Some n(1) keep have "collect_filters options params fs = Inr fs'" by auto
      with "2.IH"(5) [OF Some n(1) [symmetric] keep _ _ _ _ "2.prems"(2) rest] True Some n(1) show ?thesis
        by (auto simp: lenient_holds_def)
    next
      case False
      with "2.prems"(1) Some n(1) keep have c: "collect_filters options params (add_filter n value fs) = Inr fs'"
        by (auto split: option.splits if_splits)
      have "no_ranges fs' \<and> (\<forall>m v. lenient_holds fs' m v \<longleftrightarrow>
          lenient_holds (add_filter n value fs) m v \<or> v \<noteq> [] \<and> (\<exists>k. (k, v) \<in> set params \<and> filter_key k = Some (m, None)))"
      proof (cases "map_of (lo_uuidFilters options) n")
        case None
        with "2.IH"(4) [OF Some n(1) [symmetric] keep _ None c _ rest] add_filter_holds [OF "2.prems"(2)] show ?thesis by auto
      next
        case (Some ws)
        with False have v: "value \<noteq> []" by simp
        with "2.prems"(1) \<open>filter_key key = Some p\<close> n(1) keep Some have "\<not> (\<not> isUuid value \<and> value \<notin> set ws)"
          by (auto split: if_splits)
        with "2.IH"(6) [OF \<open>filter_key key = Some p\<close> n(1) [symmetric] keep _ Some v _ c _ rest] add_filter_holds [OF "2.prems"(2)]
        show ?thesis by auto
      qed
      with add_filter_holds [OF "2.prems"(2)] Some n(1) show ?thesis by auto
    qed
  qed
qed

lemma filterValues_holds: "v \<in> set (filterValues base n) \<longleftrightarrow> lenient_holds (lq_filters base) n v"
  by (auto simp: filterValues_def lenient_holds_def split: option.splits filter_value.splits)

lemma filter_key_starts: "filter_key k = Some p \<Longrightarrow> starts_with k ''filter[''"
  by (auto simp: filter_key_def split: if_splits)

lemma strict_key_iff: "strict_filter_key k = Some n \<longleftrightarrow> filter_key k = Some (n, None)"
  by (auto simp: strict_filter_key_def split: option.splits)

text \<open>
  A query the strict parser accepts is applied as asked: every filter parameter is among the
  filters, no filter is there that was not asked for, every sort directive is applied by its
  column, a search is applied, and the lenient parser reads the same filters in it.
\<close>

lemma strict_query_drops_nothing:
  assumes "parseListQueryStrict params options = Inr q"
  shows "(\<forall>(k, v) \<in> set params. starts_with k ''filter['' \<longrightarrow>
            (\<exists>n. strict_filter_key k = Some n \<and> filter_holds (lq_filters q) n v)) \<and>
    (\<forall>n v. filter_holds (lq_filters q) n v \<longrightarrow> (\<exists>k. (k, v) \<in> set params \<and> strict_filter_key k = Some n)) \<and>
    (\<forall>raw \<in> set (param_getAll params ''sort''). \<exists>d. parseSortDirective raw = Some d \<and>
       ss_field d \<in> ss_field ` set (lq_sort q)) \<and>
    (\<forall>v. param_get params ''q'' = Some v \<and> trim v \<noteq> [] \<longrightarrow> lq_q q = Some (take MAX_Q_LENGTH (trim v))) \<and>
    (\<exists>base. parseListQuery params
        (list_options.truncate (options\<lparr>lo_allowedFilters := Some (map fst (lo_filters options))\<rparr>)) = Inr base \<and>
      (\<forall>n. set (filterValues base n) = {v. filter_holds (lq_filters q) n v}))"
proof -
  let ?lenient = "list_options.truncate (options\<lparr>lo_allowedFilters := Some (map fst (lo_filters options))\<rparr>)"
  obtain fs0 ds where p:
    "collect_filters ?lenient params [] = Inr fs0" "parse_page params \<le> MAX_PAGE" "lq_q q = parse_q params"
    "strict_sort (lo_allowedSortFields options) [] (param_getAll params ''sort'') = Inr ds"
    "lq_sort q = (if ds \<noteq> [] then ds else (case lo_defaultSort options of Some d \<Rightarrow> d | None \<Rightarrow> []))"
    "strict_filters (lo_filters options) params [] = Inr (lq_filters q)"
    using strict_parse [OF assms] by metis
  note f = strict_filters_answer [OF p(6) filters_typed_Nil]
  have empty: "\<not> filter_holds [] n v" "\<not> lenient_holds [] n v" "no_ranges []" for n v
    by (simp_all add: filter_holds_def lenient_holds_def no_ranges_def)
  have asked: "\<exists>n. strict_filter_key k = Some n \<and> filter_holds (lq_filters q) n v"
    if "(k, v) \<in> set params" "starts_with k ''filter[''" for k v
  proof -
    from f that obtain n where "strict_filter_key k = Some n" by fastforce
    with f that show ?thesis by blast
  qed
  have srt: "\<exists>d. parseSortDirective raw = Some d \<and> ss_field d \<in> ss_field ` set (lq_sort q)"
    if "raw \<in> set (param_getAll params ''sort'')" for raw
    using strict_sort_answer [OF p(4)] that p(5) by fastforce
  have srch: "lq_q q = Some (take MAX_Q_LENGTH (trim v))" if "param_get params ''q'' = Some v" "trim v \<noteq> []" for v
    using that by (simp add: p(3) parse_q_def MAX_Q_LENGTH_def)
  have declared: "n \<in> fst ` set (lo_filters options) \<and> v \<noteq> []" if "filter_holds (lq_filters q) n v" for n v
  proof -
    from that obtain vs where vs: "(n, vs) \<in> set (lq_filters q)" "v \<in> set vs"
      by (auto simp: filter_holds_def dest: map_of_SomeD)
    from f vs(1) obtain voc where "map_of (lo_filters options) n = Some voc" "\<forall>v \<in> set vs. v \<noteq> []"
      unfolding filters_typed_def by fast
    with vs(2) show ?thesis by (auto dest: map_of_SomeD intro: rev_image_eqI)
  qed
  have plain: "\<forall>(k, v) \<in> set params. \<forall>n sub. filter_key k = Some (n, sub) \<longrightarrow>
      sub = None \<and> (case lo_allowedFilters ?lenient of None \<Rightarrow> True | Some names \<Rightarrow> n \<in> set names)"
  proof (intro ballI, clarify)
    fix k v n sub assume k: "(k, v) \<in> set params" "filter_key k = Some (n, sub)"
    from asked [OF k(1) filter_key_starts [OF k(2)]] k(2) declared
    show "sub = None \<and> (case lo_allowedFilters ?lenient of None \<Rightarrow> True | Some names \<Rightarrow> n \<in> set names)"
      by (auto simp: strict_filter_key_def list_options.defs split: option.splits)
  qed
  note c = collect_filters_answer [OF p(1) empty(3) plain]
  have same: "lenient_holds fs0 n v \<longleftrightarrow> filter_holds (lq_filters q) n v" for n v
  proof -
    have "lenient_holds fs0 n v \<longleftrightarrow> v \<noteq> [] \<and> (\<exists>k. (k, v) \<in> set params \<and> filter_key k = Some (n, None))"
      using c empty by blast
    also have "\<dots> \<longleftrightarrow> v \<noteq> [] \<and> (\<exists>k. (k, v) \<in> set params \<and> starts_with k ''filter['' \<and> strict_filter_key k = Some n)"
      unfolding strict_key_iff using filter_key_starts by blast
    also have "\<dots> \<longleftrightarrow> filter_holds (lq_filters q) n v" using f empty declared by blast
    finally show ?thesis .
  qed
  obtain base where b: "parseListQuery params ?lenient = Inr base" "lq_filters base = fs0"
    using p(1,2) by (auto simp: parseListQuery_def Let_def)
  from b(2) same have "set (filterValues base n) = {v. filter_holds (lq_filters q) n v}" for n
    by (auto simp: filterValues_holds)
  moreover have "\<exists>k. (k, v) \<in> set params \<and> strict_filter_key k = Some n" if "filter_holds (lq_filters q) n v" for n v
    using f empty(1) that by blast
  ultimately show ?thesis using b(1) asked srt srch by (intro conjI) blast+
qed

definition sample_list_options :: strict_options where
  "sample_list_options =
     \<lparr>lo_allowedSortFields = [''created_at'', ''status''], lo_allowedFilters = None,
      lo_defaultSort = Some [\<lparr>ss_field = ''created_at'', ss_direction = Desc\<rparr>], lo_maxPageSize = None,
      lo_defaultPageSize = None, lo_uuidFilters = [],
      lo_filters = [(''status'', Some [''active'', ''blocked''])], lo_search = True\<rparr>"

definition sample_params :: search_params where
  "sample_params = [(''page'', ''2''), (''filter[status]'', ''blocked''), (''sort'', ''status.desc''), (''filter[status]'', ''active''),
     (''q'', '' ann '')]"

lemma sample_query:
  "parseListQueryStrict sample_params sample_list_options =
     Inr \<lparr>lq_page = 2, lq_pageSize = 25, lq_sort = [\<lparr>ss_field = ''status'', ss_direction = Desc\<rparr>], lq_q = Some ''ann'',
          lq_filters = [(''status'', [''blocked'', ''active''])]\<rparr>"
  by code_simp

definition sample_answer :: "strict_filters list_query" where
  "sample_answer =
     \<lparr>lq_page = 2, lq_pageSize = 25, lq_sort = [\<lparr>ss_field = ''status'', ss_direction = Desc\<rparr>], lq_q = Some ''ann'',
      lq_filters = [(''status'', [''blocked'', ''active''])]\<rparr>"

lemma strict_query_well_typed_witness:
  "parseListQueryStrict sample_params sample_list_options = Inr sample_answer \<and>
   offsetFor sample_answer \<le> (MAX_PAGE - 1) * DEFAULT_MAX_PAGE_SIZE \<and>
   filters_typed (lo_filters sample_list_options) (lq_filters sample_answer)"
proof -
  have 1: "parseListQueryStrict sample_params sample_list_options = Inr sample_answer"
    by (simp add: sample_query sample_answer_def)
  have o: "lo_defaultPageSize sample_list_options = None" "lo_maxPageSize sample_list_options = None"
    by (simp_all add: sample_list_options_def)
  have 2: "DEFAULT_PAGE_SIZE = (case lo_defaultPageSize sample_list_options of Some n \<Rightarrow> n | None \<Rightarrow> DEFAULT_PAGE_SIZE)"
    "DEFAULT_MAX_PAGE_SIZE = (case lo_maxPageSize sample_list_options of Some n \<Rightarrow> n | None \<Rightarrow> DEFAULT_MAX_PAGE_SIZE)"
    "1 \<le> DEFAULT_PAGE_SIZE" "DEFAULT_PAGE_SIZE \<le> DEFAULT_MAX_PAGE_SIZE"
    by (simp_all add: o DEFAULT_PAGE_SIZE_def DEFAULT_MAX_PAGE_SIZE_def)
  have 3: "\<forall>d \<in> set (case lo_defaultSort sample_list_options of Some d \<Rightarrow> d | None \<Rightarrow> []).
      ss_field d \<in> set (lo_allowedSortFields sample_list_options)"
    "distinct (map ss_field (case lo_defaultSort sample_list_options of Some d \<Rightarrow> d | None \<Rightarrow> []))"
    by (simp_all add: sample_list_options_def)
  from strict_query_well_typed [OF 1 2 3] 1 show ?thesis by blast
qed

lemma strict_query_drops_nothing_witness:
  "parseListQueryStrict sample_params sample_list_options = Inr sample_answer \<and>
   filter_holds (lq_filters sample_answer) ''status'' ''active'' \<and> filter_holds (lq_filters sample_answer) ''status'' ''blocked''"
proof -
  have 1: "parseListQueryStrict sample_params sample_list_options = Inr sample_answer"
    by (simp add: sample_query sample_answer_def)
  have 2: "(''filter[status]'', ''active'') \<in> set sample_params" "(''filter[status]'', ''blocked'') \<in> set sample_params"
    by (simp_all add: sample_params_def)
  have 3: "starts_with ''filter[status]'' ''filter[''" "strict_filter_key ''filter[status]'' = Some ''status''"
    by code_simp+
  have a: "\<forall>(k, v) \<in> set sample_params. starts_with k ''filter['' \<longrightarrow>
      (\<exists>n. strict_filter_key k = Some n \<and> filter_holds (lq_filters sample_answer) n v)"
    by (rule conjunct1 [OF strict_query_drops_nothing [OF 1]])
  show ?thesis using 1 bspec [OF a 2(1)] bspec [OF a 2(2)] by (simp only: prod.case 3 simp_thms option.inject)
qed

end
