(* ===== verification/CsvExport.thy ===== *)
theory CsvExport
  imports ListQuery AccessScope
begin

text \<open>
  The CSV of an export (\<open>src/app/api/administrator/export/[resource]/route.ts\<close>): the escaping of a
  cell, the lines of the body with its markers, and the rows the users export selects. A reader
  of RFC 4180 is defined beside it, to say what a spreadsheet sees.
\<close>

subsection \<open>Cells\<close>

definition formula_trigger :: "char \<Rightarrow> bool" where
  "formula_trigger c \<longleftrightarrow> c \<in> {CHR ''='', CHR ''+'', CHR ''-'', CHR ''@'', CHR 0x09, CHR 0x0D}"

definition needs_quotes :: "char \<Rightarrow> bool" where
  "needs_quotes c \<longleftrightarrow> c \<in> {CHR 0x22, CHR '','', CHR 0x0D, CHR 0x0A}"

text \<open>The text of a cell before it is quoted; an absent value is an empty one.\<close>

definition guarded :: "string option \<Rightarrow> string" where
  "guarded v =
     (case v of
        None \<Rightarrow> []
      | Some s \<Rightarrow> if s \<noteq> [] \<and> formula_trigger (hd s) then CHR 0x27 # s else s)"

definition double_quotes :: "string \<Rightarrow> string" where
  "double_quotes s = concat (map (\<lambda>c. if c = CHR 0x22 then [CHR 0x22, CHR 0x22] else [c]) s)"

definition csvEscape :: "string option \<Rightarrow> string" where
  "csvEscape v =
     (let s = guarded v
      in if list_ex needs_quotes s then CHR 0x22 # double_quotes s @ [CHR 0x22] else s)"

definition csv_line :: "string option list \<Rightarrow> string" where
  "csv_line row = join_with (CHR '','') (map csvEscape row) @ [CHR 0x0A]"

subsection \<open>The body\<close>

text \<open>
  The text of the body for the pages of an exporter. \<open>maxText\<close> is the cap as decimal text; the
  message of a failed page is given with its newlines turned into spaces.
\<close>

definition export_body :: "string list \<Rightarrow> string \<Rightarrow> string \<Rightarrow> string option list list \<Rightarrow> stream_end \<Rightarrow> string" where
  "export_body header maxText message rows how =
     csv_line (map Some header) @ concat (map csv_line rows) @
     (case how of
        Exhausted \<Rightarrow> []
      | Truncated \<Rightarrow> ''# export_truncated: '' @ maxText @ [CHR 0x0A]
      | Failed \<Rightarrow> ''# export_failed: '' @ message @ [CHR 0x0A])"

subsection \<open>A reader\<close>

datatype csv_state = CellStart | Bare | Quoted | QuoteSeen

fun csv_read :: "csv_state \<Rightarrow> string \<Rightarrow> string list \<Rightarrow> string \<Rightarrow> string list list" where
  "csv_read st cell row [] = (if st = CellStart \<and> row = [] then [] else [row @ [cell]])"
| "csv_read CellStart cell row (c # s) =
     (if c = CHR 0x22 then csv_read Quoted [] row s
      else if c = CHR '','' then csv_read CellStart [] (row @ [[]]) s
      else if c = CHR 0x0A then (row @ [[]]) # csv_read CellStart [] [] s
      else csv_read Bare [c] row s)"
| "csv_read Bare cell row (c # s) =
     (if c = CHR '','' then csv_read CellStart [] (row @ [cell]) s
      else if c = CHR 0x0A then (row @ [cell]) # csv_read CellStart [] [] s
      else csv_read Bare (cell @ [c]) row s)"
| "csv_read Quoted cell row (c # s) =
     (if c = CHR 0x22 then csv_read QuoteSeen cell row s else csv_read Quoted (cell @ [c]) row s)"
| "csv_read QuoteSeen cell row (c # s) =
     (if c = CHR 0x22 then csv_read Quoted (cell @ [c]) row s
      else if c = CHR '','' then csv_read CellStart [] (row @ [cell]) s
      else if c = CHR 0x0A then (row @ [cell]) # csv_read CellStart [] [] s
      else csv_read Bare (cell @ [c]) row s)"

definition csv_parse :: "string \<Rightarrow> string list list" where
  "csv_parse s = csv_read CellStart [] [] s"

subsection \<open>Reading back\<close>

lemma read_quoted:
  "csv_read Quoted cell row (double_quotes s @ CHR 0x22 # rest) = csv_read QuoteSeen (cell @ s) row rest"
  by (induction s arbitrary: cell) (auto simp: double_quotes_def)

lemma read_bare:
  "\<not> list_ex needs_quotes s \<Longrightarrow> csv_read Bare cell row (s @ rest) = csv_read Bare (cell @ s) row rest"
  by (induction s arbitrary: cell) (auto simp: needs_quotes_def)

text \<open>A written cell, up to the comma or the newline after it.\<close>

lemma read_cell:
  assumes "d = CHR '','' \<or> d = CHR 0x0A"
  shows "csv_read CellStart [] row (csvEscape v @ d # rest) =
    (if d = CHR '','' then csv_read CellStart [] (row @ [guarded v]) rest
     else (row @ [guarded v]) # csv_read CellStart [] [] rest)"
proof (cases "list_ex needs_quotes (guarded v)")
  case True
  then have "csvEscape v @ d # rest = CHR 0x22 # double_quotes (guarded v) @ CHR 0x22 # d # rest"
    by (simp add: csvEscape_def)
  then show ?thesis using assms by (auto simp: read_quoted)
next
  case False
  then have e: "csvEscape v = guarded v" by (simp add: csvEscape_def)
  show ?thesis
  proof (cases "guarded v")
    case Nil
    with e assms show ?thesis by auto
  next
    case (Cons c s)
    with False have c: "\<not> needs_quotes c" "\<not> list_ex needs_quotes s" by auto
    then have "csv_read CellStart [] row (csvEscape v @ d # rest) = csv_read Bare [c] row (s @ d # rest)"
      unfolding e Cons by (auto simp: needs_quotes_def)
    with read_bare [OF c(2)] Cons assms show ?thesis by auto
  qed
qed

lemma read_cells:
  "cells \<noteq> [] \<Longrightarrow> csv_read CellStart [] row (csv_line cells @ rest) =
     (row @ map guarded cells) # csv_read CellStart [] [] rest"
proof (induction cells arbitrary: row)
  case (Cons v cells)
  show ?case
  proof (cases cells)
    case Nil
    then show ?thesis using read_cell [of "CHR 0x0A" row v rest] by (simp add: csv_line_def)
  next
    case (Cons w ws)
    then have "csv_line (v # cells) @ rest = csvEscape v @ CHR '','' # (csv_line cells @ rest)"
      by (simp add: csv_line_def)
    with read_cell [of "CHR '',''" row v "csv_line cells @ rest"] Cons.IH [of "row @ [guarded v]"] Cons
    show ?thesis by simp
  qed
qed simp

lemma read_lines:
  "\<forall>row \<in> set rows. row \<noteq> [] \<Longrightarrow> csv_parse (concat (map csv_line rows) @ rest) = map (map guarded) rows @ csv_parse rest"
  by (induction rows) (auto simp: csv_parse_def read_cells)

lemma guarded_inert: "guarded v \<noteq> [] \<Longrightarrow> \<not> formula_trigger (hd (guarded v))"
  by (auto simp: guarded_def formula_trigger_def split: option.splits if_splits)

text \<open>
  C25: a spreadsheet reads the body of a complete export back as its header and its rows, cell for
  cell, whatever the cells hold, and no cell it reads begins a formula; a cell differs from its
  value only by the quote put before one that would.
\<close>

theorem export_reads_back:
  assumes "header \<noteq> []" "\<forall>row \<in> set rows. row \<noteq> []"
  shows "csv_parse (export_body header maxText message rows Exhausted) =
      map guarded (map Some header) # map (map guarded) rows \<and>
    (\<forall>line \<in> set (csv_parse (export_body header maxText message rows Exhausted)).
       \<forall>cell \<in> set line. cell \<noteq> [] \<longrightarrow> \<not> formula_trigger (hd cell)) \<and>
    (\<forall>s. guarded (Some s) \<in> {s, CHR 0x27 # s})"
proof -
  have "csv_parse (export_body header maxText message rows Exhausted) =
      map (map guarded) (map Some header # rows)"
    using read_lines [of "map Some header # rows" "[]"] assms
    by (simp add: export_body_def) (simp add: csv_parse_def)
  moreover have "cell \<noteq> [] \<longrightarrow> \<not> formula_trigger (hd cell)"
    if "line \<in> set (map (map guarded) (map Some header # rows))" "cell \<in> set line" for line cell
    using that guarded_inert by auto
  moreover have "guarded (Some s) \<in> {s, CHR 0x27 # s}" for s by (simp add: guarded_def)
  ultimately show ?thesis by simp
qed

lemma export_reads_back_witness:
  "csv_parse (export_body [''id'', ''name''] ''100'' [] [[Some ''1'', Some ''=A1''], [Some ''2'', Some [CHR 0x22, CHR 0x0A, CHR '','']]] Exhausted) =
     [[''id'', ''name''], [''1'', CHR 0x27 # ''=A1''], [''2'', [CHR 0x22, CHR 0x0A, CHR '','']]]"
proof -
  have 1: "[''id'', ''name''] \<noteq> []" by simp
  have 2: "\<forall>row \<in> set [[Some ''1'', Some ''=A1''], [Some ''2'', Some [CHR 0x22, CHR 0x0A, CHR '','']]]. row \<noteq> []" by simp
  show ?thesis unfolding conjunct1 [OF export_reads_back [OF 1 2]] by code_simp
qed

end
