(* ===== verification/UsersBulk.thy ===== *)
theory UsersBulk
  imports ActionLaws CsvExport
begin

text \<open>
  The bulk route (\<open>src/app/api/administrator/users/bulk/route.ts\<close>) after its guard has admitted the
  caller, and the selection of the users export: which accounts a request reaches, the loop over
  them and the summary. The database's case folding and Zod's UUID check are arguments.
\<close>

subsection \<open>The request\<close>

datatype bulk_ids = AllMatching | Ids "string list"

record bulk_filters =
  bf_status :: "string list option"
  bf_q :: "string option"

record bulk_body =
  bb_action :: bulk_user_action
  bb_ids :: bulk_ids
  bb_reason :: "string option"
  bb_expiresInSeconds :: "int option"
  bb_filters :: "bulk_filters option"

record admin_permission_grant =
  ag_betterAuthUserId :: uuid
  ag_access :: access_context
  ag_grantedScopes :: "string list option"
  ag_impersonatorId :: "uuid option"

definition MAX_BULK_IDS :: nat where
  "MAX_BULK_IDS = 500"

definition ALLOWED_STATUS :: "string list" where
  "ALLOWED_STATUS = map user_status_text [USActive, USPendingApproval, USBlocked, USSuspended, USDeactivated]"

definition bulkSchema :: "(string \<Rightarrow> bool) \<Rightarrow> bulk_body \<Rightarrow> bool" where
  "bulkSchema zodUuid body \<longleftrightarrow>
     (case bb_ids body of
        AllMatching \<Rightarrow> True
      | Ids ids \<Rightarrow> list_all zodUuid ids \<and> 1 \<le> length ids \<and> length ids \<le> MAX_BULK_IDS) \<and>
     (case bb_reason body of None \<Rightarrow> True | Some r \<Rightarrow> 1 \<le> length r \<and> length r \<le> 500) \<and>
     (case bb_expiresInSeconds body of None \<Rightarrow> True | Some n \<Rightarrow> 0 < n \<and> n \<le> 60 * 60 * 24 * 365) \<and>
     (case bb_filters body of
        None \<Rightarrow> True
      | Some fs \<Rightarrow> (case bf_q fs of None \<Rightarrow> True | Some q \<Rightarrow> 1 \<le> length q \<and> length q \<le> 200))"

subsection \<open>The accounts it reaches\<close>

definition in_scope :: "db \<Rightarrow> org_scope \<Rightarrow> app_user_row \<Rightarrow> bool" where
  "in_scope d scope u \<longleftrightarrow>
     (case scope of AllOrgs \<Rightarrow> True | OneOrg oid \<Rightarrow> userHasMembershipInOrg d (au_id u) oid)"

definition matches_search :: "(char \<Rightarrow> char) \<Rightarrow> string option \<Rightarrow> app_user_row \<Rightarrow> bool" where
  "matches_search lower q u \<longleftrightarrow>
     (case q of
        None \<Rightarrow> True
      | Some term \<Rightarrow>
          sql_ilike lower (likeContains term) (au_primary_email u) \<or>
          (case au_display_name u of None \<Rightarrow> False | Some n \<Rightarrow> sql_ilike lower (likeContains term) n))"

text \<open>Every match, newest first; the caller's own account is never one.\<close>

definition select_all ::
    "(char \<Rightarrow> char) \<Rightarrow> db \<Rightarrow> org_scope \<Rightarrow> uuid \<Rightarrow> bulk_filters \<Rightarrow> app_user_row list" where
  "select_all lower d scope self fs =
     rev (sort_key (\<lambda>u. (au_created_at u, au_id u))
       (filter (\<lambda>u. au_better_auth_user_id u \<noteq> self \<and>
                    (case bf_status fs of None \<Rightarrow> True | Some sts \<Rightarrow> au_status u \<in> set sts) \<and>
                    matches_search lower (bf_q fs) u \<and> in_scope d scope u)
          (app_users d)))"

text \<open>\<open>Inl\<close> is the 400 of the route.\<close>

definition target_ids ::
    "(char \<Rightarrow> char) \<Rightarrow> db \<Rightarrow> org_scope \<Rightarrow> uuid \<Rightarrow> bulk_body \<Rightarrow> string + uuid list" where
  "target_ids lower d scope self body =
     (case bb_ids body of
        Ids ids \<Rightarrow> Inr (take MAX_BULK_IDS (js_uniq (filter isUuid ids)))
      | AllMatching \<Rightarrow>
          (case bb_filters body of
             None \<Rightarrow> Inl ''filters_required_for_select_all''
           | Some fs \<Rightarrow>
               if (case bf_status fs of None \<Rightarrow> False | Some sts \<Rightarrow> sts = [] \<or> (\<exists>v \<in> set sts. v \<notin> set ALLOWED_STATUS))
               then Inl ''invalid_body''
               else (let rows = select_all lower d scope self fs
                     in if length rows > MAX_BULK_IDS then Inl ''too_many_matches''
                        else Inr (map au_id (take MAX_BULK_IDS rows)))))"

text \<open>\<open>where id in (...)\<close> folds the case of an id; the map is keyed by the stored one.\<close>

definition target_map :: "db \<Rightarrow> org_scope \<Rightarrow> uuid list \<Rightarrow> uuid \<Rightarrow> user_target option" where
  "target_map d scope ids i =
     map_option target_of
       (List.find (\<lambda>u. au_id u = i)
          (filter (\<lambda>u. au_id u \<in> pg_uuid ` set ids \<and> in_scope d scope u) (app_users d)))"

subsection \<open>The loop\<close>

text \<open>An exception ends the loop and the request; \<open>False\<close> says one did.\<close>

fun run_bulk ::
    "(uuid \<Rightarrow> faults) \<Rightarrow> millis \<Rightarrow> bulk_user_action \<Rightarrow> bulk_user_actor \<Rightarrow> bulk_user_options \<Rightarrow>
     (uuid \<Rightarrow> user_target option) \<Rightarrow> uuid list \<Rightarrow> admin_store \<Rightarrow>
     admin_store \<times> (uuid \<times> action_outcome) list \<times> bool" where
  "run_bulk f now action actor options targets [] s = (s, [], True)"
| "run_bulk f now action actor options targets (i # ids) s =
     (case targets i of
        None \<Rightarrow>
          (let (s', results, whole) = run_bulk f now action actor options targets ids s
           in (s', (i, ActionError ''not_found'') # results, whole))
      | Some target \<Rightarrow>
          (case executeBulkUserAction (f i) s now action target actor options of
             (s1, ActionThrows) \<Rightarrow> (s1, [], False)
           | (s1, outcome) \<Rightarrow>
               (let (s', results, whole) = run_bulk f now action actor options targets ids s1
                in (s', (i, outcome) # results, whole))))"

datatype bulk_answer = BulkResults "(uuid \<times> action_outcome) list" | BulkRefused string | BulkThrew

definition bulk_summary ::
    "admin_permission_grant \<Rightarrow> org_scope \<Rightarrow> millis \<Rightarrow> string option \<Rightarrow> (uuid \<times> action_outcome) list \<Rightarrow> admin_audit" where
  "bulk_summary guard scope now reason results =
     \<lparr>aa_eventType = ''admin.users.bulk_action'',
      aa_outcome = (if list_all (\<lambda>r. snd r = ActionOk) results then ''success'' else ''failure''),
      aa_actor = ag_betterAuthUserId guard, aa_appUserId = None,
      aa_organizationId = scopeOrganizationId (Some scope), aa_reason = reason, aa_priorBan = None,
      aa_created_at = now\<rparr>"

definition bulk_actor :: "admin_permission_grant \<Rightarrow> org_scope \<Rightarrow> bulk_user_actor" where
  "bulk_actor guard scope =
     \<lparr>ba_betterAuthUserId = ag_betterAuthUserId guard, ba_impersonatorId = ag_impersonatorId guard,
      ba_appUserId = ac_appUserId (ag_access guard), ba_scope = scope, ba_access = ag_access guard,
      ba_mayActivateAgents = mayActivateAgents (ag_access guard) (ag_grantedScopes guard)\<rparr>"

definition bulk_POST ::
    "(char \<Rightarrow> char) \<Rightarrow> (uuid \<Rightarrow> faults) \<Rightarrow> admin_store \<Rightarrow> millis \<Rightarrow> admin_permission_grant \<Rightarrow> bulk_body \<Rightarrow>
     admin_store \<times> bulk_answer" where
  "bulk_POST lower f s now guard body =
     (case resolveOrgScope (ag_access guard) of
        None \<Rightarrow> (s, BulkResults [])
      | Some scope \<Rightarrow>
          (case target_ids lower (ad_db s) scope (ag_betterAuthUserId guard) body of
             Inl e \<Rightarrow> (s, BulkRefused e)
           | Inr ids \<Rightarrow>
               if ids = [] then (s, BulkResults [])
               else
                 (case run_bulk f now (bb_action body) (bulk_actor guard scope)
                         \<lparr>op_reason = bb_reason body, op_expiresInSeconds = bb_expiresInSeconds body\<rparr>
                         (target_map (ad_db s) scope ids) ids s of
                    (s', results, whole) \<Rightarrow>
                      if \<not> whole then (s', BulkThrew)
                      else (s'\<lparr>ad_audit := ad_audit s' @ [bulk_summary guard scope now (bb_reason body) results]\<rparr>,
                            BulkResults results))))"

subsection \<open>The users export\<close>

definition usersExportRows ::
    "(char \<Rightarrow> char) \<Rightarrow> db \<Rightarrow> org_scope option \<Rightarrow> filter_values list_query \<Rightarrow> app_user_row list" where
  "usersExportRows lower d scope query =
     (case scope of
        None \<Rightarrow> []
      | Some sc \<Rightarrow>
          filter (\<lambda>u. in_scope d sc u \<and>
                      (case map_of (lq_filters query) ''status'' of
                         Some (FilterText st) \<Rightarrow> st \<notin> set ALLOWED_STATUS \<or> au_status u = st
                       | Some (FilterMany sts) \<Rightarrow>
                           (let cleaned = filter (\<lambda>v. v \<in> set ALLOWED_STATUS) sts
                            in cleaned = [] \<or> au_status u \<in> set cleaned)
                       | _ \<Rightarrow> True) \<and>
                      matches_search lower (lq_q query) u)
            (app_users d))"

subsection \<open>The batch keeps a superuser\<close>

text \<open>What the loop relies on: every target it still has to visit is a row of the table as it stands.\<close>

definition targets_current :: "(uuid \<Rightarrow> user_target option) \<Rightarrow> uuid list \<Rightarrow> db \<Rightarrow> bool" where
  "targets_current targets ids d \<longleftrightarrow>
     (\<forall>i \<in> set ids. \<forall>t. targets i = Some t \<longrightarrow> (\<exists>u \<in> set (app_users d). au_id u = i \<and> t = target_of u))"

lemma target_map_current: "targets_current (target_map d scope ids) ids' d"
  by (auto simp: targets_current_def target_map_def dest!: find_Some_iff_set)

lemma targets_current_confined:
  assumes "targets_current targets (i # ids) d" "i \<notin> set ids" "confined i ba d d'"
  shows "targets_current targets ids d'"
  unfolding targets_current_def
proof (intro ballI allI impI)
  fix j t assume j: "j \<in> set ids" "targets j = Some t"
  with assms(1) have "\<exists>u \<in> set (app_users d). au_id u = j \<and> t = target_of u" by (simp add: targets_current_def)
  then obtain u where u: "u \<in> set (app_users d)" "au_id u = j" "t = target_of u" by blast
  have "au_id u \<noteq> i" using j(1) u(2) assms(2) by auto
  then have "u \<in> set (app_users d')"
    using filter_set_eq [of "\<lambda>u. au_id u \<noteq> i" "app_users d'" "app_users d" u] assms(3) u(1) by (simp add: confined_def)
  with u show "\<exists>u \<in> set (app_users d'). au_id u = j \<and> t = target_of u" by blast
qed

text \<open>An induction over the batch: what every action on a current target keeps, the loop keeps.\<close>

lemma run_bulk_induct:
  assumes "distinct ids" "targets_current targets ids (ad_db s)" "P s"
    and step: "\<And>s u i. P s \<Longrightarrow> u \<in> set (app_users (ad_db s)) \<Longrightarrow> targets i = Some (target_of u) \<Longrightarrow>
      P (fst (executeBulkUserAction (f i) s now action (target_of u) actor options))"
  shows "P (fst (run_bulk f now action actor options targets ids s))"
  using assms(1-3)
proof (induction ids arbitrary: s)
  case Nil
  then show ?case by simp
next
  case (Cons i ids)
  show ?case
  proof (cases "targets i")
    case None
    with Cons.IH [of s] Cons.prems show ?thesis by (auto simp: targets_current_def split: prod.splits)
  next
    case (Some t)
    with Cons.prems(2) obtain u where u: "u \<in> set (app_users (ad_db s))" "au_id u = i" "t = target_of u"
      by (auto simp: targets_current_def)
    obtain s1 out where e: "executeBulkUserAction (f i) s now action t actor options = (s1, out)" by fastforce
    have p1: "P s1" using step [OF Cons.prems(3) u(1), of i] Some u(3) e by simp
    have "confined i (au_better_auth_user_id u) (ad_db s) (ad_db s1)"
      using executeBulkUserAction_framed [of t s "f i" now action actor options] e u by (simp add: target_of_def)
    from targets_current_confined [OF Cons.prems(2) _ this] Cons.prems(1)
    have "targets_current targets ids (ad_db s1)" by simp
    with Cons.IH [OF _ this p1] Cons.prems(1) p1 Some e show ?thesis
      by (cases out) (auto split: prod.splits)
  qed
qed

lemma distinct_target_ids:
  assumes "users_wf d" "target_ids lower d scope self body = Inr ids"
  shows "distinct ids"
proof (cases "bb_ids body")
  case (Ids js)
  with assms(2) show ?thesis by (auto simp: target_ids_def distinct_take)
next
  case AllMatching
  with assms(2) obtain fs where i: "ids = map au_id (select_all lower d scope self fs)"
    by (auto simp: target_ids_def Let_def split: option.splits if_splits)
  show ?thesis
    using assms(1) unfolding i by (auto simp: select_all_def users_wf_def distinct_map inj_on_def)
qed

text \<open>
  C10: a batch leaves the installation a superuser who can sign in, if it had one, whatever the
  action and the accounts it names, in any order, and whichever of its calls fail, as long as
  Better Auth carries through the writes it has begun.
\<close>

theorem batch_keeps_a_superuser:
  assumes "accounts_wf (ad_db s)" "superuser_survives (ad_db s) now" "\<forall>i. calm (f i)"
  shows "superuser_survives (ad_db (fst (bulk_POST lower f s now guard body))) now"
proof -
  have "superuser_survives (ad_db (fst (run_bulk f now action actor options (target_map (ad_db s) scope ids) ids s))) now"
    if "distinct ids" for action actor options scope ids
  proof -
    have "accounts_wf (ad_db (fst (run_bulk f now action actor options (target_map (ad_db s) scope ids) ids s))) \<and>
        superuser_survives (ad_db (fst (run_bulk f now action actor options (target_map (ad_db s) scope ids) ids s))) now"
    proof (rule run_bulk_induct [OF that target_map_current])
      fix s' :: admin_store and u :: app_user_row and i
      assume h: "accounts_wf (ad_db s') \<and> superuser_survives (ad_db s') now" "u \<in> set (app_users (ad_db s'))"
      show "accounts_wf (ad_db (fst (executeBulkUserAction (f i) s' now action (target_of u) actor options))) \<and>
          superuser_survives (ad_db (fst (executeBulkUserAction (f i) s' now action (target_of u) actor options))) now"
        using executeBulkUserAction_survives [OF _ h(2) refl, of now "f i"] h(1) assms(3)
          confined_accounts_wf [OF executeBulkUserAction_framed] by blast
    qed (use assms in blast)
    then show ?thesis by blast
  qed
  with assms distinct_target_ids [of "ad_db s" lower _ "ag_betterAuthUserId guard" body] show ?thesis
    by (auto simp: bulk_POST_def accounts_wf_def split: option.splits sum.splits prod.splits) (metis fst_conv)+
qed

definition sample_grant :: admin_permission_grant where
  "sample_grant =
     \<lparr>ag_betterAuthUserId = ''b3'', ag_access = getUserAccessContext sample_db 100 None ''b3'' None None,
      ag_grantedScopes = None, ag_impersonatorId = None\<rparr>"

definition sample_bulk :: bulk_body where
  "sample_bulk =
     \<lparr>bb_action = SoftDelete, bb_ids = AllMatching, bb_reason = None, bb_expiresInSeconds = None,
      bb_filters = Some \<lparr>bf_status = Some [''active''], bf_q = Some ''@a''\<rparr>\<rparr>"

lemma batch_keeps_a_superuser_witness:
  "let r = bulk_POST (\<lambda>c. c) (\<lambda>_. no_faults) sample_admin_store 100 sample_grant sample_bulk
   in snd r = BulkResults [(''u2'', ActionOk), (''u1'', ActionOk)] \<and> superuser_survives (ad_db (fst r)) 100"
proof -
  let ?r = "bulk_POST (\<lambda>c. c) (\<lambda>_. no_faults) sample_admin_store 100 sample_grant sample_bulk"
  have 1: "accounts_wf (ad_db sample_admin_store)" by code_simp
  have 2: "superuser_survives (ad_db sample_admin_store) 100" by code_simp
  have 3: "\<forall>i::uuid. calm ((\<lambda>_. no_faults) i)" by (simp add: calm_def no_faults_def)
  have 4: "snd ?r = BulkResults [(''u2'', ActionOk), (''u1'', ActionOk)]" by code_simp
  show ?thesis unfolding Let_def using 4 batch_keeps_a_superuser [OF 1 2 3] by blast
qed

subsection \<open>The batch stays in the tenant\<close>

text \<open>Nothing of one account has changed: its row, its memberships, its Better Auth user.\<close>

definition account_untouched :: "app_user_row \<Rightarrow> db \<Rightarrow> db \<Rightarrow> bool" where
  "account_untouched u d d' \<longleftrightarrow> u \<in> set (app_users d') \<and>
     filter (\<lambda>m. mb_app_user_id m = au_id u) (app_organization_memberships d') =
       filter (\<lambda>m. mb_app_user_id m = au_id u) (app_organization_memberships d) \<and>
     filter (\<lambda>b. bu_id b = au_better_auth_user_id u) (auth_users d') =
       filter (\<lambda>b. bu_id b = au_better_auth_user_id u) (auth_users d)"

lemma filter_narrow:
  assumes "filter P xs = filter P ys" "\<And>x. Q x \<Longrightarrow> P x"
  shows "filter Q xs = filter Q ys"
proof -
  have "filter Q zs = filter Q (filter P zs)" for zs
    by (induction zs) (auto dest: assms(2))
  then show ?thesis using assms(1) by metis
qed

lemma confined_untouched:
  assumes "confined t ba d d'" "u \<in> set (app_users d)" "au_id u \<noteq> t" "au_better_auth_user_id u \<noteq> ba"
  shows "account_untouched u d d'"
proof -
  from assms(1) have f: "filter (\<lambda>u. au_id u \<noteq> t) (app_users d') = filter (\<lambda>u. au_id u \<noteq> t) (app_users d)"
    "filter (\<lambda>m. mb_app_user_id m \<noteq> t) (app_organization_memberships d') =
       filter (\<lambda>m. mb_app_user_id m \<noteq> t) (app_organization_memberships d)"
    "filter (\<lambda>b. bu_id b \<noteq> ba) (auth_users d') = filter (\<lambda>b. bu_id b \<noteq> ba) (auth_users d)"
    by (simp_all add: confined_def)
  show ?thesis unfolding account_untouched_def
    using filter_set_eq [OF f(1), of u] assms(2,3)
      filter_narrow [OF f(2), where Q = "\<lambda>m. mb_app_user_id m = au_id u"]
      filter_narrow [OF f(3), where Q = "\<lambda>b. bu_id b = au_better_auth_user_id u"] assms(4) by simp
qed

lemma account_untouched_trans:
  "account_untouched u a b \<Longrightarrow> account_untouched u b c \<Longrightarrow> account_untouched u a c"
  by (simp add: account_untouched_def)

lemma target_map_in_scope:
  "target_map d scope ids i = Some (target_of u) \<Longrightarrow> \<exists>v \<in> set (app_users d). au_id v = au_id u \<and> in_scope d scope v"
  by (auto simp: target_map_def target_of_def dest!: find_Some_iff_set)

text \<open>
  C11: a batch sent by an administrator confined to one organization touches no account without a
  membership there, whatever ids or filters the request holds.
\<close>

theorem batch_stays_in_tenant:
  assumes "accounts_wf (ad_db s)" "resolveOrgScope (ag_access guard) = Some (OneOrg oid)"
    and "u \<in> set (app_users (ad_db s))" "\<not> userHasMembershipInOrg (ad_db s) (au_id u) oid"
  shows "u \<in> set (app_users (ad_db (fst (bulk_POST lower f s now guard body)))) \<and>
    filter (\<lambda>m. mb_app_user_id m = au_id u) (app_organization_memberships (ad_db (fst (bulk_POST lower f s now guard body)))) =
      filter (\<lambda>m. mb_app_user_id m = au_id u) (app_organization_memberships (ad_db s)) \<and>
    filter (\<lambda>b. bu_id b = au_better_auth_user_id u) (auth_users (ad_db (fst (bulk_POST lower f s now guard body)))) =
      filter (\<lambda>b. bu_id b = au_better_auth_user_id u) (auth_users (ad_db s))"
proof -
  let ?ok = "\<lambda>s'. accounts_wf (ad_db s') \<and> account_untouched u (ad_db s) (ad_db s')"
  have start: "?ok s" using assms(1,3) by (simp add: account_untouched_def)
  have loop: "?ok (fst (run_bulk f now action actor options (target_map (ad_db s) (OneOrg oid) ids) ids s))"
    if "distinct ids" for action actor options ids
  proof (rule run_bulk_induct [where P = ?ok, OF that target_map_current start])
    fix s' :: admin_store and v :: app_user_row and i
    assume h: "?ok s'" "v \<in> set (app_users (ad_db s'))" "target_map (ad_db s) (OneOrg oid) ids i = Some (target_of v)"
    let ?d' = "ad_db (fst (executeBulkUserAction (f i) s' now action (target_of v) actor options))"
    have c: "confined (au_id v) (au_better_auth_user_id v) (ad_db s') ?d'"
      using executeBulkUserAction_framed [of "target_of v"] by (simp add: target_of_def)
    have u: "u \<in> set (app_users (ad_db s'))" "users_wf (ad_db s')"
      using h(1) by (simp_all add: account_untouched_def accounts_wf_def)
    from target_map_in_scope [OF h(3)] assms(4) have ne: "au_id u \<noteq> au_id v" by (auto simp: in_scope_def)
    with user_unique [OF u(2,1) h(2)] have "au_better_auth_user_id u \<noteq> au_better_auth_user_id v" by auto
    from confined_untouched [OF c u(1) ne this] h(1) confined_accounts_wf [OF c]
    show "?ok (fst (executeBulkUserAction (f i) s' now action (target_of v) actor options))"
      using account_untouched_trans by blast
  qed
  have "account_untouched u (ad_db s) (ad_db (fst (bulk_POST lower f s now guard body)))"
    using assms(1,2) start loop distinct_target_ids [of "ad_db s" lower "OneOrg oid" "ag_betterAuthUserId guard" body]
    by (auto simp: bulk_POST_def accounts_wf_def split: sum.splits prod.splits) (metis fst_conv)+
  then show ?thesis by (simp add: account_untouched_def)
qed

definition sample_tenant_grant :: admin_permission_grant where
  "sample_tenant_grant =
     \<lparr>ag_betterAuthUserId = ''b9'',
      ag_access = getUserAccessContext sample_db 100 None ''b1'' (Some \<lparr>bo_organization_id = Some ''B''\<rparr>) None,
      ag_grantedScopes = None, ag_impersonatorId = None\<rparr>"

lemma batch_stays_in_tenant_witness:
  "let r = bulk_POST (\<lambda>c. c) (\<lambda>_. no_faults) sample_admin_store 100 sample_tenant_grant (sample_bulk\<lparr>bb_action := Block\<rparr>)
   in snd r = BulkResults [(''u1'', ActionOk)] \<and> app_users sample_db ! 1 \<in> set (app_users (ad_db (fst r)))"
proof -
  let ?b = "sample_bulk\<lparr>bb_action := Block\<rparr>"
  have 1: "accounts_wf (ad_db sample_admin_store)" by code_simp
  have 2: "resolveOrgScope (ag_access sample_tenant_grant) = Some (OneOrg ''B'')" by code_simp
  have 3: "app_users sample_db ! 1 \<in> set (app_users (ad_db sample_admin_store))"
    unfolding sample_admin_store_def by simp (rule nth_mem, code_simp)
  have 4: "\<not> userHasMembershipInOrg (ad_db sample_admin_store) (au_id (app_users sample_db ! 1)) ''B''" by code_simp
  have 5: "snd (bulk_POST (\<lambda>c. c) (\<lambda>_. no_faults) sample_admin_store 100 sample_tenant_grant ?b) = BulkResults [(''u1'', ActionOk)]"
    by code_simp
  show ?thesis unfolding Let_def
    using 5 batch_stays_in_tenant [OF 1 2 3 4, of "\<lambda>c. c" "\<lambda>_. no_faults" 100 ?b] by blast
qed

end
