(* ===== verification/AdminGrants.thy ===== *)
theory AdminGrants
  imports UsersBulk
begin

text \<open>
  The routes that give and take authority: roles of a user, roles of a group, permissions of a
  role, members of a group, and the creation, copy and deletion of roles, groups and permissions
  (\<open>src/app/api/administrator/users/[id]/app-roles\<close>, \<open>users/[id]/groups\<close>, \<open>groups/[id]/roles\<close>,
  \<open>groups/[id]/members\<close>, \<open>roles/[id]/permissions\<close> and their parents). A route runs behind the
  permission guard and the rate limiter, so it takes the guard's grant; its body is what the
  JSON and the shape of the schema left, none when either failed. A request is one step: what a
  route reads before its transaction is read from the store the transaction runs on.
\<close>

subsection \<open>Answers, refusals and the audit row\<close>

datatype 'a answer = Deny string nat | Served 'a

definition audit_row ::
    "millis \<Rightarrow> admin_permission_grant \<Rightarrow> string \<Rightarrow> string \<Rightarrow> uuid option \<Rightarrow> uuid option \<Rightarrow> string option \<Rightarrow>
     admin_store \<Rightarrow> admin_store" where
  "audit_row now g event outcome appUser oid reason s =
     s\<lparr>ad_audit := ad_audit s @ [\<lparr>aa_eventType = event, aa_outcome = outcome,
         aa_actor = ag_betterAuthUserId g, aa_appUserId = appUser, aa_organizationId = oid,
         aa_reason = reason, aa_priorBan = None, aa_created_at = now\<rparr>]\<rparr>"

definition CONFERRAL_DENIED_EVENT :: string where
  "CONFERRAL_DENIED_EVENT = ''admin.permission.conferral_denied''"

definition UNHELD_PERMISSIONS_REASON :: string where
  "UNHELD_PERMISSIONS_REASON = ''unheld_permissions''"

definition refuseUnconferrable ::
    "millis \<Rightarrow> admin_permission_grant \<Rightarrow> uuid option \<Rightarrow> uuid option \<Rightarrow> admin_store \<Rightarrow> admin_store \<times> 'a answer" where
  "refuseUnconferrable now g appUser oid s =
     (audit_row now g CONFERRAL_DENIED_EVENT ''denied'' appUser oid (Some UNHELD_PERMISSIONS_REASON) s,
      Deny ''forbidden'' 403)"

definition ACCESS_DENIED_EVENT :: string where
  "ACCESS_DENIED_EVENT = ''administrator.access.denied''"

definition CROSS_ORG_REACH_REQUIRED_REASON :: string where
  "CROSS_ORG_REACH_REQUIRED_REASON = ''cross_org_reach_required''"

definition refuseWithoutCrossOrgReach ::
    "millis \<Rightarrow> admin_permission_grant \<Rightarrow> admin_store \<Rightarrow> admin_store \<times> 'a answer" where
  "refuseWithoutCrossOrgReach now g s =
     (audit_row now g ACCESS_DENIED_EVENT ''denied'' None (actingOrganizationId (ag_access g))
        (Some CROSS_ORG_REACH_REQUIRED_REASON) s,
      Deny ''forbidden'' 403)"

fun target_refusal :: "target_failure \<Rightarrow> 'a answer" where
  "target_refusal InvalidTargetId = Deny ''invalid_id'' 400"
| "target_refusal TargetNotFound = Deny ''not_found'' 404"

definition last_superadmin_refused ::
    "millis \<Rightarrow> admin_permission_grant \<Rightarrow> uuid option \<Rightarrow> uuid option \<Rightarrow> admin_store \<Rightarrow> admin_store \<times> 'a answer" where
  "last_superadmin_refused now g appUser oid s =
     (audit_row now g LAST_SUPERADMIN_EVENT ''denied'' appUser oid (Some LAST_SUPERADMIN_REASON) s,
      Deny LAST_SUPERADMIN_ERROR 409)"

subsection \<open>What the actor may not confer\<close>

text \<open>The superadmin at a browser, whom no conferral bound holds.\<close>

definition unbounded_actor :: "admin_permission_grant \<Rightarrow> bool" where
  "unbounded_actor g \<longleftrightarrow> isSuperadmin (ag_access g) \<and> ag_grantedScopes g = None"

definition conferrable_by :: "admin_permission_grant \<Rightarrow> string list" where
  "conferrable_by g = conferrablePermissions (ac_permissions (ag_access g)) (ag_grantedScopes g)"

definition beyond_actor :: "admin_permission_grant \<Rightarrow> string list \<Rightarrow> bool" where
  "beyond_actor g conferred \<longleftrightarrow> \<not> unbounded_actor g \<and> unheldPermissionKeys (conferrable_by g) conferred \<noteq> []"

lemma within_actor: "\<not> beyond_actor g ks \<Longrightarrow> \<not> unbounded_actor g \<Longrightarrow> set ks \<subseteq> set (conferrable_by g)"
  by (simp add: beyond_actor_def)

subsection \<open>Rows\<close>

text \<open>
  \<open>insert ... on conflict do nothing\<close> into a table whose key is the whole row, and what its
  \<open>returning\<close> lists.
\<close>

definition insert_missing :: "'r list \<Rightarrow> 'r table \<Rightarrow> 'r table" where
  "insert_missing rows t = foldl (\<lambda>t r. if r \<in> set t then t else t @ [r]) t rows"

lemma set_insert_missing [simp]: "set (insert_missing rows t) = set t \<union> set rows"
  by (induction rows arbitrary: t) (auto simp: insert_missing_def)

definition role_by_id :: "db \<Rightarrow> string \<Rightarrow> role_row option" where
  "role_by_id d rid = List.find (\<lambda>r. role_id r = pg_uuid rid) (app_roles d)"

definition group_by_id :: "db \<Rightarrow> string \<Rightarrow> group_row option" where
  "group_by_id d gid = List.find (\<lambda>x. grp_id x = pg_uuid gid) (app_groups d)"

definition org_by_id :: "db \<Rightarrow> string \<Rightarrow> org_row option" where
  "org_by_id d oid = List.find (\<lambda>o'. org_id o' = pg_uuid oid) (app_organizations d)"

definition group_in_reach :: "db \<Rightarrow> admin_permission_grant \<Rightarrow> string \<Rightarrow> group_row option" where
  "group_in_reach d g gid =
     (case group_by_id d gid of
        None \<Rightarrow> None
      | Some x \<Rightarrow> if canAccessOrg (ag_access g) (Some (grp_organization_id x)) then Some x else None)"

definition role_in_reach :: "db \<Rightarrow> admin_permission_grant \<Rightarrow> string \<Rightarrow> role_row option" where
  "role_in_reach d g rid =
     (case role_by_id d rid of
        None \<Rightarrow> None
      | Some r \<Rightarrow> if canAccessOrg (ag_access g) (role_organization_id r) then Some r else None)"

subsection \<open>The roles of a user\<close>

definition assignSchema :: "(string \<times> string) option \<Rightarrow> (string \<times> string) option" where
  "assignSchema body =
     (case body of Some (rid, oid) \<Rightarrow> if isUuid rid \<and> isUuid oid then body else None | None \<Rightarrow> None)"

definition add_user_role :: "uuid \<Rightarrow> uuid \<Rightarrow> uuid \<Rightarrow> db \<Rightarrow> db" where
  "add_user_role uid oid rid d =
     d\<lparr>app_user_roles := insert_missing
         [\<lparr>ur_app_user_id = uid, ur_organization_id = oid, ur_role_id = rid\<rparr>] (app_user_roles d)\<rparr>"

definition remove_user_role :: "uuid \<Rightarrow> uuid \<Rightarrow> uuid \<Rightarrow> db \<Rightarrow> db" where
  "remove_user_role uid oid rid d =
     d\<lparr>app_user_roles := delete_where
         (\<lambda>x. ur_app_user_id x = uid \<and> ur_organization_id x = oid \<and> ur_role_id x = rid) (app_user_roles d)\<rparr>"

definition app_roles_POST ::
    "admin_store \<Rightarrow> millis \<Rightarrow> admin_permission_grant \<Rightarrow> string \<Rightarrow> (string \<times> string) option \<Rightarrow>
     admin_store \<times> unit answer" where
  "app_roles_POST s now g i body =
     (let d = ad_db s; access = ag_access g
      in case resolveTargetUser d access i of
           Inl failure \<Rightarrow> (s, target_refusal failure)
         | Inr target \<Rightarrow>
             (case assignSchema body of
                None \<Rightarrow> (s, Deny ''invalid_body'' 400)
              | Some (rid, oid) \<Rightarrow>
                  (case role_by_id d rid of
                     None \<Rightarrow> (s, Deny ''role_not_found'' 404)
                   | Some role \<Rightarrow>
                       if org_by_id d oid = None then (s, Deny ''organization_not_found'' 404)
                       else if \<not> canAccessOrg access (Some oid) then (s, Deny ''organization_not_found'' 404)
                       else if \<not> canAccessOrg access (role_organization_id role) then (s, Deny ''role_not_found'' 404)
                       else if role_organization_id role \<noteq> None \<and> role_organization_id role \<noteq> Some oid
                       then (s, Deny ''role_organization_mismatch'' 409)
                       else if beyond_actor g (permissionKeysForRoles d [role_id role])
                       then refuseUnconferrable now g (Some (tg_appUserId target)) (Some (pg_uuid oid)) s
                       else if \<not> userIsGrantEligible d (tg_appUserId target) (pg_uuid oid)
                       then (s, Deny ''user_not_found'' 404)
                       else (audit_row now g ''admin.user.role_assigned'' ''success''
                               (Some (tg_appUserId target)) (Some (pg_uuid oid)) None
                               (with_db (add_user_role (tg_appUserId target) (pg_uuid oid) (pg_uuid rid)) s),
                             Served ()))))"

text \<open>
  The removal is described to the last-superadmin rule with the ids of the body as the request
  spelled them, and deleted by the ids as the database reads them.
\<close>

definition app_roles_DELETE ::
    "admin_store \<Rightarrow> millis \<Rightarrow> admin_permission_grant \<Rightarrow> string \<Rightarrow> (string \<times> string) option \<Rightarrow>
     admin_store \<times> unit answer" where
  "app_roles_DELETE s now g i body =
     (let d = ad_db s; access = ag_access g
      in case resolveTargetUser d access i of
           Inl failure \<Rightarrow> (s, target_refusal failure)
         | Inr target \<Rightarrow>
             (case assignSchema body of
                None \<Rightarrow> (s, Deny ''invalid_body'' 400)
              | Some (rid, oid) \<Rightarrow>
                  let role = role_by_id d rid; uid = tg_appUserId target
                  in if \<not> canAccessOrg access (Some oid) then (s, Deny ''organization_not_found'' 404)
                     else if (case role of None \<Rightarrow> False | Some r \<Rightarrow> \<not> canAccessOrg access (role_organization_id r))
                     then (s, Deny ''role_not_found'' 404)
                     else if (case role of None \<Rightarrow> False | Some r \<Rightarrow> beyond_actor g (permissionKeysForRoles d [role_id r]))
                     then refuseUnconferrable now g (Some uid) (Some (pg_uuid oid)) s
                     else if wouldStripLastGlobalSuperuser
                               (no_removal\<lparr>rm_assignments := [\<lparr>sg_app_user_id = uid, sg_organization_id = oid, sg_role_id = rid\<rparr>]\<rparr>) d now
                     then last_superadmin_refused now g (Some uid) (Some (pg_uuid oid)) s
                     else (audit_row now g ''admin.user.role_revoked'' ''success'' (Some uid) (Some (pg_uuid oid)) None
                             (with_db (remove_user_role uid (pg_uuid oid) (pg_uuid rid)) s),
                           Served ())))"

subsection \<open>The roles of a group\<close>

definition idsSchema :: "(string \<Rightarrow> bool) \<Rightarrow> string list option \<Rightarrow> string list option" where
  "idsSchema item body =
     (case body of
        Some ids \<Rightarrow> if 1 \<le> length ids \<and> length ids \<le> 500 \<and> list_all item ids then body else None
      | None \<Rightarrow> None)"

definition DUAL_LIST_PATCH_MAX :: nat where
  "DUAL_LIST_PATCH_MAX = 500"

definition dual_side :: "(string \<Rightarrow> bool) \<Rightarrow> string list option \<Rightarrow> bool" where
  "dual_side item side =
     (case side of None \<Rightarrow> True | Some ids \<Rightarrow> length ids \<le> DUAL_LIST_PATCH_MAX \<and> list_all item ids)"

definition dualListPatchSchema ::
    "(string \<Rightarrow> bool) \<Rightarrow> (string list option \<times> string list option) option \<Rightarrow> (string list \<times> string list) option" where
  "dualListPatchSchema item body =
     (case body of
        None \<Rightarrow> None
      | Some (add, remove) \<Rightarrow>
          if \<not> (dual_side item add \<and> dual_side item remove) then None
          else (let a = js_uniq (case add of None \<Rightarrow> [] | Some x \<Rightarrow> x);
                    r = js_uniq (case remove of None \<Rightarrow> [] | Some x \<Rightarrow> x)
                in if length a + length r = 0 then None
                   else if (\<exists>x \<in> set a. x \<in> set r) then None
                   else Some (a, r)))"

definition currentRoleIds :: "db \<Rightarrow> uuid \<Rightarrow> uuid list" where
  "currentRoleIds d gid = map gr_role_id (filter (\<lambda>x. gr_group_id x = gid) (app_group_roles d))"

definition add_group_roles :: "uuid \<Rightarrow> uuid list \<Rightarrow> db \<Rightarrow> db" where
  "add_group_roles gid rids d =
     d\<lparr>app_group_roles := insert_missing (map (\<lambda>r. \<lparr>gr_group_id = gid, gr_role_id = r\<rparr>) rids) (app_group_roles d)\<rparr>"

definition remove_group_roles :: "uuid \<Rightarrow> uuid list \<Rightarrow> db \<Rightarrow> db" where
  "remove_group_roles gid rids d =
     d\<lparr>app_group_roles := delete_where (\<lambda>x. gr_group_id x = gid \<and> gr_role_id x \<in> set rids) (app_group_roles d)\<rparr>"

text \<open>How many of the roles exist and belong to the group's organization.\<close>

definition roles_of_group_org :: "db \<Rightarrow> group_row \<Rightarrow> string list \<Rightarrow> nat" where
  "roles_of_group_org d x rids =
     length (filter (\<lambda>r. role_organization_id r = Some (grp_organization_id x))
       (filter (\<lambda>r. role_id r \<in> pg_uuid ` set rids) (app_roles d)))"

definition group_audit ::
    "millis \<Rightarrow> admin_permission_grant \<Rightarrow> string \<Rightarrow> group_row \<Rightarrow> admin_store \<Rightarrow> admin_store" where
  "group_audit now g event x s = audit_row now g event ''success'' None (Some (grp_organization_id x)) None s"

definition group_roles_POST ::
    "admin_store \<Rightarrow> millis \<Rightarrow> admin_permission_grant \<Rightarrow> string \<Rightarrow> string list option \<Rightarrow>
     admin_store \<times> uuid list answer" where
  "group_roles_POST s now g i body =
     (let d = ad_db s
      in if \<not> isUuid i then (s, Deny ''invalid_id'' 400)
         else (case idsSchema isUuid body of
                 None \<Rightarrow> (s, Deny ''invalid_body'' 400)
               | Some ids \<Rightarrow>
                   (case group_in_reach d g i of
                      None \<Rightarrow> (s, Deny ''not_found'' 404)
                    | Some x \<Rightarrow>
                        let roleIds = js_uniq ids
                        in if roles_of_group_org d x roleIds \<noteq> length roleIds then (s, Deny ''role_not_found'' 404)
                           else if beyond_actor g (permissionKeysForRoles d (map pg_uuid roleIds))
                           then refuseUnconferrable now g None (Some (grp_organization_id x)) s
                           else (let s' = group_audit now g ''admin.group.roles_changed'' x
                                       (with_db (add_group_roles (pg_uuid i) (map pg_uuid roleIds)) s)
                                 in (s', Served (currentRoleIds (ad_db s') (pg_uuid i)))))))"

definition group_roles_DELETE ::
    "admin_store \<Rightarrow> millis \<Rightarrow> admin_permission_grant \<Rightarrow> string \<Rightarrow> string list option \<Rightarrow>
     admin_store \<times> uuid list answer" where
  "group_roles_DELETE s now g i body =
     (let d = ad_db s
      in if \<not> isUuid i then (s, Deny ''invalid_id'' 400)
         else (case idsSchema isUuid body of
                 None \<Rightarrow> (s, Deny ''invalid_body'' 400)
               | Some ids \<Rightarrow>
                   (case group_in_reach d g i of
                      None \<Rightarrow> (s, Deny ''not_found'' 404)
                    | Some x \<Rightarrow>
                        if beyond_actor g (permissionKeysForRoles d (map pg_uuid ids))
                        then refuseUnconferrable now g None (Some (grp_organization_id x)) s
                        else (let s' = group_audit now g ''admin.group.roles_changed'' x
                                    (with_db (remove_group_roles (pg_uuid i) (map pg_uuid ids)) s)
                              in (s', Served (currentRoleIds (ad_db s') (pg_uuid i)))))))"

definition group_roles_PATCH ::
    "admin_store \<Rightarrow> millis \<Rightarrow> admin_permission_grant \<Rightarrow> string \<Rightarrow>
     (string list option \<times> string list option) option \<Rightarrow> admin_store \<times> uuid list answer" where
  "group_roles_PATCH s now g i body =
     (let d = ad_db s
      in if \<not> isUuid i then (s, Deny ''invalid_id'' 400)
         else (case dualListPatchSchema isUuid body of
                 None \<Rightarrow> (s, Deny ''invalid_body'' 400)
               | Some (add, remove) \<Rightarrow>
                   (case group_in_reach d g i of
                      None \<Rightarrow> (s, Deny ''not_found'' 404)
                    | Some x \<Rightarrow>
                        if add \<noteq> [] \<and> roles_of_group_org d x add \<noteq> length add then (s, Deny ''role_not_found'' 404)
                        else if (\<exists>side \<in> {add, remove}. side \<noteq> [] \<and>
                                   beyond_actor g (permissionKeysForRoles d (map pg_uuid side)))
                        then refuseUnconferrable now g None (Some (grp_organization_id x)) s
                        else (let s' = group_audit now g ''admin.group.roles_changed'' x
                                    (with_db (\<lambda>d. remove_group_roles (pg_uuid i) (map pg_uuid remove)
                                                    (add_group_roles (pg_uuid i) (map pg_uuid add) d)) s)
                              in (s', Served (currentRoleIds (ad_db s') (pg_uuid i)))))))"

subsection \<open>The permissions of a role\<close>

definition permissionKeySchema :: "string \<Rightarrow> bool" where
  "permissionKeySchema k \<longleftrightarrow> 1 \<le> length k \<and> length k \<le> 120"

definition currentPermissionKeys :: "db \<Rightarrow> uuid \<Rightarrow> string list" where
  "currentPermissionKeys d rid = role_keys d rid"

text \<open>Keys not in the catalog resolve to nothing.\<close>

definition resolve_keys :: "db \<Rightarrow> string list \<Rightarrow> permission_row list" where
  "resolve_keys d ks = filter (\<lambda>p. perm_key p \<in> set ks) (app_permissions d)"

definition attach_permissions :: "uuid \<Rightarrow> permission_row list \<Rightarrow> db \<Rightarrow> db" where
  "attach_permissions rid ps d =
     d\<lparr>app_role_permissions := insert_missing (map (\<lambda>p. \<lparr>rp_role_id = rid, rp_permission_id = perm_id p\<rparr>) ps)
         (app_role_permissions d)\<rparr>"

definition detach_permissions :: "uuid \<Rightarrow> permission_row list \<Rightarrow> db \<Rightarrow> db" where
  "detach_permissions rid ps d =
     d\<lparr>app_role_permissions := delete_where (\<lambda>x. rp_role_id x = rid \<and> rp_permission_id x \<in> perm_id ` set ps)
         (app_role_permissions d)\<rparr>"

definition role_audit ::
    "millis \<Rightarrow> admin_permission_grant \<Rightarrow> string \<Rightarrow> role_row \<Rightarrow> admin_store \<Rightarrow> admin_store" where
  "role_audit now g event r s = audit_row now g event ''success'' None (role_organization_id r) None s"

definition strips_by_detach :: "db \<Rightarrow> millis \<Rightarrow> string \<Rightarrow> permission_row list \<Rightarrow> bool" where
  "strips_by_detach d now i ps \<longleftrightarrow>
     SUPERADMIN_PERMISSION \<in> perm_key ` set ps \<and>
     wouldStripLastGlobalSuperuser (no_removal\<lparr>rm_role_ids := [i]\<rparr>) d now"

definition role_permissions_POST ::
    "admin_store \<Rightarrow> millis \<Rightarrow> admin_permission_grant \<Rightarrow> string \<Rightarrow> string list option \<Rightarrow>
     admin_store \<times> string list answer" where
  "role_permissions_POST s now g i body =
     (let d = ad_db s
      in if \<not> isUuid i then (s, Deny ''invalid_id'' 400)
         else (case idsSchema permissionKeySchema body of
                 None \<Rightarrow> (s, Deny ''invalid_body'' 400)
               | Some ids \<Rightarrow>
                   (case role_in_reach d g i of
                      None \<Rightarrow> (s, Deny ''not_found'' 404)
                    | Some r \<Rightarrow>
                        if beyond_actor g ids
                        then refuseUnconferrable now g None (role_organization_id r) s
                        else (let s' = with_db (attach_permissions (pg_uuid i) (resolve_keys d ids)) s
                              in (role_audit now g ''admin.role.permissions_changed'' r s',
                                  Served (currentPermissionKeys (ad_db s') (pg_uuid i)))))))"

definition role_permissions_DELETE ::
    "admin_store \<Rightarrow> millis \<Rightarrow> admin_permission_grant \<Rightarrow> string \<Rightarrow> string list option \<Rightarrow>
     admin_store \<times> string list answer" where
  "role_permissions_DELETE s now g i body =
     (let d = ad_db s
      in if \<not> isUuid i then (s, Deny ''invalid_id'' 400)
         else (case idsSchema permissionKeySchema body of
                 None \<Rightarrow> (s, Deny ''invalid_body'' 400)
               | Some ids \<Rightarrow>
                   (case role_in_reach d g i of
                      None \<Rightarrow> (s, Deny ''not_found'' 404)
                    | Some r \<Rightarrow>
                        if beyond_actor g ids
                        then refuseUnconferrable now g None (role_organization_id r) s
                        else if strips_by_detach d now i (resolve_keys d ids)
                        then last_superadmin_refused now g None (role_organization_id r) s
                        else (let s' = with_db (detach_permissions (pg_uuid i) (resolve_keys d ids)) s
                              in (role_audit now g ''admin.role.permissions_changed'' r s',
                                  Served (currentPermissionKeys (ad_db s') (pg_uuid i)))))))"

definition role_permissions_PATCH ::
    "admin_store \<Rightarrow> millis \<Rightarrow> admin_permission_grant \<Rightarrow> string \<Rightarrow>
     (string list option \<times> string list option) option \<Rightarrow> admin_store \<times> string list answer" where
  "role_permissions_PATCH s now g i body =
     (let d = ad_db s
      in if \<not> isUuid i then (s, Deny ''invalid_id'' 400)
         else (case dualListPatchSchema permissionKeySchema body of
                 None \<Rightarrow> (s, Deny ''invalid_body'' 400)
               | Some (add, remove) \<Rightarrow>
                   (case role_in_reach d g i of
                      None \<Rightarrow> (s, Deny ''not_found'' 404)
                    | Some r \<Rightarrow>
                        if beyond_actor g add then refuseUnconferrable now g None (role_organization_id r) s
                        else if beyond_actor g remove then refuseUnconferrable now g None (role_organization_id r) s
                        else
                          (let resolved = resolve_keys d (add @ remove);
                               toAdd = filter (\<lambda>p. perm_key p \<in> set add) resolved;
                               toRemove = filter (\<lambda>p. perm_key p \<in> set remove) resolved
                           in if strips_by_detach d now i toRemove
                              then last_superadmin_refused now g None (role_organization_id r) s
                              else (let s' = with_db (\<lambda>d. detach_permissions (pg_uuid i) toRemove
                                                (attach_permissions (pg_uuid i) toAdd d)) s
                                    in (role_audit now g ''admin.role.permissions_changed'' r s',
                                        Served (currentPermissionKeys (ad_db s') (pg_uuid i))))))))"

subsection \<open>The members of a group\<close>

definition add_group_members :: "uuid \<Rightarrow> uuid list \<Rightarrow> db \<Rightarrow> db" where
  "add_group_members gid uids d =
     d\<lparr>app_group_memberships := insert_missing
         (map (\<lambda>u. \<lparr>gm_group_id = gid, gm_app_user_id = u\<rparr>) uids) (app_group_memberships d)\<rparr>"

definition remove_group_members :: "uuid \<Rightarrow> uuid list \<Rightarrow> db \<Rightarrow> db" where
  "remove_group_members gid uids d =
     d\<lparr>app_group_memberships := delete_where (\<lambda>x. gm_group_id x = gid \<and> gm_app_user_id x \<in> set uids)
         (app_group_memberships d)\<rparr>"

definition group_members_POST ::
    "admin_store \<Rightarrow> millis \<Rightarrow> admin_permission_grant \<Rightarrow> string \<Rightarrow> string list option \<Rightarrow> admin_store \<times> nat answer" where
  "group_members_POST s now g i body =
     (let d = ad_db s
      in if \<not> isUuid i then (s, Deny ''invalid_id'' 400)
         else (case idsSchema isUuid body of
                 None \<Rightarrow> (s, Deny ''invalid_body'' 400)
               | Some ids \<Rightarrow>
                   (case group_in_reach d g i of
                      None \<Rightarrow> (s, Deny ''not_found'' 404)
                    | Some x \<Rightarrow>
                        if beyond_actor g (permissionKeysForGroup d (grp_id x))
                        then refuseUnconferrable now g None (Some (grp_organization_id x)) s
                        else (let eligible = grantEligibleUserIds d (grp_organization_id x) (map pg_uuid ids)
                              in if eligible = [] then (s, Deny ''user_not_found'' 404)
                                 else (group_audit now g ''admin.group.members_added'' x
                                         (with_db (add_group_members (pg_uuid i) eligible) s),
                                       Served (length eligible))))))"

definition group_members_DELETE ::
    "admin_store \<Rightarrow> millis \<Rightarrow> admin_permission_grant \<Rightarrow> string \<Rightarrow> string list option \<Rightarrow> admin_store \<times> nat answer" where
  "group_members_DELETE s now g i body =
     (let d = ad_db s
      in if \<not> isUuid i then (s, Deny ''invalid_id'' 400)
         else (case idsSchema isUuid body of
                 None \<Rightarrow> (s, Deny ''invalid_body'' 400)
               | Some ids \<Rightarrow>
                   (case group_in_reach d g i of
                      None \<Rightarrow> (s, Deny ''not_found'' 404)
                    | Some x \<Rightarrow>
                        if beyond_actor g (permissionKeysForGroup d (grp_id x))
                        then refuseUnconferrable now g None (Some (grp_organization_id x)) s
                        else (group_audit now g ''admin.group.members_removed'' x
                                (with_db (remove_group_members (pg_uuid i) (map pg_uuid ids)) s),
                              Served (length ids)))))"

text \<open>The same two changes from the side of the user.\<close>

definition groupBodySchema :: "string option \<Rightarrow> string option" where
  "groupBodySchema body = (case body of Some gid \<Rightarrow> if isUuid gid then body else None | None \<Rightarrow> None)"

definition member_audit ::
    "millis \<Rightarrow> admin_permission_grant \<Rightarrow> string \<Rightarrow> group_row \<Rightarrow> uuid \<Rightarrow> admin_store \<Rightarrow> admin_store" where
  "member_audit now g event x uid s =
     audit_row now g event ''success'' (Some uid) (Some (grp_organization_id x)) None s"

definition user_groups_POST ::
    "admin_store \<Rightarrow> millis \<Rightarrow> admin_permission_grant \<Rightarrow> string \<Rightarrow> string option \<Rightarrow> admin_store \<times> unit answer" where
  "user_groups_POST s now g i body =
     (let d = ad_db s
      in case resolveTargetUser d (ag_access g) i of
           Inl failure \<Rightarrow> (s, target_refusal failure)
         | Inr target \<Rightarrow>
             (case groupBodySchema body of
                None \<Rightarrow> (s, Deny ''invalid_body'' 400)
              | Some gid \<Rightarrow>
                  (case group_in_reach d g gid of
                     None \<Rightarrow> (s, Deny ''group_not_found'' 404)
                   | Some x \<Rightarrow>
                       if beyond_actor g (permissionKeysForGroup d (grp_id x))
                       then refuseUnconferrable now g (Some (tg_appUserId target)) (Some (grp_organization_id x)) s
                       else if \<not> userIsGrantEligible d (tg_appUserId target) (grp_organization_id x)
                       then (s, Deny ''user_not_found'' 404)
                       else (member_audit now g ''admin.group.members_added'' x (tg_appUserId target)
                               (with_db (add_group_members (grp_id x) [tg_appUserId target]) s),
                             Served ()))))"

definition user_groups_DELETE ::
    "admin_store \<Rightarrow> millis \<Rightarrow> admin_permission_grant \<Rightarrow> string \<Rightarrow> string option \<Rightarrow> admin_store \<times> unit answer" where
  "user_groups_DELETE s now g i body =
     (let d = ad_db s
      in case resolveTargetUser d (ag_access g) i of
           Inl failure \<Rightarrow> (s, target_refusal failure)
         | Inr target \<Rightarrow>
             (case groupBodySchema body of
                None \<Rightarrow> (s, Deny ''invalid_body'' 400)
              | Some gid \<Rightarrow>
                  (case group_in_reach d g gid of
                     None \<Rightarrow> (s, Deny ''group_not_found'' 404)
                   | Some x \<Rightarrow>
                       if beyond_actor g (permissionKeysForGroup d (grp_id x))
                       then refuseUnconferrable now g (Some (tg_appUserId target)) (Some (grp_organization_id x)) s
                       else (member_audit now g ''admin.group.members_removed'' x (tg_appUserId target)
                               (with_db (remove_group_members (grp_id x) [tg_appUserId target]) s),
                             Served ()))))"

subsection \<open>Roles\<close>

text \<open>The keys the schemas of roles, groups and permissions accept.\<close>

definition key_char :: "char \<Rightarrow> bool" where
  "key_char c \<longleftrightarrow>
     (CHR ''a'' \<le> c \<and> c \<le> CHR ''z'') \<or> (CHR ''A'' \<le> c \<and> c \<le> CHR ''Z'') \<or> is_digit c \<or> c \<in> set ''_.-:''"

definition catalogKeySchema :: "string \<Rightarrow> bool" where
  "catalogKeySchema k \<longleftrightarrow> 1 \<le> length k \<and> length k \<le> 120 \<and> list_all key_char k"

definition key_taken :: "db \<Rightarrow> uuid option \<Rightarrow> string \<Rightarrow> bool" where
  "key_taken d oid k \<longleftrightarrow> (\<exists>r \<in> set (app_roles d). role_organization_id r = oid \<and> role_key r = k)"

definition createRoleSchema :: "(string \<times> string option) option \<Rightarrow> (string \<times> string option) option" where
  "createRoleSchema body =
     (case body of
        None \<Rightarrow> None
      | Some (k, oid) \<Rightarrow> if catalogKeySchema k \<and> (case oid of None \<Rightarrow> True | Some x \<Rightarrow> isUuid x) then body else None)"

definition add_role :: "role_row \<Rightarrow> db \<Rightarrow> db" where
  "add_role r d = d\<lparr>app_roles := app_roles d @ [r]\<rparr>"

definition roles_POST ::
    "admin_store \<Rightarrow> millis \<Rightarrow> admin_permission_grant \<Rightarrow> uuid \<Rightarrow> (string \<times> string option) option \<Rightarrow>
     admin_store \<times> (uuid \<times> string) answer" where
  "roles_POST s now g new body =
     (let d = ad_db s; access = ag_access g
      in case createRoleSchema body of
           None \<Rightarrow> (s, Deny ''invalid_body'' 400)
         | Some (k, oid) \<Rightarrow>
             if \<not> hasCrossOrgReach access \<and> (oid = None \<or> \<not> canAccessOrg access oid)
             then refuseWithoutCrossOrgReach now g s
             else if key_taken d (map_option pg_uuid oid) k then (s, Deny ''key_taken'' 409)
             else if (case oid of None \<Rightarrow> False | Some x \<Rightarrow> org_by_id d x = None) then (s, Deny ''organization_not_found'' 404)
             else (let r = \<lparr>role_id = new, role_organization_id = map_option pg_uuid oid, role_key = k\<rparr>
                   in (role_audit now g ''admin.role.created'' r (with_db (add_role r) s), Served (new, k))))"

text \<open>\<open>String(i)\<close>.\<close>

fun decimal :: "nat \<Rightarrow> string" where
  "decimal n = (if n < 10 then [''0123456789'' ! n] else decimal (n div 10) @ [''0123456789'' ! (n mod 10)])"

declare decimal.simps [simp del]

lemma decimal_digit: "m < 10 \<Longrightarrow> of_char (''0123456789'' ! m) = (48 + int m)"
proof -
  assume "m < 10"
  then have "m = 0 \<or> m = 1 \<or> m = 2 \<or> m = 3 \<or> m = 4 \<or> m = 5 \<or> m = 6 \<or> m = 7 \<or> m = 8 \<or> m = 9" by arith
  then show ?thesis by (elim disjE) simp_all
qed

lemma decimal_reads_back: "digits_value (decimal n) = int n"
proof (induction n rule: decimal.induct)
  case (1 n)
  show ?case
  proof (cases "n < 10")
    case True
    then show ?thesis by (subst decimal.simps) (simp add: digits_value_def decimal_digit del: nth_Cons_numeral)
  next
    case False
    with 1 have ih: "digits_value (decimal (n div 10)) = int (n div 10)" by simp
    have "digits_value (decimal n) = 10 * digits_value (decimal (n div 10)) + int (n mod 10)"
      using False by (subst decimal.simps) (simp add: digits_value_def decimal_digit del: nth_Cons_numeral)
    then show ?thesis unfolding ih by (simp add: zdiv_int zmod_int)
  qed
qed

lemma decimal_inject [simp]: "decimal m = decimal n \<longleftrightarrow> m = n"
  by (metis decimal_reads_back of_nat_eq_iff)

text \<open>\<open>while (taken.has(`${source.key}-copy-${i}`)) i++\<close>: it passes each key taken at most once.\<close>

definition numbered_copy :: "string \<Rightarrow> nat \<Rightarrow> string" where
  "numbered_copy base i = base @ ''-'' @ decimal i"

function first_free_copy :: "string list \<Rightarrow> string \<Rightarrow> nat \<Rightarrow> nat" where
  "first_free_copy taken base i =
     (if numbered_copy base i \<in> set taken then first_free_copy taken base (Suc i) else i)"
  by pat_completeness auto

termination
proof (relation "measure (\<lambda>(taken, base, i). card {x \<in> set taken. \<exists>j \<ge> i. x = numbered_copy base j})")
  fix taken :: "string list" and base i
  assume t: "numbered_copy base i \<in> set taken"
  let ?S = "\<lambda>i. {x \<in> set taken. \<exists>j \<ge> i. x = numbered_copy base j}"
  have "?S (Suc i) \<subset> ?S i"
  proof (rule psubsetI)
    show "?S (Suc i) \<subseteq> ?S i" using Suc_leD by blast
    have "numbered_copy base i \<in> ?S i" "numbered_copy base i \<notin> ?S (Suc i)"
      using t by (auto simp: numbered_copy_def)
    then show "?S (Suc i) \<noteq> ?S i" by blast
  qed
  then show "((taken, base, Suc i), taken, base, i) \<in>
      measure (\<lambda>(taken, base, i). card {x \<in> set taken. \<exists>j \<ge> i. x = numbered_copy base j})"
    by (auto intro!: psubset_card_mono)
qed simp

definition copy_key :: "string list \<Rightarrow> string \<Rightarrow> string" where
  "copy_key taken key =
     (let base = key @ ''-copy''
      in if base \<in> set taken then numbered_copy base (first_free_copy taken base 2) else base)"

declare first_free_copy.simps [simp del]

lemma first_free_is_free: "numbered_copy base (first_free_copy taken base i) \<notin> set taken"
proof (induction taken base i rule: first_free_copy.induct)
  case (1 taken base i)
  then show ?case
    by (cases "numbered_copy base i \<in> set taken") (simp_all add: first_free_copy.simps [of taken base i])
qed

lemma copy_key_free: "copy_key taken key \<notin> set taken"
  by (simp add: copy_key_def Let_def first_free_is_free)

text \<open>
  The candidates are those of the role's organization. The pattern of the statement may match
  more keys than the prefix does (a key may hold the wildcard \<open>_\<close>), but only keys with the prefix
  are looked up.
\<close>

definition copy_candidates :: "db \<Rightarrow> role_row \<Rightarrow> string list" where
  "copy_candidates d r =
     map role_key (filter (\<lambda>x. role_organization_id x = role_organization_id r \<and>
        starts_with (role_key x) (role_key r @ ''-copy'')) (app_roles d))"

definition copy_permissions :: "uuid \<Rightarrow> uuid \<Rightarrow> db \<Rightarrow> db" where
  "copy_permissions source new d =
     d\<lparr>app_role_permissions := app_role_permissions d @
         map (\<lambda>x. x\<lparr>rp_role_id := new\<rparr>) (filter (\<lambda>x. rp_role_id x = source) (app_role_permissions d))\<rparr>"

definition role_duplicate_POST ::
    "admin_store \<Rightarrow> millis \<Rightarrow> admin_permission_grant \<Rightarrow> uuid \<Rightarrow> string \<Rightarrow> admin_store \<times> (uuid \<times> string) answer" where
  "role_duplicate_POST s now g new i =
     (let d = ad_db s
      in if \<not> isUuid i then (s, Deny ''invalid_id'' 400)
         else (case role_in_reach d g i of
                 None \<Rightarrow> (s, Deny ''not_found'' 404)
               | Some source \<Rightarrow>
                   if beyond_actor g (permissionKeysForRoles d [role_id source])
                   then refuseUnconferrable now g None (role_organization_id source) s
                   else (let k = copy_key (copy_candidates d source) (role_key source);
                             r = \<lparr>role_id = new, role_organization_id = role_organization_id source, role_key = k\<rparr>
                         in if length k > 120 then (s, Deny ''key_taken'' 409)
                            else (role_audit now g ''admin.role.duplicated'' source
                                    (with_db (\<lambda>d. copy_permissions (role_id source) new (add_role r d)) s),
                                  Served (new, k)))))"

definition assertRoleNotInUse :: "db \<Rightarrow> uuid \<Rightarrow> bool" where
  "assertRoleNotInUse d rid \<longleftrightarrow>
     count_where (\<lambda>x. ur_role_id x = rid) (app_user_roles d) = 0 \<and>
     count_where (\<lambda>x. gr_role_id x = rid) (app_group_roles d) = 0"

definition delete_role :: "uuid \<Rightarrow> db \<Rightarrow> db" where
  "delete_role rid d =
     d\<lparr>app_role_permissions := delete_where (\<lambda>x. rp_role_id x = rid) (app_role_permissions d),
       app_roles := delete_where (\<lambda>x. role_id x = rid) (app_roles d)\<rparr>"

text \<open>Whether a row of a table that is not kept here refers to the role is an input.\<close>

definition role_DELETE ::
    "admin_store \<Rightarrow> millis \<Rightarrow> admin_permission_grant \<Rightarrow> bool \<Rightarrow> string \<Rightarrow> admin_store \<times> unit answer" where
  "role_DELETE s now g referenced i =
     (let d = ad_db s
      in if \<not> isUuid i then (s, Deny ''invalid_id'' 400)
         else (case role_in_reach d g i of
                 None \<Rightarrow> (s, Deny ''not_found'' 404)
               | Some r \<Rightarrow>
                   if \<not> assertRoleNotInUse d (pg_uuid i) \<or> referenced
                   then (audit_row now g ''admin.role.delete_blocked'' ''denied'' None (role_organization_id r)
                           (Some ''role_in_use'') s, Deny ''role_in_use'' 409)
                   else (role_audit now g ''admin.role.deleted'' r (with_db (delete_role (pg_uuid i)) s), Served ())))"

subsection \<open>Groups and permissions\<close>

definition createGroupSchema :: "(string \<times> string option) option \<Rightarrow> (string \<times> string option) option" where
  "createGroupSchema = createRoleSchema"

text \<open>The key of a group is not kept; whether the organization already has it is an input.\<close>

definition groups_POST ::
    "admin_store \<Rightarrow> millis \<Rightarrow> admin_permission_grant \<Rightarrow> uuid \<Rightarrow> bool \<Rightarrow> (string \<times> string option) option \<Rightarrow>
     admin_store \<times> (uuid \<times> string) answer" where
  "groups_POST s now g new keyTaken body =
     (let d = ad_db s; access = ag_access g
      in case createGroupSchema body of
           None \<Rightarrow> (s, Deny ''invalid_body'' 400)
         | Some (k, requested) \<Rightarrow>
             (case resolveOrgScope access of
                None \<Rightarrow> (s, Deny ''forbidden'' 403)
              | Some scope \<Rightarrow>
                  (case (case scope of OneOrg x \<Rightarrow> Some x | AllOrgs \<Rightarrow> requested) of
                     None \<Rightarrow> (s, Deny ''organization_required'' 400)
                   | Some oid \<Rightarrow>
                       if org_by_id d oid = None \<or> \<not> canAccessOrg access (Some oid)
                       then (s, if hasCrossOrgReach access then Deny ''organization_not_found'' 404 else Deny ''forbidden'' 403)
                       else if keyTaken then (s, Deny ''key_taken'' 409)
                       else (let x = \<lparr>grp_id = new, grp_organization_id = pg_uuid oid\<rparr>
                             in (group_audit now g ''admin.group.created'' x
                                   (with_db (\<lambda>d. d\<lparr>app_groups := app_groups d @ [x]\<rparr>) s),
                                 Served (new, k))))))"

text \<open>The row takes its roles and its members along (\<open>on delete cascade\<close>).\<close>

definition delete_group :: "uuid \<Rightarrow> db \<Rightarrow> db" where
  "delete_group gid d =
     d\<lparr>app_groups := delete_where (\<lambda>x. grp_id x = gid) (app_groups d),
       app_group_roles := delete_where (\<lambda>x. gr_group_id x = gid) (app_group_roles d),
       app_group_memberships := delete_where (\<lambda>x. gm_group_id x = gid) (app_group_memberships d)\<rparr>"

definition group_DELETE ::
    "admin_store \<Rightarrow> millis \<Rightarrow> admin_permission_grant \<Rightarrow> string \<Rightarrow> admin_store \<times> unit answer" where
  "group_DELETE s now g i =
     (let d = ad_db s
      in if \<not> isUuid i then (s, Deny ''invalid_id'' 400)
         else (case group_in_reach d g i of
                 None \<Rightarrow> (s, Deny ''not_found'' 404)
               | Some x \<Rightarrow>
                   if beyond_actor g (permissionKeysForGroup d (grp_id x))
                   then (audit_row now g ''admin.group.delete_denied'' ''denied'' None
                           (Some (grp_organization_id x)) (Some UNHELD_PERMISSIONS_REASON) s, Deny ''forbidden'' 403)
                   else (group_audit now g ''admin.group.deleted'' x (with_db (delete_group (pg_uuid i)) s), Served ())))"

definition permissions_POST ::
    "admin_store \<Rightarrow> millis \<Rightarrow> admin_permission_grant \<Rightarrow> uuid \<Rightarrow> string option \<Rightarrow>
     admin_store \<times> (uuid \<times> string) answer" where
  "permissions_POST s now g new body =
     (if \<not> hasCrossOrgReach (ag_access g) then refuseWithoutCrossOrgReach now g s
      else (case body of
              None \<Rightarrow> (s, Deny ''invalid_body'' 400)
            | Some k \<Rightarrow>
                if \<not> catalogKeySchema k then (s, Deny ''invalid_body'' 400)
                else if (\<exists>p \<in> set (app_permissions (ad_db s)). perm_key p = k) then (s, Deny ''key_taken'' 409)
                else (audit_row now g ''admin.permission.created'' ''success'' None None None
                        (with_db (\<lambda>d. d\<lparr>app_permissions := app_permissions d @ [\<lparr>perm_id = new, perm_key = k\<rparr>]\<rparr>) s),
                      Served (new, k))))"

definition assertPermissionNotInUse :: "db \<Rightarrow> uuid \<Rightarrow> bool" where
  "assertPermissionNotInUse d pid \<longleftrightarrow> count_where (\<lambda>x. rp_permission_id x = pid) (app_role_permissions d) = 0"

definition permission_DELETE ::
    "admin_store \<Rightarrow> millis \<Rightarrow> admin_permission_grant \<Rightarrow> bool \<Rightarrow> string \<Rightarrow> admin_store \<times> unit answer" where
  "permission_DELETE s now g referenced i =
     (let d = ad_db s
      in if \<not> hasCrossOrgReach (ag_access g) then refuseWithoutCrossOrgReach now g s
         else if \<not> isUuid i then (s, Deny ''invalid_id'' 400)
         else (case List.find (\<lambda>p. perm_id p = pg_uuid i) (app_permissions d) of
                 None \<Rightarrow> (s, Deny ''not_found'' 404)
               | Some p \<Rightarrow>
                   if \<not> assertPermissionNotInUse d (pg_uuid i) \<or> referenced
                   then (audit_row now g ''admin.permission.delete_blocked'' ''denied'' None None
                           (Some ''permission_in_use'') s, Deny ''permission_in_use'' 409)
                   else (audit_row now g ''admin.permission.deleted'' ''success'' None None None
                           (with_db (\<lambda>d. d\<lparr>app_permissions := delete_where (\<lambda>p. perm_id p = pg_uuid i) (app_permissions d)\<rparr>) s),
                         Served ())))"

end
