(* ===== verification/AdminMembers.thy ===== *)
theory AdminMembers
  imports AdminGrants
begin

text \<open>
  Memberships, from the side of the user (\<open>src/app/api/administrator/users/[id]/memberships\<close>) and
  from the side of the organization (\<open>organizations/[id]/members\<close>): adding one, changing its
  status, and removing it together with the roles and groups the user holds there. The id checks
  of the two schemas are Zod's, so the check is an argument; a new row's id is an input.
\<close>

definition MEMBERSHIP_STATUS_VALUES :: "string list" where
  "MEMBERSHIP_STATUS_VALUES = [''active'', ''pending_approval'', ''blocked'', ''suspended'']"

subsection \<open>Rank\<close>

definition TARGET_OUTRANKS_ACTOR_REASON :: string where
  "TARGET_OUTRANKS_ACTOR_REASON = ''target_outranks_actor''"

definition refuseOutrankingTarget ::
    "millis \<Rightarrow> admin_permission_grant \<Rightarrow> user_target \<Rightarrow> admin_store \<Rightarrow> (admin_store \<times> 'a answer) option" where
  "refuseOutrankingTarget now g target s =
     (if \<not> targetOutranksActor (ad_db s) now (ag_access g) target then None
      else Some (audit_row now g USER_ACTION_DENIED_EVENT ''denied'' (Some (tg_appUserId target))
                   (actingOrganizationId (ag_access g)) (Some TARGET_OUTRANKS_ACTOR_REASON) s,
                 Deny ''forbidden'' 403))"

fun refuse_first_outranking ::
    "millis \<Rightarrow> admin_permission_grant \<Rightarrow> uuid list \<Rightarrow> user_target list \<Rightarrow> admin_store \<Rightarrow>
     (admin_store \<times> 'a answer) option" where
  "refuse_first_outranking now g checked [] s = None"
| "refuse_first_outranking now g checked (m # ms) s =
     (if tg_appUserId m \<in> set checked then refuse_first_outranking now g checked ms s
      else (case refuseOutrankingTarget now g m s of
              Some refused \<Rightarrow> Some refused
            | None \<Rightarrow> refuse_first_outranking now g (tg_appUserId m # checked) ms s))"

definition refuseOutrankedMembers ::
    "millis \<Rightarrow> admin_permission_grant \<Rightarrow> user_target list \<Rightarrow> admin_store \<Rightarrow> (admin_store \<times> 'a answer) option" where
  "refuseOutrankedMembers now g members s = refuse_first_outranking now g [] members s"

subsection \<open>The writes\<close>

definition new_membership :: "uuid \<Rightarrow> uuid \<Rightarrow> uuid \<Rightarrow> string \<Rightarrow> millis \<Rightarrow> membership_row" where
  "new_membership i oid uid st now =
     \<lparr>mb_id = i, mb_organization_id = oid, mb_app_user_id = uid, mb_status = st, mb_source_provider = None,
      mb_provider_organization_key = None, mb_pre_deactivation_status = None, mb_created_at = now\<rparr>"

definition add_membership :: "membership_row \<Rightarrow> db \<Rightarrow> db" where
  "add_membership m d = d\<lparr>app_organization_memberships := app_organization_memberships d @ [m]\<rparr>"

definition set_status_where :: "(membership_row \<Rightarrow> bool) \<Rightarrow> string \<Rightarrow> db \<Rightarrow> db" where
  "set_status_where P st d =
     d\<lparr>app_organization_memberships := update_where P
         (\<lambda>m. m\<lparr>mb_status := st, mb_pre_deactivation_status := None\<rparr>) (app_organization_memberships d)\<rparr>"

text \<open>The direct roles and the groups that leave with the memberships of some users in some organizations.\<close>

definition leaving_roles :: "(uuid \<Rightarrow> uuid \<Rightarrow> bool) \<Rightarrow> db \<Rightarrow> revoked_role_grant list" where
  "leaving_roles P d =
     concat (map (\<lambda>x. map (\<lambda>r. \<lparr>rrg_app_user_id = ur_app_user_id x, rrg_organization_id = ur_organization_id x,
                              rrg_role_id = ur_role_id x, rrg_role_key = role_key r\<rparr>)
                         (filter (\<lambda>r. role_id r = ur_role_id x) (app_roles d)))
       (filter (\<lambda>x. P (ur_app_user_id x) (ur_organization_id x)) (app_user_roles d)))"

definition leaving_groups :: "(uuid \<Rightarrow> uuid \<Rightarrow> bool) \<Rightarrow> db \<Rightarrow> (uuid \<times> uuid \<times> uuid) list" where
  "leaving_groups P d =
     concat (map (\<lambda>x. map (\<lambda>y. (gm_app_user_id x, gm_group_id x, grp_organization_id y))
                         (filter (\<lambda>y. grp_id y = gm_group_id x \<and> P (gm_app_user_id x) (grp_organization_id y)) (app_groups d)))
       (app_group_memberships d))"

definition remove_grants :: "(uuid \<Rightarrow> uuid \<Rightarrow> bool) \<Rightarrow> db \<Rightarrow> db" where
  "remove_grants P d =
     d\<lparr>app_user_roles := delete_where (\<lambda>x. P (ur_app_user_id x) (ur_organization_id x) \<and>
         (\<exists>r \<in> set (app_roles d). role_id r = ur_role_id x)) (app_user_roles d),
       app_group_memberships := delete_where (\<lambda>x. \<exists>y \<in> set (app_groups d). grp_id y = gm_group_id x \<and>
         P (gm_app_user_id x) (grp_organization_id y)) (app_group_memberships d)\<rparr>"

definition remove_memberships :: "(membership_row \<Rightarrow> bool) \<Rightarrow> db \<Rightarrow> db" where
  "remove_memberships P d = d\<lparr>app_organization_memberships := delete_where P (app_organization_memberships d)\<rparr>"

text \<open>The conferral test on what leaves; it reads tables the deletions before it do not write.\<close>

definition unheld_removal ::
    "admin_permission_grant \<Rightarrow> db \<Rightarrow> revoked_role_grant list \<Rightarrow> (uuid \<times> uuid \<times> uuid) list \<Rightarrow> string list" where
  "unheld_removal g d roles groups =
     (if unbounded_actor g then []
      else unheldOnMembershipRemoval
             (unheldPermissionKeys (conferrable_by g)
                (permissionKeysForRoles d (map rrg_role_id roles) @
                 permissionKeysForGroups d (map (\<lambda>(u, gid, oid). gid) groups)))
             (ag_access g) (ag_grantedScopes g))"

definition MEMBERSHIP_REVOCATION_DENIED_EVENT :: string where
  "MEMBERSHIP_REVOCATION_DENIED_EVENT = ''admin.membership.revocation_denied''"

definition revocation_refused ::
    "millis \<Rightarrow> admin_permission_grant \<Rightarrow> uuid option \<Rightarrow> uuid option \<Rightarrow> admin_store \<Rightarrow> admin_store \<times> 'a answer" where
  "revocation_refused now g appUser oid s =
     (audit_row now g MEMBERSHIP_REVOCATION_DENIED_EVENT ''denied'' appUser oid (Some UNHELD_PERMISSIONS_REASON) s,
      Deny ''forbidden'' 403)"

definition auditRemovedMembershipGrants ::
    "millis \<Rightarrow> admin_permission_grant \<Rightarrow> revoked_role_grant list \<Rightarrow> (uuid \<times> uuid \<times> uuid) list \<Rightarrow>
     admin_store \<Rightarrow> admin_store" where
  "auditRemovedMembershipGrants now g roles groups s =
     foldl (\<lambda>s (gid, oid). audit_row now g ''admin.group.members_removed'' ''success'' None (Some oid) None s)
       (foldl (\<lambda>s r. audit_row now g ''admin.user.role_revoked'' ''success'' (Some (rrg_app_user_id r))
                       (Some (rrg_organization_id r)) None s) s roles)
       (js_uniq (map (\<lambda>(u, gid, oid). (gid, oid)) groups))"

subsection \<open>From the side of the user\<close>

definition audit_memberships ::
    "millis \<Rightarrow> admin_permission_grant \<Rightarrow> string \<Rightarrow> string \<Rightarrow> uuid \<Rightarrow> uuid option \<Rightarrow> uuid list \<Rightarrow>
     admin_store \<Rightarrow> admin_store" where
  "audit_memberships now g userEvent orgEvent uid oid oids s =
     foldl (\<lambda>s x. audit_row now g orgEvent ''success'' None (Some x) None s)
       (audit_row now g userEvent ''success'' (Some uid) oid None s) oids"

definition createMembershipSchema ::
    "(string \<Rightarrow> bool) \<Rightarrow> (string \<times> string option) option \<Rightarrow> (string \<times> string option) option" where
  "createMembershipSchema zuuid body =
     (case body of
        None \<Rightarrow> None
      | Some (i, st) \<Rightarrow>
          if zuuid i \<and> (case st of None \<Rightarrow> True | Some x \<Rightarrow> x \<in> set MEMBERSHIP_STATUS_VALUES) then body else None)"

definition membership_exists :: "db \<Rightarrow> uuid \<Rightarrow> uuid \<Rightarrow> bool" where
  "membership_exists d uid oid = userHasMembershipInOrg d uid oid"

definition user_memberships_POST ::
    "(string \<Rightarrow> bool) \<Rightarrow> admin_store \<Rightarrow> millis \<Rightarrow> admin_permission_grant \<Rightarrow> uuid \<Rightarrow> string \<Rightarrow>
     (string \<times> string option) option \<Rightarrow> admin_store \<times> uuid answer" where
  "user_memberships_POST zuuid s now g new i body =
     (let d = ad_db s
      in case resolveTargetUser d (ag_access g) i of
           Inl failure \<Rightarrow> (s, target_refusal failure)
         | Inr target \<Rightarrow>
             (case createMembershipSchema zuuid body of
                None \<Rightarrow> (s, Deny ''invalid_body'' 400)
              | Some (oid, st) \<Rightarrow>
                  (case org_by_id d oid of
                     None \<Rightarrow> (s, Deny ''organization_not_found'' 404)
                   | Some org \<Rightarrow>
                       if \<not> canAccessOrg (ag_access g) (Some oid) then (s, Deny ''organization_not_found'' 404)
                       else if membership_exists d (tg_appUserId target) (pg_uuid oid)
                       then (s, Deny ''membership_exists'' 409)
                       else (audit_memberships now g ''admin.user.membership_added'' ''admin.organization.member_added''
                               (tg_appUserId target) (Some (org_id org)) [org_id org]
                               (with_db (add_membership (new_membership new (pg_uuid oid) (tg_appUserId target)
                                   (case st of None \<Rightarrow> ''active'' | Some x \<Rightarrow> x) now)) s),
                             Served new))))"

definition membershipIdsSchema :: "(string \<Rightarrow> bool) \<Rightarrow> nat option \<Rightarrow> string list \<Rightarrow> bool" where
  "membershipIdsSchema zuuid cap ids \<longleftrightarrow>
     1 \<le> length ids \<and> (case cap of None \<Rightarrow> True | Some n \<Rightarrow> length ids \<le> n) \<and> list_all zuuid ids"

definition patchMembershipSchema ::
    "(string \<Rightarrow> bool) \<Rightarrow> nat option \<Rightarrow> (string list \<times> string) option \<Rightarrow> (string list \<times> string) option" where
  "patchMembershipSchema zuuid cap body =
     (case body of
        None \<Rightarrow> None
      | Some (ids, st) \<Rightarrow> if membershipIdsSchema zuuid cap ids \<and> st \<in> set MEMBERSHIP_STATUS_VALUES then body else None)"

definition deleteMembershipSchema ::
    "(string \<Rightarrow> bool) \<Rightarrow> nat option \<Rightarrow> string list option \<Rightarrow> string list option" where
  "deleteMembershipSchema zuuid cap body =
     (case body of None \<Rightarrow> None | Some ids \<Rightarrow> if membershipIdsSchema zuuid cap ids then body else None)"

definition reachable_memberships ::
    "db \<Rightarrow> admin_permission_grant \<Rightarrow> uuid \<Rightarrow> string list \<Rightarrow> membership_row list" where
  "reachable_memberships d g uid ids =
     filter (\<lambda>m. mb_app_user_id m = uid \<and> mb_id m \<in> pg_uuid ` set ids \<and>
         (\<exists>org \<in> set (app_organizations d). org_id org = mb_organization_id m) \<and>
         (case resolveOrgScope (ag_access g) of Some (OneOrg oid) \<Rightarrow> mb_organization_id m = oid | _ \<Rightarrow> True))
       (app_organization_memberships d)"

definition membership_removal :: "uuid \<Rightarrow> membership_row list \<Rightarrow> superuser_grant_removal" where
  "membership_removal uid ms = no_removal\<lparr>rm_memberships := map (\<lambda>m. (uid, mb_organization_id m)) ms\<rparr>"

definition user_memberships_PATCH ::
    "(string \<Rightarrow> bool) \<Rightarrow> admin_store \<Rightarrow> millis \<Rightarrow> admin_permission_grant \<Rightarrow> string \<Rightarrow>
     (string list \<times> string) option \<Rightarrow> admin_store \<times> nat answer" where
  "user_memberships_PATCH zuuid s now g i body =
     (let d = ad_db s
      in case resolveTargetUser d (ag_access g) i of
           Inl failure \<Rightarrow> (s, target_refusal failure)
         | Inr target \<Rightarrow>
             (case refuseOutrankingTarget now g target s of
                Some refused \<Rightarrow> refused
              | None \<Rightarrow>
                  (case patchMembershipSchema zuuid None body of
                     None \<Rightarrow> (s, Deny ''invalid_body'' 400)
                   | Some (ids, st) \<Rightarrow>
                       let uid = tg_appUserId target; ms = reachable_memberships d g uid ids
                       in if ms = [] then (s, Deny ''membership_not_found'' 404)
                          else if st \<noteq> ''active'' \<and> wouldStripLastGlobalSuperuser (membership_removal uid ms) d now
                          then last_superadmin_refused now g (Some uid) (soleOrganizationId ms) s
                          else (audit_memberships now g ''admin.user.membership_updated'' ''admin.organization.member_updated''
                                  uid (soleOrganizationId ms) (map mb_organization_id ms)
                                  (with_db (set_status_where (\<lambda>m. mb_app_user_id m = uid \<and> mb_id m \<in> mb_id ` set ms) st) s),
                                Served (length ms)))))"

definition user_memberships_DELETE ::
    "(string \<Rightarrow> bool) \<Rightarrow> admin_store \<Rightarrow> millis \<Rightarrow> admin_permission_grant \<Rightarrow> string \<Rightarrow>
     string list option \<Rightarrow> admin_store \<times> nat answer" where
  "user_memberships_DELETE zuuid s now g i body =
     (let d = ad_db s
      in case resolveTargetUser d (ag_access g) i of
           Inl failure \<Rightarrow> (s, target_refusal failure)
         | Inr target \<Rightarrow>
             (case refuseOutrankingTarget now g target s of
                Some refused \<Rightarrow> refused
              | None \<Rightarrow>
                  (case deleteMembershipSchema zuuid None body of
                     None \<Rightarrow> (s, Deny ''invalid_body'' 400)
                   | Some ids \<Rightarrow>
                       let uid = tg_appUserId target; ms = reachable_memberships d g uid ids;
                           there = (\<lambda>u oid. u = uid \<and> oid \<in> mb_organization_id ` set ms);
                           roles = leaving_roles there d; groups = leaving_groups there d
                       in if ms = [] then (s, Deny ''membership_not_found'' 404)
                          else if wouldStripLastGlobalSuperuser (membership_removal uid ms) d now
                          then last_superadmin_refused now g (Some uid) (soleOrganizationId ms) s
                          else if unheld_removal g d roles groups \<noteq> []
                          then revocation_refused now g (Some uid) (soleOrganizationId ms) s
                          else (auditRemovedMembershipGrants now g roles groups
                                  (audit_memberships now g ''admin.user.membership_removed'' ''admin.organization.members_removed''
                                     uid (soleOrganizationId ms) (map mb_organization_id ms)
                                     (with_db (\<lambda>d. remove_memberships (\<lambda>m. mb_app_user_id m = uid \<and> mb_id m \<in> mb_id ` set ms)
                                                     (remove_grants there d)) s)),
                                Served (length ms)))))"

subsection \<open>From the side of the organization\<close>

definition loadScopedOrg :: "db \<Rightarrow> admin_permission_grant \<Rightarrow> string \<Rightarrow> 'a answer + org_row" where
  "loadScopedOrg d g i =
     (if \<not> isUuid i then Inl (Deny ''invalid_id'' 400)
      else (case org_by_id d i of
              None \<Rightarrow> Inl (Deny ''organization_not_found'' 404)
            | Some org \<Rightarrow> if \<not> canAccessOrg (ag_access g) (Some i) then Inl (Deny ''organization_not_found'' 404) else Inr org))"

definition loadScopedMembers :: "db \<Rightarrow> string \<Rightarrow> string list \<Rightarrow> (membership_row \<times> app_user_row) list" where
  "loadScopedMembers d i ids =
     concat (map (\<lambda>m. map (\<lambda>u. (m, u)) (filter (\<lambda>u. au_id u = mb_app_user_id m) (app_users d)))
       (filter (\<lambda>m. mb_organization_id m = pg_uuid i \<and> mb_id m \<in> pg_uuid ` set ids) (app_organization_memberships d)))"

definition audit_members ::
    "millis \<Rightarrow> admin_permission_grant \<Rightarrow> string \<Rightarrow> string \<Rightarrow> uuid list \<Rightarrow> uuid \<Rightarrow> admin_store \<Rightarrow> admin_store" where
  "audit_members now g orgEvent userEvent uids oid s =
     foldl (\<lambda>s u. audit_row now g userEvent ''success'' (Some u) (Some oid) None s)
       (audit_row now g orgEvent ''success'' None (Some oid) None s) uids"

definition org_members_POST ::
    "(string \<Rightarrow> bool) \<Rightarrow> admin_store \<Rightarrow> millis \<Rightarrow> admin_permission_grant \<Rightarrow> uuid \<Rightarrow> string \<Rightarrow>
     (string \<times> string option) option \<Rightarrow> admin_store \<times> uuid answer" where
  "org_members_POST zuuid s now g new i body =
     (let d = ad_db s
      in case loadScopedOrg d g i of
           Inl refused \<Rightarrow> (s, refused)
         | Inr org \<Rightarrow>
             (case createMembershipSchema zuuid body of
                None \<Rightarrow> (s, Deny ''invalid_body'' 400)
              | Some (uid, st) \<Rightarrow>
                  if List.find (\<lambda>u. au_id u = pg_uuid uid) (app_users d) = None then (s, Deny ''user_not_found'' 404)
                  else if membership_exists d (pg_uuid uid) (pg_uuid i) then (s, Deny ''membership_exists'' 409)
                  else (audit_members now g ''admin.organization.member_added'' ''admin.user.membership_added''
                          [pg_uuid uid] (pg_uuid i)
                          (with_db (add_membership (new_membership new (pg_uuid i) (pg_uuid uid)
                              (case st of None \<Rightarrow> ''active'' | Some x \<Rightarrow> x) now)) s),
                        Served new)))"

text \<open>The removal is described with the organization's id as the path spelled it.\<close>

definition members_removal :: "string \<Rightarrow> membership_row list \<Rightarrow> superuser_grant_removal" where
  "members_removal i ms = no_removal\<lparr>rm_memberships := map (\<lambda>m. (mb_app_user_id m, i)) ms\<rparr>"

definition org_members_PATCH ::
    "(string \<Rightarrow> bool) \<Rightarrow> admin_store \<Rightarrow> millis \<Rightarrow> admin_permission_grant \<Rightarrow> string \<Rightarrow>
     (string list \<times> string) option \<Rightarrow> admin_store \<times> nat answer" where
  "org_members_PATCH zuuid s now g i body =
     (let d = ad_db s
      in case loadScopedOrg d g i of
           Inl refused \<Rightarrow> (s, refused)
         | Inr org \<Rightarrow>
             (case patchMembershipSchema zuuid (Some MAX_BULK_IDS) body of
                None \<Rightarrow> (s, Deny ''invalid_body'' 400)
              | Some (ids, st) \<Rightarrow>
                  let members = loadScopedMembers d i ids; ms = map fst members
                  in if members = [] then (s, Deny ''membership_not_found'' 404)
                     else (case refuseOutrankedMembers now g (map (target_of \<circ> snd) members) s of
                             Some refused \<Rightarrow> refused
                           | None \<Rightarrow>
                               if st \<noteq> ''active'' \<and> wouldStripLastGlobalSuperuser (members_removal i ms) d now
                               then last_superadmin_refused now g None (Some (pg_uuid i)) s
                               else (audit_members now g ''admin.organization.member_updated'' ''admin.user.membership_updated''
                                       (map mb_app_user_id ms) (pg_uuid i)
                                       (with_db (set_status_where (\<lambda>m. mb_id m \<in> pg_uuid ` set ids \<and>
                                            mb_organization_id m = pg_uuid i) st) s),
                                     Served (length members)))))"

definition org_members_DELETE ::
    "(string \<Rightarrow> bool) \<Rightarrow> admin_store \<Rightarrow> millis \<Rightarrow> admin_permission_grant \<Rightarrow> string \<Rightarrow>
     string list option \<Rightarrow> admin_store \<times> nat answer" where
  "org_members_DELETE zuuid s now g i body =
     (let d = ad_db s
      in case loadScopedOrg d g i of
           Inl refused \<Rightarrow> (s, refused)
         | Inr org \<Rightarrow>
             (case deleteMembershipSchema zuuid (Some MAX_BULK_IDS) body of
                None \<Rightarrow> (s, Deny ''invalid_body'' 400)
              | Some ids \<Rightarrow>
                  let members = loadScopedMembers d i ids; ms = map fst members
                  in if members = [] then (s, Deny ''membership_not_found'' 404)
                     else (case refuseOutrankedMembers now g (map (target_of \<circ> snd) members) s of
                             Some refused \<Rightarrow> refused
                           | None \<Rightarrow>
                               let there = (\<lambda>u oid. u \<in> mb_app_user_id ` set ms \<and> oid = pg_uuid i);
                                   roles = leaving_roles there d; groups = leaving_groups there d
                               in if wouldStripLastGlobalSuperuser (members_removal i ms) d now
                                  then last_superadmin_refused now g None (Some (pg_uuid i)) s
                                  else if unheld_removal g d roles groups \<noteq> []
                                  then revocation_refused now g None (Some (pg_uuid i)) s
                                  else (auditRemovedMembershipGrants now g roles groups
                                          (audit_members now g ''admin.organization.members_removed'' ''admin.user.membership_removed''
                                             (map mb_app_user_id ms) (pg_uuid i)
                                             (with_db (\<lambda>d. remove_memberships (\<lambda>m. mb_id m \<in> pg_uuid ` set ids \<and>
                                                  mb_organization_id m = pg_uuid i) (remove_grants there d)) s)),
                                        Served (length members)))))"

end
