(* ===== verification/AdminOrgs.thy ===== *)
theory AdminOrgs
  imports AdminMembers AuthPolicy
begin

text \<open>
  The organizations themselves (\<open>src/app/api/administrator/organizations/route.ts\<close> and
  \<open>organizations/[id]/route.ts\<close>), the default flag they pass around
  (\<open>src/lib/default-organization.server.ts\<close>) and the version checks of an update
  (\<open>src/lib/api-auth/etag.ts\<close>, \<open>src/lib/admin/record-etag.server.ts\<close>). The digest of an entity
  tag is an argument.
\<close>

subsection \<open>Entity tags\<close>

text \<open>What \<open>JSON.stringify\<close> and the digest see of an organization, and of nothing else.\<close>

type_synonym org_fields = "uuid \<times> string \<times> string \<times> string \<times> bool"

definition contentEtag :: "('v \<Rightarrow> string) \<Rightarrow> 'v \<Rightarrow> string" where
  "contentEtag digest parts = ''W/'' @ [CHR 0x22] @ digest parts @ [CHR 0x22]"

definition org_version :: "org_row \<Rightarrow> org_fields" where
  "org_version r = (org_id r, org_slug r, org_name r, org_status r, org_is_default r)"

definition organizationEtag :: "(org_fields \<Rightarrow> string) \<Rightarrow> org_row \<Rightarrow> string" where
  "organizationEtag digest r = contentEtag digest (org_version r)"

definition if_match_candidates :: "string \<Rightarrow> string list" where
  "if_match_candidates v = map trim (split_on (CHR '','') v)"

definition ifMatchSatisfied :: "string option \<Rightarrow> string \<Rightarrow> bool" where
  "ifMatchSatisfied ifMatch current \<longleftrightarrow>
     (if \<not> truthy ifMatch then True
      else if ''*'' \<in> set (if_match_candidates (the ifMatch)) then True
      else current \<in> set (if_match_candidates (the ifMatch)))"

definition ifMatchPinsVersion :: "string option \<Rightarrow> bool" where
  "ifMatchPinsVersion ifMatch \<longleftrightarrow> truthy ifMatch \<and> ''*'' \<notin> set (if_match_candidates (the ifMatch))"

subsection \<open>The default flag\<close>

definition set_default_flag :: "(uuid \<Rightarrow> bool) \<Rightarrow> bool \<Rightarrow> db \<Rightarrow> db" where
  "set_default_flag P b d =
     d\<lparr>app_organizations := update_where (\<lambda>r. P (org_id r)) (\<lambda>r. r\<lparr>org_is_default := b\<rparr>) (app_organizations d)\<rparr>"

text \<open>\<open>None\<close> for an organization that is gone.\<close>

definition moveDefaultOrganizationFlag :: "uuid \<Rightarrow> db \<Rightarrow> db option" where
  "moveDefaultOrganizationFlag oid d =
     (if List.find (\<lambda>r. org_id r = oid) (app_organizations d) = None then None
      else Some (set_default_flag (\<lambda>x. x = oid) True (set_default_flag (\<lambda>x. x \<noteq> oid) False d)))"

text \<open>
  \<open>None\<close> for the organization that sign-ups resolve to. The comparison is of the id as the
  request spelled it with the id of the row.
\<close>

definition clearDefaultOrganizationFlag :: "string \<Rightarrow> db \<Rightarrow> db option" where
  "clearDefaultOrganizationFlag oid d =
     (if map_option org_id (getDefaultOrganization d) = Some oid then None
      else Some (set_default_flag (\<lambda>x. x = pg_uuid oid) False d))"

subsection \<open>Creation\<close>

definition slug_char :: "char \<Rightarrow> bool" where
  "slug_char c \<longleftrightarrow> (CHR ''a'' \<le> c \<and> c \<le> CHR ''z'') \<or> is_digit c"

definition SLUG_RE :: "string \<Rightarrow> bool" where
  "SLUG_RE v \<longleftrightarrow>
     1 \<le> length v \<and> length v \<le> 64 \<and> slug_char (hd v) \<and> slug_char (last v) \<and>
     list_all (\<lambda>c. slug_char c \<or> c = CHR ''-'') v"

definition org_name_schema :: "string \<Rightarrow> string option" where
  "org_name_schema v = (let n = trim v in if 1 \<le> length n \<and> length n \<le> 200 then Some n else None)"

definition slug_taken :: "db \<Rightarrow> string \<Rightarrow> bool" where
  "slug_taken d v \<longleftrightarrow> (\<exists>r \<in> set (app_organizations d). org_slug r = v)"

record org_create_body =
  oc_body_slug :: string
  oc_body_name :: string
  oc_body_isDefault :: "bool option"

definition organizations_POST ::
    "admin_store \<Rightarrow> millis \<Rightarrow> admin_permission_grant \<Rightarrow> uuid \<Rightarrow> org_create_body option \<Rightarrow>
     admin_store \<times> (uuid \<times> string) answer" where
  "organizations_POST s now g new body =
     (let d = ad_db s
      in if \<not> hasCrossOrgReach (ag_access g) then refuseWithoutCrossOrgReach now g s
         else (case body of
                 None \<Rightarrow> (s, Deny ''invalid_body'' 400)
               | Some b \<Rightarrow>
                   (case org_name_schema (oc_body_name b) of
                      None \<Rightarrow> (s, Deny ''invalid_body'' 400)
                    | Some n \<Rightarrow>
                        if \<not> SLUG_RE (oc_body_slug b) then (s, Deny ''invalid_body'' 400)
                        else if slug_taken d (oc_body_slug b) then (s, Deny ''slug_taken'' 409)
                        else
                          (let row = \<lparr>org_id = new, org_slug = oc_body_slug b, org_name = n, org_status = ''active'',
                                      org_is_default = False, org_created_at = now\<rparr>;
                               d1 = d\<lparr>app_organizations := app_organizations d @ [row]\<rparr>;
                               d2 = (if oc_body_isDefault b = Some True
                                     then (case moveDefaultOrganizationFlag new d1 of None \<Rightarrow> d1 | Some x \<Rightarrow> x)
                                     else d1)
                           in (audit_row now g ''admin.organization.created'' ''success'' None (Some new) None
                                 (with_db (\<lambda>_. d2) s),
                               Served (new, oc_body_slug b))))))"

subsection \<open>Update\<close>

definition ORGANIZATION_STATUSES :: "string list" where
  "ORGANIZATION_STATUSES = [''active'', ''pending'', ''suspended'', ''archived'']"

record org_update_body =
  ou_slug :: "string option"
  ou_name :: "string option"
  ou_status :: "string option"
  ou_isDefault :: "bool option"

definition updateOrganizationSchema :: "org_update_body option \<Rightarrow> org_update_body option" where
  "updateOrganizationSchema body =
     (case body of
        None \<Rightarrow> None
      | Some b \<Rightarrow>
          if (case ou_slug b of None \<Rightarrow> True | Some v \<Rightarrow> SLUG_RE v) \<and>
             (case ou_name b of None \<Rightarrow> True | Some v \<Rightarrow> org_name_schema v \<noteq> None) \<and>
             (case ou_status b of None \<Rightarrow> True | Some v \<Rightarrow> v \<in> set ORGANIZATION_STATUSES)
          then Some (b\<lparr>ou_name := Option.bind (ou_name b) org_name_schema\<rparr>) else None)"

definition apply_org_update :: "org_update_body \<Rightarrow> org_row \<Rightarrow> org_row" where
  "apply_org_update b r =
     r\<lparr>org_slug := (case ou_slug b of None \<Rightarrow> org_slug r | Some v \<Rightarrow> v),
       org_name := (case ou_name b of None \<Rightarrow> org_name r | Some v \<Rightarrow> v),
       org_status := (case ou_status b of None \<Rightarrow> org_status r | Some v \<Rightarrow> v)\<rparr>"

definition update_org :: "uuid \<Rightarrow> org_update_body \<Rightarrow> db \<Rightarrow> db" where
  "update_org oid b d =
     d\<lparr>app_organizations := update_where (\<lambda>r. org_id r = oid) (apply_org_update b) (app_organizations d)\<rparr>"

definition move_or_clear :: "bool option \<Rightarrow> string \<Rightarrow> db \<Rightarrow> db option" where
  "move_or_clear flag i d =
     (case flag of
        Some True \<Rightarrow> moveDefaultOrganizationFlag (pg_uuid i) d
      | Some False \<Rightarrow> clearDefaultOrganizationFlag i d
      | None \<Rightarrow> Some d)"

definition slug_clash :: "db \<Rightarrow> uuid \<Rightarrow> string option \<Rightarrow> bool" where
  "slug_clash d oid slug \<longleftrightarrow>
     (case slug of None \<Rightarrow> False
      | Some v \<Rightarrow> \<exists>r \<in> set (app_organizations d). org_id r \<noteq> oid \<and> org_slug r = v)"

definition org_PATCH ::
    "(org_fields \<Rightarrow> string) \<Rightarrow> admin_store \<Rightarrow> millis \<Rightarrow> admin_permission_grant \<Rightarrow> string option \<Rightarrow> string \<Rightarrow>
     org_update_body option \<Rightarrow> admin_store \<times> string answer" where
  "org_PATCH digest s now g ifMatch i body =
     (let d = ad_db s
      in if \<not> hasCrossOrgReach (ag_access g) then refuseWithoutCrossOrgReach now g s
         else if \<not> isUuid i then (s, Deny ''invalid_id'' 400)
         else (case updateOrganizationSchema body of
                 None \<Rightarrow> (s, Deny ''invalid_body'' 400)
               | Some b \<Rightarrow>
                   (case org_by_id d i of
                      None \<Rightarrow> (s, Deny ''organization_not_found'' 404)
                    | Some current \<Rightarrow>
                        let leavesActive = ou_status b \<noteq> None \<and> ou_status b \<noteq> Some ACTIVE_ORGANIZATION_STATUS
                        in if leavesActive \<and> wouldStripLastGlobalSuperuser (no_removal\<lparr>rm_organization_ids := [i]\<rparr>) d now
                           then last_superadmin_refused now g None (Some (pg_uuid i)) s
                           else if ifMatchPinsVersion ifMatch \<and> \<not> ifMatchSatisfied ifMatch (organizationEtag digest current)
                           then (s, Deny ''precondition_failed'' 412)
                           else (case move_or_clear (ou_isDefault b) i d of
                                   None \<Rightarrow>
                                     (audit_row now g ''admin.organization.update_blocked'' ''denied'' None (Some (pg_uuid i))
                                        (Some ''organization_is_default'') s, Deny ''organization_is_default'' 409)
                                 | Some d1 \<Rightarrow>
                                     if slug_clash d1 (pg_uuid i) (ou_slug b) then (s, Deny ''slug_taken'' 409)
                                     else (let d2 = update_org (pg_uuid i) b d1
                                           in (audit_row now g ''admin.organization.updated'' ''success'' None
                                                 (Some (pg_uuid i)) None (with_db (\<lambda>_. d2) s),
                                               Served (case org_by_id d2 i of None \<Rightarrow> [] | Some r \<Rightarrow> organizationEtag digest r)))))))"

subsection \<open>Deletion\<close>

definition assertOrgNotDefault :: "org_row \<Rightarrow> bool" where
  "assertOrgNotDefault r \<longleftrightarrow> \<not> org_is_default r"

definition assertOrgEmpty :: "db \<Rightarrow> uuid \<Rightarrow> bool" where
  "assertOrgEmpty d oid \<longleftrightarrow> count_where (\<lambda>m. mb_organization_id m = oid) (app_organization_memberships d) = 0"

definition deleteRevokedOrgCredentials :: "uuid \<Rightarrow> credential_store \<Rightarrow> credential_store" where
  "deleteRevokedOrgCredentials oid cs =
     cs\<lparr>app_api_keys := delete_where (\<lambda>k. ak_organization_id k = Some oid \<and> ak_status k = ''revoked'') (app_api_keys cs),
        app_oauth_clients := delete_where (\<lambda>c. oc_organization_id c = Some oid \<and> oc_status c = ''revoked'')
          (app_oauth_clients cs)\<rparr>"

text \<open>The references without a cascade, those of tables that are not kept as an input.\<close>

definition org_referenced :: "bool \<Rightarrow> db \<Rightarrow> credential_store \<Rightarrow> uuid \<Rightarrow> bool" where
  "org_referenced elsewhere d cs oid \<longleftrightarrow>
     elsewhere \<or>
     (\<exists>m \<in> set (app_organization_memberships d). mb_organization_id m = oid) \<or>
     (\<exists>r \<in> set (app_roles d). role_organization_id r = Some oid) \<or>
     (\<exists>x \<in> set (app_user_roles d). ur_organization_id x = oid) \<or>
     (\<exists>k \<in> set (app_api_keys cs). ak_organization_id k = Some oid) \<or>
     (\<exists>c \<in> set (app_oauth_clients cs). oc_organization_id c = Some oid)"

definition org_groups :: "db \<Rightarrow> uuid \<Rightarrow> uuid set" where
  "org_groups d oid = grp_id ` {x \<in> set (app_groups d). grp_organization_id x = oid}"

text \<open>The row with its groups (\<open>on delete cascade\<close>) and its name in older audit rows (\<open>set null\<close>).\<close>

definition delete_org :: "uuid \<Rightarrow> db \<Rightarrow> db" where
  "delete_org oid d =
     d\<lparr>app_organizations := delete_where (\<lambda>r. org_id r = oid) (app_organizations d),
       app_groups := delete_where (\<lambda>x. grp_organization_id x = oid) (app_groups d),
       app_group_roles := delete_where (\<lambda>x. gr_group_id x \<in> org_groups d oid) (app_group_roles d),
       app_group_memberships := delete_where (\<lambda>x. gm_group_id x \<in> org_groups d oid) (app_group_memberships d)\<rparr>"

definition forget_org :: "uuid \<Rightarrow> admin_audit table \<Rightarrow> admin_audit table" where
  "forget_org oid = update_where (\<lambda>r. aa_organizationId r = Some oid) (\<lambda>r. r\<lparr>aa_organizationId := None\<rparr>)"

definition delete_blocked ::
    "millis \<Rightarrow> admin_permission_grant \<Rightarrow> string \<Rightarrow> uuid \<Rightarrow> admin_store \<Rightarrow> admin_store \<times> 'a answer" where
  "delete_blocked now g why oid s =
     (audit_row now g ''admin.organization.delete_blocked'' ''denied'' None (Some oid) None s, Deny why 409)"

definition org_DELETE ::
    "bool \<Rightarrow> admin_store \<Rightarrow> millis \<Rightarrow> admin_permission_grant \<Rightarrow> string \<Rightarrow> admin_store \<times> unit answer" where
  "org_DELETE elsewhere s now g i =
     (let d = ad_db s; oid = pg_uuid i
      in if \<not> hasCrossOrgReach (ag_access g) then refuseWithoutCrossOrgReach now g s
         else if \<not> isUuid i then (s, Deny ''invalid_id'' 400)
         else (case org_by_id d i of
                 None \<Rightarrow> (s, Deny ''organization_not_found'' 404)
               | Some r \<Rightarrow>
                   if \<not> assertOrgNotDefault r then delete_blocked now g ''organization_is_default'' oid s
                   else if \<not> assertOrgEmpty d oid then delete_blocked now g ''organization_not_empty'' oid s
                   else (let s1 = audit_row now g ''admin.organization.deleted'' ''success'' None (Some oid) None s;
                             cs = deleteRevokedOrgCredentials oid (ad_credentials s)
                         in if org_referenced elsewhere d cs oid
                            then delete_blocked now g ''organization_in_use'' oid s
                            else (s1\<lparr>ad_db := delete_org oid d, ad_credentials := cs,
                                    ad_audit := forget_org oid (ad_audit s1)\<rparr>, Served ()))))"

end
