(* ===== verification/AdminRoutes.thy ===== *)
theory AdminRoutes
  imports AdminOrgs
begin

text \<open>
  The administrator's requests as one step relation: the routes of \<open>AdminGrants\<close>,
  \<open>AdminMembers\<close> and \<open>AdminOrgs\<close>, the account actions of \<open>UserActions\<close> and the passing of time.
  For each route one lemma says what it can do to the tables and what it has checked by then;
  the laws of \<open>AdminLaws\<close> rest on these alone.
\<close>

subsection \<open>Requests\<close>

datatype grant_request =
    AssignRole string "(string \<times> string) option"
  | RevokeRole string "(string \<times> string) option"
  | BundleRoles string "string list option"
  | UnbundleRoles string "string list option"
  | PatchBundle string "(string list option \<times> string list option) option"
  | AttachPermissions string "string list option"
  | DetachPermissions string "string list option"
  | PatchPermissions string "(string list option \<times> string list option) option"
  | AddMembers string "string list option"
  | RemoveMembers string "string list option"
  | JoinGroup string "string option"
  | LeaveGroup string "string option"
  | DeleteGroup string

fun serve_grant :: "admin_store \<Rightarrow> millis \<Rightarrow> admin_permission_grant \<Rightarrow> grant_request \<Rightarrow> admin_store" where
  "serve_grant s now g (AssignRole i body) = fst (app_roles_POST s now g i body)"
| "serve_grant s now g (RevokeRole i body) = fst (app_roles_DELETE s now g i body)"
| "serve_grant s now g (BundleRoles i body) = fst (group_roles_POST s now g i body)"
| "serve_grant s now g (UnbundleRoles i body) = fst (group_roles_DELETE s now g i body)"
| "serve_grant s now g (PatchBundle i body) = fst (group_roles_PATCH s now g i body)"
| "serve_grant s now g (AttachPermissions i body) = fst (role_permissions_POST s now g i body)"
| "serve_grant s now g (DetachPermissions i body) = fst (role_permissions_DELETE s now g i body)"
| "serve_grant s now g (PatchPermissions i body) = fst (role_permissions_PATCH s now g i body)"
| "serve_grant s now g (AddMembers i body) = fst (group_members_POST s now g i body)"
| "serve_grant s now g (RemoveMembers i body) = fst (group_members_DELETE s now g i body)"
| "serve_grant s now g (JoinGroup i body) = fst (user_groups_POST s now g i body)"
| "serve_grant s now g (LeaveGroup i body) = fst (user_groups_DELETE s now g i body)"
| "serve_grant s now g (DeleteGroup i) = fst (group_DELETE s now g i)"

datatype catalog_request =
    CreateRole uuid "(string \<times> string option) option"
  | DuplicateRole uuid string
  | DeleteRole bool string
  | CreateGroup uuid bool "(string \<times> string option) option"
  | CreatePermission uuid "string option"
  | DeletePermission bool string

fun serve_catalog :: "admin_store \<Rightarrow> millis \<Rightarrow> admin_permission_grant \<Rightarrow> catalog_request \<Rightarrow> admin_store" where
  "serve_catalog s now g (CreateRole new body) = fst (roles_POST s now g new body)"
| "serve_catalog s now g (DuplicateRole new i) = fst (role_duplicate_POST s now g new i)"
| "serve_catalog s now g (DeleteRole referenced i) = fst (role_DELETE s now g referenced i)"
| "serve_catalog s now g (CreateGroup new taken body) = fst (groups_POST s now g new taken body)"
| "serve_catalog s now g (CreatePermission new body) = fst (permissions_POST s now g new body)"
| "serve_catalog s now g (DeletePermission referenced i) = fst (permission_DELETE s now g referenced i)"

datatype member_request =
    JoinOrg uuid string "(string \<times> string option) option"
  | SetMembershipStatus string "(string list \<times> string) option"
  | LeaveOrg string "string list option"
  | AddMember uuid string "(string \<times> string option) option"
  | SetMemberStatus string "(string list \<times> string) option"
  | RemoveMember string "string list option"

fun serve_member ::
    "(string \<Rightarrow> bool) \<Rightarrow> admin_store \<Rightarrow> millis \<Rightarrow> admin_permission_grant \<Rightarrow> member_request \<Rightarrow> admin_store" where
  "serve_member zuuid s now g (JoinOrg new i body) = fst (user_memberships_POST zuuid s now g new i body)"
| "serve_member zuuid s now g (SetMembershipStatus i body) = fst (user_memberships_PATCH zuuid s now g i body)"
| "serve_member zuuid s now g (LeaveOrg i body) = fst (user_memberships_DELETE zuuid s now g i body)"
| "serve_member zuuid s now g (AddMember new i body) = fst (org_members_POST zuuid s now g new i body)"
| "serve_member zuuid s now g (SetMemberStatus i body) = fst (org_members_PATCH zuuid s now g i body)"
| "serve_member zuuid s now g (RemoveMember i body) = fst (org_members_DELETE zuuid s now g i body)"

datatype org_request =
    CreateOrg uuid "org_create_body option"
  | UpdateOrg "string option" string "org_update_body option"
  | DeleteOrg bool string

fun serve_org ::
    "(org_fields \<Rightarrow> string) \<Rightarrow> admin_store \<Rightarrow> millis \<Rightarrow> admin_permission_grant \<Rightarrow> org_request \<Rightarrow> admin_store" where
  "serve_org digest s now g (CreateOrg new body) = fst (organizations_POST s now g new body)"
| "serve_org digest s now g (UpdateOrg ifMatch i body) = fst (org_PATCH digest s now g ifMatch i body)"
| "serve_org digest s now g (DeleteOrg elsewhere i) = fst (org_DELETE elsewhere s now g i)"

datatype admin_request =
    Grant grant_request | Catalog catalog_request | Member member_request | Org org_request

fun serve ::
    "(string \<Rightarrow> bool) \<Rightarrow> (org_fields \<Rightarrow> string) \<Rightarrow> admin_store \<Rightarrow> millis \<Rightarrow> admin_permission_grant \<Rightarrow>
     admin_request \<Rightarrow> admin_store" where
  "serve zuuid digest s now g (Grant r) = serve_grant s now g r"
| "serve zuuid digest s now g (Catalog r) = serve_catalog s now g r"
| "serve zuuid digest s now g (Member r) = serve_member zuuid s now g r"
| "serve zuuid digest s now g (Org r) = serve_org digest s now g r"

text \<open>The ids the database hands out are new.\<close>

fun fresh_request :: "db \<Rightarrow> admin_request \<Rightarrow> bool" where
  "fresh_request d (Catalog (CreateRole new body)) \<longleftrightarrow> new \<notin> set (map role_id (app_roles d))"
| "fresh_request d (Catalog (DuplicateRole new i)) \<longleftrightarrow> new \<notin> set (map role_id (app_roles d))"
| "fresh_request d (Catalog (CreateGroup new taken body)) \<longleftrightarrow> new \<notin> set (map grp_id (app_groups d))"
| "fresh_request d (Catalog (CreatePermission new body)) \<longleftrightarrow> new \<notin> set (map perm_id (app_permissions d))"
| "fresh_request d (Member (JoinOrg new i body)) \<longleftrightarrow> new \<notin> set (map mb_id (app_organization_memberships d))"
| "fresh_request d (Member (AddMember new i body)) \<longleftrightarrow> new \<notin> set (map mb_id (app_organization_memberships d))"
| "fresh_request d (Org (CreateOrg new body)) \<longleftrightarrow> new \<notin> set (map org_id (app_organizations d))"
| "fresh_request d r \<longleftrightarrow> True"

text \<open>
  The ids that reach a comparison of JavaScript with an id of the database are spelled as the
  database spells them.
\<close>

definition canonical :: "string \<Rightarrow> bool" where
  "canonical i \<longleftrightarrow> pg_uuid i = i"

fun canonical_request :: "admin_request \<Rightarrow> bool" where
  "canonical_request (Grant (RevokeRole i body)) \<longleftrightarrow>
     (case body of None \<Rightarrow> True | Some (rid, oid) \<Rightarrow> canonical rid \<and> canonical oid)"
| "canonical_request (Grant (DetachPermissions i body)) \<longleftrightarrow> canonical i"
| "canonical_request (Grant (PatchPermissions i body)) \<longleftrightarrow> canonical i"
| "canonical_request (Member (SetMemberStatus i body)) \<longleftrightarrow> canonical i"
| "canonical_request (Member (RemoveMember i body)) \<longleftrightarrow> canonical i"
| "canonical_request (Org (UpdateOrg ifMatch i body)) \<longleftrightarrow> canonical i"
| "canonical_request r \<longleftrightarrow> True"

text \<open>The part of it that concerns the update of an organization.\<close>

fun canonical_update :: "admin_request \<Rightarrow> bool" where
  "canonical_update (Org (UpdateOrg ifMatch i body)) \<longleftrightarrow> canonical i"
| "canonical_update r \<longleftrightarrow> True"

text \<open>
  One administrator's request, one action on an account, or time passing. The step is over the
  requests \<open>R\<close> admits and the failures \<open>F\<close> admits of an account action's own calls: a theorem over
  \<open>\<lambda>_. True\<close> is about every request and every failure, and any other theorem names its condition.
\<close>

inductive admin_step ::
    "(string \<Rightarrow> bool) \<Rightarrow> (org_fields \<Rightarrow> string) \<Rightarrow> (admin_request \<Rightarrow> bool) \<Rightarrow> (faults \<Rightarrow> bool) \<Rightarrow>
     admin_store \<times> millis \<Rightarrow> admin_store \<times> millis \<Rightarrow> bool"
  for zuuid digest R F where
  request: "fresh_request (ad_db s) r \<Longrightarrow> R r \<Longrightarrow>
    admin_step zuuid digest R F (s, now) (serve zuuid digest s now g r, now)"
| account: "u \<in> set (app_users (ad_db s)) \<Longrightarrow> F f \<Longrightarrow>
    admin_step zuuid digest R F (s, now)
      (fst (executeBulkUserAction f s now action (target_of u) actor options), now)"
| time: "now \<le> now' \<Longrightarrow> admin_step zuuid digest R F (s, now) (s, now')"

subsection \<open>The store apart from the audit\<close>

lemma audit_row_db [simp]:
  "ad_db (audit_row now g event outcome appUser oid why s) = ad_db s"
  "ad_credentials (audit_row now g event outcome appUser oid why s) = ad_credentials s"
  by (simp_all add: audit_row_def)

lemma foldl_ad_db: "(\<And>s x. ad_db (h s x) = ad_db s) \<Longrightarrow> ad_db (foldl h s xs) = ad_db s"
  by (induction xs arbitrary: s) simp_all

lemma audit_db [simp]:
  "ad_db (role_audit now g event r s) = ad_db s"
  "ad_db (group_audit now g event x s) = ad_db s"
  "ad_db (member_audit now g event x uid s) = ad_db s"
  "ad_db (audit_memberships now g e1 e2 uid oid oids s) = ad_db s"
  "ad_db (audit_members now g e1 e2 uids o' s) = ad_db s"
  "ad_db (auditRemovedMembershipGrants now g roles groups s) = ad_db s"
  by (simp_all add: role_audit_def group_audit_def member_audit_def audit_memberships_def audit_members_def
      auditRemovedMembershipGrants_def foldl_ad_db split_beta)

lemma refused_db [simp]:
  "ad_db (fst (refuseUnconferrable now g appUser oid s)) = ad_db s"
  "ad_db (fst (refuseWithoutCrossOrgReach now g s)) = ad_db s"
  "ad_db (fst (last_superadmin_refused now g appUser oid s)) = ad_db s"
  "ad_db (fst (revocation_refused now g appUser oid s)) = ad_db s"
  "ad_db (fst (delete_blocked now g why o' s)) = ad_db s"
  by (simp_all add: refuseUnconferrable_def refuseWithoutCrossOrgReach_def last_superadmin_refused_def
      revocation_refused_def delete_blocked_def)

lemma refuse_outranking_db: "refuseOutrankingTarget now g target s = Some r \<Longrightarrow> ad_db (fst r) = ad_db s"
  by (auto simp: refuseOutrankingTarget_def split: if_splits)

lemma refuse_first_db: "refuse_first_outranking now g checked members s = Some r \<Longrightarrow> ad_db (fst r) = ad_db s"
  by (induction now g checked members s arbitrary: r rule: refuse_first_outranking.induct)
    (auto split: if_splits option.splits dest: refuse_outranking_db)

lemma refuse_members_db: "refuseOutrankedMembers now g members s = Some r \<Longrightarrow> ad_db (fst r) = ad_db s"
  unfolding refuseOutrankedMembers_def by (rule refuse_first_db)

subsection \<open>What each route writes, and what it has checked by then\<close>

text \<open>
  Each lemma lists, for a request that changed the tables, the change and the checks before it
  that the laws below rest on.
\<close>

lemma resolved_target: "resolveTargetUser d access i = Inr t \<Longrightarrow> \<exists>u \<in> set (app_users d). t = target_of u"
  by (auto simp: resolveTargetUser_def dest!: find_Some_iff_set split: if_splits option.splits)

lemma reach_role: "role_in_reach d g i = Some r \<Longrightarrow> r \<in> set (app_roles d) \<and> role_id r = pg_uuid i"
  by (auto simp: role_in_reach_def role_by_id_def dest!: find_Some_iff_set split: if_splits option.splits)

lemma reach_group: "group_in_reach d g i = Some x \<Longrightarrow> x \<in> set (app_groups d) \<and> grp_id x = pg_uuid i"
  by (auto simp: group_in_reach_def group_by_id_def dest!: find_Some_iff_set split: if_splits option.splits)

lemma app_roles_POST_cases:
  assumes "P (ad_db s)"
    and "\<And>uid oid rid. rid \<in> set (map role_id (app_roles (ad_db s))) \<Longrightarrow> has_active_membership (ad_db s) uid oid \<Longrightarrow>
      \<not> beyond_actor g (permissionKeysForRoles (ad_db s) [rid]) \<Longrightarrow> P (add_user_role uid oid rid (ad_db s))"
  shows "P (ad_db (fst (app_roles_POST s now g i body)))"
proof -
  have some: "role_id r = pg_uuid rid \<and> pg_uuid rid \<in> set (map role_id (app_roles (ad_db s)))"
    if "role_by_id (ad_db s) rid = Some r" for rid r
    using that find_Some_iff_set [of "\<lambda>r. role_id r = pg_uuid rid" "app_roles (ad_db s)" r]
    by (force simp: role_by_id_def)
  show ?thesis
    unfolding app_roles_POST_def Let_def
    using assms some by (auto simp: userIsGrantEligible_iff split: option.split sum.split prod.split)
qed

lemma app_roles_DELETE_cases:
  assumes "P (ad_db s)"
    and "\<And>uid oid rid. body = Some (rid, oid) \<Longrightarrow>
      \<not> wouldStripLastGlobalSuperuser (no_removal\<lparr>rm_assignments :=
          [\<lparr>sg_app_user_id = uid, sg_organization_id = oid, sg_role_id = rid\<rparr>]\<rparr>) (ad_db s) now \<Longrightarrow>
      (\<forall>role \<in> set (app_roles (ad_db s)). role_id role = pg_uuid rid \<longrightarrow>
          \<not> beyond_actor g (permissionKeysForRoles (ad_db s) [pg_uuid rid])) \<Longrightarrow>
      P (remove_user_role uid (pg_uuid oid) (pg_uuid rid) (ad_db s))"
  shows "P (ad_db (fst (app_roles_DELETE s now g i body)))"
proof -
  have none: "\<forall>r \<in> set (app_roles (ad_db s)). role_id r \<noteq> pg_uuid rid"
    if "role_by_id (ad_db s) rid = None" for rid
    using that by (simp add: role_by_id_def find_None_set)
  have some: "role_id r = pg_uuid rid" if "role_by_id (ad_db s) rid = Some r" for rid r
    using that by (auto simp: role_by_id_def dest: find_Some_iff_set)
  show ?thesis
    unfolding app_roles_DELETE_def Let_def assignSchema_def
    using assms none some by (auto split: option.split sum.split prod.split if_split)
qed

lemma group_roles_POST_cases:
  assumes "P (ad_db s)"
    and "\<And>gid rids. \<not> beyond_actor g (permissionKeysForRoles (ad_db s) rids) \<Longrightarrow> P (add_group_roles gid rids (ad_db s))"
  shows "P (ad_db (fst (group_roles_POST s now g i body)))"
  unfolding group_roles_POST_def Let_def using assms by (auto split: option.split)

lemma group_roles_DELETE_cases:
  assumes "P (ad_db s)"
    and "\<And>gid rids. \<not> beyond_actor g (permissionKeysForRoles (ad_db s) rids) \<Longrightarrow> P (remove_group_roles gid rids (ad_db s))"
  shows "P (ad_db (fst (group_roles_DELETE s now g i body)))"
  unfolding group_roles_DELETE_def Let_def using assms by (auto split: option.split)

lemma beyond_Nil [simp]: "\<not> beyond_actor g (permissionKeysForRoles d [])"
  by (simp add: beyond_actor_def permissionKeysForRoles_def)

lemma group_roles_PATCH_cases:
  assumes "P (ad_db s)"
    and "\<And>gid add remove. \<not> beyond_actor g (permissionKeysForRoles (ad_db s) add) \<Longrightarrow>
      \<not> beyond_actor g (permissionKeysForRoles (ad_db s) remove) \<Longrightarrow>
      P (remove_group_roles gid remove (add_group_roles gid add (ad_db s)))"
  shows "P (ad_db (fst (group_roles_PATCH s now g i body)))"
proof -
  have side: "\<not> beyond_actor g (permissionKeysForRoles (ad_db s) (map pg_uuid xs))"
    if "\<not> (xs \<noteq> [] \<and> beyond_actor g (permissionKeysForRoles (ad_db s) (map pg_uuid xs)))" for xs
    using that by (cases xs) auto
  show ?thesis
    unfolding group_roles_PATCH_def Let_def using assms side by (auto split: option.split)
qed

lemma role_permissions_POST_cases:
  assumes "P (ad_db s)"
    and "\<And>rid ks. \<not> beyond_actor g ks \<Longrightarrow> P (attach_permissions rid (resolve_keys (ad_db s) ks) (ad_db s))"
  shows "P (ad_db (fst (role_permissions_POST s now g i body)))"
  unfolding role_permissions_POST_def Let_def using assms by (auto split: option.split)

lemma role_permissions_DELETE_cases:
  assumes "P (ad_db s)"
    and "\<And>ks. \<not> beyond_actor g ks \<Longrightarrow> \<not> strips_by_detach (ad_db s) now i (resolve_keys (ad_db s) ks) \<Longrightarrow>
      P (detach_permissions (pg_uuid i) (resolve_keys (ad_db s) ks) (ad_db s))"
  shows "P (ad_db (fst (role_permissions_DELETE s now g i body)))"
  unfolding role_permissions_DELETE_def Let_def using assms by (auto split: option.split)

lemma role_permissions_PATCH_cases:
  assumes "P (ad_db s)"
    and "\<And>add remove. \<not> beyond_actor g (map perm_key add) \<Longrightarrow> \<not> beyond_actor g (map perm_key remove) \<Longrightarrow>
      set add \<subseteq> set (app_permissions (ad_db s)) \<Longrightarrow> set remove \<subseteq> set (app_permissions (ad_db s)) \<Longrightarrow>
      \<not> strips_by_detach (ad_db s) now i remove \<Longrightarrow>
      P (detach_permissions (pg_uuid i) remove (attach_permissions (pg_uuid i) add (ad_db s)))"
  shows "P (ad_db (fst (role_permissions_PATCH s now g i body)))"
proof -
  let ?res = "\<lambda>a r. resolve_keys (ad_db s) (a @ r)"
  have key: "P (detach_permissions (pg_uuid i) (filter (\<lambda>p. perm_key p \<in> set r) (?res a r))
      (attach_permissions (pg_uuid i) (filter (\<lambda>p. perm_key p \<in> set a) (?res a r)) (ad_db s)))"
    if "\<not> beyond_actor g a" "\<not> beyond_actor g r"
      "\<not> strips_by_detach (ad_db s) now i (filter (\<lambda>p. perm_key p \<in> set r) (?res a r))" for a r
    by (rule assms(2)) (use that in \<open>auto simp: beyond_actor_def resolve_keys_def\<close>)
  show ?thesis
    unfolding role_permissions_PATCH_def Let_def using assms(1) key by (auto split: option.split)
qed

lemma group_members_POST_cases:
  assumes "P (ad_db s)"
    and "\<And>x uids. x \<in> set (app_groups (ad_db s)) \<Longrightarrow> \<not> beyond_actor g (permissionKeysForGroup (ad_db s) (grp_id x)) \<Longrightarrow>
      (\<forall>u \<in> set uids. has_active_membership (ad_db s) u (grp_organization_id x)) \<Longrightarrow>
      P (add_group_members (grp_id x) uids (ad_db s))"
  shows "P (ad_db (fst (group_members_POST s now g i body)))"
proof -
  have el: "has_active_membership d u oid" if "u \<in> set (grantEligibleUserIds d oid uids)" for d u oid uids
    using that by (auto simp: grantEligibleUserIds_def has_active_membership_def GRANT_ELIGIBLE_MEMBERSHIP_STATUS_def
        split: if_splits)
  have x: "x \<in> set (app_groups (ad_db s)) \<and> pg_uuid i = grp_id x" if "group_in_reach (ad_db s) g i = Some x" for x
    using reach_group [OF that] by simp
  show ?thesis
    unfolding group_members_POST_def Let_def using assms el x by (auto split: option.split)
qed

lemma group_members_DELETE_cases:
  assumes "P (ad_db s)"
    and "\<And>gid uids. \<not> beyond_actor g (permissionKeysForGroup (ad_db s) gid) \<Longrightarrow> P (remove_group_members gid uids (ad_db s))"
  shows "P (ad_db (fst (group_members_DELETE s now g i body)))"
proof -
  have x: "pg_uuid i = grp_id x" if "group_in_reach (ad_db s) g i = Some x" for x
    using reach_group [OF that] by simp
  show ?thesis
    unfolding group_members_DELETE_def Let_def using assms x by (auto split: option.split)
qed

lemma user_groups_POST_cases:
  assumes "P (ad_db s)"
    and "\<And>x uids. x \<in> set (app_groups (ad_db s)) \<Longrightarrow> \<not> beyond_actor g (permissionKeysForGroup (ad_db s) (grp_id x)) \<Longrightarrow>
      (\<forall>u \<in> set uids. has_active_membership (ad_db s) u (grp_organization_id x)) \<Longrightarrow>
      P (add_group_members (grp_id x) uids (ad_db s))"
  shows "P (ad_db (fst (user_groups_POST s now g i body)))"
proof -
  have x: "x \<in> set (app_groups (ad_db s))" if "group_in_reach (ad_db s) g j = Some x" for j x
    using reach_group [OF that] by simp
  show ?thesis
    unfolding user_groups_POST_def Let_def using assms x
    by (auto simp: userIsGrantEligible_iff split: option.split sum.split)
qed

lemma user_groups_DELETE_cases:
  assumes "P (ad_db s)"
    and "\<And>gid uids. \<not> beyond_actor g (permissionKeysForGroup (ad_db s) gid) \<Longrightarrow> P (remove_group_members gid uids (ad_db s))"
  shows "P (ad_db (fst (user_groups_DELETE s now g i body)))"
  unfolding user_groups_DELETE_def Let_def using assms by (auto split: option.split sum.split)

lemma group_DELETE_cases:
  assumes "P (ad_db s)"
    and "\<And>gid. \<not> beyond_actor g (permissionKeysForGroup (ad_db s) gid) \<Longrightarrow> P (delete_group gid (ad_db s))"
  shows "P (ad_db (fst (group_DELETE s now g i)))"
proof -
  have x: "pg_uuid i = grp_id x" if "group_in_reach (ad_db s) g i = Some x" for x
    using reach_group [OF that] by simp
  show ?thesis
    unfolding group_DELETE_def Let_def using assms x by (auto split: option.split)
qed

lemma roles_POST_cases:
  assumes "P (ad_db s)" and "\<And>r. role_id r = new \<Longrightarrow> P (add_role r (ad_db s))"
  shows "P (ad_db (fst (roles_POST s now g new body)))"
  unfolding roles_POST_def Let_def using assms by (auto split: option.split)

lemma role_duplicate_POST_cases:
  assumes "P (ad_db s)"
    and "\<And>source r. role_id r = new \<Longrightarrow> P (copy_permissions source new (add_role r (ad_db s)))"
  shows "P (ad_db (fst (role_duplicate_POST s now g new i)))"
  unfolding role_duplicate_POST_def Let_def using assms by (auto split: option.split)

lemma role_DELETE_cases:
  assumes "P (ad_db s)" and "assertRoleNotInUse (ad_db s) (pg_uuid i) \<Longrightarrow> P (delete_role (pg_uuid i) (ad_db s))"
  shows "P (ad_db (fst (role_DELETE s now g referenced i)))"
  unfolding role_DELETE_def Let_def using assms by (auto split: option.split)

lemma groups_POST_cases:
  assumes "P (ad_db s)"
    and "\<And>x. grp_id x = new \<Longrightarrow> P ((ad_db s)\<lparr>app_groups := app_groups (ad_db s) @ [x]\<rparr>)"
  shows "P (ad_db (fst (groups_POST s now g new taken body)))"
  unfolding groups_POST_def Let_def using assms by (auto split: option.split org_scope.split)

lemma permissions_POST_cases:
  assumes "P (ad_db s)"
    and "\<And>p. perm_id p = new \<Longrightarrow> P ((ad_db s)\<lparr>app_permissions := app_permissions (ad_db s) @ [p]\<rparr>)"
  shows "P (ad_db (fst (permissions_POST s now g new body)))"
  unfolding permissions_POST_def Let_def using assms by (auto split: option.split)

lemma permission_DELETE_cases:
  assumes "P (ad_db s)"
    and "assertPermissionNotInUse (ad_db s) (pg_uuid i) \<Longrightarrow>
      P ((ad_db s)\<lparr>app_permissions := delete_where (\<lambda>p. perm_id p = pg_uuid i) (app_permissions (ad_db s))\<rparr>)"
  shows "P (ad_db (fst (permission_DELETE s now g referenced i)))"
  unfolding permission_DELETE_def Let_def using assms by (auto split: option.split)

lemma user_memberships_POST_cases:
  assumes "P (ad_db s)"
    and "\<And>uid oid st. uid \<in> set (map au_id (app_users (ad_db s))) \<Longrightarrow>
      \<not> userHasMembershipInOrg (ad_db s) uid oid \<Longrightarrow> P (add_membership (new_membership new oid uid st now) (ad_db s))"
  shows "P (ad_db (fst (user_memberships_POST zuuid s now g new i body)))"
proof -
  have t: "tg_appUserId t \<in> set (map au_id (app_users (ad_db s)))"
    if "resolveTargetUser (ad_db s) (ag_access g) i = Inr t" for t
    using resolved_target [OF that] by (auto simp: target_of_def)
  show ?thesis
    unfolding user_memberships_POST_def Let_def membership_exists_def using assms t
    by (auto split: option.split sum.split)
qed

lemma user_memberships_PATCH_cases:
  assumes "P (ad_db s)"
    and "\<And>uid ms st. set ms \<subseteq> {m \<in> set (app_organization_memberships (ad_db s)). mb_app_user_id m = uid} \<Longrightarrow>
      (st \<noteq> ''active'' \<longrightarrow> \<not> wouldStripLastGlobalSuperuser (membership_removal uid ms) (ad_db s) now) \<Longrightarrow>
      P (set_status_where (\<lambda>m. mb_app_user_id m = uid \<and> mb_id m \<in> mb_id ` set ms) st (ad_db s))"
  shows "P (ad_db (fst (user_memberships_PATCH zuuid s now g i body)))"
proof -
  have ms: "set (reachable_memberships (ad_db s) g uid ids) \<subseteq>
      {m \<in> set (app_organization_memberships (ad_db s)). mb_app_user_id m = uid}" for uid ids
    by (auto simp: reachable_memberships_def)
  note key = assms(2) [OF ms]
  show ?thesis
    unfolding user_memberships_PATCH_def Let_def using assms(1) key
    by (auto dest: refuse_outranking_db split: option.split sum.split)
qed

lemma user_memberships_DELETE_cases:
  assumes "P (ad_db s)"
    and "\<And>uid ms there. set ms \<subseteq> {m \<in> set (app_organization_memberships (ad_db s)). mb_app_user_id m = uid} \<Longrightarrow>
      there = (\<lambda>u oid. u = uid \<and> oid \<in> mb_organization_id ` set ms) \<Longrightarrow>
      \<not> wouldStripLastGlobalSuperuser (membership_removal uid ms) (ad_db s) now \<Longrightarrow>
      P (remove_memberships (\<lambda>m. mb_app_user_id m = uid \<and> mb_id m \<in> mb_id ` set ms) (remove_grants there (ad_db s)))"
  shows "P (ad_db (fst (user_memberships_DELETE zuuid s now g i body)))"
proof -
  have ms: "set (reachable_memberships (ad_db s) g uid ids) \<subseteq>
      {m \<in> set (app_organization_memberships (ad_db s)). mb_app_user_id m = uid}" for uid ids
    by (auto simp: reachable_memberships_def)
  note key = assms(2) [OF ms refl]
  show ?thesis
    unfolding user_memberships_DELETE_def Let_def using assms(1) key
    by (auto dest: refuse_outranking_db split: option.split sum.split)
qed

lemma org_members_POST_cases:
  assumes "P (ad_db s)"
    and "\<And>uid oid st. uid \<in> set (map au_id (app_users (ad_db s))) \<Longrightarrow>
      \<not> userHasMembershipInOrg (ad_db s) uid oid \<Longrightarrow> P (add_membership (new_membership new oid uid st now) (ad_db s))"
  shows "P (ad_db (fst (org_members_POST zuuid s now g new i body)))"
proof -
  have u: "uid \<in> set (map au_id (app_users (ad_db s)))"
    if "List.find (\<lambda>u. au_id u = uid) (app_users (ad_db s)) = Some x" for uid x
    using find_Some_iff_set [OF that] by auto
  show ?thesis
    unfolding org_members_POST_def Let_def membership_exists_def using assms u
    by (auto split: option.split sum.split)
qed

lemma scoped_members:
  "set (map fst (loadScopedMembers d i ids)) \<subseteq> {m \<in> set (app_organization_memberships d).
     mb_organization_id m = pg_uuid i \<and> mb_id m \<in> pg_uuid ` set ids}"
  "m \<in> set (app_organization_memberships d) \<Longrightarrow> mb_app_user_id m \<in> set (map au_id (app_users d)) \<Longrightarrow>
     mb_organization_id m = pg_uuid i \<Longrightarrow> mb_id m \<in> pg_uuid ` set ids \<Longrightarrow>
     m \<in> set (map fst (loadScopedMembers d i ids))"
  by (auto simp: loadScopedMembers_def) force

lemma org_members_PATCH_cases:
  assumes "P (ad_db s)"
    and "\<And>ids st. (st \<noteq> ''active'' \<longrightarrow>
        \<not> wouldStripLastGlobalSuperuser (members_removal i (map fst (loadScopedMembers (ad_db s) i ids))) (ad_db s) now) \<Longrightarrow>
      P (set_status_where (\<lambda>m. mb_id m \<in> pg_uuid ` set ids \<and> mb_organization_id m = pg_uuid i) st (ad_db s))"
  shows "P (ad_db (fst (org_members_PATCH zuuid s now g i body)))"
  unfolding org_members_PATCH_def Let_def using assms
  by (auto dest: refuse_members_db split: option.split sum.split)

lemma org_members_DELETE_cases:
  assumes "P (ad_db s)"
    and "\<And>ids ms there. ms = map fst (loadScopedMembers (ad_db s) i ids) \<Longrightarrow>
      there = (\<lambda>u oid. u \<in> mb_app_user_id ` set ms \<and> oid = pg_uuid i) \<Longrightarrow>
      \<not> wouldStripLastGlobalSuperuser (members_removal i ms) (ad_db s) now \<Longrightarrow>
      P (remove_memberships (\<lambda>m. mb_id m \<in> pg_uuid ` set ids \<and> mb_organization_id m = pg_uuid i)
          (remove_grants there (ad_db s)))"
  shows "P (ad_db (fst (org_members_DELETE zuuid s now g i body)))"
proof -
  note key = assms(2) [OF refl refl]
  show ?thesis
    unfolding org_members_DELETE_def Let_def using assms(1) key
    by (auto dest: refuse_members_db split: option.split sum.split)
qed

lemma organizations_POST_cases:
  assumes "P (ad_db s)"
    and "\<And>r. org_id r = new \<Longrightarrow> \<not> org_is_default r \<Longrightarrow>
      P ((ad_db s)\<lparr>app_organizations := app_organizations (ad_db s) @ [r]\<rparr>)"
    and "\<And>r d'. org_id r = new \<Longrightarrow>
      moveDefaultOrganizationFlag new ((ad_db s)\<lparr>app_organizations := app_organizations (ad_db s) @ [r]\<rparr>) = Some d' \<Longrightarrow> P d'"
  shows "P (ad_db (fst (organizations_POST s now g new body)))"
proof -
  have moved: "P d'" if "moveDefaultOrganizationFlag new ((ad_db s)\<lparr>app_organizations := app_organizations (ad_db s) @
      [\<lparr>org_id = new, org_slug = a, org_name = b, org_status = c, org_is_default = e, org_created_at = t\<rparr>]\<rparr>) = Some d'"
    for a b c e t d' using assms(3) [OF _ that] by simp
  show ?thesis
    unfolding organizations_POST_def Let_def using assms(1,2) moved by (auto split: option.split)
qed

lemma org_PATCH_cases:
  assumes "P (ad_db s)"
    and "\<And>b d1. move_or_clear (ou_isDefault b) i (ad_db s) = Some d1 \<Longrightarrow>
      (ou_status b \<noteq> None \<and> ou_status b \<noteq> Some ACTIVE_ORGANIZATION_STATUS \<longrightarrow>
        \<not> wouldStripLastGlobalSuperuser (no_removal\<lparr>rm_organization_ids := [i]\<rparr>) (ad_db s) now) \<Longrightarrow>
      P (update_org (pg_uuid i) b d1)"
  shows "P (ad_db (fst (org_PATCH digest s now g ifMatch i body)))"
  unfolding org_PATCH_def Let_def using assms by (auto split: option.split)

lemma org_DELETE_cases:
  assumes "P (ad_db s)"
    and "\<And>cs r. org_by_id (ad_db s) i = Some r \<Longrightarrow> \<not> org_is_default r \<Longrightarrow>
      \<not> org_referenced elsewhere (ad_db s) cs (pg_uuid i) \<Longrightarrow> P (delete_org (pg_uuid i) (ad_db s))"
  shows "P (ad_db (fst (org_DELETE elsewhere s now g i)))"
  unfolding org_DELETE_def Let_def using assms by (auto simp: assertOrgNotDefault_def split: option.split)

lemmas grant_cases = app_roles_POST_cases app_roles_DELETE_cases group_roles_POST_cases group_roles_DELETE_cases
  group_roles_PATCH_cases role_permissions_POST_cases role_permissions_DELETE_cases role_permissions_PATCH_cases
  group_members_POST_cases group_members_DELETE_cases user_groups_POST_cases user_groups_DELETE_cases group_DELETE_cases

lemmas catalog_cases = roles_POST_cases role_duplicate_POST_cases role_DELETE_cases groups_POST_cases
  permissions_POST_cases permission_DELETE_cases

lemmas member_cases = user_memberships_POST_cases user_memberships_PATCH_cases user_memberships_DELETE_cases
  org_members_POST_cases org_members_PATCH_cases org_members_DELETE_cases

lemmas org_cases = organizations_POST_cases org_PATCH_cases org_DELETE_cases

end
