(* ===== verification/AdminLaws.thy ===== *)
theory AdminLaws
  imports AdminRoutes
begin

text \<open>
  What the administrator's routes promise together: a superadmin who can sign in remains, every
  grant is backed by a membership, authority moves only within what the actor could confer, and
  the default organization stays.
\<close>

subsection \<open>Guarded writes\<close>

text \<open>
  The contract between the last-superadmin rule and a write: the removal a route describes to the
  rule covers every superuser grant the write takes away.
\<close>

locale guarded_write =
  fixes wf :: "db \<Rightarrow> bool" and change :: "db \<Rightarrow> db" and removal :: superuser_grant_removal
  assumes spared: "\<lbrakk>wf d; g \<in> set (activeGlobalSuperuserGrants d now None); \<not> grantIsRemoved g removal\<rbrakk> \<Longrightarrow>
    g \<in> set (activeGlobalSuperuserGrants (change d) now None)"
begin

lemma keeps_superuser:
  assumes "wf d" "superuser_survives d now" "\<not> wouldStripLastGlobalSuperuser removal d now"
  shows "superuser_survives (change d) now"
proof -
  from assms(2,3) obtain g where "g \<in> set (activeGlobalSuperuserGrants d now None)" "\<not> grantIsRemoved g removal"
    unfolding wouldStripLastGlobalSuperuser_def strips_False_survivor superuser_survives_def by blast
  with spared [OF assms(1)] show ?thesis unfolding survives_iff by blast
qed

end

text \<open>A write that takes no superuser grant away needs no check.\<close>

locale additive_write =
  fixes wf :: "db \<Rightarrow> bool" and change :: "db \<Rightarrow> db"
  assumes added: "\<lbrakk>wf d; g \<in> set (activeGlobalSuperuserGrants d now None)\<rbrakk> \<Longrightarrow>
    g \<in> set (activeGlobalSuperuserGrants (change d) now None)"

sublocale additive_write \<subseteq> guarded_write wf change no_removal
  by unfold_locales (rule added)

context additive_write
begin

lemma keeps:
  assumes "wf d" "superuser_survives d now"
  shows "superuser_survives (change d) now"
  by (rule keeps_superuser [OF assms])
    (use assms(2) in \<open>auto simp: wouldStripLastGlobalSuperuser_def stripsLastGlobalSuperuser_def
       superuser_survives_def grantIsRemoved_def no_removal_def neq_Nil_conv\<close>)

end

text \<open>What a grant rests on, table by table.\<close>

lemma grant_kept:
  assumes "g \<in> set (activeGlobalSuperuserGrants d now None)"
    and "\<And>ur. \<lbrakk>ur \<in> set (app_user_roles d); ur_app_user_id ur = sg_app_user_id g; ur_organization_id ur = sg_organization_id g;
      ur_role_id ur = sg_role_id g\<rbrakk> \<Longrightarrow> ur \<in> set (app_user_roles d')"
    and "has_active_membership d (sg_app_user_id g) (sg_organization_id g) \<Longrightarrow>
      has_active_membership d' (sg_app_user_id g) (sg_organization_id g)"
    and "org_is_active d (sg_organization_id g) \<Longrightarrow> org_is_active d' (sg_organization_id g)"
    and "role_carries d (sg_role_id g) SUPERADMIN_PERMISSION \<Longrightarrow> role_carries d' (sg_role_id g) SUPERADMIN_PERMISSION"
    and "app_users d' = app_users d" "auth_users d' = auth_users d"
  shows "g \<in> set (activeGlobalSuperuserGrants d' now None)"
proof -
  have "account_can_sign_in d' now None = account_can_sign_in d now None"
    by (simp add: account_can_sign_in_def assms(6,7) fun_eq_iff)
  with assms(1-5) show ?thesis unfolding grants_mem by fastforce
qed

subsection \<open>The schema's keys and references\<close>

definition refs_ok :: "db \<Rightarrow> bool" where
  "refs_ok d \<longleftrightarrow>
     distinct (map perm_id (app_permissions d)) \<and> distinct (map role_id (app_roles d)) \<and>
     distinct (map grp_id (app_groups d)) \<and> distinct (map mb_id (app_organization_memberships d)) \<and>
     (\<forall>m \<in> set (app_organization_memberships d). mb_app_user_id m \<in> set (map au_id (app_users d))) \<and>
     (\<forall>x \<in> set (app_user_roles d). ur_role_id x \<in> set (map role_id (app_roles d))) \<and>
     (\<forall>x \<in> set (app_group_memberships d). gm_group_id x \<in> set (map grp_id (app_groups d)))"

lemmas write_defs = add_user_role_def remove_user_role_def add_group_roles_def remove_group_roles_def
  attach_permissions_def detach_permissions_def add_group_members_def remove_group_members_def delete_group_def
  add_role_def copy_permissions_def delete_role_def add_membership_def new_membership_def set_status_where_def
  remove_memberships_def remove_grants_def set_default_flag_def update_org_def delete_org_def

lemmas authority_defs = role_carries_def has_active_membership_def org_is_active_def

lemma removed_iff [simp]:
  "grantIsRemoved g no_removal \<longleftrightarrow> False"
  "grantIsRemoved g (no_removal\<lparr>rm_role_ids := rs\<rparr>) \<longleftrightarrow> sg_role_id g \<in> set rs"
  "grantIsRemoved g (no_removal\<lparr>rm_organization_ids := os\<rparr>) \<longleftrightarrow> sg_organization_id g \<in> set os"
  "grantIsRemoved g (no_removal\<lparr>rm_memberships := ms\<rparr>) \<longleftrightarrow> (sg_app_user_id g, sg_organization_id g) \<in> set ms"
  "grantIsRemoved g (no_removal\<lparr>rm_assignments := as\<rparr>) \<longleftrightarrow> (\<exists>a \<in> set as. sg_app_user_id a = sg_app_user_id g \<and>
     sg_organization_id a = sg_organization_id g \<and> sg_role_id a = sg_role_id g)"
  by (auto simp: grantIsRemoved_def no_removal_def intro: bexI [where x = "(sg_app_user_id g, sg_organization_id g)"])

interpretation role_grant: additive_write "\<lambda>_. True" "add_user_role uid oid rid" for uid oid rid
  by unfold_locales (erule grant_kept; simp add: write_defs authority_defs)

interpretation role_revocation: guarded_write "\<lambda>_. True" "remove_user_role uid oid rid"
    "no_removal\<lparr>rm_assignments := [\<lparr>sg_app_user_id = uid, sg_organization_id = oid, sg_role_id = rid\<rparr>]\<rparr>"
  for uid oid rid
  by unfold_locales (erule grant_kept; auto simp: write_defs authority_defs delete_where_set)

interpretation group_bundle: additive_write "\<lambda>_. True"
    "\<lambda>d. remove_group_roles gid remove (add_group_roles gid add d)" for gid add remove
  by unfold_locales (erule grant_kept; simp add: write_defs authority_defs)

interpretation group_membership: additive_write "\<lambda>_. True"
    "\<lambda>d. remove_group_members gid remove (add_group_members gid add d)" for gid add remove
  by unfold_locales (erule grant_kept; simp add: write_defs authority_defs)

interpretation group_deletion: additive_write "\<lambda>_. True" "delete_group gid" for gid
  by unfold_locales (erule grant_kept; simp add: write_defs authority_defs)

lemma attach_keeps: "role_carries d r k \<Longrightarrow> role_carries (attach_permissions rid ps d) r k"
  by (auto simp: role_carries_def attach_permissions_def)

interpretation permission_attachment: additive_write "\<lambda>_. True" "attach_permissions rid ps" for rid ps
  by unfold_locales (erule grant_kept; simp add: attach_keeps; simp add: write_defs authority_defs)

lemma detach_other: "role_carries d r k \<Longrightarrow> r \<noteq> rid \<Longrightarrow> role_carries (detach_permissions rid ps d) r k"
  by (auto simp: role_carries_def detach_permissions_def delete_where_set)

interpretation permission_detachment: guarded_write "\<lambda>_. True"
    "\<lambda>d. detach_permissions rid remove (attach_permissions rid add d)" "no_removal\<lparr>rm_role_ids := [rid]\<rparr>"
  for rid remove add
  by unfold_locales
    (erule grant_kept; simp add: attach_keeps detach_other;
      simp add: write_defs authority_defs)

lemma one_permission:
  "refs_ok d \<Longrightarrow> p \<in> set (app_permissions d) \<Longrightarrow> q \<in> set (app_permissions d) \<Longrightarrow> perm_id p = perm_id q \<Longrightarrow> p = q"
  by (auto simp: refs_ok_def distinct_map inj_on_def)

text \<open>Permissions without the superuser's among them.\<close>

definition harmless :: "permission_row list \<Rightarrow> db \<Rightarrow> bool" where
  "harmless ps d \<longleftrightarrow> refs_ok d \<and> set ps \<subseteq> set (app_permissions d) \<and> SUPERADMIN_PERMISSION \<notin> perm_key ` set ps"

lemma harmless_detach:
  assumes "harmless ps d" "role_carries d r SUPERADMIN_PERMISSION"
  shows "role_carries (detach_permissions rid ps (attach_permissions rid add d)) r SUPERADMIN_PERMISSION"
proof -
  from assms(2) obtain rp p where rp: "rp \<in> set (app_role_permissions d)" "rp_role_id rp = r"
    "p \<in> set (app_permissions d)" "perm_id p = rp_permission_id rp" "perm_key p = SUPERADMIN_PERMISSION"
    unfolding role_carries_def by blast
  have "rp_permission_id rp \<notin> perm_id ` set ps"
  proof
    assume "rp_permission_id rp \<in> perm_id ` set ps"
    then obtain q where q: "q \<in> set ps" "perm_id p = perm_id q" using rp(4) by auto
    with assms(1) rp(3) have "p = q" unfolding harmless_def by (meson one_permission subsetD)
    with assms(1) rp(5) q(1) show False by (auto simp: harmless_def image_iff)
  qed
  with rp show ?thesis by (auto simp: role_carries_def write_defs delete_where_set)
qed

interpretation harmless_detachment: additive_write "harmless ps"
    "\<lambda>d. detach_permissions rid ps (attach_permissions rid add d)" for rid ps add
  by unfold_locales (erule grant_kept; simp add: harmless_detach; simp add: write_defs authority_defs)

interpretation role_creation: additive_write "\<lambda>_. True" "add_role r" for r
  by unfold_locales (erule grant_kept; simp add: write_defs authority_defs)

interpretation role_copy: additive_write "\<lambda>_. True" "\<lambda>d. copy_permissions source new (add_role r d)" for source new r
  by unfold_locales (erule grant_kept; simp add: write_defs authority_defs; blast)

lemma unused_role: "assertRoleNotInUse d rid \<Longrightarrow> x \<in> set (app_user_roles d) \<Longrightarrow> ur_role_id x \<noteq> rid"
  by (auto simp: assertRoleNotInUse_def count_where_def filter_empty_conv)

lemma delete_role_grant:
  assumes u: "assertRoleNotInUse d rid" and g: "g \<in> set (activeGlobalSuperuserGrants d now None)"
  shows "g \<in> set (activeGlobalSuperuserGrants (delete_role rid d) now None)"
proof -
  from g obtain x where "x \<in> set (app_user_roles d)" "sg_role_id g = ur_role_id x" unfolding grants_mem by blast
  with unused_role [OF u] have "sg_role_id g \<noteq> rid" by metis
  then show ?thesis
    by (intro grant_kept [OF g]) (auto simp: write_defs authority_defs delete_where_set)
qed

interpretation role_deletion: additive_write "\<lambda>d. assertRoleNotInUse d rid" "delete_role rid" for rid
  by unfold_locales (rule delete_role_grant)

interpretation group_creation: additive_write "\<lambda>_. True" "\<lambda>d. d\<lparr>app_groups := app_groups d @ [x]\<rparr>" for x
  by unfold_locales (erule grant_kept; simp add: authority_defs)

interpretation permission_creation: additive_write "\<lambda>_. True" "\<lambda>d. d\<lparr>app_permissions := app_permissions d @ [p]\<rparr>" for p
  by unfold_locales (erule grant_kept; simp add: authority_defs; blast)

interpretation permission_deletion: additive_write "\<lambda>d. assertPermissionNotInUse d pid"
    "\<lambda>d. d\<lparr>app_permissions := delete_where (\<lambda>p. perm_id p = pid) (app_permissions d)\<rparr>" for pid
  by unfold_locales (erule grant_kept;
      fastforce simp: authority_defs delete_where_set assertPermissionNotInUse_def count_where_def filter_empty_conv)

subsection \<open>Memberships\<close>

lemma one_membership:
  "refs_ok d \<Longrightarrow> m \<in> set (app_organization_memberships d) \<Longrightarrow> m' \<in> set (app_organization_memberships d) \<Longrightarrow>
     mb_id m = mb_id m' \<Longrightarrow> m = m'"
  by (auto simp: refs_ok_def distinct_map inj_on_def)

interpretation membership_creation: additive_write "\<lambda>_. True" "add_membership m" for m
  by unfold_locales (erule grant_kept; simp add: write_defs authority_defs; blast)

lemma status_kept:
  assumes "has_active_membership d uid oid"
    and "\<And>m. m \<in> set (app_organization_memberships d) \<Longrightarrow> mb_app_user_id m = uid \<Longrightarrow> mb_organization_id m = oid \<Longrightarrow>
      Q m \<Longrightarrow> st = ''active''"
  shows "has_active_membership (set_status_where Q st d) uid oid"
proof -
  from assms(1) obtain m where m: "m \<in> set (app_organization_memberships d)" "mb_app_user_id m = uid"
    "mb_organization_id m = oid" "mb_status m = ''active''" unfolding has_active_membership_def by blast
  define m' where "m' = (if Q m then m\<lparr>mb_status := st, mb_pre_deactivation_status := None\<rparr> else m)"
  have "m' \<in> set (app_organization_memberships (set_status_where Q st d))"
    using m(1) by (auto simp: m'_def set_status_where_def update_where_def)
  moreover have "mb_app_user_id m' = uid" "mb_organization_id m' = oid" "mb_status m' = ''active''"
    using m assms(2) [OF m(1-3)] by (auto simp: m'_def)
  ultimately show ?thesis unfolding has_active_membership_def by blast
qed

lemma status_grant:
  assumes "g \<in> set (activeGlobalSuperuserGrants d now None)"
    and "\<And>m. m \<in> set (app_organization_memberships d) \<Longrightarrow> mb_app_user_id m = sg_app_user_id g \<Longrightarrow>
      mb_organization_id m = sg_organization_id g \<Longrightarrow> Q m \<Longrightarrow> st = ''active''"
  shows "g \<in> set (activeGlobalSuperuserGrants (set_status_where Q st d) now None)"
  by (rule grant_kept [OF assms(1)])
    (simp_all add: status_kept assms(2), simp_all add: set_status_where_def role_carries_def org_is_active_def)

text \<open>Memberships of one user, and members of one organization.\<close>

definition rows_of_user :: "uuid \<Rightarrow> membership_row list \<Rightarrow> db \<Rightarrow> bool" where
  "rows_of_user uid ms d \<longleftrightarrow>
     refs_ok d \<and> set ms \<subseteq> {m \<in> set (app_organization_memberships d). mb_app_user_id m = uid}"

definition rows_of_org :: "string \<Rightarrow> string list \<Rightarrow> membership_row list \<Rightarrow> db \<Rightarrow> bool" where
  "rows_of_org i ids ms d \<longleftrightarrow> refs_ok d \<and> canonical i \<and> ms = map fst (loadScopedMembers d i ids)"

lemma user_row_described:
  assumes "rows_of_user uid ms d" "m \<in> set (app_organization_memberships d)" "mb_id m \<in> mb_id ` set ms"
  shows "mb_organization_id m \<in> mb_organization_id ` set ms"
  using assms one_membership [of d m] unfolding rows_of_user_def by blast

lemma org_row_described:
  assumes "rows_of_org i ids ms d" "m \<in> set (app_organization_memberships d)" "mb_id m \<in> pg_uuid ` set ids"
    "mb_organization_id m = pg_uuid i"
  shows "mb_app_user_id m \<in> mb_app_user_id ` set ms"
proof -
  have "mb_app_user_id m \<in> set (map au_id (app_users d))"
    using assms(1,2) by (simp add: rows_of_org_def refs_ok_def)
  with assms scoped_members(2) [of m d i ids] show ?thesis by (auto simp: rows_of_org_def)
qed

interpretation own_status: guarded_write "rows_of_user uid ms"
    "set_status_where (\<lambda>m. mb_app_user_id m = uid \<and> mb_id m \<in> mb_id ` set ms) st" "membership_removal uid ms"
  for uid ms st
  by unfold_locales (erule status_grant, use user_row_described in \<open>force simp: membership_removal_def\<close>)

interpretation member_status: guarded_write "rows_of_org i ids ms"
    "set_status_where (\<lambda>m. mb_id m \<in> pg_uuid ` set ids \<and> mb_organization_id m = pg_uuid i) st" "members_removal i ms"
  for i ids ms st
  by unfold_locales (erule status_grant, use org_row_described in \<open>force simp: members_removal_def rows_of_org_def canonical_def\<close>)

interpretation activation: additive_write "\<lambda>_. True" "set_status_where Q ''active''" for Q
  by unfold_locales (erule status_grant, simp)

lemma removal_grant:
  assumes "g \<in> set (activeGlobalSuperuserGrants d now None)"
    and "\<not> there (sg_app_user_id g) (sg_organization_id g)"
    and "\<And>m. m \<in> set (app_organization_memberships d) \<Longrightarrow> mb_app_user_id m = sg_app_user_id g \<Longrightarrow>
      mb_organization_id m = sg_organization_id g \<Longrightarrow> \<not> Q m"
  shows "g \<in> set (activeGlobalSuperuserGrants (remove_memberships Q (remove_grants there d)) now None)"
  by (rule grant_kept [OF assms(1)])
    (use assms(2,3) in \<open>auto simp: remove_memberships_def remove_grants_def authority_defs delete_where_set\<close>)

interpretation own_departure: guarded_write "rows_of_user uid ms"
    "\<lambda>d. remove_memberships (\<lambda>m. mb_app_user_id m = uid \<and> mb_id m \<in> mb_id ` set ms)
           (remove_grants (\<lambda>u oid. u = uid \<and> oid \<in> mb_organization_id ` set ms) d)" "membership_removal uid ms"
  for uid ms
  by unfold_locales
    (erule removal_grant, force simp: membership_removal_def, use user_row_described in \<open>force simp: membership_removal_def\<close>)

interpretation member_departure: guarded_write "rows_of_org i ids ms"
    "\<lambda>d. remove_memberships (\<lambda>m. mb_id m \<in> pg_uuid ` set ids \<and> mb_organization_id m = pg_uuid i)
           (remove_grants (\<lambda>u oid. u \<in> mb_app_user_id ` set ms \<and> oid = pg_uuid i) d)" "members_removal i ms"
  for i ids ms
  by unfold_locales
    (erule removal_grant, force simp: members_removal_def rows_of_org_def canonical_def,
     use org_row_described in \<open>force simp: members_removal_def rows_of_org_def canonical_def\<close>)

subsection \<open>Organizations\<close>

interpretation org_creation: additive_write "\<lambda>_. True" "\<lambda>d. d\<lparr>app_organizations := app_organizations d @ [r]\<rparr>" for r
  by unfold_locales (erule grant_kept; simp add: authority_defs; blast)

lemma bex_update_where: "(\<exists>x \<in> set (update_where Q f t). R x) \<longleftrightarrow> (\<exists>x \<in> set t. R (if Q x then f x else x))"
  by (auto simp: update_where_def)

lemma default_flag_active [simp]: "org_is_active (set_default_flag Q b d) = org_is_active d"
  by (simp add: org_is_active_def set_default_flag_def bex_update_where fun_eq_iff if_distrib cong: if_cong)

interpretation default_flag: additive_write "\<lambda>_. True" "set_default_flag Q b" for Q b
  by unfold_locales (erule grant_kept, simp_all, simp_all add: set_default_flag_def authority_defs)

definition keeps_active :: "org_update_body \<Rightarrow> bool" where
  "keeps_active b \<longleftrightarrow> ou_status b = None \<or> ou_status b = Some ACTIVE_ORGANIZATION_STATUS"

lemma update_active:
  assumes "org_is_active d oid'" "oid' \<noteq> oid \<or> keeps_active b"
  shows "org_is_active (update_org oid b d) oid'"
  using assms unfolding org_is_active_def update_org_def
  by (auto simp: bex_update_where apply_org_update_def keeps_active_def split: option.splits)

interpretation deactivation: guarded_write "\<lambda>_. True" "update_org oid b" "no_removal\<lparr>rm_organization_ids := [oid]\<rparr>" for oid b
  by unfold_locales (erule grant_kept, simp_all add: update_active, simp_all add: update_org_def authority_defs)

interpretation org_update: additive_write "\<lambda>_. keeps_active b" "update_org oid b" for oid b
  by unfold_locales (erule grant_kept, simp_all add: update_active, simp_all add: update_org_def authority_defs)

lemma delete_org_grant:
  assumes "\<not> org_referenced e d cs oid" and g: "g \<in> set (activeGlobalSuperuserGrants d now None)"
  shows "g \<in> set (activeGlobalSuperuserGrants (delete_org oid d) now None)"
proof -
  have "sg_organization_id g \<noteq> oid" using assms unfolding grants_mem org_referenced_def by metis
  then show ?thesis
    by (intro grant_kept [OF g]) (auto simp: delete_org_def authority_defs delete_where_set)
qed

interpretation org_deletion: additive_write "\<lambda>d. \<not> org_referenced e d cs oid" "delete_org oid" for e cs oid
  by unfold_locales (rule delete_org_grant)

subsection \<open>Keys and references are kept\<close>

definition installation_ok :: "db \<Rightarrow> bool" where
  "installation_ok d \<longleftrightarrow> accounts_wf d \<and> refs_ok d"

lemma delete_where_distinct: "distinct (map k t) \<Longrightarrow> distinct (map k (delete_where Q t))"
  by (simp add: delete_where_def distinct_map_filter)

lemma key_survives:
  "k \<in> f ` set t \<Longrightarrow> (\<And>x. f x = k \<Longrightarrow> x \<in> set t \<Longrightarrow> \<not> Q x) \<Longrightarrow> k \<in> f ` set (delete_where Q t)"
  by (auto simp: delete_where_set)

lemmas ok_defs = installation_ok_def refs_ok_def accounts_wf_def users_wf_def

lemma grants_ok:
  "installation_ok d \<Longrightarrow> rid \<in> set (map role_id (app_roles d)) \<Longrightarrow> installation_ok (add_user_role uid oid rid d)"
  "installation_ok d \<Longrightarrow> installation_ok (remove_user_role uid oid rid d)"
  "installation_ok d \<Longrightarrow> installation_ok (add_group_roles gid rids d)"
  "installation_ok d \<Longrightarrow> installation_ok (remove_group_roles gid rids d)"
  "installation_ok d \<Longrightarrow> installation_ok (attach_permissions rid ps d)"
  "installation_ok d \<Longrightarrow> installation_ok (detach_permissions rid ps d)"
  "installation_ok d \<Longrightarrow> x \<in> set (app_groups d) \<Longrightarrow> installation_ok (add_group_members (grp_id x) uids d)"
  "installation_ok d \<Longrightarrow> installation_ok (remove_group_members gid uids d)"
  by (auto simp: ok_defs write_defs delete_where_set)

lemma group_deletion_ok: "installation_ok d \<Longrightarrow> installation_ok (delete_group gid d)"
  by (auto simp: ok_defs delete_group_def delete_where_set delete_where_distinct intro!: key_survives)

lemma catalog_ok:
  "installation_ok d \<Longrightarrow> role_id r \<notin> set (map role_id (app_roles d)) \<Longrightarrow> installation_ok (add_role r d)"
  "installation_ok d \<Longrightarrow> installation_ok (copy_permissions source new d)"
  "installation_ok d \<Longrightarrow> grp_id x \<notin> set (map grp_id (app_groups d)) \<Longrightarrow>
     installation_ok (d\<lparr>app_groups := app_groups d @ [x]\<rparr>)"
  "installation_ok d \<Longrightarrow> perm_id p \<notin> set (map perm_id (app_permissions d)) \<Longrightarrow>
     installation_ok (d\<lparr>app_permissions := app_permissions d @ [p]\<rparr>)"
  "installation_ok d \<Longrightarrow> installation_ok (d\<lparr>app_permissions := delete_where Q (app_permissions d)\<rparr>)"
  by (auto simp: ok_defs write_defs delete_where_distinct)

lemma role_deletion_ok: "installation_ok d \<Longrightarrow> assertRoleNotInUse d rid \<Longrightarrow> installation_ok (delete_role rid d)"
  using unused_role [of d rid] by (fastforce simp: ok_defs delete_role_def delete_where_set delete_where_distinct)

lemma set_status_keys: "map mb_id (update_where Q (\<lambda>m. m\<lparr>mb_status := st, mb_pre_deactivation_status := None\<rparr>) t) = map mb_id t"
  by (simp add: map_update_where_same)

lemma members_ok:
  "installation_ok d \<Longrightarrow> mb_id m \<notin> set (map mb_id (app_organization_memberships d)) \<Longrightarrow>
     mb_app_user_id m \<in> set (map au_id (app_users d)) \<Longrightarrow> installation_ok (add_membership m d)"
  "installation_ok d \<Longrightarrow> installation_ok (set_status_where Q st d)"
  "installation_ok d \<Longrightarrow> installation_ok (remove_memberships Q d)"
  "installation_ok d \<Longrightarrow> installation_ok (remove_grants there d)"
  by (auto simp: ok_defs add_membership_def set_status_where_def remove_memberships_def remove_grants_def
      delete_where_set delete_where_distinct set_status_keys update_where_set)

lemma orgs_ok:
  "installation_ok d \<Longrightarrow> installation_ok (d\<lparr>app_organizations := os\<rparr>)"
  "installation_ok d \<Longrightarrow> installation_ok (set_default_flag Q b d)"
  "installation_ok d \<Longrightarrow> installation_ok (update_org oid body d)"
  by (auto simp: ok_defs set_default_flag_def update_org_def)

lemma org_deletion_ok: "installation_ok d \<Longrightarrow> installation_ok (delete_org oid d)"
proof -
  assume ok: "installation_ok d"
  have "gm_group_id x \<in> grp_id ` set (delete_where (\<lambda>y. grp_organization_id y = oid) (app_groups d))"
    if "x \<in> set (app_group_memberships d)" "gm_group_id x \<notin> org_groups d oid" for x
  proof (rule key_survives)
    show "gm_group_id x \<in> grp_id ` set (app_groups d)" using ok that(1) by (simp add: ok_defs)
    show "grp_organization_id y \<noteq> oid" if y: "grp_id y = gm_group_id x" "y \<in> set (app_groups d)" for y
      using that \<open>gm_group_id x \<notin> org_groups d oid\<close> unfolding org_groups_def by (metis (mono_tags) imageI mem_Collect_eq)
  qed
  with ok show ?thesis
    by (auto simp: ok_defs delete_org_def delete_where_set delete_where_distinct)
qed

lemma flags_ok:
  "installation_ok d \<Longrightarrow> moveDefaultOrganizationFlag oid d = Some d' \<Longrightarrow> installation_ok d'"
  "installation_ok d \<Longrightarrow> move_or_clear flag i d = Some d' \<Longrightarrow> installation_ok d'"
  by (auto simp: move_or_clear_def moveDefaultOrganizationFlag_def clearDefaultOrganizationFlag_def orgs_ok
      split: option.splits if_splits bool.splits)

lemma serve_ok:
  assumes "installation_ok (ad_db s)" "fresh_request (ad_db s) r"
  shows "installation_ok (ad_db (serve zuuid digest s now g r))"
proof (cases r)
  case (Grant x)
  have "installation_ok (ad_db (serve_grant s now g x))"
    by (cases x; simp only: serve_grant.simps; rule grant_cases [where P = installation_ok])
      (simp_all add: assms(1) grants_ok group_deletion_ok)
  then show ?thesis by (simp add: Grant)
next
  case (Catalog x)
  have "installation_ok (ad_db (serve_catalog s now g x))"
    by (cases x; simp only: serve_catalog.simps; rule catalog_cases [where P = installation_ok])
      (use assms Catalog in \<open>simp_all add: catalog_ok role_deletion_ok\<close>)
  then show ?thesis by (simp add: Catalog)
next
  case (Member x)
  have "installation_ok (ad_db (serve_member zuuid s now g x))"
    by (cases x; simp only: serve_member.simps; rule member_cases [where P = installation_ok])
      (use assms Member in \<open>simp_all add: members_ok new_membership_def\<close>)
  then show ?thesis by (simp add: Member)
next
  case (Org x)
  have "installation_ok (ad_db (serve_org digest s now g x))"
    by (cases x; simp only: serve_org.simps; rule org_cases [where P = installation_ok])
      (auto simp: assms(1) orgs_ok org_deletion_ok
        dest!: flags_ok(1) [OF orgs_ok(1) [OF assms(1)]] flags_ok(2) [OF assms(1)])
  then show ?thesis by (simp add: Org)
qed

lemma confined_ok: "confined t ba d d' \<Longrightarrow> installation_ok d \<Longrightarrow> installation_ok d'"
proof -
  assume c: "confined t ba d d'" and ok: "installation_ok d"
  then have keys: "map membership_keys (app_organization_memberships d') = map membership_keys (app_organization_memberships d)"
    and ids: "map au_id (app_users d') = map au_id (app_users d)" by (simp_all add: confined_def)
  have "map fst (map membership_keys (app_organization_memberships d')) = map fst (map membership_keys (app_organization_memberships d))"
    "map (fst \<circ> snd) (map membership_keys (app_organization_memberships d')) =
     map (fst \<circ> snd) (map membership_keys (app_organization_memberships d))" by (simp_all only: keys)
  then have m: "map mb_id (app_organization_memberships d') = map mb_id (app_organization_memberships d)"
    "map mb_app_user_id (app_organization_memberships d') = map mb_app_user_id (app_organization_memberships d)"
    by (simp_all add: membership_keys_def comp_def)
  have rest: "app_permissions d' = app_permissions d" "app_roles d' = app_roles d" "app_groups d' = app_groups d"
    "app_user_roles d' = app_user_roles d" "app_group_memberships d' = app_group_memberships d"
    using c by (cases d; cases d'; simp add: confined_def)+
  have u: "(\<forall>m \<in> set (app_organization_memberships x). mb_app_user_id m \<in> set (map au_id (app_users x))) \<longleftrightarrow>
      set (map mb_app_user_id (app_organization_memberships x)) \<subseteq> set (map au_id (app_users x))" for x by auto
  show ?thesis
    using ok confined_accounts_wf [OF c] unfolding installation_ok_def refs_ok_def u unfolding m ids rest by blast
qed

subsection \<open>A superadmin remains\<close>

lemma serve_grant_survives:
  assumes ok: "installation_ok (ad_db s)" and sup: "superuser_survives (ad_db s) now" and c: "canonical_request (Grant r)"
  shows "superuser_survives (ad_db (serve_grant s now g r)) now"
proof -
  let ?P = "\<lambda>d. superuser_survives d now"
  have attach_Nil: "attach_permissions rid [] d = d" for rid d
    by (simp add: attach_permissions_def insert_missing_def)
  have as_pair: "add_group_roles gid rids d = remove_group_roles gid [] (add_group_roles gid rids d)"
    "remove_group_roles gid rids d = remove_group_roles gid rids (add_group_roles gid [] d)"
    "add_group_members gid rids d = remove_group_members gid [] (add_group_members gid rids d)"
    "remove_group_members gid rids d = remove_group_members gid rids (add_group_members gid [] d)" for gid rids d
    by (simp_all add: write_defs insert_missing_def delete_where_def)
  have detached: "?P (detach_permissions (pg_uuid i) rem (attach_permissions (pg_uuid i) add (ad_db s)))"
    if "canonical i" "\<not> strips_by_detach (ad_db s) now i rem" "set rem \<subseteq> set (app_permissions (ad_db s))" for i rem add
  proof (cases "SUPERADMIN_PERMISSION \<in> perm_key ` set rem")
    case True
    with that(1,2) show ?thesis
      using permission_detachment.keeps_superuser [OF TrueI sup] by (simp add: strips_by_detach_def canonical_def)
  next
    case False
    with that(3) ok have "harmless rem (ad_db s)" by (simp add: harmless_def installation_ok_def)
    then show ?thesis by (rule harmless_detachment.keeps [OF _ sup])
  qed
  have revoke: "?P (ad_db (fst (app_roles_DELETE s now g i body)))"
    if "canonical_request (Grant (RevokeRole i body))" for i body
    by (rule app_roles_DELETE_cases [where P = ?P])
      (use that sup role_revocation.keeps_superuser [OF TrueI sup] in \<open>auto simp: canonical_def\<close>)
  have detach: "?P (ad_db (fst (role_permissions_DELETE s now g i body)))" if "canonical i" for i body
    by (rule role_permissions_DELETE_cases [where P = ?P])
      (use that sup detached [of i _ "[]"] in \<open>auto simp: attach_Nil resolve_keys_def\<close>)
  have patch: "?P (ad_db (fst (role_permissions_PATCH s now g i body)))" if "canonical i" for i body
    by (rule role_permissions_PATCH_cases [where P = ?P]) (use that sup detached in auto)
  have groups: "?P (add_group_roles gid rids (ad_db s))" "?P (remove_group_roles gid rids (ad_db s))"
    "?P (add_group_members gid rids (ad_db s))" "?P (remove_group_members gid rids (ad_db s))" for gid rids
    using group_bundle.keeps [OF TrueI sup] group_membership.keeps [OF TrueI sup] as_pair by metis+
  show ?thesis
    by (cases r; simp only: serve_grant.simps;
        (rule revoke | rule detach | rule patch | rule grant_cases [where P = ?P]))
      (use c in \<open>auto simp: sup groups role_grant.keeps group_bundle.keeps permission_attachment.keeps
         group_deletion.keeps\<close>)
qed

lemma serve_catalog_survives:
  assumes "superuser_survives (ad_db s) now"
  shows "superuser_survives (ad_db (serve_catalog s now g r)) now"
  by (cases r; simp only: serve_catalog.simps; rule catalog_cases [where P = "\<lambda>d. superuser_survives d now"])
    (auto simp: assms role_creation.keeps role_copy.keeps role_deletion.keeps group_creation.keeps
      permission_creation.keeps permission_deletion.keeps)

lemma serve_member_survives:
  assumes ok: "refs_ok (ad_db s)" and sup: "superuser_survives (ad_db s) now" and c: "canonical_request (Member r)"
  shows "superuser_survives (ad_db (serve_member zuuid s now g r)) now"
proof -
  let ?P = "\<lambda>d. superuser_survives d now"
  have own: "rows_of_user uid ms (ad_db s)"
    if "set ms \<subseteq> {m \<in> set (app_organization_memberships (ad_db s)). mb_app_user_id m = uid}" for uid ms
    using ok that by (simp add: rows_of_user_def)
  have org: "rows_of_org i ids (map fst (loadScopedMembers (ad_db s) i ids)) (ad_db s)" if "canonical i" for i ids
    using ok that by (simp add: rows_of_org_def)
  have patch: "?P (ad_db (fst (user_memberships_PATCH zuuid s now g i body)))" for i body
  proof (rule user_memberships_PATCH_cases [where P = ?P])
    fix uid ms st
    assume "set ms \<subseteq> {m \<in> set (app_organization_memberships (ad_db s)). mb_app_user_id m = uid}"
      "st \<noteq> ''active'' \<longrightarrow> \<not> wouldStripLastGlobalSuperuser (membership_removal uid ms) (ad_db s) now"
    then show "?P (set_status_where (\<lambda>m. mb_app_user_id m = uid \<and> mb_id m \<in> mb_id ` set ms) st (ad_db s))"
      by (cases "st = ''active''") (simp_all add: sup activation.keeps own_status.keeps_superuser own)
  qed (rule sup)
  have member_patch: "?P (ad_db (fst (org_members_PATCH zuuid s now g i body)))" if i: "canonical i" for i body
  proof (rule org_members_PATCH_cases [where P = ?P])
    fix ids st
    assume "st \<noteq> ''active'' \<longrightarrow>
      \<not> wouldStripLastGlobalSuperuser (members_removal i (map fst (loadScopedMembers (ad_db s) i ids))) (ad_db s) now"
    then show "?P (set_status_where (\<lambda>m. mb_id m \<in> pg_uuid ` set ids \<and> mb_organization_id m = pg_uuid i) st (ad_db s))"
      by (cases "st = ''active''") (simp_all add: sup activation.keeps member_status.keeps_superuser [OF org [OF i]])
  qed (rule sup)
  have leave: "?P (ad_db (fst (user_memberships_DELETE zuuid s now g i body)))" for i body
    by (rule user_memberships_DELETE_cases [where P = ?P])
      (simp_all add: sup own_departure.keeps_superuser own)
  have member_leave: "?P (ad_db (fst (org_members_DELETE zuuid s now g i body)))" if "canonical i" for i body
    by (rule org_members_DELETE_cases [where P = ?P])
      (use member_departure.keeps_superuser [OF org [OF that] sup] in \<open>simp_all add: sup\<close>)
  show ?thesis
    by (cases r; simp only: serve_member.simps;
        (rule patch | rule member_patch | rule leave | rule member_leave | rule member_cases [where P = ?P]))
      (use c in \<open>auto simp: sup membership_creation.keeps\<close>)
qed

lemma flags_survive:
  assumes "superuser_survives d now"
  shows "moveDefaultOrganizationFlag oid d = Some d' \<Longrightarrow> superuser_survives d' now"
    "move_or_clear flag i d = Some d' \<Longrightarrow> superuser_survives d' now"
  using assms by (auto simp: move_or_clear_def moveDefaultOrganizationFlag_def clearDefaultOrganizationFlag_def
      default_flag.keeps split: option.splits if_splits bool.splits)

text \<open>The flag moves leave what the rule reads alone.\<close>

lemma default_flag_grants: "activeGlobalSuperuserGrants (set_default_flag Q b d) now x = activeGlobalSuperuserGrants d now x"
proof -
  have "has_active_membership (set_default_flag Q b d) = has_active_membership d"
    "account_can_sign_in (set_default_flag Q b d) = account_can_sign_in d"
    "role_carries (set_default_flag Q b d) = role_carries d" "app_user_roles (set_default_flag Q b d) = app_user_roles d"
    by (simp_all add: set_default_flag_def authority_defs account_can_sign_in_def fun_eq_iff)
  then show ?thesis by (simp add: activeGlobalSuperuserGrants_def)
qed

lemma move_strips:
  "move_or_clear flag i d = Some d' \<Longrightarrow> wouldStripLastGlobalSuperuser r d' now = wouldStripLastGlobalSuperuser r d now"
  by (auto simp: move_or_clear_def moveDefaultOrganizationFlag_def clearDefaultOrganizationFlag_def
      wouldStripLastGlobalSuperuser_def default_flag_grants split: option.splits if_splits bool.splits)

lemma serve_org_survives:
  assumes sup: "superuser_survives (ad_db s) now" and c: "canonical_request (Org r)"
  shows "superuser_survives (ad_db (serve_org digest s now g r)) now"
proof -
  let ?P = "\<lambda>d. superuser_survives d now"
  have patch: "?P (ad_db (fst (org_PATCH digest s now g ifMatch i body)))" if i: "canonical i" for ifMatch i body
  proof (rule org_PATCH_cases [where P = ?P])
    fix b :: org_update_body and d1
    assume m: "move_or_clear (ou_isDefault b) i (ad_db s) = Some d1"
      and n: "ou_status b \<noteq> None \<and> ou_status b \<noteq> Some ACTIVE_ORGANIZATION_STATUS \<longrightarrow>
        \<not> wouldStripLastGlobalSuperuser (no_removal\<lparr>rm_organization_ids := [i]\<rparr>) (ad_db s) now"
    have s1: "?P d1" by (rule flags_survive(2) [OF sup m])
    show "?P (update_org (pg_uuid i) b d1)"
    proof (cases "keeps_active b")
      case True
      then show ?thesis by (rule org_update.keeps [OF _ s1])
    next
      case False
      with n m i have "\<not> wouldStripLastGlobalSuperuser (no_removal\<lparr>rm_organization_ids := [pg_uuid i]\<rparr>) d1 now"
        by (simp add: keeps_active_def canonical_def move_strips)
      then show ?thesis by (rule deactivation.keeps_superuser [OF TrueI s1])
    qed
  qed (rule sup)
  show ?thesis
    by (cases r; simp only: serve_org.simps; (rule patch | rule org_cases [where P = ?P]))
      (use c in \<open>auto simp: sup org_creation.keeps org_deletion.keeps intro: flags_survive(1) [rotated]\<close>)
qed

lemma serve_survives:
  assumes "installation_ok (ad_db s)" "superuser_survives (ad_db s) now" "canonical_request r"
  shows "superuser_survives (ad_db (serve zuuid digest s now g r)) now"
  using assms by (cases r) (simp_all add: installation_ok_def serve_grant_survives serve_catalog_survives
      serve_member_survives serve_org_survives)

text \<open>Time only lifts bans.\<close>

lemma survives_later: "superuser_survives d now \<Longrightarrow> now \<le> now' \<Longrightarrow> superuser_survives d now'"
proof -
  assume s: "superuser_survives d now" and le: "now \<le> now'"
  have "sql_can_sign_in now' None b" if "sql_can_sign_in now None b" for b
    using that le by (auto simp: sql_can_sign_in_def split: option.splits)
  then have "account_can_sign_in d now' None uid" if "account_can_sign_in d now None uid" for uid
    using that unfolding account_can_sign_in_def by blast
  with s show ?thesis unfolding survives_iff grants_mem by blast
qed

lemma step_keeps:
  "admin_step zuuid digest canonical_request calm x y \<Longrightarrow> installation_ok (ad_db (fst x)) \<Longrightarrow> superuser_survives (ad_db (fst x)) (snd x) \<Longrightarrow>
     installation_ok (ad_db (fst y)) \<and> superuser_survives (ad_db (fst y)) (snd y)"
proof (induction rule: admin_step.induct)
  case (request s r now g)
  then show ?case by (simp add: serve_ok serve_survives)
next
  case (account u s f now action actor options)
  let ?s = "fst (executeBulkUserAction f s now action (target_of u) actor options)"
  have "installation_ok (ad_db ?s)"
    by (rule confined_ok [OF executeBulkUserAction_framed]) (use account.prems in simp)
  moreover have "superuser_survives (ad_db ?s) now"
    by (rule executeBulkUserAction_survives [OF _ account.hyps(1) refl])
      (use account in \<open>simp_all add: installation_ok_def\<close>)
  ultimately show ?case by simp
next
  case (time now now' s)
  then show ?case by (simp add: survives_later)
qed

subsection \<open>Every grant is backed by a membership\<close>

definition grants_backed :: "db \<Rightarrow> bool" where
  "grants_backed d \<longleftrightarrow>
     (\<forall>x \<in> set (app_user_roles d). userHasMembershipInOrg d (ur_app_user_id x) (ur_organization_id x)) \<and>
     (\<forall>x \<in> set (app_group_memberships d). \<forall>y \<in> set (app_groups d). grp_id y = gm_group_id x \<longrightarrow>
        userHasMembershipInOrg d (gm_app_user_id x) (grp_organization_id y))"

lemma active_is_member: "has_active_membership d uid oid \<Longrightarrow> userHasMembershipInOrg d uid oid"
  by (auto simp: has_active_membership_def userHasMembershipInOrg_def)

lemma one_group: "refs_ok d \<Longrightarrow> x \<in> set (app_groups d) \<Longrightarrow> y \<in> set (app_groups d) \<Longrightarrow> grp_id x = grp_id y \<Longrightarrow> x = y"
  by (auto simp: refs_ok_def distinct_map inj_on_def)

lemmas backed_defs = grants_backed_def userHasMembershipInOrg_def

lemma grants_backed_writes:
  "grants_backed d \<Longrightarrow> has_active_membership d uid oid \<Longrightarrow> grants_backed (add_user_role uid oid rid d)"
  "grants_backed d \<Longrightarrow> grants_backed (remove_user_role uid oid rid d)"
  "grants_backed d \<Longrightarrow> grants_backed (add_group_roles gid rids d)"
  "grants_backed d \<Longrightarrow> grants_backed (remove_group_roles gid rids d)"
  "grants_backed d \<Longrightarrow> grants_backed (attach_permissions rid ps d)"
  "grants_backed d \<Longrightarrow> grants_backed (detach_permissions rid ps d)"
  "grants_backed d \<Longrightarrow> grants_backed (remove_group_members gid uids d)"
  "grants_backed d \<Longrightarrow> grants_backed (delete_group gid d)"
  "grants_backed d \<Longrightarrow> grants_backed (add_role r d)"
  "grants_backed d \<Longrightarrow> grants_backed (copy_permissions source new d)"
  "grants_backed d \<Longrightarrow> grants_backed (delete_role rid d)"
  "grants_backed d \<Longrightarrow> grants_backed (d\<lparr>app_permissions := ps\<rparr>)"
  "grants_backed d \<Longrightarrow> grants_backed (add_membership m d)"
  "grants_backed d \<Longrightarrow> grants_backed (d\<lparr>app_organizations := os\<rparr>)"
  "grants_backed d \<Longrightarrow> grants_backed (set_default_flag Q b d)"
  "grants_backed d \<Longrightarrow> grants_backed (update_org oid body d)"
  by (auto simp: backed_defs write_defs delete_where_set dest: active_is_member [unfolded userHasMembershipInOrg_def])

lemma add_members_backed:
  assumes "grants_backed d" "refs_ok d" "x \<in> set (app_groups d)"
    and "\<forall>u \<in> set uids. has_active_membership d u (grp_organization_id x)"
  shows "grants_backed (add_group_members (grp_id x) uids d)"
proof -
  have "userHasMembershipInOrg d u (grp_organization_id y)"
    if "y \<in> set (app_groups d)" "grp_id y = grp_id x" "u \<in> set uids" for u y
    using one_group [OF assms(2) that(1) assms(3) that(2)] assms(4) that(3) by (auto dest: active_is_member)
  with assms(1) show ?thesis
    by (auto simp: grants_backed_def add_group_members_def userHasMembershipInOrg_def)
qed

lemma new_group_backed:
  "grants_backed d \<Longrightarrow> refs_ok d \<Longrightarrow> grp_id x \<notin> grp_id ` set (app_groups d) \<Longrightarrow>
     grants_backed (d\<lparr>app_groups := app_groups d @ [x]\<rparr>)"
  by (auto simp: backed_defs refs_ok_def)

lemma set_status_backed: "grants_backed d \<Longrightarrow> grants_backed (set_status_where Q st d)"
  by (simp add: backed_defs set_status_where_def bex_update_where if_distrib cong: if_cong)

lemma departure_backed:
  assumes "grants_backed d" "refs_ok d"
    and "\<And>m. m \<in> set (app_organization_memberships d) \<Longrightarrow> Q m \<Longrightarrow> there (mb_app_user_id m) (mb_organization_id m)"
  shows "grants_backed (remove_memberships Q (remove_grants there d))"
proof -
  have kept: "userHasMembershipInOrg (remove_memberships Q (remove_grants there d)) u oid"
    if "userHasMembershipInOrg d u oid" "\<not> there u oid" for u oid
  proof -
    from that(1) obtain m where m: "m \<in> set (app_organization_memberships d)" "mb_app_user_id m = u" "mb_organization_id m = oid"
      unfolding userHasMembershipInOrg_def by blast
    with that(2) assms(3) have "\<not> Q m" by blast
    with m show ?thesis
      unfolding userHasMembershipInOrg_def remove_memberships_def remove_grants_def
      by (intro bexI [where x = m]) (simp_all add: delete_where_set)
  qed
  have role: "\<exists>r \<in> set (app_roles d). role_id r = ur_role_id x" if "x \<in> set (app_user_roles d)" for x
    using assms(2) that by (force simp: refs_ok_def)
  show ?thesis
    unfolding grants_backed_def
  proof (intro conjI ballI impI kept)
    fix x assume x: "x \<in> set (app_user_roles (remove_memberships Q (remove_grants there d)))"
    then show "userHasMembershipInOrg d (ur_app_user_id x) (ur_organization_id x)"
      using assms(1) by (auto simp: grants_backed_def remove_memberships_def remove_grants_def delete_where_set)
    from x role show "\<not> there (ur_app_user_id x) (ur_organization_id x)"
      by (auto simp: remove_memberships_def remove_grants_def delete_where_set)
  next
    fix x y assume x: "x \<in> set (app_group_memberships (remove_memberships Q (remove_grants there d)))"
      "y \<in> set (app_groups (remove_memberships Q (remove_grants there d)))" "grp_id y = gm_group_id x"
    then show "userHasMembershipInOrg d (gm_app_user_id x) (grp_organization_id y)"
      using assms(1) by (auto simp: grants_backed_def remove_memberships_def remove_grants_def delete_where_set)
    from x show "\<not> there (gm_app_user_id x) (grp_organization_id y)"
      by (auto simp: remove_memberships_def remove_grants_def delete_where_set)
  qed
qed

lemma delete_org_backed: "grants_backed d \<Longrightarrow> grants_backed (delete_org oid d)"
  by (auto simp: backed_defs delete_org_def delete_where_set)

lemma flags_backed:
  "grants_backed d \<Longrightarrow> moveDefaultOrganizationFlag oid d = Some d' \<Longrightarrow> grants_backed d'"
  "grants_backed d \<Longrightarrow> move_or_clear flag i d = Some d' \<Longrightarrow> grants_backed d'"
  by (auto simp: move_or_clear_def moveDefaultOrganizationFlag_def clearDefaultOrganizationFlag_def grants_backed_writes
      split: option.splits if_splits bool.splits)

lemma confined_backed:
  assumes "confined t ba d d'" "grants_backed d"
  shows "grants_backed d'"
proof -
  have pair: "userHasMembershipInOrg x u oid \<longleftrightarrow>
      (u, oid) \<in> snd ` set (map membership_keys (app_organization_memberships x))" for x u oid
    by (auto simp: userHasMembershipInOrg_def membership_keys_def image_iff)
  have "userHasMembershipInOrg d' = userHasMembershipInOrg d"
    unfolding fun_eq_iff pair using assms(1) by (simp only: confined_def) simp
  moreover have "app_user_roles d' = app_user_roles d" "app_groups d' = app_groups d"
    "app_group_memberships d' = app_group_memberships d"
    using assms(1) by (cases d; cases d'; simp add: confined_def)+
  ultimately show ?thesis using assms(2) by (simp only: grants_backed_def)
qed

lemma serve_backed:
  assumes ok: "refs_ok (ad_db s)" and b: "grants_backed (ad_db s)" and f: "fresh_request (ad_db s) r"
  shows "grants_backed (ad_db (serve zuuid digest s now g r))"
proof (cases r)
  case (Grant x)
  have "grants_backed (ad_db (serve_grant s now g x))"
    by (cases x; simp only: serve_grant.simps; rule grant_cases [where P = grants_backed])
      (simp_all add: b ok grants_backed_writes add_members_backed)
  then show ?thesis by (simp add: Grant)
next
  case (Catalog x)
  have "grants_backed (ad_db (serve_catalog s now g x))"
    by (cases x; simp only: serve_catalog.simps; rule catalog_cases [where P = grants_backed])
      (use f Catalog in \<open>simp_all add: b ok grants_backed_writes new_group_backed\<close>)
  then show ?thesis by (simp add: Catalog)
next
  case (Member x)
  have leave: "grants_backed (ad_db (fst (user_memberships_DELETE zuuid s now g i body)))" for i body
    by (rule user_memberships_DELETE_cases [where P = grants_backed])
      (use user_row_described ok in \<open>auto simp: b rows_of_user_def intro!: departure_backed\<close>)
  have member_leave: "grants_backed (ad_db (fst (org_members_DELETE zuuid s now g i body)))" for i body
  proof (rule org_members_DELETE_cases [where P = grants_backed])
    fix ids ms there
    assume ms: "ms = map fst (loadScopedMembers (ad_db s) i ids)"
      and t: "there = (\<lambda>u oid. u \<in> mb_app_user_id ` set ms \<and> oid = pg_uuid i)"
    show "grants_backed (remove_memberships (\<lambda>m. mb_id m \<in> pg_uuid ` set ids \<and> mb_organization_id m = pg_uuid i)
        (remove_grants there (ad_db s)))"
      by (rule departure_backed [OF b ok])
        (use scoped_members(2) [of _ "ad_db s" i ids] ok in \<open>auto simp: t ms refs_ok_def\<close>)
  qed (rule b)
  have "grants_backed (ad_db (serve_member zuuid s now g x))"
    by (cases x; simp only: serve_member.simps;
        (rule leave | rule member_leave | rule member_cases [where P = grants_backed]))
      (simp_all add: b grants_backed_writes set_status_backed)
  then show ?thesis by (simp add: Member)
next
  case (Org x)
  have "grants_backed (ad_db (serve_org digest s now g x))"
    by (cases x; simp only: serve_org.simps; rule org_cases [where P = grants_backed])
      (auto simp: b grants_backed_writes delete_org_backed
        dest!: flags_backed(1) [OF grants_backed_writes(14) [OF b]] flags_backed(2) [OF b])
  then show ?thesis by (simp add: Org)
qed

lemma step_backed:
  "admin_step zuuid digest R F x y \<Longrightarrow> installation_ok (ad_db (fst x)) \<Longrightarrow> grants_backed (ad_db (fst x)) \<Longrightarrow>
     installation_ok (ad_db (fst y)) \<and> grants_backed (ad_db (fst y))"
proof (induction rule: admin_step.induct)
  case (request s r now g)
  then show ?case by (simp add: serve_ok serve_backed installation_ok_def [of "ad_db s"])
next
  case (account u s f now action actor options)
  then show ?case
    using confined_ok [OF executeBulkUserAction_framed] confined_backed [OF executeBulkUserAction_framed] by simp
qed simp

subsection \<open>One default organization\<close>

definition default_ids :: "db \<Rightarrow> uuid set" where
  "default_ids d = org_id ` {r \<in> set (app_organizations d). org_is_default r}"

definition one_default :: "db \<Rightarrow> bool" where
  "one_default d \<longleftrightarrow> distinct (map org_id (app_organizations d)) \<and> (\<exists>oid. default_ids d = {oid})"

lemma one_default_iff:
  "one_default d \<longleftrightarrow> distinct (map org_id (app_organizations d)) \<and> length (filter org_is_default (app_organizations d)) = 1"
proof -
  have "distinct (map org_id (app_organizations d)) \<Longrightarrow>
      length (filter org_is_default (app_organizations d)) = card (default_ids d)"
    using distinct_card [OF distinct_map_filter, of org_id "app_organizations d" org_is_default]
    by (simp add: default_ids_def)
  then show ?thesis unfolding one_default_def by (metis One_nat_def card_1_singleton_iff)
qed

lemma set_default_flag_orgs:
  "map org_id (app_organizations (set_default_flag Q b d)) = map org_id (app_organizations d)"
  by (simp add: set_default_flag_def map_update_where_same)

lemma set_default_flag_ids:
  "oid \<in> default_ids (set_default_flag Q b d) \<longleftrightarrow>
     (if Q oid then b \<and> oid \<in> org_id ` set (app_organizations d) else oid \<in> default_ids d)"
proof -
  have m: "oid \<in> default_ids x \<longleftrightarrow> (\<exists>r \<in> set (app_organizations x). org_is_default r \<and> org_id r = oid)" for x
    by (auto simp: default_ids_def)
  show ?thesis unfolding m set_default_flag_def by (auto simp: bex_update_where split: if_splits)
qed

lemma flag_move:
  assumes "moveDefaultOrganizationFlag oid d = Some d'" "distinct (map org_id (app_organizations d))"
  shows "one_default d'"
proof -
  have r: "oid \<in> org_id ` set (app_organizations d)"
    and d': "d' = set_default_flag (\<lambda>x. x = oid) True (set_default_flag (\<lambda>x. x \<noteq> oid) False d)"
    using assms(1) by (auto simp: moveDefaultOrganizationFlag_def find_None_set split: if_splits)
  have orgs: "set (map org_id (app_organizations (set_default_flag Q b d))) = set (map org_id (app_organizations d))" for Q b
    by (simp only: set_default_flag_orgs)
  have "x \<in> default_ids d' \<longleftrightarrow> x = oid" for x
    using r orgs by (auto simp: d' set_default_flag_ids)
  then have "default_ids d' = {oid}" by blast
  with assms(2) show ?thesis by (auto simp: one_default_def d' set_default_flag_orgs)
qed

lemma flag_clear:
  assumes "clearDefaultOrganizationFlag i d = Some d'" "canonical i" "one_default d"
  shows "one_default d'"
proof -
  from assms(3) obtain r where r: "filter org_is_default (app_organizations d) = [r]"
    unfolding one_default_iff by (auto simp: length_Suc_conv)
  then have g: "getDefaultOrganization d = Some r" by (simp add: getDefaultOrganization_def)
  with assms(1,2) have i: "org_id r \<noteq> i" and d': "d' = set_default_flag (\<lambda>x. x = i) False d"
    by (auto simp: clearDefaultOrganizationFlag_def canonical_def split: if_splits)
  have "set (filter org_is_default (app_organizations d)) = {r}" by (simp add: r)
  then have ids: "default_ids d = {org_id r}" by (simp add: default_ids_def)
  have "x \<in> default_ids d' \<longleftrightarrow> x = org_id r" for x
    using i by (auto simp: d' set_default_flag_ids ids)
  with assms(3) show ?thesis by (auto simp: one_default_def d' set_default_flag_orgs)
qed

lemma flag_update:
  assumes "move_or_clear flag i d = Some d'" "canonical i" "one_default d"
  shows "one_default (update_org oid b d')"
proof -
  have o: "one_default d'"
    using assms flag_move [of "pg_uuid i" d d'] flag_clear [of i d d']
    by (auto simp: move_or_clear_def one_default_def split: option.splits bool.splits)
  have "org_id (apply_org_update b r) = org_id r" "org_is_default (apply_org_update b r) = org_is_default r" for r
    by (simp_all add: apply_org_update_def)
  then have "map org_id (app_organizations (update_org oid b d')) = map org_id (app_organizations d')"
    "default_ids (update_org oid b d') = default_ids d'"
    by (auto simp: update_org_def default_ids_def map_update_where_same update_where_set image_iff)
      (metis)+
  with o show ?thesis by (simp add: one_default_def)
qed

lemma org_removal_default:
  assumes "one_default d" "org_by_id d i = Some r" "\<not> org_is_default r"
  shows "one_default (delete_org (pg_uuid i) d)"
proof -
  have r: "r \<in> set (app_organizations d)" "org_id r = pg_uuid i"
    using assms(2) by (auto simp: org_by_id_def dest: find_Some_iff_set)
  have "x = r" if "x \<in> set (app_organizations d)" "org_id x = pg_uuid i" for x
    using assms(1) that r by (auto simp: one_default_def distinct_map inj_on_def)
  then have "default_ids (delete_org (pg_uuid i) d) = default_ids d"
    using assms(3) by (auto simp: default_ids_def delete_org_def delete_where_set)
  with assms(1) show ?thesis by (simp add: one_default_def delete_org_def delete_where_distinct)
qed

lemma serve_orgs_frame:
  "app_organizations (ad_db (serve_grant s now g x)) = app_organizations (ad_db s)"
  "app_organizations (ad_db (serve_catalog s now g y)) = app_organizations (ad_db s)"
  "app_organizations (ad_db (serve_member zuuid s now g z)) = app_organizations (ad_db s)"
proof -
  let ?P = "\<lambda>d. app_organizations d = app_organizations (ad_db s)"
  show "?P (ad_db (serve_grant s now g x))"
    by (cases x; simp only: serve_grant.simps; rule grant_cases [where P = ?P]) (simp_all add: write_defs)
  show "?P (ad_db (serve_catalog s now g y))"
    by (cases y; simp only: serve_catalog.simps; rule catalog_cases [where P = ?P]) (simp_all add: write_defs)
  show "?P (ad_db (serve_member zuuid s now g z))"
    by (cases z; simp only: serve_member.simps; rule member_cases [where P = ?P]) (simp_all add: write_defs)
qed

lemma same_orgs: "app_organizations d' = app_organizations d \<Longrightarrow> one_default d' \<longleftrightarrow> one_default d"
  by (simp add: one_default_def default_ids_def)

lemma serve_one_default:
  assumes o: "one_default (ad_db s)" and f: "fresh_request (ad_db s) r" and c: "canonical_update r"
  shows "one_default (ad_db (serve zuuid digest s now g r))"
proof (cases r)
  case (Org x)
  show ?thesis
  proof (cases x)
    case (CreateOrg new body)
    with f Org have new: "new \<notin> org_id ` set (app_organizations (ad_db s))" by simp
    have "one_default (ad_db (fst (organizations_POST s now g new body)))"
    proof (rule organizations_POST_cases [where P = one_default])
      fix x :: org_row assume "org_id x = new" "\<not> org_is_default x"
      with o new show "one_default ((ad_db s)\<lparr>app_organizations := app_organizations (ad_db s) @ [x]\<rparr>)"
        by (auto simp: one_default_iff)
    next
      fix x :: org_row and d' assume "org_id x = new"
        and m: "moveDefaultOrganizationFlag new ((ad_db s)\<lparr>app_organizations := app_organizations (ad_db s) @ [x]\<rparr>) = Some d'"
      with o new show "one_default d'" by (intro flag_move [OF m]) (auto simp: one_default_def)
    qed (rule o)
    with Org CreateOrg show ?thesis by simp
  next
    case (UpdateOrg m i body)
    with c Org have "canonical i" by simp
    with flag_update o have "one_default (ad_db (fst (org_PATCH digest s now g m i body)))"
      by (intro org_PATCH_cases [where P = one_default]) auto
    with Org UpdateOrg show ?thesis by simp
  next
    case (DeleteOrg elsewhere i)
    from org_removal_default o have "one_default (ad_db (fst (org_DELETE elsewhere s now g i)))"
      by (intro org_DELETE_cases [where P = one_default]) auto
    with Org DeleteOrg show ?thesis by simp
  qed
qed (simp_all add: o same_orgs [OF serve_orgs_frame(1)] same_orgs [OF serve_orgs_frame(2)] same_orgs [OF serve_orgs_frame(3)])

lemma step_one_default:
  "admin_step zuuid digest canonical_update F x y \<Longrightarrow> one_default (ad_db (fst x)) \<Longrightarrow> one_default (ad_db (fst y))"
proof (induction rule: admin_step.induct)
  case (account u s f now action actor options)
  let ?d = "ad_db (fst (executeBulkUserAction f s now action (target_of u) actor options))"
  have "app_organizations d' = app_organizations d" if "confined t ba d d'" for t ba d d'
  proof -
    have "d'\<lparr>app_users := app_users d, app_organization_memberships := app_organization_memberships d,
        auth_users := auth_users d\<rparr> = d" using that unfolding confined_def by blast
    from arg_cong [OF this, of app_organizations] show ?thesis by simp
  qed
  from this [OF executeBulkUserAction_framed] have "app_organizations ?d = app_organizations (ad_db s)" .
  from same_orgs [OF this] account.prems show ?case by (simp only: fst_conv)
qed (simp_all add: serve_one_default)

end
