(* ===== verification/AdminClaims.thy ===== *)
theory AdminClaims
  imports AdminLaws
begin

text \<open>
  The properties of the administrator's routes, with the installation their witnesses run on.
\<close>

subsection \<open>What moves when authority moves\<close>

definition keys_held :: "db \<Rightarrow> uuid \<Rightarrow> uuid \<Rightarrow> string set" where
  "keys_held d uid oid = set (permissionKeysHeldInOrg d uid oid)"

text \<open>The keys that somebody gained or lost somewhere.\<close>

definition moved :: "db \<Rightarrow> db \<Rightarrow> string set" where
  "moved d d' = {k. \<exists>uid oid. (k \<in> keys_held d uid oid) \<noteq> (k \<in> keys_held d' uid oid)}"

lemma moved_refl [simp]: "moved d d = {}"
  by (simp add: moved_def)

lemma moved_trans: "moved a c \<subseteq> moved a b \<union> moved b c"
  by (auto simp: moved_def)

definition from_roles :: "db \<Rightarrow> uuid list \<Rightarrow> string set" where
  "from_roles d rids = {k. \<exists>r \<in> set rids. role_carries d r k}"

lemma from_roles_keys: "from_roles d rids = set (permissionKeysForRoles d rids)"
  by (auto simp: from_roles_def permissionKeysForRoles_mem)

definition from_group :: "db \<Rightarrow> uuid \<Rightarrow> string set" where
  "from_group d gid = {k. \<exists>x \<in> set (app_group_roles d). gr_group_id x = gid \<and> role_carries d (gr_role_id x) k}"

lemma from_group_keys: "from_group d gid = set (permissionKeysForGroup d gid)"
  by (auto simp: from_group_def permissionKeysForGroup_def role_keys_mem)

text \<open>The roles a user has in an organization, directly or through a group.\<close>

definition direct_roles :: "db \<Rightarrow> uuid \<Rightarrow> uuid \<Rightarrow> uuid set" where
  "direct_roles d uid oid = ur_role_id ` {x \<in> set (app_user_roles d). ur_app_user_id x = uid \<and> ur_organization_id x = oid}"

definition groups_in :: "db \<Rightarrow> uuid \<Rightarrow> uuid \<Rightarrow> uuid set" where
  "groups_in d uid oid = {gid. (\<exists>x \<in> set (app_group_memberships d). gm_app_user_id x = uid \<and> gm_group_id x = gid) \<and>
     (\<exists>y \<in> set (app_groups d). grp_id y = gid \<and> grp_organization_id y = oid)}"

definition roles_in :: "db \<Rightarrow> uuid \<Rightarrow> uuid \<Rightarrow> uuid set" where
  "roles_in d uid oid = direct_roles d uid oid \<union>
     gr_role_id ` {x \<in> set (app_group_roles d). gr_group_id x \<in> groups_in d uid oid}"

lemma keys_held_iff:
  "k \<in> keys_held d uid oid \<longleftrightarrow> has_active_membership d uid oid \<and> (\<exists>r \<in> roles_in d uid oid. role_carries d r k)"
proof -
  have direct: "(\<exists>r \<in> direct_roles d uid oid. role_carries d r k) \<longleftrightarrow>
      (\<exists>ur \<in> set (app_user_roles d). ur_app_user_id ur = uid \<and> ur_organization_id ur = oid \<and> role_carries d (ur_role_id ur) k)"
    by (auto simp: direct_roles_def)
  have grp: "(\<exists>r \<in> gr_role_id ` {x \<in> set (app_group_roles d). gr_group_id x \<in> G}. role_carries d r k) \<longleftrightarrow>
      (\<exists>gid \<in> G. \<exists>gr \<in> set (app_group_roles d). gr_group_id gr = gid \<and> role_carries d (gr_role_id gr) k)" for G
    by auto
  have via: "(\<exists>gid \<in> groups_in d uid oid. R gid) \<longleftrightarrow> (\<exists>gm \<in> set (app_group_memberships d). gm_app_user_id gm = uid \<and>
      (\<exists>g \<in> set (app_groups d). grp_id g = gm_group_id gm \<and> grp_organization_id g = oid) \<and> R (gm_group_id gm))" for R
    by (auto simp: groups_in_def)
  show ?thesis unfolding keys_held_def heldInOrg_mem roles_in_def bex_Un direct grp via ..
qed

text \<open>A change of assignments moves no more than the roles assigned or unassigned carry.\<close>

lemma moved_assignments:
  assumes "has_active_membership d' = has_active_membership d" "role_carries d' = role_carries d"
    and "\<And>uid oid. roles_in d uid oid - roles_in d' uid oid \<subseteq> R \<and> roles_in d' uid oid - roles_in d uid oid \<subseteq> R"
  shows "moved d d' \<subseteq> {k. \<exists>r \<in> R. role_carries d r k}"
proof
  fix k assume "k \<in> moved d d'"
  then obtain uid oid where "(k \<in> keys_held d uid oid) \<noteq> (k \<in> keys_held d' uid oid)" unfolding moved_def by blast
  then obtain r where "role_carries d r k" "(r \<in> roles_in d uid oid) \<noteq> (r \<in> roles_in d' uid oid)"
    unfolding keys_held_iff assms(1,2) by blast
  with assms(3) [of uid oid] show "k \<in> {k. \<exists>r \<in> R. role_carries d r k}" by blast
qed

lemma moved_user_role:
  "moved d (add_user_role uid oid rid d) \<subseteq> from_roles d [rid]"
  "moved d (remove_user_role uid oid rid d) \<subseteq>
     {k. \<exists>r \<in> {rid} \<inter> ur_role_id ` set (app_user_roles d). role_carries d r k}"
proof -
  have frame: "has_active_membership (d\<lparr>app_user_roles := t\<rparr>) = has_active_membership d"
    "role_carries (d\<lparr>app_user_roles := t\<rparr>) = role_carries d"
    "groups_in (d\<lparr>app_user_roles := t\<rparr>) = groups_in d" for t
    by (simp_all add: authority_defs groups_in_def fun_eq_iff)
  have "moved d (add_user_role uid oid rid d) \<subseteq> {k. \<exists>r \<in> {rid}. role_carries d r k}"
    by (rule moved_assignments) (auto simp: add_user_role_def frame roles_in_def direct_roles_def)
  then show "moved d (add_user_role uid oid rid d) \<subseteq> from_roles d [rid]" by (simp add: from_roles_def)
  show "moved d (remove_user_role uid oid rid d) \<subseteq>
     {k. \<exists>r \<in> {rid} \<inter> ur_role_id ` set (app_user_roles d). role_carries d r k}"
    by (rule moved_assignments) (auto simp: remove_user_role_def frame roles_in_def direct_roles_def delete_where_set)
qed

lemma moved_group_roles:
  "moved d (add_group_roles gid rids d) \<subseteq> from_roles d rids"
  "moved d (remove_group_roles gid rids d) \<subseteq> from_roles d rids"
proof -
  have frame: "has_active_membership (d\<lparr>app_group_roles := t\<rparr>) = has_active_membership d"
    "role_carries (d\<lparr>app_group_roles := t\<rparr>) = role_carries d"
    "groups_in (d\<lparr>app_group_roles := t\<rparr>) = groups_in d" "direct_roles (d\<lparr>app_group_roles := t\<rparr>) = direct_roles d" for t
    by (simp_all add: authority_defs groups_in_def direct_roles_def fun_eq_iff)
  show "moved d (add_group_roles gid rids d) \<subseteq> from_roles d rids"
    unfolding from_roles_def by (rule moved_assignments) (auto simp: add_group_roles_def frame roles_in_def)
  show "moved d (remove_group_roles gid rids d) \<subseteq> from_roles d rids"
    unfolding from_roles_def
    by (rule moved_assignments) (auto simp: remove_group_roles_def frame roles_in_def delete_where_set)
qed

lemma moved_group:
  assumes "has_active_membership d' = has_active_membership d" "role_carries d' = role_carries d"
    "direct_roles d' = direct_roles d"
    and "\<And>x. x \<in> set (app_group_roles d') \<longleftrightarrow> x \<in> set (app_group_roles d) \<and> (gr_group_id x = gid \<longrightarrow> keep)"
    and "\<And>uid oid g'. g' \<noteq> gid \<Longrightarrow> g' \<in> groups_in d' uid oid \<longleftrightarrow> g' \<in> groups_in d uid oid"
  shows "moved d d' \<subseteq> from_group d gid"
proof -
  have "moved d d' \<subseteq> {k. \<exists>r \<in> gr_role_id ` {x \<in> set (app_group_roles d). gr_group_id x = gid}. role_carries d r k}"
  proof (rule moved_assignments [OF assms(1,2)])
    fix uid oid
    let ?R = "gr_role_id ` {x \<in> set (app_group_roles d). gr_group_id x = gid}"
    have "r \<in> ?R" if "(r \<in> roles_in d uid oid) \<noteq> (r \<in> roles_in d' uid oid)" for r
    proof -
      from that obtain x where x: "gr_role_id x = r"
        "(x \<in> set (app_group_roles d) \<and> gr_group_id x \<in> groups_in d uid oid) \<noteq>
         (x \<in> set (app_group_roles d') \<and> gr_group_id x \<in> groups_in d' uid oid)"
        unfolding roles_in_def assms(3) by blast
      with assms(4) [of x] assms(5) [of "gr_group_id x" uid oid] have "gr_group_id x = gid" "x \<in> set (app_group_roles d)"
        by blast+
      with x(1) show ?thesis by blast
    qed
    then show "roles_in d uid oid - roles_in d' uid oid \<subseteq> ?R \<and> roles_in d' uid oid - roles_in d uid oid \<subseteq> ?R" by blast
  qed
  then show ?thesis unfolding from_group_def by blast
qed

lemma moved_group_members:
  "moved d (add_group_members gid uids d) \<subseteq> from_group d gid"
  "moved d (remove_group_members gid uids d) \<subseteq> from_group d gid"
  "moved d (delete_group gid d) \<subseteq> from_group d gid"
proof -
  have frame: "has_active_membership (d\<lparr>app_group_memberships := t\<rparr>) = has_active_membership d"
    "role_carries (d\<lparr>app_group_memberships := t\<rparr>) = role_carries d"
    "direct_roles (d\<lparr>app_group_memberships := t\<rparr>) = direct_roles d" for t
    by (simp_all add: authority_defs direct_roles_def fun_eq_iff)
  show "moved d (add_group_members gid uids d) \<subseteq> from_group d gid"
    by (rule moved_group [where keep = True]) (auto simp: add_group_members_def frame groups_in_def)
  show "moved d (remove_group_members gid uids d) \<subseteq> from_group d gid"
    by (rule moved_group [where keep = True]) (auto simp: remove_group_members_def frame groups_in_def delete_where_set)
  show "moved d (delete_group gid d) \<subseteq> from_group d gid"
    by (rule moved_group [where keep = False])
      (auto simp: delete_group_def authority_defs direct_roles_def groups_in_def delete_where_set fun_eq_iff)
qed

lemma moved_keys:
  assumes "has_active_membership d' = has_active_membership d" "roles_in d' = roles_in d"
    and "\<And>r k. k \<notin> K \<Longrightarrow> role_carries d' r k = role_carries d r k"
  shows "moved d d' \<subseteq> K"
proof
  fix k assume "k \<in> moved d d'"
  then obtain uid oid where "(k \<in> keys_held d uid oid) \<noteq> (k \<in> keys_held d' uid oid)" unfolding moved_def by blast
  then show "k \<in> K" using assms(3) unfolding keys_held_iff assms(1,2) by blast
qed

text \<open>Attaching or detaching a permission moves its key only.\<close>

lemma moved_permissions:
  assumes "refs_ok d" "set ps \<subseteq> set (app_permissions d)"
  shows "moved d (attach_permissions rid ps d) \<subseteq> perm_key ` set ps"
    "moved d (detach_permissions rid ps d) \<subseteq> perm_key ` set ps"
proof -
  have frame: "has_active_membership (d\<lparr>app_role_permissions := t\<rparr>) = has_active_membership d"
    "roles_in (d\<lparr>app_role_permissions := t\<rparr>) = roles_in d" for t
    by (simp_all add: has_active_membership_def roles_in_def groups_in_def direct_roles_def fun_eq_iff)
  have key: "k \<in> perm_key ` set ps"
    if "p \<in> set (app_permissions d)" "perm_id p \<in> perm_id ` set ps" "perm_key p = k" for p k
    using that one_permission [OF assms(1) that(1)] assms(2) by blast
  have "role_carries (attach_permissions rid ps d) r k = role_carries d r k"
    "role_carries (detach_permissions rid ps d) r k = role_carries d r k" if "k \<notin> perm_key ` set ps" for r k
    using key that by (fastforce simp: role_carries_def attach_permissions_def detach_permissions_def delete_where_set)+
  then show "moved d (attach_permissions rid ps d) \<subseteq> perm_key ` set ps"
    "moved d (detach_permissions rid ps d) \<subseteq> perm_key ` set ps"
    by (intro moved_keys; simp add: attach_permissions_def detach_permissions_def frame)+
qed

lemma moved_grants:
  assumes u: "\<not> unbounded_actor g" and ok: "refs_ok (ad_db s)"
  shows "moved (ad_db s) (ad_db (serve_grant s now g r)) \<subseteq> set (conferrable_by g)"
proof -
  let ?P = "\<lambda>d. moved (ad_db s) d \<subseteq> set (conferrable_by g)"
  note within = within_actor [OF _ u]
  have role: "from_roles (ad_db s) rids \<subseteq> set (conferrable_by g)"
    if "\<not> beyond_actor g (permissionKeysForRoles (ad_db s) rids)" for rids
    using within [OF that] by (simp add: from_roles_keys)
  have grp: "from_group (ad_db s) gid \<subseteq> set (conferrable_by g)"
    if "\<not> beyond_actor g (permissionKeysForGroup (ad_db s) gid)" for gid
    using within [OF that] by (simp add: from_group_keys)
  have revoke: "?P (ad_db (fst (app_roles_DELETE s now g i body)))" for i body
  proof (rule app_roles_DELETE_cases [where P = ?P])
    fix uid oid rid
    assume c: "\<forall>role \<in> set (app_roles (ad_db s)). role_id role = pg_uuid rid \<longrightarrow>
      \<not> beyond_actor g (permissionKeysForRoles (ad_db s) [pg_uuid rid])"
    have "role_carries (ad_db s) (pg_uuid rid) k \<Longrightarrow> pg_uuid rid \<in> ur_role_id ` set (app_user_roles (ad_db s)) \<Longrightarrow>
        k \<in> set (conferrable_by g)" for k
    proof -
      assume k: "role_carries (ad_db s) (pg_uuid rid) k" and "pg_uuid rid \<in> ur_role_id ` set (app_user_roles (ad_db s))"
      with ok have "pg_uuid rid \<in> role_id ` set (app_roles (ad_db s))" by (auto simp: refs_ok_def)
      with c have "\<not> beyond_actor g (permissionKeysForRoles (ad_db s) [pg_uuid rid])" by auto
      from role [OF this] k show "k \<in> set (conferrable_by g)" by (auto simp: from_roles_def)
    qed
    with moved_user_role(2) [of "ad_db s" uid "pg_uuid oid" "pg_uuid rid"]
    show "?P (remove_user_role uid (pg_uuid oid) (pg_uuid rid) (ad_db s))" by blast
  qed simp
  have bundle_patch: "?P (ad_db (fst (group_roles_PATCH s now g i body)))" for i body
  proof (rule group_roles_PATCH_cases [where P = ?P])
    fix gid add remove
    assume a: "\<not> beyond_actor g (permissionKeysForRoles (ad_db s) add)"
      and r: "\<not> beyond_actor g (permissionKeysForRoles (ad_db s) remove)"
    let ?d1 = "add_group_roles gid add (ad_db s)"
    have "from_roles ?d1 remove = from_roles (ad_db s) remove"
      by (simp add: from_roles_def add_group_roles_def role_carries_def)
    then show "?P (remove_group_roles gid remove ?d1)"
      using moved_trans [of "ad_db s" "remove_group_roles gid remove ?d1" ?d1] moved_group_roles(1) [of "ad_db s" gid add]
        moved_group_roles(2) [of ?d1 gid remove] role [OF a] role [OF r] by blast
  qed simp
  have keys: "perm_key ` set ps \<subseteq> set (conferrable_by g)" if "\<not> beyond_actor g (map perm_key ps)" for ps
    using within [OF that] by simp
  have resolved: "\<not> beyond_actor g (map perm_key (resolve_keys (ad_db s) ks)) \<and>
      set (resolve_keys (ad_db s) ks) \<subseteq> set (app_permissions (ad_db s))" if "\<not> beyond_actor g ks" for ks
    using that by (auto simp: resolve_keys_def beyond_actor_def)
  have patch: "?P (ad_db (fst (role_permissions_PATCH s now g i body)))" for i body
  proof (rule role_permissions_PATCH_cases [where P = ?P])
    fix add remove
    assume a: "\<not> beyond_actor g (map perm_key add)" "set add \<subseteq> set (app_permissions (ad_db s))"
      and r: "\<not> beyond_actor g (map perm_key remove)" "set remove \<subseteq> set (app_permissions (ad_db s))"
    let ?d1 = "attach_permissions (pg_uuid i) add (ad_db s)"
    have "refs_ok ?d1" "set remove \<subseteq> set (app_permissions ?d1)" using ok r(2) by (simp_all add: refs_ok_def attach_permissions_def)
    then show "?P (detach_permissions (pg_uuid i) remove ?d1)"
      using moved_trans [of "ad_db s" "detach_permissions (pg_uuid i) remove ?d1" ?d1]
        moved_permissions(1) [OF ok a(2), of "pg_uuid i"] moved_permissions(2) [of ?d1 remove "pg_uuid i"]
        keys [OF a(1)] keys [OF r(1)] by blast
  qed simp
  have attach: "?P (attach_permissions rid (resolve_keys (ad_db s) ks) (ad_db s))"
    "?P (detach_permissions rid (resolve_keys (ad_db s) ks) (ad_db s))" if "\<not> beyond_actor g ks" for rid ks
    using resolved [OF that] moved_permissions [OF ok, of "resolve_keys (ad_db s) ks" rid] keys by blast+
  show ?thesis
    by (cases r; simp only: serve_grant.simps;
        (rule revoke | rule bundle_patch | rule patch | rule grant_cases [where P = ?P]))
      (simp_all add: attach order_trans [OF moved_user_role(1) role] order_trans [OF moved_group_roles(1) role]
        order_trans [OF moved_group_roles(2) role] order_trans [OF moved_group_members(1) grp]
        order_trans [OF moved_group_members(2) grp] order_trans [OF moved_group_members(3) grp])
qed

subsection \<open>An installation\<close>

text \<open>
  One organization with two superadmins, an administrator of the organization, two members, a role
  for each kind of account and a group; every id is a UUID as the database spells it.
\<close>

definition uu :: "char \<Rightarrow> uuid" where
  "uu c = replicate 8 c @ ''-'' @ replicate 4 c @ ''-'' @ replicate 4 c @ ''-'' @ replicate 4 c @ ''-'' @ replicate 12 c"

definition plain_account :: "char \<Rightarrow> app_user_row" where
  "plain_account c =
     \<lparr>au_id = uu c, au_better_auth_user_id = CHR ''b'' # [c], au_primary_email = c # ''@a'', au_display_name = None,
      au_status = ''active'', au_status_reason = None, au_preferred_locale = ''en'', au_deactivated_at = None,
      au_deactivated_by = None, au_deactivated_reason = None, au_created_at = 1\<rparr>"

definition plain_member :: "char \<Rightarrow> membership_row" where
  "plain_member c =
     \<lparr>mb_id = CHR ''m'' # [c], mb_organization_id = uu CHR ''0'', mb_app_user_id = uu c, mb_status = ''active'',
      mb_source_provider = None, mb_provider_organization_key = None, mb_pre_deactivation_status = None,
      mb_created_at = 1\<rparr>"

definition given_role :: "char \<Rightarrow> char \<Rightarrow> user_role_row" where
  "given_role c r = \<lparr>ur_app_user_id = uu c, ur_organization_id = uu CHR ''0'', ur_role_id = uu r\<rparr>"

definition office_permissions :: "string list" where
  "office_permissions = [SUPERADMIN_PERMISSION, ''admin.users.read'', ''admin.roles.assign'', ''app.reports.read'']"

definition office_db :: db where
  "office_db =
     \<lparr>app_organizations =
        [\<lparr>org_id = uu CHR ''0'', org_slug = ''a'', org_name = ''A'', org_status = ''active'', org_is_default = True,
          org_created_at = 0\<rparr>],
      app_users = map plain_account ''12345'',
      app_organization_memberships = map plain_member ''12345'',
      app_roles =
        [\<lparr>role_id = uu CHR ''a'', role_organization_id = None, role_key = ''superadmin''\<rparr>,
         \<lparr>role_id = uu CHR ''b'', role_organization_id = Some (uu CHR ''0''), role_key = ''manager''\<rparr>,
         \<lparr>role_id = uu CHR ''c'', role_organization_id = Some (uu CHR ''0''), role_key = ''reader''\<rparr>],
      app_permissions = map (\<lambda>k. \<lparr>perm_id = k, perm_key = k\<rparr>) office_permissions,
      app_role_permissions =
        [\<lparr>rp_role_id = uu CHR ''a'', rp_permission_id = SUPERADMIN_PERMISSION\<rparr>,
         \<lparr>rp_role_id = uu CHR ''b'', rp_permission_id = ''admin.users.read''\<rparr>,
         \<lparr>rp_role_id = uu CHR ''b'', rp_permission_id = ''admin.roles.assign''\<rparr>,
         \<lparr>rp_role_id = uu CHR ''b'', rp_permission_id = ''app.reports.read''\<rparr>,
         \<lparr>rp_role_id = uu CHR ''c'', rp_permission_id = ''app.reports.read''\<rparr>],
      app_user_roles = [given_role CHR ''1'' CHR ''a'', given_role CHR ''2'' CHR ''a'', given_role CHR ''3'' CHR ''b''],
      app_groups = [\<lparr>grp_id = uu CHR ''7'', grp_organization_id = uu CHR ''0''\<rparr>],
      app_group_roles = [\<lparr>gr_group_id = uu CHR ''7'', gr_role_id = uu CHR ''c''\<rparr>],
      app_group_memberships = [\<lparr>gm_group_id = uu CHR ''7'', gm_app_user_id = uu CHR ''4''\<rparr>],
      auth_users = map (\<lambda>c. \<lparr>bu_id = CHR ''b'' # [c], bu_banned = None, bu_ban_expires = None, bu_ban_reason = None\<rparr>) ''12345''\<rparr>"

definition office :: admin_store where
  "office = \<lparr>ad_db = office_db, ad_credentials = \<lparr>app_api_keys = [], app_oauth_clients = [], auth_sessions = []\<rparr>,
     ad_revocations = [], ad_audit = []\<rparr>"

text \<open>What the guard hands a route for a browser session of the account.\<close>

definition office_grant :: "char \<Rightarrow> admin_permission_grant" where
  "office_grant c =
     \<lparr>ag_betterAuthUserId = CHR ''b'' # [c], ag_access = getUserAccessContext office_db 100 None (CHR ''b'' # [c]) None None,
      ag_grantedScopes = None, ag_impersonatorId = None\<rparr>"

lemma office_sound:
  "installation_ok (ad_db office)" "superuser_survives (ad_db office) 100" "grants_backed (ad_db office)"
  by code_simp+

subsection \<open>A superadmin remains\<close>

lemma steps_keep:
  assumes "(admin_step zuuid digest canonical_request calm)\<^sup>*\<^sup>* x y"
    and "installation_ok (ad_db (fst x))" "superuser_survives (ad_db (fst x)) (snd x)"
  shows "installation_ok (ad_db (fst y)) \<and> superuser_survives (ad_db (fst y)) (snd y)"
  using assms by (induction rule: rtranclp_induct) (auto dest: step_keeps)

text \<open>
  C1: Whatever sequence of requests administrators send from one moment on - give and take roles,
  groups and permissions, change and end memberships, suspend or delete organizations, block or
  delete accounts - and however much time passes, an installation that had a superadmin who can
  sign in has one: an account the platform's own superuser test accepts, active and not banned.
  Three conditions. A request that revokes a role, detaches permissions from a role, sets or ends
  memberships of an organization, or updates an organization spells the ids of that role and
  organization as the database does (lemma capitals_revoke_the_last_superadmin shows why). No
  session deletion fails after a ban was written, and no undo of a ban fails, in an account action
  (lemma interrupted_ban_unchecked shows why). The ids the database hands out to new rows are new.
\<close>

theorem superadmin_remains:
  assumes "(admin_step zuuid digest canonical_request calm)\<^sup>*\<^sup>* (s, now) (s', now')"
    and "installation_ok (ad_db s)" and "superuser_survives (ad_db s) now"
  shows "\<exists>uid. userIsGlobalSuperuser (ad_db s') uid \<and> account_can_sign_in (ad_db s') now' None uid"
  using steps_keep [OF assms(1)] assms(2,3) by (simp add: superuser_survives_def grants_ne_iff)

text \<open>The second superadmin loses the role; the first one's cannot be revoked.\<close>

definition revoke_superadmin :: "char \<Rightarrow> admin_request" where
  "revoke_superadmin c = Grant (RevokeRole (uu c) (Some (uu CHR ''a'', uu CHR ''0'')))"

definition office_later :: admin_store where
  "office_later = serve (\<lambda>_. True) (\<lambda>_. []) office 100 (office_grant CHR ''1'') (revoke_superadmin CHR ''2'')"

lemma superadmin_remains_witness:
  "let s = serve (\<lambda>_. True) (\<lambda>_. []) office_later 100 (office_grant CHR ''1'') (revoke_superadmin CHR ''1'')
   in map ur_app_user_id (app_user_roles (ad_db s)) = [uu CHR ''1'', uu CHR ''3''] \<and>
      map aa_outcome (ad_audit s) = [''success'', ''denied''] \<and>
      (\<exists>uid. userIsGlobalSuperuser (ad_db s) uid \<and> account_can_sign_in (ad_db s) 200 None uid)"
proof -
  let ?step = "admin_step (\<lambda>_. True) (\<lambda>_. []) canonical_request calm"
  let ?s = "serve (\<lambda>_. True) (\<lambda>_. []) office_later 100 (office_grant CHR ''1'') (revoke_superadmin CHR ''1'')"
  have c: "canonical_request (revoke_superadmin x)" "fresh_request d (revoke_superadmin x)" for x d
    unfolding revoke_superadmin_def by (simp, code_simp) simp
  have "?step (office, 100) (office_later, 100)" unfolding office_later_def by (rule admin_step.request) (fact c)+
  moreover have "?step (office_later, 100) (?s, 100)" by (rule admin_step.request) (fact c)+
  moreover have "?step (?s, 100) (?s, 200)" by (rule admin_step.time) simp
  ultimately have "?step\<^sup>*\<^sup>* (office, 100) (?s, 200)" by (meson converse_rtranclp_into_rtranclp rtranclp.rtrancl_refl)
  note superadmin_remains [OF this office_sound(1,2)]
  moreover have "map ur_app_user_id (app_user_roles (ad_db ?s)) = [uu CHR ''1'', uu CHR ''3'']" by code_simp
  moreover have "map aa_outcome (ad_audit ?s) = [''success'', ''denied'']" by code_simp
  ultimately show ?thesis unfolding Let_def by blast
qed

text \<open>
  The hypothesis on the spelling is needed: with the role's id in capitals, which the schema
  accepts and the database matches, the rule does not see the last superadmin's role go.
\<close>

lemma capitals_revoke_the_last_superadmin:
  "let capitals = uu CHR ''A'';
       r = app_roles_DELETE office_later 100 (office_grant CHR ''1'') (uu CHR ''1'') (Some (capitals, uu CHR ''0''));
       r' = app_roles_DELETE office_later 100 (office_grant CHR ''1'') (uu CHR ''1'') (Some (uu CHR ''a'', uu CHR ''0''))
   in superuser_survives (ad_db office_later) 100 \<and> snd r' = Deny ''last_superadmin'' 409 \<and>
      snd r = Served () \<and> \<not> superuser_survives (ad_db (fst r)) 100"
proof -
  let ?r = "\<lambda>rid. app_roles_DELETE office_later 100 (office_grant CHR ''1'') (uu CHR ''1'') (Some (rid, uu CHR ''0''))"
  have "superuser_survives (ad_db office_later) 100" by code_simp
  moreover have "snd (?r (uu CHR ''a'')) = Deny ''last_superadmin'' 409" by code_simp
  moreover have "snd (?r (uu CHR ''A'')) = Served ()" by code_simp
  moreover have "\<not> superuser_survives (ad_db (fst (?r (uu CHR ''A'')))) 100" by code_simp
  ultimately show ?thesis unfolding Let_def by blast
qed

subsection \<open>Every grant is backed by a membership\<close>





subsection \<open>Authority moves within the actor's own\<close>

text \<open>
  C3: Giving and taking authority - a role to or from an account, roles to or from a group,
  permissions to or from a role, accounts to or from a group, the deletion of a group - by anyone
  but a superadmin at a browser changes what an account may do in an organization only by
  permissions the actor holds and, for a credential, its scopes cover: nobody hands out, or takes
  away, what they were not trusted with, at any account and through any number of groups and roles.
\<close>

theorem authority_moves_within_actor:
  assumes "\<not> (isSuperadmin (ag_access g) \<and> ag_grantedScopes g = None)" and "refs_ok (ad_db s)"
    and "(k \<in> set (permissionKeysHeldInOrg (ad_db s) uid oid)) \<noteq>
      (k \<in> set (permissionKeysHeldInOrg (ad_db (serve_grant s now g r)) uid oid))"
  shows "k \<in> set (ac_permissions (ag_access g)) \<and> scopesAuthorize (ag_grantedScopes g) k"
proof -
  have "k \<in> moved (ad_db s) (ad_db (serve_grant s now g r))"
    using assms(3) unfolding moved_def keys_held_def by blast
  with moved_grants [OF assms(1) [folded unbounded_actor_def] assms(2)] show ?thesis
    by (auto simp: conferrable_by_def set_conferrable)
qed

text \<open>The administrator of the organization makes a member a reader.\<close>

lemma authority_moves_within_actor_witness:
  "let s = serve_grant office 100 (office_grant CHR ''3'') (AssignRole (uu CHR ''5'') (Some (uu CHR ''c'', uu CHR ''0'')))
   in permissionKeysHeldInOrg (ad_db office) (uu CHR ''5'') (uu CHR ''0'') = [] \<and>
      permissionKeysHeldInOrg (ad_db s) (uu CHR ''5'') (uu CHR ''0'') = [''app.reports.read''] \<and>
      ''app.reports.read'' \<in> set (ac_permissions (ag_access (office_grant CHR ''3'')))"
proof -
  let ?g = "office_grant CHR ''3''" and ?r = "AssignRole (uu CHR ''5'') (Some (uu CHR ''c'', uu CHR ''0''))"
  let ?keys_held = "\<lambda>s. permissionKeysHeldInOrg (ad_db s) (uu CHR ''5'') (uu CHR ''0'')"
  have g: "\<not> (isSuperadmin (ag_access ?g) \<and> ag_grantedScopes ?g = None)" by code_simp
  have ok: "refs_ok (ad_db office)" using office_sound(1) by (simp add: installation_ok_def)
  have b: "?keys_held office = []" by code_simp
  have a: "?keys_held (serve_grant office 100 ?g ?r) = [''app.reports.read'']" by code_simp
  have "(''app.reports.read'' \<in> set (?keys_held office)) \<noteq> (''app.reports.read'' \<in> set (?keys_held (serve_grant office 100 ?g ?r)))"
    unfolding a b by simp
  from authority_moves_within_actor [OF g ok this] a b show ?thesis unfolding Let_def by blast
qed

subsection \<open>Sign-ups keep an organization to land in\<close>

lemma steps_keep_default:
  assumes "(admin_step zuuid digest canonical_update F)\<^sup>*\<^sup>* x y" and "one_default (ad_db (fst x))"
  shows "one_default (ad_db (fst y))"
  using assms by (induction rule: rtranclp_induct) (auto dest: step_one_default)

text \<open>
  C12: An installation with one default organization has exactly one at every later moment,
  however administrators create organizations, pass the flag around, rename, suspend and delete,
  and it is the one sign-ups resolve to - as long as a request that updates an organization spells
  its id as the database does (lemma capitals_drop_the_default shows why), and the ids the database
  hands out to new rows are new. Nothing is asked of any other request, and whichever call inside
  an account action may fail.
\<close>

theorem default_organization_remains:
  assumes "(admin_step zuuid digest canonical_update (\<lambda>_. True))\<^sup>*\<^sup>* (s, now) (s', now')"
    and "distinct (map org_id (app_organizations (ad_db s)))"
    and "length (filter org_is_default (app_organizations (ad_db s))) = 1"
  shows "\<exists>r. filter org_is_default (app_organizations (ad_db s')) = [r] \<and> getDefaultOrganization (ad_db s') = Some r"
proof -
  from steps_keep_default [OF assms(1)] assms(2,3) have "one_default (ad_db s')" by (simp add: one_default_iff)
  then show ?thesis by (auto simp: one_default_iff getDefaultOrganization_def length_Suc_conv)
qed

text \<open>A second organization takes the flag; then it cannot be dropped.\<close>

definition open_branch :: admin_request where
  "open_branch = Org (CreateOrg (uu CHR ''d'')
     (Some \<lparr>oc_body_slug = ''branch'', oc_body_name = ''Branch'', oc_body_isDefault = Some True\<rparr>))"

definition drop_default :: "string \<Rightarrow> admin_request" where
  "drop_default i = Org (UpdateOrg None i
     (Some \<lparr>ou_slug = None, ou_name = None, ou_status = None, ou_isDefault = Some False\<rparr>))"

definition office_branched :: admin_store where
  "office_branched = serve (\<lambda>_. True) (\<lambda>_. []) office 100 (office_grant CHR ''1'') open_branch"

lemma default_organization_remains_witness:
  "let s = serve (\<lambda>_. True) (\<lambda>_. []) office_branched 100 (office_grant CHR ''1'') (drop_default (uu CHR ''d''))
   in map org_is_default (app_organizations (ad_db s)) = [False, True] \<and>
      map aa_outcome (ad_audit s) = [''success'', ''denied''] \<and>
      (\<exists>r. getDefaultOrganization (ad_db s) = Some r)"
proof -
  let ?step = "admin_step (\<lambda>_. True) (\<lambda>_. []) canonical_update (\<lambda>_. True)"
  let ?s = "serve (\<lambda>_. True) (\<lambda>_. []) office_branched 100 (office_grant CHR ''1'') (drop_default (uu CHR ''d''))"
  have f: "fresh_request (ad_db office) open_branch" by code_simp
  have c: "canonical_update (drop_default (uu CHR ''d''))" by code_simp
  have "?step (office, 100) (office_branched, 100)"
    unfolding office_branched_def by (rule admin_step.request) (fact f, simp add: open_branch_def)
  moreover have "?step (office_branched, 100) (?s, 100)"
    by (rule admin_step.request) (simp add: drop_default_def, fact c)
  ultimately have r: "?step\<^sup>*\<^sup>* (office, 100) (?s, 100)" by (meson converse_rtranclp_into_rtranclp rtranclp.rtrancl_refl)
  have d: "distinct (map org_id (app_organizations (ad_db office)))"
    "length (filter org_is_default (app_organizations (ad_db office))) = 1" by code_simp+
  have e: "map org_is_default (app_organizations (ad_db ?s)) = [False, True]"
    "map aa_outcome (ad_audit ?s) = [''success'', ''denied'']" by code_simp+
  show ?thesis unfolding Let_def using default_organization_remains [OF r d] e by blast
qed

text \<open>With the id in capitals the flag is dropped, and sign-ups have nowhere to land.\<close>

lemma capitals_drop_the_default:
  "getDefaultOrganization (ad_db office_branched) \<noteq> None \<and>
   getDefaultOrganization
     (ad_db (serve (\<lambda>_. True) (\<lambda>_. []) office_branched 100 (office_grant CHR ''1'') (drop_default (uu CHR ''D'')))) = None"
  by code_simp

subsection \<open>An update that pins a version\<close>

lemma trim_id: "s \<noteq> [] \<Longrightarrow> \<not> js_space (hd s) \<Longrightarrow> \<not> js_space (last s) \<Longrightarrow> trim s = s"
  using dropWhile_eq_self_iff [of js_space s] dropWhile_eq_self_iff [of js_space "rev s"]
  by (simp add: trim_def trim_start_def trim_end_def hd_rev)

lemma etag_candidates:
  assumes "CHR '','' \<notin> set (digest v)"
  shows "if_match_candidates (contentEtag digest v) = [contentEtag digest v]"
proof -
  have "trim (contentEtag digest v) = contentEtag digest v"
    by (rule trim_id) (simp_all add: contentEtag_def js_space_def)
  moreover have "CHR '','' \<notin> set (contentEtag digest v)" using assms by (simp add: contentEtag_def)
  ultimately show ?thesis by (simp add: if_match_candidates_def split_on_no_sep)
qed

lemma etag_pins:
  assumes "CHR '','' \<notin> set (digest (org_version r))"
  shows "ifMatchPinsVersion (Some (organizationEtag digest r))"
    and "ifMatchSatisfied (Some (organizationEtag digest r)) t \<longleftrightarrow> t = organizationEtag digest r"
proof -
  have "organizationEtag digest r \<noteq> []" "organizationEtag digest r \<noteq> ''*''"
    by (simp_all add: organizationEtag_def contentEtag_def)
  with etag_candidates [of digest, OF assms] show "ifMatchPinsVersion (Some (organizationEtag digest r))"
    and "ifMatchSatisfied (Some (organizationEtag digest r)) t \<longleftrightarrow> t = organizationEtag digest r"
    by (auto simp: ifMatchPinsVersion_def ifMatchSatisfied_def truthy_def organizationEtag_def split: option.splits)
qed

lemma org_found: "org_by_id d i = None \<longleftrightarrow> pg_uuid i \<notin> set (map org_id (app_organizations d))"
  by (force simp: org_by_id_def find_None_set)

lemma updated_row_found:
  assumes "org_by_id (update_org (pg_uuid i) b d1) i = None" "org_by_id d i = Some r" "move_or_clear flag i d = Some d1"
  shows False
proof -
  have "map org_id (app_organizations (update_org (pg_uuid i) b d1)) = map org_id (app_organizations d1)"
    unfolding update_org_def by (simp add: map_update_where_same apply_org_update_def)
  moreover have "map org_id (app_organizations d1) = map org_id (app_organizations d)"
    using assms(3) by (auto simp: move_or_clear_def moveDefaultOrganizationFlag_def clearDefaultOrganizationFlag_def
        set_default_flag_orgs split: option.splits bool.splits if_splits)
  ultimately show ?thesis using assms(1,2) org_found [of d i] by (simp add: org_found)
qed

text \<open>
  C13: An update of an organization that sends back the entity tag of the row it was
  shown is carried out only on that version: what the row's identity, slug, name, status and
  default flag were then, they still are when the update is written, so no save in between
  is overwritten unseen; the tag it answers is that of the row as stored. Otherwise nothing in
  the tables changes. The digest is injective and
  writes no comma, as the SHA-256 in base64url does.
\<close>

theorem pinned_update_sees_current:
  assumes "inj digest" and "\<And>v. CHR '','' \<notin> set (digest v)"
  shows "case org_PATCH digest s now g (Some (organizationEtag digest seen)) i body of
      (s', Served tag) \<Rightarrow>
        (\<exists>r. org_by_id (ad_db s) i = Some r \<and> org_version r = org_version seen) \<and>
        (\<exists>r'. org_by_id (ad_db s') i = Some r' \<and> tag = organizationEtag digest r')
    | (s', Deny why code) \<Rightarrow> ad_db s' = ad_db s"
proof -
  have same: "organizationEtag digest r = organizationEtag digest seen \<longleftrightarrow> org_version r = org_version seen" for r
    using assms(1) by (auto simp: organizationEtag_def contentEtag_def dest: injD)
  show ?thesis
    unfolding org_PATCH_def Let_def
    using etag_pins [of digest, OF assms(2)] same
    by (auto simp: refuseWithoutCrossOrgReach_def last_superadmin_refused_def dest: updated_row_found split: option.split answer.split)
qed

text \<open>A digest that can be computed here: the version's columns in bits, a point between.\<close>

definition bit_char :: "bool \<Rightarrow> char" where
  "bit_char b = (if b then CHR ''1'' else CHR ''0'')"

definition char_bits :: "char \<Rightarrow> string" where
  "char_bits c = map bit_char [digit0 c, digit1 c, digit2 c, digit3 c, digit4 c, digit5 c, digit6 c, digit7 c]"

definition string_bits :: "string \<Rightarrow> string" where
  "string_bits v = concat (map char_bits v)"

definition plain_digest :: "org_fields \<Rightarrow> string" where
  "plain_digest v = (case v of (a, b, c, d, e) \<Rightarrow>
     join_with CHR ''.'' [string_bits a, string_bits b, string_bits c, string_bits d, [bit_char e]])"

lemma string_bits_inject: "string_bits v = string_bits w \<Longrightarrow> v = w"
proof -
  have b: "bit_char x = bit_char y \<longleftrightarrow> x = y" for x y by (simp add: bit_char_def)
  have c: "char_bits x = char_bits y \<longleftrightarrow> x = y" for x y by (cases x; cases y) (simp add: char_bits_def b)
  have l: "length (char_bits x) = 8" for x by (simp add: char_bits_def)
  show "string_bits v = string_bits w \<Longrightarrow> v = w"
  proof (induction v arbitrary: w)
    case Nil
    then show ?case using l by (cases w) (auto simp: string_bits_def simp del: length_0_conv dest!: arg_cong [of _ _ length])
  next
    case (Cons x v)
    then show ?case using l c
      by (cases w) (auto simp: string_bits_def append_eq_append_conv dest: arg_cong [of _ _ length])
  qed
qed

lemma bits_plain: "x \<in> set (string_bits v) \<Longrightarrow> x = CHR ''0'' \<or> x = CHR ''1''"
  by (auto simp: string_bits_def char_bits_def bit_char_def)

lemma plain_digest_ok: "inj plain_digest" "CHR '','' \<notin> set (plain_digest v)"
proof -
  have parts: "split_on CHR ''.'' (plain_digest (a, b, c, d, e)) =
      [string_bits a, string_bits b, string_bits c, string_bits d, [bit_char e]]" for a b c d e
    unfolding plain_digest_def prod.case
    by (rule split_join) (auto simp: bit_char_def dest: bits_plain)
  show "inj plain_digest"
  proof (rule injI)
    fix x y assume "plain_digest x = plain_digest y"
    then have "split_on CHR ''.'' (plain_digest x) = split_on CHR ''.'' (plain_digest y)" by simp
    then show "x = y"
      by (cases x; cases y) (auto simp: parts bit_char_def dest: string_bits_inject split: if_splits)
  qed
  show "CHR '','' \<notin> set (plain_digest v)"
    by (cases v) (auto simp: plain_digest_def bit_char_def dest: bits_plain)
qed

text \<open>The first save with the tag of the row goes through; a second with the same tag does not.\<close>

definition rename_to :: "string \<Rightarrow> org_update_body" where
  "rename_to n = \<lparr>ou_slug = None, ou_name = Some n, ou_status = None, ou_isDefault = None\<rparr>"

lemma pinned_update_sees_current_witness:
  "let seen = hd (app_organizations office_db);
       save = (\<lambda>s n. org_PATCH plain_digest s 100 (office_grant CHR ''1'')
                (Some (organizationEtag plain_digest seen)) (uu CHR ''0'') (Some (rename_to n)));
       r = save office ''B''
   in (\<exists>tag row. snd r = Served tag \<and> org_by_id (ad_db (fst r)) (uu CHR ''0'') = Some row \<and>
         tag = organizationEtag plain_digest row) \<and>
      map org_name (app_organizations (ad_db (fst r))) = [''B''] \<and>
      snd (save (fst r) ''C'') = Deny ''precondition_failed'' 412"
proof -
  let ?seen = "hd (app_organizations office_db)"
  let ?save = "\<lambda>s n. org_PATCH plain_digest s 100 (office_grant CHR ''1'')
      (Some (organizationEtag plain_digest ?seen)) (uu CHR ''0'') (Some (rename_to n))"
  have served: "(case snd (?save office ''B'') of Served _ \<Rightarrow> True | Deny _ _ \<Rightarrow> False)" by code_simp
  have "map org_name (app_organizations (ad_db (fst (?save office ''B'')))) = [''B'']" by code_simp
  moreover have "snd (?save (fst (?save office ''B'')) ''C'') = Deny ''precondition_failed'' 412" by code_simp
  moreover have "\<exists>tag row. snd (?save office ''B'') = Served tag \<and>
      org_by_id (ad_db (fst (?save office ''B''))) (uu CHR ''0'') = Some row \<and> tag = organizationEtag plain_digest row"
    using served pinned_update_sees_current [OF plain_digest_ok, where s = office and now = 100 and seen = ?seen
        and g = "office_grant CHR ''1''" and i = "uu CHR ''0''" and body = "Some (rename_to ''B'')"]
    by (cases "?save office ''B''") (auto split: answer.splits)
  ultimately show ?thesis unfolding Let_def by blast
qed

end
