(* ===== verification/MigrationPlan.thy ===== *)
theory MigrationPlan
  imports JsString
begin

text \<open>
  The migration runner (\<open>src/db/migrations/migration-plan.ts\<close>, \<open>run-migrations.ts\<close>,
  \<open>apply-migration.ts\<close>): which files are applied and in which order, how an applied file is
  recognised, and the run over the ledger \<open>app_schema_migrations\<close>. SHA-256 is the argument
  \<open>sha\<close>. A database is its ledger and the files whose statements have run in it; a file's
  transaction may fail, which the argument \<open>fails\<close> says.
\<close>

subsection \<open>The plan\<close>

record planned_migration =
  pm_id :: string
  pm_subdir :: string
  pm_file :: string

definition shouldIncludeLocales :: "string option \<Rightarrow> bool" where
  "shouldIncludeLocales raw =
     (map ascii_lower (trim (case raw of None \<Rightarrow> [] | Some r \<Rightarrow> r))
        \<notin> {''0'', ''false'', ''no'', ''off''})"

definition ALWAYS_APPLIED_LOCALE :: string where
  "ALWAYS_APPLIED_LOCALE = ''0000-email-templates-en.sql''"

definition is_sql :: "string \<Rightarrow> bool" where
  "is_sql name = ends_with name ''.sql''"

definition planMigrations :: "string list \<Rightarrow> string list \<Rightarrow> bool \<Rightarrow> planned_migration list" where
  "planMigrations coreEntries localeEntries includeLocales =
     map (\<lambda>file. \<lparr>pm_id = file, pm_subdir = [], pm_file = file\<rparr>)
       (sort (filter (\<lambda>name. \<not> starts_with name ''better-auth'') (filter is_sql coreEntries))) @
     map (\<lambda>file. \<lparr>pm_id = ''locales/'' @ file, pm_subdir = ''locales'', pm_file = file\<rparr>)
       (sort (filter (\<lambda>file. includeLocales \<or> file = ALWAYS_APPLIED_LOCALE) (filter is_sql localeEntries)))"

subsection \<open>The form of a file that is hashed\<close>

fun unix_newlines :: "string \<Rightarrow> string" where
  "unix_newlines (c # d # s) =
     (if c = CHR 0x0D \<and> d = CHR 0x0A then CHR 0x0A # unix_newlines s else c # unix_newlines (d # s))"
| "unix_newlines s = s"

definition drop_line :: "string \<Rightarrow> string" where
  "drop_line s = dropWhile (\<lambda>c. c \<noteq> CHR 0x0A) s"

text \<open>The text behind a block comment that is open \<open>depth\<close> deep.\<close>

fun drop_block :: "nat \<Rightarrow> string \<Rightarrow> string" where
  "drop_block depth [] = []"
| "drop_block 0 s = s"
| "drop_block (Suc depth) [c] = []"
| "drop_block (Suc depth) (c # d # s) =
     (if c = CHR ''/'' \<and> d = CHR ''*'' then drop_block (Suc (Suc depth)) s
      else if c = CHR ''*'' \<and> d = CHR ''/'' then drop_block depth s
      else drop_block (Suc depth) (d # s))"

text \<open>A quoted text behind its opening quote: the rest of it with its end, and what follows.\<close>

fun take_quoted :: "char \<Rightarrow> string \<Rightarrow> string \<times> string" where
  "take_quoted quo [] = ([], [])"
| "take_quoted quo [c] = ([c], [])"
| "take_quoted quo (c # d # s) =
     (if c = quo
      then (if d = quo then (case take_quoted quo s of (l, r) \<Rightarrow> (c # d # l, r)) else ([c], d # s))
      else (case take_quoted quo (d # s) of (l, r) \<Rightarrow> (c # l, r)))"

definition sql_space :: "char \<Rightarrow> bool" where
  "sql_space c = (c \<in> {CHR '' '', CHR 0x0A, CHR 0x09, CHR 0x0D, CHR 0x0C, CHR 0x0B})"

lemma drop_line_length: "length (drop_line s) \<le> length s"
  by (simp add: drop_line_def length_dropWhile_le)

lemma drop_block_length: "length (drop_block depth s) \<le> length s"
  by (induction depth s rule: drop_block.induct) auto

lemma take_quoted_append: "fst (take_quoted quo s) @ snd (take_quoted quo s) = s"
  by (induction quo s rule: take_quoted.induct) (auto split: prod.splits)

lemma take_quoted_length: "take_quoted quo s = (l, r) \<Longrightarrow> length r \<le> length s"
  using arg_cong [OF take_quoted_append [of quo s], of length] by simp

lemma drop_line_shrinks: "length (drop_line (tl s)) < Suc (length s)"
  using drop_line_length [of "tl s"] by simp

lemma drop_block_shrinks: "length (drop_block d (tl s)) < Suc (length s)"
  using drop_block_length [of d "tl s"] by simp

lemma take_quoted_shrinks: "(l, r) = take_quoted quo s \<Longrightarrow> length r < Suc (length s)"
  using take_quoted_length [of quo s l r] by simp

text \<open>
  What the loop still appends to its output: \<open>pending\<close> is its \<open>pendingSpace\<close>, \<open>started\<close> whether the
  output is non-empty.
\<close>

definition spaced :: "bool \<Rightarrow> bool \<Rightarrow> string \<Rightarrow> string" where
  "spaced pending started s = (if pending \<and> started then CHR '' '' # s else s)"

function normalize_from :: "bool \<Rightarrow> bool \<Rightarrow> string \<Rightarrow> string" where
  "normalize_from pending started [] = []"
| "normalize_from pending started (c # s) =
     (if c = CHR ''-'' \<and> s \<noteq> [] \<and> hd s = CHR ''-'' then normalize_from pending started (drop_line (tl s))
      else if c = CHR ''/'' \<and> s \<noteq> [] \<and> hd s = CHR ''*''
      then normalize_from pending started (drop_block 1 (tl s))
      else if c = CHR 0x27 \<or> c = CHR 0x22
      then (case take_quoted c s of (l, r) \<Rightarrow> spaced pending started (c # l) @ normalize_from False True r)
      else if sql_space c then normalize_from True started s
      else spaced pending started [c] @ normalize_from False True s)"
  by pat_completeness auto
termination
  by (relation "measure (\<lambda>(_, _, s). length s)")
    (simp_all add: drop_line_shrinks drop_block_shrinks take_quoted_shrinks)

definition normalizeMigrationSql :: "string \<Rightarrow> string" where
  "normalizeMigrationSql sql = normalize_from False False (unix_newlines sql)"

definition migrationChecksum :: "(string \<Rightarrow> string) \<Rightarrow> string \<Rightarrow> string" where
  "migrationChecksum sha sql = sha (normalizeMigrationSql sql)"

subsection \<open>Consolidated files\<close>

record folded_migration =
  fm_id :: string
  fm_checksum :: string

record consolidated_migration =
  cm_id :: string
  cm_lastCommitWithFiles :: string
  cm_folds :: "folded_migration list"

definition REQUIRED_CORE_MIGRATIONS :: "string list" where
  "REQUIRED_CORE_MIGRATIONS = [''0001-initial-schema.sql'', ''0002-release.sql'']"

definition folded :: "string \<Rightarrow> string \<Rightarrow> folded_migration" where
  "folded i checksum = \<lparr>fm_id = i, fm_checksum = checksum\<rparr>"

definition CONSOLIDATED_CORE_MIGRATIONS :: "consolidated_migration list" where
  "CONSOLIDATED_CORE_MIGRATIONS =
     [\<lparr>cm_id = ''0002-release.sql'', cm_lastCommitWithFiles = ''79b4803'',
       cm_folds =
         [folded ''0002-admin-groups-permissions.sql''
            ''783862abb174ea42909c0df3a81e714bf5ead7a846867ae73f56784b3a1ee2cf'',
          folded ''0003-outbox-delivery-payload.sql''
            ''fdd26f801f88bc4be710d37de33b96021c14089062736848279803d427db4957'',
          folded ''0004-oauth-client-secret-rotated-at.sql''
            ''73f26c633f21ed2e1062002f47746aeaa45be49cb34f8989812c90442b968e30'',
          folded ''0005-integrity-constraints.sql''
            ''ac34b3d715be75c70ed4629a69ad84e127851e0a24c44dbedf721c3bac2ff8f4'',
          folded ''0006-rate-limit-buckets.sql''
            ''9b8eb96e149bf1fa4f3ae632c33237786775ede08da864910fc0b2641b237f40'',
          folded ''0007-uniqueness-search-indexes-token-scrub.sql''
            ''83cfadc52081321bbf06cf05d74480a482824e5d3e733e81956d6c5b70a16e19'',
          folded ''0008-user-data-export-erasure.sql''
            ''a30fde495d3062758e59d84ee613d7c11a08535ac3414ce85d1d0a010a0aae50'']\<rparr>]"

text \<open>A ledger as the runner reads it: the ids with the checksum, which old rows lack.\<close>

type_synonym ledger = "string \<rightharpoonup> string option"

datatype migration_error =
    ChecksumMismatch string string string
  | PartlyFolded string "string list"
  | FoldedDiffers string string string
  | ReadFailed string
  | WriteFailed string

datatype consolidation_step = Ledgered string | Record string "string list" | Apply string

definition folds_of :: "string \<Rightarrow> folded_migration list option" where
  "folds_of i = map_option cm_folds (List.find (\<lambda>c. cm_id c = i) CONSOLIDATED_CORE_MIGRATIONS)"

fun unverified_folds ::
    "ledger \<Rightarrow> string \<Rightarrow> folded_migration list \<Rightarrow> migration_error + string list" where
  "unverified_folds ledger i [] = Inr []"
| "unverified_folds ledger i (f # fs) =
     (case ledger (fm_id f) of
        Some (Some stored) \<Rightarrow>
          if stored \<noteq> fm_checksum f then Inl (FoldedDiffers i (fm_id f) stored)
          else unverified_folds ledger i fs
      | _ \<Rightarrow> (case unverified_folds ledger i fs of Inl e \<Rightarrow> Inl e | Inr us \<Rightarrow> Inr (fm_id f # us)))"

definition consolidate :: "ledger \<Rightarrow> consolidated_migration \<Rightarrow> migration_error + consolidation_step" where
  "consolidate ledger c =
     (let missing = map fm_id (filter (\<lambda>f. ledger (fm_id f) = None) (cm_folds c))
      in if ledger (cm_id c) \<noteq> None then Inr (Ledgered (cm_id c))
         else if length missing = length (cm_folds c) then Inr (Apply (cm_id c))
         else if missing \<noteq> [] then Inl (PartlyFolded (cm_id c) missing)
         else (case unverified_folds ledger (cm_id c) (cm_folds c) of
                 Inl e \<Rightarrow> Inl e
               | Inr us \<Rightarrow> Inr (Record (cm_id c) us)))"

fun consolidation_steps ::
    "ledger \<Rightarrow> consolidated_migration list \<Rightarrow> migration_error + consolidation_step list" where
  "consolidation_steps ledger [] = Inr []"
| "consolidation_steps ledger (c # cs) =
     (case consolidate ledger c of
        Inl e \<Rightarrow> Inl e
      | Inr x \<Rightarrow> (case consolidation_steps ledger cs of Inl e \<Rightarrow> Inl e | Inr xs \<Rightarrow> Inr (x # xs)))"

definition planConsolidatedMigrations :: "ledger \<Rightarrow> migration_error + consolidation_step list" where
  "planConsolidatedMigrations ledger = consolidation_steps ledger CONSOLIDATED_CORE_MIGRATIONS"

definition CORE_MIGRATION_LEDGER_IDS :: "string list" where
  "CORE_MIGRATION_LEDGER_IDS =
     REQUIRED_CORE_MIGRATIONS @
     concat (map (\<lambda>i. case folds_of i of None \<Rightarrow> [] | Some fs \<Rightarrow> map fm_id fs) REQUIRED_CORE_MIGRATIONS)"

definition missingCoreMigrations :: "string set \<Rightarrow> string list" where
  "missingCoreMigrations have =
     filter (\<lambda>i. i \<notin> have \<and>
                 \<not> (case folds_of i of None \<Rightarrow> False | Some fs \<Rightarrow> list_all (\<lambda>f. fm_id f \<in> have) fs))
       REQUIRED_CORE_MIGRATIONS"

datatype checksum_verdict = Match | Backfill

definition reconcileLedgerChecksum ::
    "string \<Rightarrow> string option \<Rightarrow> string \<Rightarrow> migration_error + checksum_verdict" where
  "reconcileLedgerChecksum i stored actual =
     (case stored of
        None \<Rightarrow> Inr Backfill
      | Some s \<Rightarrow> if s = actual then Inr Match else Inl (ChecksumMismatch i s actual))"

subsection \<open>The run\<close>

text \<open>
  The ledger's rows, and the ids of the files whose statements have run, in order. The writes a run
  may fail at name the row they write.
\<close>

record migrated_db =
  md_rows :: "(string \<times> string option) list"
  md_ran :: "string list"

datatype ledger_write = BackfillOf string | RecordOf string | ApplyOf string

definition getApplied :: "(string \<times> string option) list \<Rightarrow> ledger" where
  "getApplied rows = map_of (rev rows)"

text \<open>The planned files with the hash of each, read before anything is written.\<close>

fun read_sources ::
    "(string \<Rightarrow> string) \<Rightarrow> (string \<Rightarrow> string option) \<Rightarrow> planned_migration list \<Rightarrow>
     migration_error + (string \<times> string) list" where
  "read_sources sha readFile [] = Inr []"
| "read_sources sha readFile (m # ms) =
     (case readFile (pm_id m) of
        None \<Rightarrow> Inl (ReadFailed (pm_id m))
      | Some sql \<Rightarrow>
          (case read_sources sha readFile ms of
             Inl e \<Rightarrow> Inl e
           | Inr ss \<Rightarrow> Inr ((pm_id m, migrationChecksum sha sql) # ss)))"

fun reconcile_applied ::
    "(ledger_write \<Rightarrow> bool) \<Rightarrow> ledger \<Rightarrow> (string \<times> string) list \<Rightarrow> (string \<times> string option) list \<Rightarrow>
     (string \<times> string option) list \<times> migration_error option" where
  "reconcile_applied fails applied [] rows = (rows, None)"
| "reconcile_applied fails applied ((i, checksum) # ss) rows =
     (case applied i of
        None \<Rightarrow> reconcile_applied fails applied ss rows
      | Some stored \<Rightarrow>
          (case reconcileLedgerChecksum i stored checksum of
             Inl e \<Rightarrow> (rows, Some e)
           | Inr Match \<Rightarrow> reconcile_applied fails applied ss rows
           | Inr Backfill \<Rightarrow>
               if fails (BackfillOf i) then (rows, Some (WriteFailed i))
               else reconcile_applied fails applied ss
                      (update_where (\<lambda>r. fst r = i) (\<lambda>r. (i, Some checksum)) rows)))"

text \<open>The ledger's primary key refuses a second row of one id.\<close>

definition recordMigrationInTransaction ::
    "(ledger_write \<Rightarrow> bool) \<Rightarrow> string \<Rightarrow> string \<Rightarrow> migrated_db \<Rightarrow> migrated_db option" where
  "recordMigrationInTransaction fails i checksum d =
     (if fails (RecordOf i) \<or> i \<in> fst ` set (md_rows d) then None
      else Some (d\<lparr>md_rows := md_rows d @ [(i, Some checksum)]\<rparr>))"

definition applyMigrationInTransaction ::
    "(ledger_write \<Rightarrow> bool) \<Rightarrow> string \<Rightarrow> string \<Rightarrow> migrated_db \<Rightarrow> migrated_db option" where
  "applyMigrationInTransaction fails i checksum d =
     (if fails (ApplyOf i) \<or> i \<in> fst ` set (md_rows d) then None
      else Some (d\<lparr>md_rows := md_rows d @ [(i, Some checksum)], md_ran := md_ran d @ [i]\<rparr>))"

fun record_consolidated ::
    "(ledger_write \<Rightarrow> bool) \<Rightarrow> (string \<rightharpoonup> string) \<Rightarrow> consolidation_step list \<Rightarrow> ledger \<Rightarrow> migrated_db \<Rightarrow>
     migrated_db \<times> (migration_error + ledger)" where
  "record_consolidated fails source [] applied d = (d, Inr applied)"
| "record_consolidated fails source (Record i us # steps) applied d =
     (case source i of
        None \<Rightarrow> (d, Inl (ReadFailed i))
      | Some checksum \<Rightarrow>
          (case recordMigrationInTransaction fails i checksum d of
             None \<Rightarrow> (d, Inl (WriteFailed i))
           | Some d' \<Rightarrow> record_consolidated fails source steps (applied(i \<mapsto> Some checksum)) d'))"
| "record_consolidated fails source (step # steps) applied d =
     record_consolidated fails source steps applied d"

fun apply_pending ::
    "(ledger_write \<Rightarrow> bool) \<Rightarrow> ledger \<Rightarrow> (string \<times> string) list \<Rightarrow> migrated_db \<Rightarrow>
     migrated_db \<times> migration_error option" where
  "apply_pending fails applied [] d = (d, None)"
| "apply_pending fails applied ((i, checksum) # ss) d =
     (if applied i \<noteq> None then apply_pending fails applied ss d
      else (case applyMigrationInTransaction fails i checksum d of
              None \<Rightarrow> (d, Some (WriteFailed i))
            | Some d' \<Rightarrow> apply_pending fails applied ss d'))"

text \<open>The directories and the flag of one run.\<close>

record migration_files =
  mf_core :: "string list"
  mf_locales :: "string list"
  mf_read :: "string \<Rightarrow> string option"
  mf_includeLocales :: bool

definition run_migrations ::
    "(string \<Rightarrow> string) \<Rightarrow> (ledger_write \<Rightarrow> bool) \<Rightarrow> migration_files \<Rightarrow> migrated_db \<Rightarrow>
     migrated_db \<times> migration_error option" where
  "run_migrations sha fails fs d =
     (let applied = getApplied (md_rows d);
          plan = planMigrations (mf_core fs) (mf_locales fs) (mf_includeLocales fs)
      in case read_sources sha (mf_read fs) plan of
           Inl e \<Rightarrow> (d, Some e)
         | Inr sources \<Rightarrow>
             (case planConsolidatedMigrations applied of
                Inl e \<Rightarrow> (d, Some e)
              | Inr steps \<Rightarrow>
                  (case reconcile_applied fails applied sources (md_rows d) of
                     (rows, Some e) \<Rightarrow> (d\<lparr>md_rows := rows\<rparr>, Some e)
                   | (rows, None) \<Rightarrow>
                       (case record_consolidated fails (map_of sources) steps applied (d\<lparr>md_rows := rows\<rparr>) of
                          (d', Inl e) \<Rightarrow> (d', Some e)
                        | (d', Inr applied') \<Rightarrow> apply_pending fails applied' sources d'))))"

subsection \<open>What a run does to the ledger\<close>

text \<open>
  A ledger that follows the runner's own writes: its ids are a key, and a file that ran is in it and
  ran once.
\<close>

definition ledger_ids :: "migrated_db \<Rightarrow> string set" where
  "ledger_ids d = set (map fst (md_rows d))"

definition ledger_ok :: "migrated_db \<Rightarrow> bool" where
  "ledger_ok d \<longleftrightarrow> distinct (map fst (md_rows d)) \<and> distinct (md_ran d) \<and> set (md_ran d) \<subseteq> ledger_ids d"

lemma getApplied_keys: "distinct (map fst rows) \<Longrightarrow> getApplied rows = map_of rows"
proof -
  assume d: "distinct (map fst rows)"
  then have "distinct (map fst (rev rows))" by (simp add: rev_map [symmetric])
  with d show ?thesis unfolding getApplied_def by (subst map_of_inject_set) simp_all
qed

lemma read_sources_value:
  "read_sources sha readFile plan = Inr ss \<Longrightarrow>
   ss = map (\<lambda>m. (pm_id m, migrationChecksum sha (the (readFile (pm_id m))))) plan \<and>
   (\<forall>m \<in> set plan. readFile (pm_id m) \<noteq> None)"
  by (induction plan arbitrary: ss) (auto split: option.splits sum.splits)

text \<open>
  How far the rows are from the ledger read at the start: a row is as it was read, or carries its
  file's hash \<open>h\<close>.
\<close>

definition rows_follow :: "(string \<Rightarrow> string) \<Rightarrow> ledger \<Rightarrow> (string \<times> string option) list \<Rightarrow> bool" where
  "rows_follow h applied rows \<longleftrightarrow>
     (\<forall>i. map_of rows i = applied i \<or> applied i \<noteq> None \<and> map_of rows i = Some (Some (h i)))"

lemma update_checksum_map_of:
  "map_of (update_where (\<lambda>r. fst r = i) (\<lambda>r. (i, v)) rows) j =
   (if j = i \<and> map_of rows i \<noteq> None then Some v else map_of rows j)"
  by (induction rows) (auto simp: update_where_def)

lemma update_checksum_keys: "map fst (update_where (\<lambda>r. fst r = i) (\<lambda>r. (i, v)) rows) = map fst rows"
  by (rule map_update_where_same) simp

lemma reconcile_keys:
  "reconcile_applied fails applied ss rows = (rows', e) \<Longrightarrow> map fst rows' = map fst rows"
  by (induction fails applied ss rows rule: reconcile_applied.induct)
    (auto simp: update_checksum_keys split: option.splits sum.splits checksum_verdict.splits if_splits)

lemma reconcile_follows:
  assumes "reconcile_applied fails applied ss rows = (rows', None)" "rows_follow h applied rows"
    and "\<forall>(i, c) \<in> set ss. c = h i"
  shows "rows_follow h applied rows' \<and>
    (\<forall>i. map_of rows i = Some (Some (h i)) \<longrightarrow> map_of rows' i = Some (Some (h i))) \<and>
    (\<forall>i \<in> fst ` set ss. applied i \<noteq> None \<longrightarrow> map_of rows' i = Some (Some (h i)))"
  using assms
proof (induction ss arbitrary: rows)
  case Nil
  then show ?case by simp
next
  case (Cons x ss)
  obtain i c where x: "x = (i, c)" "c = h i" using Cons.prems(3) by (cases x) auto
  have hs: "\<forall>(i, c) \<in> set ss. c = h i" using Cons.prems(3) by simp
  show ?case
  proof (cases "applied i")
    case None
    then show ?thesis using Cons.IH [OF _ Cons.prems(2) hs] Cons.prems(1) x by auto
  next
    case (Some stored)
    show ?thesis
    proof (cases stored)
      case None
      let ?r = "update_where (\<lambda>r. fst r = i) (\<lambda>r. (i, Some c)) rows"
      have f: "rows_follow h applied ?r" "map_of ?r i = Some (Some (h i))"
        using Cons.prems(2) Some x(2) by (force simp: rows_follow_def update_checksum_map_of)+
      have r: "reconcile_applied fails applied ss ?r = (rows', None)"
        using Cons.prems(1) x Some None by (auto simp: reconcileLedgerChecksum_def split: if_splits)
      show ?thesis using Cons.IH [OF r f(1) hs] f(2) x by (auto simp: update_checksum_map_of)
    next
      case (Some s)
      with \<open>applied i = Some stored\<close> Cons.prems(1) x have r: "s = h i" "reconcile_applied fails applied ss rows = (rows', None)"
        by (auto simp: reconcileLedgerChecksum_def split: if_splits)
      have "map_of rows i = Some (Some (h i))"
        using Cons.prems(2) [unfolded rows_follow_def, rule_format, of i] \<open>applied i = Some stored\<close> Some r(1) by auto
      then show ?thesis using Cons.IH [OF r(2) Cons.prems(2) hs] x by auto
    qed
  qed
qed

text \<open>The two loops that append rows keep the key and never run a file that has a row.\<close>

lemma record_row_ok: "recordMigrationInTransaction fails i c d = Some d' \<Longrightarrow> ledger_ok d \<Longrightarrow> ledger_ok d'"
  by (auto simp: recordMigrationInTransaction_def ledger_ok_def ledger_ids_def split: if_splits)

lemma apply_row_ok: "applyMigrationInTransaction fails i c d = Some d' \<Longrightarrow> ledger_ok d \<Longrightarrow> ledger_ok d'"
  by (auto simp: applyMigrationInTransaction_def ledger_ok_def ledger_ids_def split: if_splits)

lemma record_ok:
  "record_consolidated fails source steps applied d = (d', r) \<Longrightarrow> ledger_ok d \<Longrightarrow> ledger_ok d'"
  by (induction fails source steps applied d arbitrary: d' rule: record_consolidated.induct)
    (auto dest: record_row_ok split: option.splits)

lemma record_runs_nothing:
  "record_consolidated fails source steps applied d = (d', r) \<Longrightarrow> md_ran d' = md_ran d"
  by (induction fails source steps applied d rule: record_consolidated.induct)
    (auto simp: recordMigrationInTransaction_def split: option.splits if_splits)

lemma apply_ok: "apply_pending fails applied ss d = (d', r) \<Longrightarrow> ledger_ok d \<Longrightarrow> ledger_ok d'"
  by (induction fails applied ss d arbitrary: d' rule: apply_pending.induct)
    (auto dest: apply_row_ok split: option.splits if_splits)

lemma run_ok:
  assumes "run_migrations sha fails fs d = (d', r)" "ledger_ok d"
  shows "ledger_ok d'"
proof -
  have k: "ledger_ok (d\<lparr>md_rows := rows\<rparr>)" if "map fst rows = map fst (md_rows d)" for rows
    using assms(2) that by (simp add: ledger_ok_def ledger_ids_def)
  show ?thesis
    using assms k by (auto simp: run_migrations_def Let_def dest: reconcile_keys record_ok apply_ok
        split: sum.splits prod.splits option.splits)
qed

text \<open>
  What a run, or several, may do: files run behind the others, none of them with a row before, and
  no consolidated file where one of the files it folds had a row. Rows stay.
\<close>

definition extends_db :: "migrated_db \<Rightarrow> migrated_db \<Rightarrow> bool" where
  "extends_db d d' \<longleftrightarrow> ledger_ids d \<subseteq> ledger_ids d' \<and>
     (\<exists>new. md_ran d' = md_ran d @ new \<and> set new \<inter> ledger_ids d = {} \<and>
        (\<forall>c \<in> set CONSOLIDATED_CORE_MIGRATIONS. \<forall>f \<in> set (cm_folds c).
           fm_id f \<in> ledger_ids d \<longrightarrow> cm_id c \<notin> set new))"

lemma extends_refl: "ledger_ids d \<subseteq> ledger_ids d' \<Longrightarrow> md_ran d' = md_ran d \<Longrightarrow> extends_db d d'"
  by (simp add: extends_db_def)

lemma extends_trans:
  assumes "extends_db d d1" "extends_db d1 d2"
  shows "extends_db d d2"
proof -
  obtain n1 where n1: "ledger_ids d \<subseteq> ledger_ids d1" "md_ran d1 = md_ran d @ n1" "set n1 \<inter> ledger_ids d = {}"
    "\<forall>c \<in> set CONSOLIDATED_CORE_MIGRATIONS. \<forall>f \<in> set (cm_folds c). fm_id f \<in> ledger_ids d \<longrightarrow> cm_id c \<notin> set n1"
    using assms(1) unfolding extends_db_def by blast
  obtain n2 where n2: "ledger_ids d1 \<subseteq> ledger_ids d2" "md_ran d2 = md_ran d1 @ n2" "set n2 \<inter> ledger_ids d1 = {}"
    "\<forall>c \<in> set CONSOLIDATED_CORE_MIGRATIONS. \<forall>f \<in> set (cm_folds c). fm_id f \<in> ledger_ids d1 \<longrightarrow> cm_id c \<notin> set n2"
    using assms(2) unfolding extends_db_def by blast
  have "cm_id c \<notin> set (n1 @ n2)"
    if "c \<in> set CONSOLIDATED_CORE_MIGRATIONS" "f \<in> set (cm_folds c)" "fm_id f \<in> ledger_ids d" for c f
    using that n1(1,4) n2(4) unfolding set_append by blast
  moreover have "ledger_ids d \<subseteq> ledger_ids d2" "md_ran d2 = md_ran d @ n1 @ n2" "set (n1 @ n2) \<inter> ledger_ids d = {}"
    using n1(1-3) n2(1-3) by auto
  ultimately show ?thesis unfolding extends_db_def by blast
qed

lemma apply_new:
  "apply_pending fails applied ss d = (d', r) \<Longrightarrow>
   \<exists>new. md_ran d' = md_ran d @ new \<and> (\<forall>i \<in> set new. applied i = None \<and> i \<in> fst ` set ss)"
proof (induction ss arbitrary: d)
  case Nil
  then show ?case by simp
next
  case (Cons x ss)
  obtain i c where x: "x = (i, c)" by (cases x)
  show ?case
  proof (cases "applied i")
    case (Some y)
    with Cons x show ?thesis by fastforce
  next
    case None
    show ?thesis
    proof (cases "applyMigrationInTransaction fails i c d")
      case None
      with Cons.prems \<open>applied i = None\<close> x show ?thesis by simp
    next
      case (Some d1)
      with Cons.prems \<open>applied i = None\<close> x have "apply_pending fails applied ss d1 = (d', r)" by simp
      from Cons.IH [OF this] obtain new where "md_ran d' = md_ran d1 @ new"
        "\<forall>i \<in> set new. applied i = None \<and> i \<in> fst ` set ss" by blast
      moreover have "md_ran d1 = md_ran d @ [i]"
        using Some by (auto simp: applyMigrationInTransaction_def split: if_splits)
      ultimately show ?thesis using \<open>applied i = None\<close> x by (intro exI [of _ "i # new"]) auto
    qed
  qed
qed

lemma apply_row_grows: "applyMigrationInTransaction fails i c d = Some d' \<Longrightarrow> ledger_ids d \<subseteq> ledger_ids d'"
  by (auto simp: applyMigrationInTransaction_def ledger_ids_def split: if_splits)

lemma record_row_grows: "recordMigrationInTransaction fails i c d = Some d' \<Longrightarrow> ledger_ids d \<subseteq> ledger_ids d'"
  by (auto simp: recordMigrationInTransaction_def ledger_ids_def split: if_splits)

lemma apply_grows: "apply_pending fails applied ss d = (d', r) \<Longrightarrow> ledger_ids d \<subseteq> ledger_ids d'"
  by (induction fails applied ss d arbitrary: d' rule: apply_pending.induct)
    (auto dest!: apply_row_grows split: option.splits if_splits)

lemma record_grows:
  "record_consolidated fails source steps applied d = (d', r) \<Longrightarrow> ledger_ids d \<subseteq> ledger_ids d'"
  by (induction fails source steps applied d arbitrary: d' rule: record_consolidated.induct)
    (auto split: option.splits, metis record_row_grows subset_iff)

lemma recorded_is_applied:
  "record_consolidated fails source steps applied d = (d', Inr applied') \<Longrightarrow>
   (\<forall>i. applied i \<noteq> None \<longrightarrow> applied' i \<noteq> None) \<and> (\<forall>i us. Record i us \<in> set steps \<longrightarrow> applied' i \<noteq> None)"
  by (induction fails source steps applied d rule: record_consolidated.induct)
    (auto split: option.splits if_splits)

lemma consolidation_steps_of:
  "consolidation_steps ledger cs = Inr steps \<Longrightarrow> c \<in> set cs \<Longrightarrow>
   \<exists>x. consolidate ledger c = Inr x \<and> x \<in> set steps"
  by (induction cs arbitrary: steps) (auto split: sum.splits)

text \<open>A consolidated file with a folded id in the ledger is in the ledger or gets recorded.\<close>

lemma folded_not_applied:
  assumes "consolidate ledger c = Inr x" "f \<in> set (cm_folds c)" "ledger (fm_id f) \<noteq> None"
  shows "x = Ledgered (cm_id c) \<and> ledger (cm_id c) \<noteq> None \<or> (\<exists>us. x = Record (cm_id c) us)"
proof -
  have "length (filter (\<lambda>f. ledger (fm_id f) = None) (cm_folds c)) < length (cm_folds c)"
    using assms(2,3) by (rule length_filter_less)
  with assms(1) show ?thesis by (auto simp: consolidate_def Let_def split: if_splits sum.splits)
qed

text \<open>A run in its phases: it stopped before it appended a row, while recording, or while applying.\<close>

lemma run_phases:
  assumes "run_migrations sha fails fs d = (d', r)"
  shows "(\<exists>rows. d' = d\<lparr>md_rows := rows\<rparr> \<and> map fst rows = map fst (md_rows d)) \<and> r \<noteq> None \<or>
    (\<exists>ss rows steps d1 x.
       read_sources sha (mf_read fs) (planMigrations (mf_core fs) (mf_locales fs) (mf_includeLocales fs)) = Inr ss \<and>
       planConsolidatedMigrations (getApplied (md_rows d)) = Inr steps \<and>
       reconcile_applied fails (getApplied (md_rows d)) ss (md_rows d) = (rows, None) \<and>
       record_consolidated fails (map_of ss) steps (getApplied (md_rows d)) (d\<lparr>md_rows := rows\<rparr>) = (d1, x) \<and>
       ((\<exists>e. x = Inl e) \<and> d' = d1 \<and> r \<noteq> None \<or>
        (\<exists>applied'. x = Inr applied' \<and> apply_pending fails applied' ss d1 = (d', r))))"
proof -
  have same: "d = d\<lparr>md_rows := md_rows d\<rparr>" by simp
  from assms show ?thesis
    unfolding run_migrations_def Let_def
    by (auto split: sum.splits prod.splits option.splits dest: reconcile_keys) (metis same)+
qed

lemma run_extends:
  assumes "run_migrations sha fails fs d = (d', r)"
  shows "extends_db d d'"
  using run_phases [OF assms]
proof (elim disjE conjE exE)
  fix rows assume "d' = d\<lparr>md_rows := rows\<rparr>" "map fst rows = map fst (md_rows d)"
  then show ?thesis by (intro extends_refl) (simp_all add: ledger_ids_def)
next
  fix ss rows steps d1 x e
  assume rec: "reconcile_applied fails (getApplied (md_rows d)) ss (md_rows d) = (rows, None)"
    and rc: "record_consolidated fails (map_of ss) steps (getApplied (md_rows d)) (d\<lparr>md_rows := rows\<rparr>) = (d1, x)"
    and d': "d' = d1"
  have "ledger_ids (d\<lparr>md_rows := rows\<rparr>) = ledger_ids d" using reconcile_keys [OF rec] by (simp add: ledger_ids_def)
  with record_grows [OF rc] record_runs_nothing [OF rc] d' show ?thesis by (intro extends_refl) simp_all
next
  fix ss rows steps d1 x applied'
  assume rec: "reconcile_applied fails (getApplied (md_rows d)) ss (md_rows d) = (rows, None)"
    and plan: "planConsolidatedMigrations (getApplied (md_rows d)) = Inr steps"
    and rc: "record_consolidated fails (map_of ss) steps (getApplied (md_rows d)) (d\<lparr>md_rows := rows\<rparr>) = (d1, x)"
    and x: "x = Inr applied'" and ap: "apply_pending fails applied' ss d1 = (d', r)"
  have dom: "getApplied (md_rows d) i \<noteq> None \<longleftrightarrow> i \<in> ledger_ids d" for i
    unfolding getApplied_def ledger_ids_def by (auto simp: map_of_eq_None_iff)
  have "ledger_ids (d\<lparr>md_rows := rows\<rparr>) = ledger_ids d" using reconcile_keys [OF rec] by (simp add: ledger_ids_def)
  with record_grows [OF rc] record_runs_nothing [OF rc] apply_grows [OF ap]
  have g: "ledger_ids d \<subseteq> ledger_ids d'" "md_ran d1 = md_ran d" by simp_all
  obtain new where new: "md_ran d' = md_ran d1 @ new" "\<forall>i \<in> set new. applied' i = None"
    using apply_new [OF ap] by blast
  note ra = recorded_is_applied [OF rc [unfolded x]]
  have old: "set new \<inter> ledger_ids d = {}" using new(2) ra dom by blast
  have skip: "cm_id c \<notin> set new"
    if c: "c \<in> set CONSOLIDATED_CORE_MIGRATIONS" "f \<in> set (cm_folds c)" "fm_id f \<in> ledger_ids d" for c f
  proof -
    obtain y where y: "consolidate (getApplied (md_rows d)) c = Inr y" "y \<in> set steps"
      using consolidation_steps_of [OF plan [unfolded planConsolidatedMigrations_def] c(1)] by blast
    from folded_not_applied [OF y(1) c(2)] dom c(3) y(2) ra new(2) show ?thesis by blast
  qed
  show ?thesis unfolding extends_db_def using g old skip new(1) by (intro conjI exI [of _ new]) auto
qed

text \<open>Runs one after the other, as the advisory lock orders them, each with its own files and failures.\<close>

definition run_all ::
    "(string \<Rightarrow> string) \<Rightarrow> ((ledger_write \<Rightarrow> bool) \<times> migration_files) list \<Rightarrow> migrated_db \<Rightarrow> migrated_db" where
  "run_all sha runs d = foldl (\<lambda>d (fails, fs). fst (run_migrations sha fails fs d)) d runs"

lemma run_all_extends: "ledger_ok d \<Longrightarrow> extends_db d (run_all sha runs d) \<and> ledger_ok (run_all sha runs d)"
proof (induction runs arbitrary: d)
  case Nil
  then show ?case by (simp add: run_all_def extends_refl)
next
  case (Cons x runs)
  obtain fails fs d1 r where x: "x = (fails, fs)" and r: "run_migrations sha fails fs d = (d1, r)"
    by (metis surj_pair)
  have "run_all sha (x # runs) d = run_all sha runs d1" by (simp add: run_all_def x r)
  with Cons.IH [OF run_ok [OF r Cons.prems]] extends_trans [OF run_extends [OF r]] show ?case by simp
qed

text \<open>
  A run applies the files of its plan, and in a plan that has no folded file beside the file that
  folds it a consolidated file is never behind one of those it folds.
\<close>

definition plan_ids :: "migration_files \<Rightarrow> string set" where
  "plan_ids fs = pm_id ` set (planMigrations (mf_core fs) (mf_locales fs) (mf_includeLocales fs))"

definition folds_deleted :: "migration_files \<Rightarrow> bool" where
  "folds_deleted fs \<longleftrightarrow> (\<forall>c \<in> set CONSOLIDATED_CORE_MIGRATIONS. \<forall>f \<in> set (cm_folds c).
     cm_id c \<in> plan_ids fs \<longrightarrow> fm_id f \<notin> plan_ids fs)"

definition never_behind_folded :: "string list \<Rightarrow> bool" where
  "never_behind_folded new \<longleftrightarrow> (\<forall>c \<in> set CONSOLIDATED_CORE_MIGRATIONS. \<forall>f \<in> set (cm_folds c).
     \<forall>xs ys. new = xs @ cm_id c # ys \<longrightarrow> fm_id f \<notin> set xs)"

lemma run_applies_planned:
  assumes "run_migrations sha fails fs d = (d', r)" "md_ran d' = md_ran d @ new"
  shows "set new \<subseteq> plan_ids fs"
  using run_phases [OF assms(1)]
proof (elim disjE conjE exE)
  fix ss rows steps d1 x e
  assume "record_consolidated fails (map_of ss) steps (getApplied (md_rows d)) (d\<lparr>md_rows := rows\<rparr>) = (d1, x)" "d' = d1"
  with record_runs_nothing assms(2) show ?thesis by fastforce
next
  fix ss rows steps d1 x applied'
  assume rs: "read_sources sha (mf_read fs) (planMigrations (mf_core fs) (mf_locales fs) (mf_includeLocales fs)) = Inr ss"
    and rc: "record_consolidated fails (map_of ss) steps (getApplied (md_rows d)) (d\<lparr>md_rows := rows\<rparr>) = (d1, x)"
    and ap: "apply_pending fails applied' ss d1 = (d', r)"
  from rs have "fst ` set ss = plan_ids fs" by (auto dest!: read_sources_value simp: plan_ids_def image_image)
  with apply_new [OF ap] record_runs_nothing [OF rc] assms(2) show ?thesis by auto
qed (use assms(2) in simp)

lemma run_all_never_behind:
  assumes "ledger_ok d" "\<forall>(fails, fs) \<in> set runs. folds_deleted fs" "md_ran (run_all sha runs d) = md_ran d @ new"
  shows "never_behind_folded new"
  using assms
proof (induction runs arbitrary: d new)
  case Nil
  then show ?case by (simp add: run_all_def never_behind_folded_def)
next
  case (Cons x runs)
  obtain fails fs d1 r where x: "x = (fails, fs)" and r: "run_migrations sha fails fs d = (d1, r)"
    by (metis surj_pair)
  let ?d' = "run_all sha runs d1"
  note ok = run_ok [OF r Cons.prems(1)]
  obtain n1 where n1: "md_ran d1 = md_ran d @ n1" using run_extends [OF r] unfolding extends_db_def by blast
  obtain n2 where n2: "md_ran ?d' = md_ran d1 @ n2"
    "\<forall>c \<in> set CONSOLIDATED_CORE_MIGRATIONS. \<forall>f \<in> set (cm_folds c). fm_id f \<in> ledger_ids d1 \<longrightarrow> cm_id c \<notin> set n2"
    using run_all_extends [OF ok, of sha runs] unfolding extends_db_def by blast
  have "md_ran ?d' = md_ran d @ new" using Cons.prems(3) by (simp add: run_all_def x r)
  with n1 n2(1) have new: "new = n1 @ n2" by simp
  have late: "never_behind_folded n2" using Cons.IH [OF ok _ n2(1)] Cons.prems(2) by simp
  have ran: "set n1 \<subseteq> ledger_ids d1" using ok n1 by (simp add: ledger_ok_def)
  have planned: "set n1 \<subseteq> plan_ids fs" by (rule run_applies_planned [OF r n1])
  have "fm_id f \<notin> set xs"
    if c: "c \<in> set CONSOLIDATED_CORE_MIGRATIONS" "f \<in> set (cm_folds c)" and xs: "new = xs @ cm_id c # ys" for c f xs ys
  proof (cases "cm_id c \<in> set n2 \<and> (\<exists>z. xs = n1 @ z \<and> n2 = z @ cm_id c # ys)")
    case True
    with late c have "\<forall>z. xs = n1 @ z \<and> n2 = z @ cm_id c # ys \<longrightarrow> fm_id f \<notin> set z"
      unfolding never_behind_folded_def by blast
    moreover have "fm_id f \<notin> set n1" using True n2(2) c ran by blast
    ultimately show ?thesis using True by auto
  next
    case False
    from xs new have "n1 @ n2 = xs @ cm_id c # ys" by simp
    then obtain us where "n1 = xs @ us \<and> us @ n2 = cm_id c # ys \<or> n1 @ us = xs \<and> n2 = us @ cm_id c # ys"
      by (auto simp: append_eq_append_conv2)
    with False obtain z where z: "n1 = xs @ cm_id c # z" by (cases us) auto
    then have "cm_id c \<in> plan_ids fs" using planned by auto
    with Cons.prems(2) x c have "fm_id f \<notin> plan_ids fs" by (auto simp: folds_deleted_def)
    with planned z show ?thesis by auto
  qed
  then show ?case unfolding never_behind_folded_def by blast
qed

text \<open>
  C17: However often the runner is started, with whatever files and whatever statements fail, every
  migration file's statements run at most once in a database, and only files without a ledger row
  run. A run that finds one of the files a consolidated file folds in the ledger does not run the
  consolidated file, nor does any run after it. And when no run has a folded file beside the file
  that folds it - they were deleted with the consolidation, lemma folded_beside_runs_both shows that
  a folder with both is run as it stands - a consolidated file never runs after one of the files it
  folds, in whichever run that was.
\<close>

theorem migrations_run_once:
  assumes "ledger_ok d"
  shows "\<exists>new. md_ran (run_all sha runs d) = md_ran d @ new \<and> distinct (md_ran d @ new) \<and>
    set (md_ran d @ new) \<subseteq> ledger_ids (run_all sha runs d) \<and> set new \<inter> ledger_ids d = {} \<and>
    (\<forall>c \<in> set CONSOLIDATED_CORE_MIGRATIONS. \<forall>f \<in> set (cm_folds c).
       fm_id f \<in> ledger_ids d \<longrightarrow> cm_id c \<notin> set new) \<and>
    ((\<forall>(fails, fs) \<in> set runs. folds_deleted fs) \<longrightarrow> never_behind_folded new)"
  using run_all_extends [OF assms, of sha runs] run_all_never_behind [OF assms, of runs sha]
  unfolding extends_db_def ledger_ok_def by metis

subsection \<open>What a completed run leaves\<close>

lemma append_row_map_of:
  "i \<notin> fst ` set rows \<Longrightarrow> map_of (rows @ [(i, v)]) j = (if j = i then Some v else map_of rows j)"
  by (induction rows) auto

lemma record_follows:
  assumes "record_consolidated fails source steps applied d = (d', Inr applied')"
    and "rows_follow h applied (md_rows d)" "\<And>i c. source i = Some c \<Longrightarrow> c = h i"
  shows "rows_follow h applied' (md_rows d') \<and>
    (\<forall>i. map_of (md_rows d) i = Some (Some (h i)) \<longrightarrow> map_of (md_rows d') i = Some (Some (h i))) \<and>
    (\<forall>i. applied i = None \<longrightarrow> applied' i \<noteq> None \<longrightarrow> map_of (md_rows d') i = Some (Some (h i)))"
  using assms
proof (induction fails source steps applied d rule: record_consolidated.induct)
  case (2 fails source i us steps applied d)
  obtain c where c: "source i = Some c" using "2.prems"(1) by (cases "source i") simp_all
  note ch = "2.prems"(3) [OF c]
  obtain d1 where d1: "recordMigrationInTransaction fails i c d = Some d1"
    "record_consolidated fails source steps (applied(i \<mapsto> Some c)) d1 = (d', Inr applied')"
    using "2.prems"(1) c by (auto split: option.splits)
  then have m: "md_rows d1 = md_rows d @ [(i, Some (h i))]" "i \<notin> fst ` set (md_rows d)"
    using ch by (auto simp: recordMigrationInTransaction_def split: if_splits)
  have n: "map_of (md_rows d1) j = (if j = i then Some (Some (h i)) else map_of (md_rows d) j)" for j
    using append_row_map_of [OF m(2)] m(1) by simp
  have f: "rows_follow h (applied(i \<mapsto> Some c)) (md_rows d1)"
    unfolding rows_follow_def
  proof
    fix j
    show "map_of (md_rows d1) j = (applied(i \<mapsto> Some c)) j \<or>
        (applied(i \<mapsto> Some c)) j \<noteq> None \<and> map_of (md_rows d1) j = Some (Some (h j))"
      using "2.prems"(2) [unfolded rows_follow_def, rule_format, of j] n [of j] ch
      by (cases "j = i") simp_all
  qed
  note ih = "2.IH" [OF c d1 f "2.prems"(3)]
  show ?case
  proof (intro conjI allI impI)
    fix j assume "map_of (md_rows d) j = Some (Some (h j))"
    with n have "map_of (md_rows d1) j = Some (Some (h j))" by simp
    with ih show "map_of (md_rows d') j = Some (Some (h j))" by blast
  next
    fix j assume a: "applied j = None" "applied' j \<noteq> None"
    show "map_of (md_rows d') j = Some (Some (h j))"
    proof (cases "j = i")
      case True
      with n ih show ?thesis by simp
    next
      case False
      with a ih show ?thesis by simp
    qed
  qed (use ih in blast)
qed auto

lemma apply_done:
  assumes "apply_pending fails applied ss d = (d', None)" "\<forall>(i, c) \<in> set ss. c = h i"
  shows "(\<forall>i \<in> ledger_ids d. map_of (md_rows d') i = map_of (md_rows d) i) \<and>
    (\<forall>i \<in> fst ` set ss. applied i = None \<longrightarrow> map_of (md_rows d') i = Some (Some (h i)))"
  using assms
proof (induction ss arbitrary: d)
  case Nil
  then show ?case by simp
next
  case (Cons x ss)
  obtain i c where x: "x = (i, c)" "c = h i" using Cons.prems(2) by (cases x) auto
  have hs: "\<forall>(i, c) \<in> set ss. c = h i" using Cons.prems(2) by simp
  show ?case
  proof (cases "applied i")
    case (Some y)
    with Cons.IH [OF _ hs] Cons.prems(1) x show ?thesis by auto
  next
    case None
    with Cons.prems(1) x obtain d1 where d1: "applyMigrationInTransaction fails i c d = Some d1"
      "apply_pending fails applied ss d1 = (d', None)" by (auto split: option.splits)
    then have m: "md_rows d1 = md_rows d @ [(i, Some (h i))]" "i \<notin> fst ` set (md_rows d)"
      using x(2) by (auto simp: applyMigrationInTransaction_def split: if_splits)
    have n: "map_of (md_rows d1) j = (if j = i then Some (Some (h i)) else map_of (md_rows d) j)" for j
      using append_row_map_of [OF m(2)] m(1) by simp
    have k: "ledger_ids d1 = insert i (ledger_ids d)" "i \<notin> ledger_ids d" using m by (simp_all add: ledger_ids_def)
    show ?thesis using Cons.IH [OF d1(2) hs] n k x by auto
  qed
qed

lemma run_complete:
  assumes "run_migrations sha fails fs d = (d', None)" "ledger_ok d"
    and "m \<in> set (planMigrations (mf_core fs) (mf_locales fs) (mf_includeLocales fs))"
  shows "map_of (md_rows d') (pm_id m) =
    Some (Some (migrationChecksum sha (the (mf_read fs (pm_id m)))))"
proof -
  let ?h = "\<lambda>i. migrationChecksum sha (the (mf_read fs i))"
  let ?plan = "planMigrations (mf_core fs) (mf_locales fs) (mf_includeLocales fs)"
  from run_phases [OF assms(1)] obtain ss rows steps d1 applied' where
    rs: "read_sources sha (mf_read fs) ?plan = Inr ss" and
    rec: "reconcile_applied fails (getApplied (md_rows d)) ss (md_rows d) = (rows, None)" and
    rc: "record_consolidated fails (map_of ss) steps (getApplied (md_rows d)) (d\<lparr>md_rows := rows\<rparr>) = (d1, Inr applied')" and
    ap: "apply_pending fails applied' ss d1 = (d', None)" by blast
  have ss: "ss = map (\<lambda>m. (pm_id m, ?h (pm_id m))) ?plan" using read_sources_value [OF rs] by blast
  then have h: "\<forall>(i, c) \<in> set ss. c = ?h i" "\<And>i c. map_of ss i = Some c \<Longrightarrow> c = ?h i" "pm_id m \<in> fst ` set ss"
    using assms(3) by (auto dest!: map_of_SomeD simp: image_image)
  have "getApplied (md_rows d) = map_of (md_rows d)" using assms(2) by (intro getApplied_keys) (simp add: ledger_ok_def)
  then have f0: "rows_follow ?h (getApplied (md_rows d)) (md_rows d)" by (simp add: rows_follow_def)
  note f1 = reconcile_follows [OF rec f0 h(1)]
  have f2: "rows_follow ?h applied' (md_rows d1) \<and>
    (\<forall>i. map_of rows i = Some (Some (?h i)) \<longrightarrow> map_of (md_rows d1) i = Some (Some (?h i))) \<and>
    (\<forall>i. getApplied (md_rows d) i = None \<longrightarrow> applied' i \<noteq> None \<longrightarrow> map_of (md_rows d1) i = Some (Some (?h i)))"
    using record_follows [OF rc, of ?h] f1 h(2) by simp
  show ?thesis
  proof (cases "applied' (pm_id m)")
    case None
    with apply_done [OF ap h(1)] h(3) show ?thesis by blast
  next
    case (Some y)
    then have e: "map_of (md_rows d1) (pm_id m) = Some (Some (?h (pm_id m)))"
      using f1 f2 h(3) by (cases "getApplied (md_rows d) (pm_id m)") auto
    then have "pm_id m \<in> ledger_ids d1" by (force simp: ledger_ids_def dest: map_of_SomeD)
    with e apply_done [OF ap h(1)] show ?thesis by simp
  qed
qed

subsection \<open>Concrete runs\<close>

definition sample_files :: migration_files where
  "sample_files =
     \<lparr>mf_core = [''0002-release.sql'', ''run-migrations.ts'', ''0001-initial-schema.sql'', ''better-auth.sql''],
      mf_locales = [''0001-email-templates-de.sql'', ''0000-email-templates-en.sql''],
      mf_read = (\<lambda>i. Some (if i = ''0002-release.sql'' then ''alter table t add c int; -- later'' else ''create table t ( )'')),
      mf_includeLocales = False\<rparr>"

definition fresh_database :: migrated_db where
  "fresh_database = \<lparr>md_rows = [], md_ran = []\<rparr>"

text \<open>The first run fails in the second file, the second one completes.\<close>

definition sample_runs :: "((ledger_write \<Rightarrow> bool) \<times> migration_files) list" where
  "sample_runs = [(\<lambda>w. w = ApplyOf ''0002-release.sql'', sample_files), (\<lambda>w. False, sample_files)]"

lemma sample_plan:
  "planMigrations (mf_core sample_files) (mf_locales sample_files) (mf_includeLocales sample_files) =
     map (\<lambda>(i, d, f). \<lparr>pm_id = i, pm_subdir = d, pm_file = f\<rparr>)
       [(''0001-initial-schema.sql'', [], ''0001-initial-schema.sql''),
        (''0002-release.sql'', [], ''0002-release.sql''),
        (''locales/0000-email-templates-en.sql'', ''locales'', ''0000-email-templates-en.sql'')]"
  by code_simp

lemma sample_normal:
  "normalizeMigrationSql ''alter table t add c int; -- later'' = ''alter table t add c int;''"
  "normalizeMigrationSql ''create table t ( )'' = ''create table t ( )''"
  by code_simp+

definition sample_sources :: "(string \<times> string) list" where
  "sample_sources =
     [(''0001-initial-schema.sql'', ''create table t ( )''), (''0002-release.sql'', ''alter table t add c int;''),
      (''locales/0000-email-templates-en.sql'', ''create table t ( )'')]"

lemma sample_read:
  "read_sources (\<lambda>s. s) (mf_read sample_files)
     (planMigrations (mf_core sample_files) (mf_locales sample_files) (mf_includeLocales sample_files)) =
   Inr sample_sources"
  unfolding sample_plan
  by (simp add: sample_sources_def migrationChecksum_def sample_normal) (simp add: sample_files_def migrationChecksum_def sample_normal)

definition sample_half :: migrated_db where
  "sample_half = \<lparr>md_rows = [(''0001-initial-schema.sql'', Some ''create table t ( )'')], md_ran = [''0001-initial-schema.sql'']\<rparr>"

lemma sample_consolidation:
  "planConsolidatedMigrations (getApplied (md_rows fresh_database)) = Inr [Apply ''0002-release.sql'']"
  "planConsolidatedMigrations (getApplied (md_rows sample_half)) = Inr [Apply ''0002-release.sql'']"
  by code_simp+

lemma sample_first:
  "run_migrations (\<lambda>s. s) (\<lambda>w. w = ApplyOf ''0002-release.sql'') sample_files fresh_database =
     (sample_half, Some (WriteFailed ''0002-release.sql''))"
  unfolding run_migrations_def Let_def sample_read sample_consolidation
  by (simp add: sample_sources_def sample_half_def fresh_database_def getApplied_def applyMigrationInTransaction_def)

lemma sample_second:
  "run_migrations (\<lambda>s. s) (\<lambda>w. False) sample_files sample_half =
     (\<lparr>md_rows = map (\<lambda>(i, c). (i, Some c)) sample_sources, md_ran = map fst sample_sources\<rparr>, None)"
  unfolding run_migrations_def Let_def sample_read sample_consolidation
  by (simp add: sample_sources_def sample_half_def getApplied_def applyMigrationInTransaction_def
      reconcileLedgerChecksum_def)

lemma sample_runs_ran:
  "md_ran (run_all (\<lambda>s. s) sample_runs fresh_database) =
     [''0001-initial-schema.sql'', ''0002-release.sql'', ''locales/0000-email-templates-en.sql'']"
  by (simp add: run_all_def sample_runs_def sample_first sample_second) (simp add: sample_sources_def)

lemma sample_folds_deleted: "folds_deleted sample_files"
  unfolding folds_deleted_def plan_ids_def sample_plan by code_simp

lemma migrations_run_once_witness:
  "distinct (md_ran (run_all (\<lambda>s. s) sample_runs fresh_database)) \<and>
   ''0002-release.sql'' \<in> ledger_ids (run_all (\<lambda>s. s) sample_runs fresh_database) \<and>
   never_behind_folded (md_ran (run_all (\<lambda>s. s) sample_runs fresh_database))"
proof -
  have ok: "ledger_ok fresh_database" by (simp add: ledger_ok_def fresh_database_def)
  have alone: "\<forall>(fails, fs) \<in> set sample_runs. folds_deleted fs" by (simp add: sample_runs_def sample_folds_deleted)
  define d' where "d' = run_all (\<lambda>s. s) sample_runs fresh_database"
  obtain new where n: "md_ran d' = md_ran fresh_database @ new" "distinct (md_ran fresh_database @ new)"
    "set (md_ran fresh_database @ new) \<subseteq> ledger_ids d'" "never_behind_folded new"
    using migrations_run_once [OF ok, of "\<lambda>s. s" sample_runs] alone unfolding d'_def by blast
  have "''0002-release.sql'' \<in> set (md_ran d')"
    unfolding d'_def sample_runs_ran by simp
  with n show ?thesis unfolding d'_def [symmetric] by (auto simp: fresh_database_def)
qed

text \<open>A folder with a folded file beside the file that folds it, which this repository does not have.\<close>

definition unpruned_files :: migration_files where
  "unpruned_files =
     \<lparr>mf_core = [''0001-initial-schema.sql'', ''0002-admin-groups-permissions.sql'', ''0002-release.sql''],
      mf_locales = [], mf_read = (\<lambda>i. Some ''select 1''), mf_includeLocales = False\<rparr>"

lemma folded_beside_runs_both:
  "md_ran (fst (run_migrations (\<lambda>s. s) (\<lambda>w. False) unpruned_files fresh_database)) =
     [''0001-initial-schema.sql'', ''0002-admin-groups-permissions.sql'', ''0002-release.sql'']"
  by code_simp

text \<open>
  A comment that is the only thing between two words leaves no space, so a file and one in which
  the words are joined hash alike.
\<close>

lemma comment_joins_words:
  "normalizeMigrationSql ''select a/**/b'' = normalizeMigrationSql ''select ab''"
  "normalizeMigrationSql ''select a b'' \<noteq> normalizeMigrationSql ''select ab''"
  by code_simp+

end
