(* ===== verification/DeployGate.thy ===== *)
theory DeployGate
  imports MigrationPlan
begin

text \<open>
  The schema gate of a production build (\<open>src/db/deploy-gate.ts\<close>,
  \<open>src/db/migrations/deploy-gate-check.ts\<close>, \<open>scripts/deploy-gate.ts\<close>): what the build's environment
  decides, one check of the database, the polling loop and the exit code. What the database
  answers to the queries of one attempt is a record; the URL parser, the clock and the failures
  of the modules the script loads are arguments. Of the printed text only what it names is kept.
\<close>

subsection \<open>Which builds are verified\<close>

type_synonym build_env = "string \<rightharpoonup> string"

definition DEFAULT_GATE_WAIT_MS :: int where
  "DEFAULT_GATE_WAIT_MS = 600000"

definition MAX_GATE_WAIT_MS :: int where
  "MAX_GATE_WAIT_MS = 1800000"

definition GATE_POLL_MS :: int where
  "GATE_POLL_MS = 10000"

definition SENSITIVE_PLACEHOLDER :: string where
  "SENSITIVE_PLACEHOLDER = ''[SENSITIVE]''"

definition COMMIT_SHA :: "string \<Rightarrow> bool" where
  "COMMIT_SHA s = (length s = 40 \<and> list_all is_hex_digit s)"

datatype skip_reason = PrebuiltAfterMigrate | NotAVercelBuild | VercelEnv string

datatype refuse_reason =
    TokenOnVercel | TokenNamesOtherCommit "string option" | NoVercelEnv | BadGateWait string
  | NoDatabaseUrl | UnreadableDatabaseUrl | NotPostgresUrl | BadSchemaConfig

datatype build_infra = OnVercel | OnLocal

datatype gate_plan =
    Skip skip_reason
  | Refuse refuse_reason
  | Verify int int build_infra "string option" string

definition env_text :: "build_env \<Rightarrow> string \<Rightarrow> string" where
  "env_text env name = trim (case env name of None \<Rightarrow> [] | Some v \<Rightarrow> v)"

definition resolveHeadSha :: "build_env \<Rightarrow> string option \<Rightarrow> string option" where
  "resolveHeadSha env gitHead =
     (let fromVercel = env_text env ''VERCEL_GIT_COMMIT_SHA''
      in if fromVercel \<noteq> [] then Some fromVercel
         else (case map_option trim gitHead of
                 None \<Rightarrow> None
               | Some fromGit \<Rightarrow> if fromGit = [] then None else Some fromGit))"

definition decimal_value :: "string \<Rightarrow> int" where
  "decimal_value s = foldl (\<lambda>n c. 10 * n + (int (of_char c :: nat) - 48)) 0 s"

definition parseGateWaitMs :: "string option \<Rightarrow> int option" where
  "parseGateWaitMs raw =
     (let value = trim (case raw of None \<Rightarrow> [] | Some v \<Rightarrow> v)
      in if value = [] then Some DEFAULT_GATE_WAIT_MS
         else if \<not> list_all is_digit value then None
         else if decimal_value value \<le> MAX_GATE_WAIT_MS then Some (decimal_value value) else None)"

text \<open>\<open>protocol\<close> is the scheme of a URL with its colon, none where the parser throws.\<close>

definition isPostgresUrl :: "(string \<Rightarrow> string option) \<Rightarrow> string \<Rightarrow> bool" where
  "isPostgresUrl protocol v = (protocol v \<in> {Some ''postgres:'', Some ''postgresql:''})"

definition planDeployGate :: "(string \<Rightarrow> string option) \<Rightarrow> build_env \<Rightarrow> string option \<Rightarrow> gate_plan" where
  "planDeployGate protocol env headSha =
     (let onVercelInfra = env_text env ''VERCEL_BUILD_IMAGE'' \<noteq> [];
          token = env_text env ''DEPLOY_GATE_PREBUILT_AFTER_MIGRATE'';
          vercelEnv = env_text env ''VERCEL_ENV'';
          databaseUrl = env_text env ''DATABASE_URL''
      in if token \<noteq> [] then
           (if onVercelInfra then Refuse TokenOnVercel
            else if \<not> (COMMIT_SHA token \<and> map_option js_lower headSha = Some (js_lower token))
            then Refuse (TokenNamesOtherCommit headSha)
            else Skip PrebuiltAfterMigrate)
         else if vercelEnv = [] then
           (if onVercelInfra \<or> env_text env ''VERCEL'' = ''1'' then Refuse NoVercelEnv else Skip NotAVercelBuild)
         else if vercelEnv \<noteq> ''production'' then Skip (VercelEnv vercelEnv)
         else (case parseGateWaitMs (env ''DEPLOY_GATE_WAIT_MS'') of
                 None \<Rightarrow> Refuse (BadGateWait (env_text env ''DEPLOY_GATE_WAIT_MS''))
               | Some waitMs \<Rightarrow>
                   if databaseUrl = [] then Refuse NoDatabaseUrl
                   else if databaseUrl = SENSITIVE_PLACEHOLDER then Refuse UnreadableDatabaseUrl
                   else if \<not> isPostgresUrl protocol databaseUrl then Refuse NotPostgresUrl
                   else Verify waitMs GATE_POLL_MS (if onVercelInfra then OnVercel else OnLocal) headSha databaseUrl))"

subsection \<open>The ledger against this build\<close>

datatype attempt_status = Ok | Behind | Unreachable | Fatal

text \<open>A row of another version, with the hash this build expects.\<close>

datatype ledger_reason = DifferentVersion string string string | LedgerLacks "string list"

datatype ledger_warning = NoChecksum string | NoFile string

definition compare_checksum ::
    "ledger \<Rightarrow> string \<Rightarrow> string \<Rightarrow> ledger_reason list \<times> ledger_warning list" where
  "compare_checksum ledger i expected =
     (case Option.bind (ledger i) id of
        None \<Rightarrow> ([], [NoChecksum i])
      | Some stored \<Rightarrow> if stored \<noteq> expected then ([DifferentVersion i stored expected], []) else ([], []))"

definition compare_required ::
    "(string \<Rightarrow> string) \<Rightarrow> ledger \<Rightarrow> (string \<rightharpoonup> string) \<Rightarrow> string \<Rightarrow> ledger_reason list \<times> ledger_warning list" where
  "compare_required sha ledger filesById i =
     (if ledger i \<noteq> None
      then (case filesById i of
              None \<Rightarrow> ([], [NoFile i])
            | Some text \<Rightarrow> compare_checksum ledger i (migrationChecksum sha text))
      else (case folds_of i of
              None \<Rightarrow> ([], [])
            | Some folds \<Rightarrow>
                if list_all (\<lambda>f. ledger (fm_id f) \<noteq> None) folds
                then (concat (map (\<lambda>f. fst (compare_checksum ledger (fm_id f) (fm_checksum f))) folds),
                      concat (map (\<lambda>f. snd (compare_checksum ledger (fm_id f) (fm_checksum f))) folds))
                else ([], [])))"

definition evaluateLedger ::
    "(string \<Rightarrow> string) \<Rightarrow> (string \<times> string option) list \<Rightarrow> (string \<rightharpoonup> string) \<Rightarrow>
     attempt_status \<times> ledger_reason list \<times> ledger_warning list" where
  "evaluateLedger sha rows filesById =
     (let ledger = getApplied rows;
          compared = map (compare_required sha ledger filesById) REQUIRED_CORE_MIGRATIONS;
          fatal = concat (map fst compared);
          warnings = concat (map snd compared);
          missing = missingCoreMigrations (dom ledger)
      in if fatal \<noteq> [] then (Fatal, fatal, warnings)
         else if missing \<noteq> [] then (Behind, [LedgerLacks missing], warnings)
         else (Ok, [], warnings))"

subsection \<open>The runtime's privileges\<close>

record privilege_report =
  pr_attributes :: "string list"
  pr_memberships :: "string list"
  pr_missing :: "string list"
  pr_forbidden :: "string list"

datatype gate_reason =
    LedgerReason ledger_reason
  | ForbiddenAttributes "string list" | ForbiddenMemberships "string list"
  | PrivilegesMissing "string list" | PrivilegesForbidden "string list"
  | OwnerBesideLogins string "string list"
  | WrongSchema "string option" | LedgerUnreadable string
  | AuthProblem string | AuthTablesMissing "string list" | AuthColumnsMissing "string list"
  | AuthIndexesMissing "string list"
  | ErrorReason "string option" "string option"

definition evaluateRuntimePrivileges :: "privilege_report \<Rightarrow> attempt_status \<times> gate_reason list" where
  "evaluateRuntimePrivileges report =
     (let fatal = (if pr_attributes report \<noteq> [] then [ForbiddenAttributes (pr_attributes report)] else []) @
                  (if pr_memberships report \<noteq> [] then [ForbiddenMemberships (pr_memberships report)] else []);
          behind = (if pr_missing report \<noteq> [] then [PrivilegesMissing (pr_missing report)] else []) @
                   (if pr_forbidden report \<noteq> [] then [PrivilegesForbidden (pr_forbidden report)] else [])
      in if fatal \<noteq> [] then (Fatal, fatal) else if behind \<noteq> [] then (Behind, behind) else (Ok, []))"

definition evaluateOwnerRatchet :: "string \<Rightarrow> string list \<Rightarrow> attempt_status \<times> gate_reason list" where
  "evaluateOwnerRatchet owner logins =
     (if logins = [] then (Ok, []) else (Fatal, [OwnerBesideLogins owner logins]))"

subsection \<open>Errors\<close>

datatype js_error = JsError (je_code: "string option") (je_message: "string option") (je_errors: "js_error list")

definition CONNECTION_ERRNOS :: "string list" where
  "CONNECTION_ERRNOS =
     [''ECONNREFUSED'', ''ECONNRESET'', ''ETIMEDOUT'', ''ENOTFOUND'', ''EAI_AGAIN'', ''EHOSTUNREACH'', ''ENETUNREACH'', ''EPIPE'']"

definition PG_CONNECTION_MESSAGE :: "string \<Rightarrow> bool" where
  "PG_CONNECTION_MESSAGE m =
     (let l = map ascii_lower m
      in starts_with l ''connection terminated'' \<or> starts_with l ''timeout exceeded when trying to connect'' \<or>
         includes_str l ''query read timeout'')"

fun isConnectionError :: "js_error \<Rightarrow> bool" where
  "isConnectionError (JsError code message errors) =
     ((case code of None \<Rightarrow> False | Some c \<Rightarrow> starts_with c ''08'' \<or> c = ''57P03'' \<or> c \<in> set CONNECTION_ERRNOS) \<or>
      list_ex isConnectionError errors \<or>
      (case message of None \<Rightarrow> False | Some m \<Rightarrow> PG_CONNECTION_MESSAGE m))"

definition describeError :: "js_error \<Rightarrow> gate_reason" where
  "describeError e = ErrorReason (je_code e) (je_message e)"

subsection \<open>One attempt\<close>

record auth_migration_plan =
  ap_toBeCreated :: "string list"
  ap_toBeAdded :: "(string \<times> string list) list"
  ap_toBeAddedIndexes :: "string list"
  ap_unsafeChanges :: "string list"
  ap_schemaProblems :: "string list"

record identity_row =
  id_user :: string
  id_schema :: "string option"
  id_superuser :: bool
  id_ledger_owner :: "string option"

text \<open>What the database answers to the queries of one attempt, or the error it throws.\<close>

record db_answers =
  da_identity :: "js_error + identity_row"
  da_ledger :: "js_error + (string \<times> string option) list"
  da_auth :: "js_error + auth_migration_plan"
  da_logins :: "js_error + string list"
  da_privileges :: "js_error + privilege_report"

type_synonym attempt_result = "attempt_status \<times> gate_reason list"

definition LEDGER_BEHIND :: "string list" where
  "LEDGER_BEHIND = [''42P01'', ''42501'', ''42703'']"

definition is_owner :: "identity_row \<Rightarrow> bool" where
  "is_owner row = (id_superuser row \<or> id_ledger_owner row = Some (id_user row))"

definition thrown :: "js_error \<Rightarrow> attempt_result" where
  "thrown e = (if isConnectionError e then Unreachable else Fatal, [describeError e])"

definition auth_gaps :: "auth_migration_plan \<Rightarrow> gate_reason list" where
  "auth_gaps plan =
     (if ap_toBeCreated plan \<noteq> [] then [AuthTablesMissing (ap_toBeCreated plan)] else []) @
     (if ap_toBeAdded plan \<noteq> []
      then [AuthColumnsMissing (concat (map (\<lambda>(t, fs). map (\<lambda>f. t @ CHR ''.'' # f) fs) (ap_toBeAdded plan)))] else []) @
     (if ap_toBeAddedIndexes plan \<noteq> [] then [AuthIndexesMissing (ap_toBeAddedIndexes plan)] else [])"

definition check_privileges :: "db_answers \<Rightarrow> identity_row \<Rightarrow> attempt_result" where
  "check_privileges da row =
     (if is_owner row
      then (case da_logins da of Inl e \<Rightarrow> thrown e | Inr logins \<Rightarrow> evaluateOwnerRatchet (id_user row) logins)
      else (case da_privileges da of Inl e \<Rightarrow> thrown e | Inr report \<Rightarrow> evaluateRuntimePrivileges report))"

definition check_ledger ::
    "(string \<Rightarrow> string) \<Rightarrow> (string \<rightharpoonup> string) \<Rightarrow> db_answers \<Rightarrow> identity_row \<Rightarrow>
     (string \<times> string option) list \<Rightarrow> attempt_result" where
  "check_ledger sha files da row rows =
     (case evaluateLedger sha (filter (\<lambda>r. fst r \<in> set CORE_MIGRATION_LEDGER_IDS) rows) files of
        (Fatal, reasons, _) \<Rightarrow> (Fatal, map LedgerReason reasons)
      | (_, reasons, _) \<Rightarrow>
          (case da_auth da of
             Inl e \<Rightarrow> thrown e
           | Inr plan \<Rightarrow>
               (let problems = ap_schemaProblems plan @ ap_unsafeChanges plan;
                    gaps = map LedgerReason reasons @ auth_gaps plan
                in if problems \<noteq> [] then (Fatal, map AuthProblem problems)
                   else if gaps \<noteq> [] then (Behind, gaps)
                   else check_privileges da row)))"

definition checkDatabase ::
    "(string \<Rightarrow> string) \<Rightarrow> string \<Rightarrow> (string \<rightharpoonup> string) \<Rightarrow> db_answers \<Rightarrow> attempt_result" where
  "checkDatabase sha schema files da =
     (case da_identity da of
        Inl e \<Rightarrow> thrown e
      | Inr row \<Rightarrow>
          (if id_schema row \<noteq> Some schema then (Behind, [WrongSchema (id_schema row)])
           else (case da_ledger da of
                   Inl e \<Rightarrow> (case je_code e of
                               Some c \<Rightarrow> if c \<in> set LEDGER_BEHIND then (Behind, [LedgerUnreadable c]) else thrown e
                             | None \<Rightarrow> thrown e)
                 | Inr rows \<Rightarrow> check_ledger sha files da row rows)))"

subsection \<open>The loop and the exit code\<close>

datatype gate_outcome = Pass nat int | Fail attempt_status "gate_reason list" nat int

text \<open>
  \<open>clock n\<close> is the reading after the \<open>n\<close>-th attempt and \<open>clock 0\<close> the one before the first. Whether
  the loop ends depends on it, so the value is an option.
\<close>

partial_function (option) gate_loop ::
    "(nat \<Rightarrow> attempt_result) \<Rightarrow> (nat \<Rightarrow> int) \<Rightarrow> int \<Rightarrow> int \<Rightarrow> nat \<Rightarrow> gate_outcome option" where
  "gate_loop attempt clock waitMs pollMs n =
     (case attempt n of
        (status, reasons) \<Rightarrow>
          (let elapsedMs = clock n - clock 0
           in if status = Ok then Some (Pass n elapsedMs)
              else if status = Fatal then Some (Fail Fatal reasons n elapsedMs)
              else if waitMs = 0 \<or> elapsedMs + pollMs > waitMs then Some (Fail status reasons n elapsedMs)
              else gate_loop attempt clock waitMs pollMs (Suc n)))"

definition runGateLoop ::
    "(nat \<Rightarrow> attempt_result) \<Rightarrow> (nat \<Rightarrow> int) \<Rightarrow> int \<Rightarrow> int \<Rightarrow> gate_outcome option" where
  "runGateLoop attempt clock waitMs pollMs = gate_loop attempt clock waitMs pollMs 1"

text \<open>
  The script: its environment, the checkout's \<open>HEAD\<close>, whether the schema configuration and the auth
  module load, \<open>DB_SCHEMA\<close>, this build's core files and the answers of each attempt.
\<close>

record gate_run =
  gr_env :: build_env
  gr_gitHead :: "string option"
  gr_schemaLoads :: bool
  gr_authLoads :: bool
  gr_schema :: string
  gr_readFile :: "string \<Rightarrow> string option"
  gr_answers :: "nat \<Rightarrow> db_answers"
  gr_clock :: "nat \<Rightarrow> int"

definition readCoreFiles :: "(string \<Rightarrow> string option) \<Rightarrow> (string \<rightharpoonup> string)" where
  "readCoreFiles readFile i = (if i \<in> set REQUIRED_CORE_MIGRATIONS then readFile i else None)"

definition gate_main ::
    "(string \<Rightarrow> string option) \<Rightarrow> (string \<Rightarrow> string) \<Rightarrow> gate_run \<Rightarrow> nat option" where
  "gate_main protocol sha g =
     (case planDeployGate protocol (gr_env g) (resolveHeadSha (gr_env g) (gr_gitHead g)) of
        Skip reason \<Rightarrow> Some 0
      | Refuse reason \<Rightarrow> Some 1
      | Verify waitMs pollMs infra commit databaseUrl \<Rightarrow>
          (if \<not> gr_schemaLoads g \<or> \<not> gr_authLoads g then Some 1
           else map_option (\<lambda>out. case out of Pass n ms \<Rightarrow> 0 | Fail kind reasons n ms \<Rightarrow> 1)
                  (runGateLoop
                     (\<lambda>n. checkDatabase sha (gr_schema g) (readCoreFiles (gr_readFile g)) (gr_answers g n))
                     (gr_clock g) waitMs pollMs)))"

subsection \<open>The loop's schedule\<close>

text \<open>
  A pass at attempt \<open>k\<close> means the attempts before it were retried and it started inside the wait.
\<close>

lemma gate_loop_unfold:
  "gate_loop attempt clock waitMs pollMs n =
     (if fst (attempt n) = Ok then Some (Pass n (clock n - clock 0))
      else if fst (attempt n) = Fatal then Some (Fail Fatal (snd (attempt n)) n (clock n - clock 0))
      else if waitMs = 0 \<or> clock n - clock 0 + pollMs > waitMs
      then Some (Fail (fst (attempt n)) (snd (attempt n)) n (clock n - clock 0))
      else gate_loop attempt clock waitMs pollMs (Suc n))"
  by (subst gate_loop.simps) (simp split: prod.split)

definition retried :: "(nat \<Rightarrow> attempt_result) \<Rightarrow> (nat \<Rightarrow> int) \<Rightarrow> int \<Rightarrow> int \<Rightarrow> nat \<Rightarrow> bool" where
  "retried attempt clock waitMs pollMs j \<longleftrightarrow>
     fst (attempt j) \<in> {Behind, Unreachable} \<and> clock j - clock 0 + pollMs \<le> waitMs"

definition decided :: "(nat \<Rightarrow> attempt_result) \<Rightarrow> (nat \<Rightarrow> int) \<Rightarrow> nat \<Rightarrow> gate_outcome \<Rightarrow> bool" where
  "decided attempt clock k out \<longleftrightarrow>
     out = (if fst (attempt k) = Ok then Pass k (clock k - clock 0)
            else Fail (fst (attempt k)) (snd (attempt k)) k (clock k - clock 0))"

definition loop_ends ::
    "(nat \<Rightarrow> attempt_result) \<Rightarrow> (nat \<Rightarrow> int) \<Rightarrow> int \<Rightarrow> int \<Rightarrow> nat \<Rightarrow> gate_outcome \<Rightarrow> bool" where
  "loop_ends attempt clock waitMs pollMs n out \<longleftrightarrow>
     (\<exists>k \<ge> n. (\<forall>j. n \<le> j \<and> j < k \<longrightarrow> retried attempt clock waitMs pollMs j) \<and> decided attempt clock k out)"

lemma gate_loop_step_cases:
  assumes "(case attempt n of
      (status, reasons) \<Rightarrow>
        let elapsedMs = clock n - clock 0
        in if status = Ok then Some (Pass n elapsedMs)
           else if status = Fatal then Some (Fail Fatal reasons n elapsedMs)
           else if waitMs = 0 \<or> elapsedMs + pollMs > waitMs then Some (Fail status reasons n elapsedMs)
           else rest) = Some out"
  shows "decided attempt clock n out \<or> retried attempt clock waitMs pollMs n \<and> rest = Some out"
  using assms by (cases "attempt n"; cases "fst (attempt n)")
    (auto simp: decided_def retried_def Let_def split: if_splits)

lemma loop_ends_later:
  assumes "retried attempt clock waitMs pollMs n" "loop_ends attempt clock waitMs pollMs (Suc n) out"
  shows "loop_ends attempt clock waitMs pollMs n out"
proof -
  obtain k where k: "Suc n \<le> k" "decided attempt clock k out"
    "\<forall>j. Suc n \<le> j \<and> j < k \<longrightarrow> retried attempt clock waitMs pollMs j" using assms(2) unfolding loop_ends_def by blast
  have "retried attempt clock waitMs pollMs j" if "n \<le> j" "j < k" for j
    using that k(3) assms(1) by (cases "j = n") auto
  with k show ?thesis unfolding loop_ends_def by (intro exI [of _ k]) simp
qed

lemma gate_loop_result:
  assumes ret: "gate_loop attempt clock waitMs pollMs n = Some out"
  shows "loop_ends attempt clock waitMs pollMs n out"
proof (rule gate_loop.raw_induct [where P = loop_ends, OF _ ret])
  fix rest :: "(nat \<Rightarrow> attempt_result) \<Rightarrow> (nat \<Rightarrow> int) \<Rightarrow> int \<Rightarrow> int \<Rightarrow> nat \<Rightarrow> gate_outcome option"
    and a c w p m r
  assume IH: "\<And>a c w p m r. rest a c w p m = Some r \<Longrightarrow> loop_ends a c w p m r"
    and eq: "(case a m of
        (status, reasons) \<Rightarrow>
          let elapsedMs = c m - c 0
          in if status = Ok then Some (Pass m elapsedMs)
             else if status = Fatal then Some (Fail Fatal reasons m elapsedMs)
             else if w = 0 \<or> elapsedMs + p > w then Some (Fail status reasons m elapsedMs)
             else rest a c w p (Suc m)) = Some r"
  from gate_loop_step_cases [where attempt = a and n = m and clock = c and waitMs = w and pollMs = p and
      rest = "rest a c w p (Suc m)" and out = r, OF eq] show "loop_ends a c w p m r"
  proof
    assume "decided a c m r"
    then show ?thesis unfolding loop_ends_def by (intro exI [of _ m]) auto
  next
    assume "retried a c w p m \<and> rest a c w p (Suc m) = Some r"
    with IH loop_ends_later show ?thesis by blast
  qed
qed

text \<open>The sleep between two attempts is the least the clock advances by.\<close>

lemma gate_loop_returns:
  assumes "0 < pollMs" "\<And>j. n \<le> j \<Longrightarrow> clock j + pollMs \<le> clock (Suc j)" "waitMs - (clock n - clock 0) < int m * pollMs"
  shows "\<exists>out. gate_loop attempt clock waitMs pollMs n = Some out"
  using assms(2,3)
proof (induction m arbitrary: n)
  case 0
  then show ?case using assms(1) by (subst gate_loop_unfold) simp
next
  case (Suc m)
  have "waitMs - (clock (Suc n) - clock 0) < int m * pollMs"
    using Suc.prems(2) Suc.prems(1) [of n] by (simp add: algebra_simps)
  with Suc.IH [of "Suc n"] Suc.prems(1) have "\<exists>out. gate_loop attempt clock waitMs pollMs (Suc n) = Some out" by simp
  then show ?case by (subst gate_loop_unfold) simp
qed

lemma clock_reaches:
  assumes "\<And>j. 1 \<le> j \<Longrightarrow> clock j + pollMs \<le> clock (Suc j)" "(clock 0 :: int) \<le> clock 1"
  shows "clock 0 + int n * pollMs \<le> clock (Suc n)"
proof (induction n)
  case 0
  then show ?case using assms(2) by simp
next
  case (Suc n)
  then show ?case using assms(1) [of "Suc n"] by (simp add: algebra_simps)
qed

text \<open>The number of attempts an outcome reports.\<close>

definition attempts_of :: "gate_outcome \<Rightarrow> nat" where
  "attempts_of out = (case out of Pass n ms \<Rightarrow> n | Fail kind reasons n ms \<Rightarrow> n)"

lemma runGateLoop_ends:
  assumes "0 < pollMs" "0 \<le> waitMs" "clock 0 \<le> clock 1" "\<And>j. 1 \<le> j \<Longrightarrow> clock j + pollMs \<le> clock (Suc j)"
  shows "\<exists>out. runGateLoop attempt clock waitMs pollMs = Some out \<and>
    1 \<le> attempts_of out \<and> (int (attempts_of out) - 1) * pollMs \<le> waitMs"
proof -
  have "waitMs - (clock 1 - clock 0) < int (nat (waitMs + 1)) * pollMs"
  proof -
    have "waitMs + 1 \<le> (waitMs + 1) * pollMs" using assms(1,2) mult_left_mono [of 1 pollMs "waitMs + 1"] by simp
    moreover have "int (nat (waitMs + 1)) = waitMs + 1" using assms(2) by simp
    ultimately show ?thesis using assms(3) by presburger
  qed
  from gate_loop_returns [OF assms(1) assms(4) this] obtain out
    where out: "gate_loop attempt clock waitMs pollMs 1 = Some out" by auto
  obtain k where k: "1 \<le> k" "\<forall>j. 1 \<le> j \<and> j < k \<longrightarrow> retried attempt clock waitMs pollMs j" "decided attempt clock k out"
    using gate_loop_result [OF out] unfolding loop_ends_def by blast
  have a: "attempts_of out = k" using k(3) by (auto simp: decided_def attempts_of_def)
  have "(int k - 1) * pollMs \<le> waitMs"
  proof (cases "k = 1")
    case True
    with assms(2) show ?thesis by simp
  next
    case False
    then obtain m where m: "k = Suc (Suc m)" using k(1) by (metis One_nat_def not0_implies_Suc not_one_le_zero)
    with k(2) have "clock (Suc m) - clock 0 + pollMs \<le> waitMs" by (simp add: retried_def)
    with clock_reaches [OF assms(4,3), of m] m show ?thesis by (simp add: algebra_simps)
  qed
  with out a k(1) show ?thesis by (simp add: runGateLoop_def)
qed

subsection \<open>What an attempt that passes has seen\<close>

text \<open>
  The schema of this build is in the ledger: each required file under its own id, with this build's
  hash or none, or all the files it folds, each with its pinned hash or none.
\<close>

definition hash_agrees :: "ledger \<Rightarrow> string \<Rightarrow> string \<Rightarrow> bool" where
  "hash_agrees ledger i expected \<longleftrightarrow> ledger i = Some None \<or> ledger i = Some (Some expected)"

definition schema_present :: "(string \<Rightarrow> string) \<Rightarrow> (string \<rightharpoonup> string) \<Rightarrow> ledger \<Rightarrow> bool" where
  "schema_present sha files ledger \<longleftrightarrow>
     (\<forall>i \<in> set REQUIRED_CORE_MIGRATIONS.
        ledger i \<noteq> None \<and> (\<forall>text. files i = Some text \<longrightarrow> hash_agrees ledger i (migrationChecksum sha text)) \<or>
        ledger i = None \<and> (\<exists>folds. folds_of i = Some folds \<and>
           (\<forall>f \<in> set folds. hash_agrees ledger (fm_id f) (fm_checksum f))))"

lemma compare_agrees:
  "ledger i \<noteq> None \<Longrightarrow> fst (compare_checksum ledger i expected) = [] \<longleftrightarrow> hash_agrees ledger i expected"
  by (cases "ledger i"; cases "the (ledger i)") (auto simp: compare_checksum_def hash_agrees_def)

lemma verdict_ok_iff:
  "fst (evaluateLedger sha rows files) = Ok \<longleftrightarrow> schema_present sha files (getApplied rows)"
proof -
  let ?l = "getApplied rows"
  have c: "fst (compare_required sha ?l files i) = [] \<and> i \<notin> set (missingCoreMigrations (dom ?l)) \<longleftrightarrow>
      ?l i \<noteq> None \<and> (\<forall>text. files i = Some text \<longrightarrow> hash_agrees ?l i (migrationChecksum sha text)) \<or>
      ?l i = None \<and> (\<exists>folds. folds_of i = Some folds \<and>
         (\<forall>f \<in> set folds. hash_agrees ?l (fm_id f) (fm_checksum f)))"
    if "i \<in> set REQUIRED_CORE_MIGRATIONS" for i
  proof (cases "?l i")
    case None
    then show ?thesis
    proof (cases "folds_of i")
      case None
      with \<open>?l i = None\<close> that show ?thesis by (auto simp: missingCoreMigrations_def)
    next
      case (Some folds)
      have "list_all (\<lambda>f. ?l (fm_id f) \<noteq> None) folds \<and>
          (\<forall>f \<in> set folds. fst (compare_checksum ?l (fm_id f) (fm_checksum f)) = []) \<longleftrightarrow>
        (\<forall>f \<in> set folds. hash_agrees ?l (fm_id f) (fm_checksum f))"
        by (auto simp: list_all_iff compare_agrees hash_agrees_def)
      with Some \<open>?l i = None\<close> that show ?thesis
        by (auto simp: missingCoreMigrations_def compare_required_def list_all_iff domIff)
    qed
  next
    case (Some y)
    then show ?thesis using that compare_agrees [of ?l i]
      by (auto simp: missingCoreMigrations_def compare_required_def split: option.splits)
  qed
  have "fst (evaluateLedger sha rows files) = Ok \<longleftrightarrow>
      (\<forall>i \<in> set REQUIRED_CORE_MIGRATIONS. fst (compare_required sha ?l files i) = []) \<and>
      missingCoreMigrations (dom ?l) = []"
    by (auto simp: evaluateLedger_def Let_def)
  also have "\<dots> \<longleftrightarrow> (\<forall>i \<in> set REQUIRED_CORE_MIGRATIONS.
      fst (compare_required sha ?l files i) = [] \<and> i \<notin> set (missingCoreMigrations (dom ?l)))"
    by (auto simp: missingCoreMigrations_def filter_empty_conv)
  also have "\<dots> \<longleftrightarrow> schema_present sha files ?l" unfolding schema_present_def using c by (intro ball_cong) simp_all
  finally show ?thesis .
qed

text \<open>The probe reads only the ids it asks for, and they are the only ones the verdict looks at.\<close>

lemma getApplied_filter:
  "getApplied (filter (\<lambda>r. P (fst r)) rows) i = (if P i then getApplied rows i else None)"
proof -
  have "map_of (filter (\<lambda>r. P (fst r)) xs) i = (if P i then map_of xs i else None)" for xs :: "(string \<times> string option) list"
    by (induction xs) auto
  then show ?thesis by (simp add: getApplied_def rev_filter)
qed

lemma folds_of_probed: "i \<in> set REQUIRED_CORE_MIGRATIONS \<Longrightarrow> folds_of i = Some fs \<Longrightarrow> f \<in> set fs \<Longrightarrow>
    fm_id f \<in> set CORE_MIGRATION_LEDGER_IDS"
  unfolding CORE_MIGRATION_LEDGER_IDS_def by force

lemma schema_present_probed:
  "schema_present sha files (getApplied (filter (\<lambda>r. fst r \<in> set CORE_MIGRATION_LEDGER_IDS) rows)) =
   schema_present sha files (getApplied rows)"
proof -
  have r: "i \<in> set REQUIRED_CORE_MIGRATIONS \<Longrightarrow> i \<in> set CORE_MIGRATION_LEDGER_IDS" for i
    by (simp add: CORE_MIGRATION_LEDGER_IDS_def)
  let ?l = "getApplied (filter (\<lambda>r. fst r \<in> set CORE_MIGRATION_LEDGER_IDS) rows)"
  have l: "?l i = getApplied rows i" if "i \<in> set CORE_MIGRATION_LEDGER_IDS" for i
    using that getApplied_filter [of "\<lambda>i. i \<in> set CORE_MIGRATION_LEDGER_IDS"] by simp
  have f: "(\<forall>f \<in> set fs. hash_agrees ?l (fm_id f) (fm_checksum f)) \<longleftrightarrow>
      (\<forall>f \<in> set fs. hash_agrees (getApplied rows) (fm_id f) (fm_checksum f))"
    if "i \<in> set REQUIRED_CORE_MIGRATIONS" "folds_of i = Some fs" for i fs
    using l folds_of_probed [OF that] by (simp add: hash_agrees_def)
  show ?thesis unfolding schema_present_def
  proof (intro ball_cong refl)
    fix i assume i: "i \<in> set REQUIRED_CORE_MIGRATIONS"
    have "hash_agrees ?l i h = hash_agrees (getApplied rows) i h" for h
      using l [OF r [OF i]] by (simp add: hash_agrees_def)
    with f [OF i] l [OF r [OF i]]
    show "(?l i \<noteq> None \<and> (\<forall>text. files i = Some text \<longrightarrow> hash_agrees ?l i (migrationChecksum sha text)) \<or>
        ?l i = None \<and> (\<exists>folds. folds_of i = Some folds \<and> (\<forall>f \<in> set folds. hash_agrees ?l (fm_id f) (fm_checksum f)))) =
      (getApplied rows i \<noteq> None \<and>
         (\<forall>text. files i = Some text \<longrightarrow> hash_agrees (getApplied rows) i (migrationChecksum sha text)) \<or>
       getApplied rows i = None \<and> (\<exists>folds. folds_of i = Some folds \<and>
         (\<forall>f \<in> set folds. hash_agrees (getApplied rows) (fm_id f) (fm_checksum f))))"
      by auto
  qed
qed

subsection \<open>Properties\<close>

lemma digits_value: "list_all is_digit s \<Longrightarrow> 0 \<le> decimal_value s"
proof -
  have "list_all is_digit s \<Longrightarrow> 0 \<le> n \<Longrightarrow> 0 \<le> foldl (\<lambda>n c. 10 * n + (int (of_char c :: nat) - 48)) n s" for n :: int
    by (induction s arbitrary: n) (auto simp: is_digit_def Let_def)
  then show "list_all is_digit s \<Longrightarrow> 0 \<le> decimal_value s" by (simp add: decimal_value_def)
qed

lemma verify_plan:
  assumes "planDeployGate protocol env headSha = Verify waitMs pollMs infra commit url"
  shows "0 \<le> waitMs \<and> waitMs \<le> MAX_GATE_WAIT_MS \<and> pollMs = GATE_POLL_MS"
  using assms digits_value
  by (auto simp: planDeployGate_def parseGateWaitMs_def Let_def DEFAULT_GATE_WAIT_MS_def MAX_GATE_WAIT_MS_def
      split: if_splits option.splits)

lemma production_is_verified:
  assumes "env_text env ''VERCEL_BUILD_IMAGE'' \<noteq> []" "env_text env ''VERCEL_ENV'' = ''production''"
  shows "planDeployGate protocol env headSha \<noteq> Skip reason"
  using assms by (auto simp: planDeployGate_def Let_def split: option.splits)

text \<open>What the answers of a passing attempt are.\<close>

definition database_current :: "(string \<Rightarrow> string) \<Rightarrow> string \<Rightarrow> (string \<rightharpoonup> string) \<Rightarrow> db_answers \<Rightarrow> bool" where
  "database_current sha schema files da \<longleftrightarrow>
     (\<exists>row rows plan. da_identity da = Inr row \<and> id_schema row = Some schema \<and>
        da_ledger da = Inr rows \<and> schema_present sha files (getApplied rows) \<and>
        da_auth da = Inr plan \<and> ap_toBeCreated plan = [] \<and> ap_toBeAdded plan = [] \<and> ap_toBeAddedIndexes plan = [] \<and>
        ap_schemaProblems plan = [] \<and> ap_unsafeChanges plan = [] \<and>
        (if is_owner row then da_logins da = Inr []
         else da_privileges da = Inr \<lparr>pr_attributes = [], pr_memberships = [], pr_missing = [], pr_forbidden = []\<rparr>))"

lemma thrown_not_ok [simp]: "fst (thrown e) \<noteq> Ok"
  by (simp add: thrown_def)

lemma privileges_ok:
  "fst (check_privileges da row) = Ok \<longleftrightarrow>
   (if is_owner row then da_logins da = Inr []
    else da_privileges da = Inr \<lparr>pr_attributes = [], pr_memberships = [], pr_missing = [], pr_forbidden = []\<rparr>)"
  by (auto simp: check_privileges_def evaluateOwnerRatchet_def evaluateRuntimePrivileges_def Let_def
      split: sum.splits if_splits)

lemma ledger_ok_check:
  "fst (check_ledger sha files da row rows) = Ok \<longleftrightarrow>
   schema_present sha files (getApplied rows) \<and> (\<exists>plan. da_auth da = Inr plan \<and>
     ap_toBeCreated plan = [] \<and> ap_toBeAdded plan = [] \<and> ap_toBeAddedIndexes plan = [] \<and>
     ap_schemaProblems plan = [] \<and> ap_unsafeChanges plan = []) \<and> fst (check_privileges da row) = Ok"
proof -
  let ?rows = "filter (\<lambda>r. fst r \<in> set CORE_MIGRATION_LEDGER_IDS) rows"
  have p: "fst (evaluateLedger sha ?rows files) = Ok \<longleftrightarrow> schema_present sha files (getApplied rows)"
    unfolding verdict_ok_iff schema_present_probed ..
  obtain st rs ws where v: "evaluateLedger sha ?rows files = (st, rs, ws)" by (metis surj_pair)
  have n: "st = Ok \<longleftrightarrow> rs = []" "st \<noteq> Unreachable"
    using v by (auto simp: evaluateLedger_def Let_def split: if_splits)
  show ?thesis
  proof (cases "st = Ok")
    case True
    with p v n show ?thesis
      by (auto simp: check_ledger_def auth_gaps_def Let_def split: sum.splits if_splits)
  next
    case False
    with p v n show ?thesis
      by (cases st) (auto simp: check_ledger_def Let_def split: sum.splits)
  qed
qed

lemma attempt_ok: "fst (checkDatabase sha schema files da) = Ok \<longleftrightarrow> database_current sha schema files da"
proof (cases "da_identity da")
  case (Inl e)
  then show ?thesis by (simp add: checkDatabase_def database_current_def)
next
  case (Inr row)
  then show ?thesis
    by (cases "da_ledger da") (auto simp: checkDatabase_def database_current_def ledger_ok_check privileges_ok split: option.splits)
qed

text \<open>
  C15: A production build on Vercel's machines is let through only when some attempt found the database
  current: each of this build's core migrations has a row in the ledger, or all the files it folds
  have one; a row that carries a hash carries that of the build's file, where the build has the file
  to hash, or the pinned hash of the folded file (a row without a hash, as old runners wrote them,
  passes with a warning); Better Auth has nothing to add; and the runtime login holds exactly its
  privileges, or the login is an owner with no such login beside it. No setting of the build's
  environment switches the check off there.
\<close>

theorem promoted_build_has_its_schema:
  assumes "gate_main protocol sha g = Some 0"
    and "env_text (gr_env g) ''VERCEL_BUILD_IMAGE'' \<noteq> []"
    and "env_text (gr_env g) ''VERCEL_ENV'' = ''production''"
  shows "\<exists>n \<ge> 1. database_current sha (gr_schema g) (readCoreFiles (gr_readFile g)) (gr_answers g n)"
proof -
  let ?a = "\<lambda>n. checkDatabase sha (gr_schema g) (readCoreFiles (gr_readFile g)) (gr_answers g n)"
  obtain w p i c u where plan: "planDeployGate protocol (gr_env g) (resolveHeadSha (gr_env g) (gr_gitHead g)) = Verify w p i c u"
    using assms production_is_verified [OF assms(2,3)] by (auto simp: gate_main_def split: gate_plan.splits)
  with assms(1) obtain out where out: "runGateLoop ?a (gr_clock g) w p = Some out"
    "(case out of Pass n ms \<Rightarrow> 0 | Fail kind reasons n ms \<Rightarrow> Suc 0) = 0"
    by (auto simp: gate_main_def split: if_splits)
  have passed: "\<exists>n ms. out = Pass n ms" using out(2) by (cases out) simp_all
  from gate_loop_result [OF out(1) [unfolded runGateLoop_def]] obtain k
    where k: "1 \<le> k" "decided ?a (gr_clock g) k out" unfolding loop_ends_def by blast
  with passed have "fst (?a k) = Ok" by (auto simp: decided_def split: if_splits)
  with k(1) show ?thesis unfolding attempt_ok by blast
qed

text \<open>
  C40: the gate always answers, after at most 181 attempts: the wait is at most half an hour and an
  attempt starts only while its pause still ends inside it.
\<close>

theorem gate_answers_in_time:
  assumes "gr_clock g 0 \<le> gr_clock g 1"
    and "\<And>j. 1 \<le> j \<Longrightarrow> gr_clock g j + GATE_POLL_MS \<le> gr_clock g (Suc j)"
  shows "(\<exists>code. gate_main protocol sha g = Some code) \<and>
    (\<forall>waitMs pollMs infra commit url.
       planDeployGate protocol (gr_env g) (resolveHeadSha (gr_env g) (gr_gitHead g)) =
         Verify waitMs pollMs infra commit url \<longrightarrow>
       (\<exists>out. runGateLoop
                 (\<lambda>n. checkDatabase sha (gr_schema g) (readCoreFiles (gr_readFile g)) (gr_answers g n))
                 (gr_clock g) waitMs pollMs = Some out \<and> attempts_of out \<le> 181))"
proof -
  have loop: "\<exists>out. runGateLoop a (gr_clock g) w p = Some out \<and> attempts_of out \<le> 181"
    if plan: "planDeployGate protocol (gr_env g) (resolveHeadSha (gr_env g) (gr_gitHead g)) = Verify w p i c u"
    for a w p i c u
  proof -
    from verify_plan [OF plan] have b: "0 \<le> w" "w \<le> 1800000" "p = 10000"
      by (simp_all add: MAX_GATE_WAIT_MS_def GATE_POLL_MS_def)
    with runGateLoop_ends [of p w "gr_clock g" a] assms obtain out
      where out: "runGateLoop a (gr_clock g) w p = Some out" "(int (attempts_of out) - 1) * p \<le> w"
      by (auto simp: GATE_POLL_MS_def)
    from out(2) b have "attempts_of out \<le> 181" by simp
    with out(1) show ?thesis by blast
  qed
  show ?thesis
  proof (intro conjI allI impI)
    show "\<exists>code. gate_main protocol sha g = Some code"
      using loop by (fastforce simp: gate_main_def split: gate_plan.splits)
  qed (use loop in blast)
qed

text \<open>The runner's side of a current ledger.\<close>

lemma required_planned:
  assumes "set REQUIRED_CORE_MIGRATIONS \<subseteq> set core" "i \<in> set REQUIRED_CORE_MIGRATIONS"
  shows "\<exists>m \<in> set (planMigrations core locales b). pm_id m = i"
proof -
  have "is_sql i \<and> \<not> starts_with i ''better-auth''"
    using assms(2) by (auto simp: REQUIRED_CORE_MIGRATIONS_def is_sql_def suffix_def)
  with assms have "i \<in> set (filter (\<lambda>name. \<not> starts_with name ''better-auth'') (filter is_sql core))" by auto
  then have "\<lparr>pm_id = i, pm_subdir = [], pm_file = i\<rparr> \<in> set (planMigrations core locales b)"
    by (auto simp: planMigrations_def)
  then show ?thesis by force
qed

lemma consolidated_required:
  "c \<in> set CONSOLIDATED_CORE_MIGRATIONS \<Longrightarrow>
   cm_id c \<in> set REQUIRED_CORE_MIGRATIONS \<and> folds_of (cm_id c) = Some (cm_folds c) \<and> cm_folds c \<noteq> []"
  by (auto simp: CONSOLIDATED_CORE_MIGRATIONS_def REQUIRED_CORE_MIGRATIONS_def folds_of_def)

lemma unverified_folds_agree:
  "\<forall>f \<in> set fs. hash_agrees ledger (fm_id f) (fm_checksum f) \<Longrightarrow> \<exists>us. unverified_folds ledger i fs = Inr us"
  by (induction fs) (auto simp: hash_agrees_def)

lemma current_ledger_consolidates:
  assumes "schema_present sha files ledger"
  shows "\<exists>steps. planConsolidatedMigrations ledger = Inr steps"
proof -
  have step: "\<exists>x. consolidate ledger c = Inr x" if c: "c \<in> set CONSOLIDATED_CORE_MIGRATIONS" for c
  proof (cases "ledger (cm_id c)")
    case (Some y)
    then show ?thesis by (simp add: consolidate_def Let_def)
  next
    case None
    with assms consolidated_required [OF c]
    have f: "\<forall>f \<in> set (cm_folds c). hash_agrees ledger (fm_id f) (fm_checksum f)"
      unfolding schema_present_def by auto
    then have "filter (\<lambda>f. ledger (fm_id f) = None) (cm_folds c) = []"
      by (auto simp: hash_agrees_def filter_empty_conv)
    with None unverified_folds_agree [OF f, of "cm_id c"] consolidated_required [OF c] show ?thesis
      by (auto simp: consolidate_def Let_def)
  qed
  have "\<exists>steps. consolidation_steps ledger cs = Inr steps" if "set cs \<subseteq> set CONSOLIDATED_CORE_MIGRATIONS" for cs
    using that
  proof (induction cs)
    case (Cons c cs)
    then obtain steps where "consolidation_steps ledger cs = Inr steps" by auto
    moreover obtain x where "consolidate ledger c = Inr x" using step Cons.prems by auto
    ultimately show ?case by simp
  qed simp
  then show ?thesis by (simp add: planConsolidatedMigrations_def)
qed

lemma completed_run_is_current:
  assumes "run_migrations sha fails fs d = (d', None)" "ledger_ok d"
    and "set REQUIRED_CORE_MIGRATIONS \<subseteq> set (mf_core fs)"
  shows "evaluateLedger sha (md_rows d') (readCoreFiles (mf_read fs)) = (Ok, [], [])"
proof -
  have l: "getApplied (md_rows d') i = Some (Some (migrationChecksum sha (the (mf_read fs i)))) \<and> mf_read fs i \<noteq> None"
    if i: "i \<in> set REQUIRED_CORE_MIGRATIONS" for i
  proof -
    obtain m where m: "m \<in> set (planMigrations (mf_core fs) (mf_locales fs) (mf_includeLocales fs))" "pm_id m = i"
      using required_planned [OF assms(3) i] by blast
    have "getApplied (md_rows d') = map_of (md_rows d')"
      using run_ok [OF assms(1,2)] by (intro getApplied_keys) (simp add: ledger_ok_def)
    moreover have "mf_read fs i \<noteq> None"
      using run_phases [OF assms(1)] m by (auto dest!: read_sources_value)
    ultimately show ?thesis using run_complete [OF assms(1,2) m(1)] m(2) by simp
  qed
  have c: "compare_required sha (getApplied (md_rows d')) (readCoreFiles (mf_read fs)) i = ([], [])"
    if "i \<in> set REQUIRED_CORE_MIGRATIONS" for i
    using l [OF that] that by (auto simp: compare_required_def readCoreFiles_def compare_checksum_def)
  have "missingCoreMigrations (dom (getApplied (md_rows d'))) = []"
    using l by (auto simp: missingCoreMigrations_def filter_empty_conv domIff)
  with c show ?thesis by (simp add: evaluateLedger_def Let_def)
qed

text \<open>
  C16: the gate and the runner agree: after a run that completes, the gate finds this build's ledger
  current and has no warning; and where the gate finds it current, the runner is not refused by a
  consolidation and runs none of the core files the build requires.
\<close>

theorem gate_agrees_with_runner:
  assumes "ledger_ok d" and "run_migrations sha fails fs d = (d', r)"
    and "set REQUIRED_CORE_MIGRATIONS \<subseteq> set (mf_core fs)"
  shows "(r = None \<longrightarrow> evaluateLedger sha (md_rows d') (readCoreFiles (mf_read fs)) = (Ok, [], [])) \<and>
    (fst (evaluateLedger sha (md_rows d) (readCoreFiles (mf_read fs))) = Ok \<longrightarrow>
       (\<exists>steps. planConsolidatedMigrations (getApplied (md_rows d)) = Inr steps) \<and>
       (\<exists>new. md_ran d' = md_ran d @ new \<and> set new \<inter> set REQUIRED_CORE_MIGRATIONS = {}))"
proof (intro conjI impI)
  assume "r = None"
  with completed_run_is_current assms
  show "evaluateLedger sha (md_rows d') (readCoreFiles (mf_read fs)) = (Ok, [], [])" by blast
next
  assume "fst (evaluateLedger sha (md_rows d) (readCoreFiles (mf_read fs))) = Ok"
  then have s: "schema_present sha (readCoreFiles (mf_read fs)) (getApplied (md_rows d))" by (simp add: verdict_ok_iff)
  then show "\<exists>steps. planConsolidatedMigrations (getApplied (md_rows d)) = Inr steps"
    by (rule current_ledger_consolidates)
next
  assume "fst (evaluateLedger sha (md_rows d) (readCoreFiles (mf_read fs))) = Ok"
  then have s: "schema_present sha (readCoreFiles (mf_read fs)) (getApplied (md_rows d))" by (simp add: verdict_ok_iff)
  obtain new where new: "md_ran d' = md_ran d @ new" "set new \<inter> ledger_ids d = {}"
    "\<forall>c \<in> set CONSOLIDATED_CORE_MIGRATIONS. \<forall>f \<in> set (cm_folds c). fm_id f \<in> ledger_ids d \<longrightarrow> cm_id c \<notin> set new"
    using run_extends [OF assms(2)] unfolding extends_db_def by blast
  have dom: "getApplied (md_rows d) i \<noteq> None \<longleftrightarrow> i \<in> ledger_ids d" for i
    unfolding getApplied_def ledger_ids_def by (auto simp: map_of_eq_None_iff)
  have "i \<notin> set new" if i: "i \<in> set REQUIRED_CORE_MIGRATIONS" for i
  proof (cases "i \<in> ledger_ids d")
    case True
    with new(2) show ?thesis by blast
  next
    case False
    with s i dom obtain folds where f: "folds_of i = Some folds"
      "\<forall>f \<in> set folds. hash_agrees (getApplied (md_rows d)) (fm_id f) (fm_checksum f)"
      unfolding schema_present_def by metis
    then obtain c where c: "c \<in> set CONSOLIDATED_CORE_MIGRATIONS" "cm_id c = i" "cm_folds c = folds"
      by (auto simp: folds_of_def dest: find_Some_iff_set)
    then obtain f1 where "f1 \<in> set folds" using consolidated_required [OF c(1)] by (cases folds) auto
    moreover from this f(2) have "fm_id f1 \<in> ledger_ids d" unfolding dom [symmetric] by (auto simp: hash_agrees_def)
    ultimately show ?thesis using new(3) c by blast
  qed
  with new(1) show "\<exists>new. md_ran d' = md_ran d @ new \<and> set new \<inter> set REQUIRED_CORE_MIGRATIONS = {}" by blast
qed

subsection \<open>Concrete builds\<close>

lemma gate_agrees_with_runner_witness:
  "evaluateLedger (\<lambda>s. s)
     (md_rows \<lparr>md_rows = map (\<lambda>(i, c). (i, Some c)) sample_sources, md_ran = map fst sample_sources\<rparr>)
     (readCoreFiles (mf_read sample_files)) = (Ok, [], [])"
proof -
  have ok: "ledger_ok sample_half" by (simp add: ledger_ok_def ledger_ids_def sample_half_def)
  have core: "set REQUIRED_CORE_MIGRATIONS \<subseteq> set (mf_core sample_files)"
    by (simp add: REQUIRED_CORE_MIGRATIONS_def sample_files_def)
  from gate_agrees_with_runner [OF ok sample_second core] show ?thesis by blast
qed

definition sample_gate_env :: build_env where
  "sample_gate_env =
     [''VERCEL_BUILD_IMAGE'' \<mapsto> ''al2023'', ''VERCEL_ENV'' \<mapsto> ''production'', ''DEPLOY_GATE_WAIT_MS'' \<mapsto> ''60000'',
      ''DATABASE_URL'' \<mapsto> '' postgres://db.internal/app '']"

text \<open>The first attempt is refused by the network, the second finds the database current.\<close>

definition sample_answers :: "nat \<Rightarrow> db_answers" where
  "sample_answers n =
     \<lparr>da_identity =
        (if n = 1 then Inl (JsError (Some ''ECONNREFUSED'') None [])
         else Inr \<lparr>id_user = ''app_login'', id_schema = Some ''app'', id_superuser = False, id_ledger_owner = Some ''owner''\<rparr>),
      da_ledger = Inr [(''0001-initial-schema.sql'', Some ''create table t ( )''), (''0002-release.sql'', None)],
      da_auth = Inr \<lparr>ap_toBeCreated = [], ap_toBeAdded = [], ap_toBeAddedIndexes = [], ap_unsafeChanges = [],
                     ap_schemaProblems = []\<rparr>,
      da_logins = Inr [],
      da_privileges = Inr \<lparr>pr_attributes = [], pr_memberships = [], pr_missing = [], pr_forbidden = []\<rparr>\<rparr>"

definition sample_gate :: gate_run where
  "sample_gate =
     \<lparr>gr_env = sample_gate_env, gr_gitHead = None, gr_schemaLoads = True, gr_authLoads = True, gr_schema = ''app'',
      gr_readFile = mf_read sample_files, gr_answers = sample_answers, gr_clock = (\<lambda>n. 10500 * int n)\<rparr>"

lemma sample_gate_plan:
  "planDeployGate (\<lambda>u. Some ''postgres:'') sample_gate_env (resolveHeadSha sample_gate_env None) =
     Verify 60000 10000 OnVercel None ''postgres://db.internal/app''"
  by code_simp

lemma sample_gate_file: "migrationChecksum (\<lambda>s. s) ''create table t ( )'' = ''create table t ( )''"
  by code_simp

lemma sample_gate_current:
  "database_current (\<lambda>s. s) ''app'' (readCoreFiles (mf_read sample_files)) (sample_answers 2)"
  by (simp add: database_current_def sample_answers_def schema_present_def REQUIRED_CORE_MIGRATIONS_def
      getApplied_def hash_agrees_def readCoreFiles_def sample_files_def sample_gate_file is_owner_def)

lemma sample_gate_first:
  "fst (checkDatabase (\<lambda>s. s) ''app'' (readCoreFiles (mf_read sample_files)) (sample_answers 1)) = Unreachable"
  by (simp add: checkDatabase_def sample_answers_def thrown_def CONNECTION_ERRNOS_def)

lemma sample_gate_main: "gate_main (\<lambda>u. Some ''postgres:'') (\<lambda>s. s) sample_gate = Some 0"
proof -
  have "fst (checkDatabase (\<lambda>s. s) ''app'' (readCoreFiles (mf_read sample_files)) (sample_answers (Suc 1))) = Ok"
    using sample_gate_current by (simp add: attempt_ok numeral_2_eq_2)
  then show ?thesis using sample_gate_first
    by (simp add: gate_main_def sample_gate_def sample_gate_plan runGateLoop_def)
      (subst gate_loop_unfold, simp, subst gate_loop_unfold, simp)
qed

lemma promoted_build_has_its_schema_witness:
  "\<exists>n \<ge> 1. database_current (\<lambda>s. s) (gr_schema sample_gate) (readCoreFiles (gr_readFile sample_gate)) (gr_answers sample_gate n)"
proof (rule promoted_build_has_its_schema [OF sample_gate_main])
  show "env_text (gr_env sample_gate) ''VERCEL_BUILD_IMAGE'' \<noteq> []" by code_simp
  show "env_text (gr_env sample_gate) ''VERCEL_ENV'' = ''production''" by code_simp
qed

lemma gate_answers_in_time_witness: "\<exists>code. gate_main (\<lambda>u. Some ''postgres:'') (\<lambda>s. s) sample_gate = Some code"
proof -
  have "gr_clock sample_gate 0 \<le> gr_clock sample_gate 1"
    "\<And>j. 1 \<le> j \<Longrightarrow> gr_clock sample_gate j + GATE_POLL_MS \<le> gr_clock sample_gate (Suc j)"
    by (simp_all add: sample_gate_def GATE_POLL_MS_def)
  from gate_answers_in_time [OF this] show ?thesis by blast
qed

end
