(* ===== verification/Spec2Isabelle.thy ===== *)
theory Spec2Isabelle
  imports Scopes AuthStatus ReturnTo RateLimit IssuanceFence TokenEndpoint OutboxDelivery Provisioning SsoHandoff AdminClaims DeployGate
begin

text \<open>
  A model of DevResponseKit's server: the multi-tenant identity and authorization core under
  \<open>src/lib\<close>, with the routes under \<open>src/app/api\<close> that hold logic of their own. File names are
  relative to the repository's root.

  The program. A deployment serves many organizations. A person signs in through Better Auth (a
  library, with its own tables), and the application keeps its own account row, one membership
  per organization, and roles and groups that carry permissions. A request is one of a signed-in
  session, an API key, or an access token minted from a key or an OAuth client. The guards of
  the routes turn the request into a caller, the caller into an access context (account,
  membership, organization, permissions), and the context into a decision; an administrator of one
  organization acts inside it, a superadmin everywhere, and the system always keeps a superadmin.
  Around that core are the sign-up policy with invitations and provisioning, the cross-subdomain
  sign-in handoff, the outbox that delivers mail, the rate limiters, the list queries and exports
  of the console and the bulk actions.

  Conventions. A table is a list of records with the columns the statements read or write, a
  status column free text as in the database; a statement is a selection, an update or a
  deletion over the list (theories \<open>Prelude\<close> and \<open>Tables\<close>). A string is a list of characters, its
  JavaScript operations those of \<open>JsString\<close>. Times are integers of milliseconds. A refusal or an
  exception is a value of the result type; a call of a library, the database or the network that
  may throw has its failure as an argument (\<open>faults\<close>, \<open>others\<close>, \<open>drain_env\<close>). Hashing, signing,
  URL parsing, rendering, case folding, random bytes, fresh ids and the clock are arguments; what a
  property needs of one is a named hypothesis of it, and its witness gives a concrete function.

  Theories, bottom up.

  \<open>Prelude\<close>, \<open>JsString\<close>: the shared vocabulary, the table operations, ranked selection, the
  collections \<open>table_simps\<close> and \<open>guard_simps\<close>, string splitting, trimming and padding.

  \<open>SingleUse\<close>: two locales. \<open>single_use\<close> proves, for any store that changes by labelled steps, that a
  secret is used at most once along every run; \<open>credential_table\<close> gives it for a table of secrets
  with a key and a live test. \<open>Invitations\<close> (interpretation \<open>invitation\<close>) and \<open>SsoHandoff\<close>
  (interpretation \<open>nonce\<close>) discharge its laws for the code's tables.

  \<open>Tables\<close>, \<open>Permissions\<close>, \<open>Scopes\<close>: the schema, the permission catalog, the credential scopes. The
  locale \<open>authority\<close> states what the scope matcher promises intersections and delegations;
  \<open>scope\<close> interprets it on \<open>scopeMatches\<close>. Properties: a chain of exchanges never gains authority,
  a grant stays within its creator.

  \<open>SessionLifetime\<close>, \<open>Impersonation\<close>: bans, the three bounds on a session's age (locale
  \<open>session_bound\<close>, interpreted for each of them and for their combination), and who is behind an
  impersonated request. Property: every session ends.

  \<open>AccessScope\<close>, \<open>AuthStatus\<close>, \<open>Grantable\<close>, \<open>Issuance\<close>: superadmins, organization reach and the
  last-superadmin predicates; the access context and the ranking that selects the membership; what
  may be granted, revoked and issued. Properties: the context's permissions are exactly those the
  tables carry, a bound credential and an impersonator stay in their organizations, an active
  membership is never hidden by a blocked one.

  \<open>Credentials\<close>, \<open>IssuanceFence\<close>, \<open>AccessTokens\<close>, \<open>ResolveCaller\<close>, \<open>TokenEndpoint\<close>: API keys and OAuth
  clients with their codec and life cycle, the eviction that ends all credentials of an account
  (locale \<open>revocable\<close>, interpreted on both tables), the fence that orders issuance against eviction
  (\<open>fence_step\<close>: an interleaving of sign-ins, issuing transactions, inserts that bypass the fence, the
  deletion of the sessions and the passes of the eviction), tokens, the resolution of a request, the guards
  and the exchange. Properties: a bearer grant is backed by the principal's permission and the
  credential's scope, revocation takes effect at the next request, no credential issued through the
  fence outlives an eviction, a token stays within its source, issue-then-verify round trips.

  \<open>EmailSecrets\<close>, \<open>EmailOutbox\<close>, \<open>OutboxDelivery\<close>: redaction, rendering, the outbox rows, the inline
  send, the retry worker and the retention of mail. Properties: no token survives redaction, the
  row invariant under every writer, the lease that excludes a double send, settlement of queued
  mail in a number of passes that grows with the backlog over the limit of a pass (\<open>drains_needed\<close>).
  The row invariant needs two conditions: that an inline send's last UPDATE lands within its lease,
  as that UPDATE has no status guard (lemma \<open>late_update_breaks_contract\<close>), and that the providers'
  error texts carry no token, as the error column is not redacted (lemma \<open>echoed_link_shown\<close>).

  \<open>AuthPolicy\<close>, \<open>Invitations\<close>, \<open>Provisioning\<close>: sign-up policy, invitations, placement of a sign-up.
  Properties: an acceptance is justified and happens once, provisioning admits with a reason, the
  policy shown is the policy applied.

  \<open>ReturnTo\<close>, \<open>SsoHandoff\<close>: the redirect sanitizer and the handoff. Properties: an accepted path lands
  where it was inspected, up to the percent-encoding a URL parser applies; a handoff is burned once, opens a justified session, and does sign in.

  \<open>RateLimit\<close>: the per-process and the shared limiter; the locales \<open>token_bucket\<close> and \<open>isolated_bucket\<close>
  state the contract, interpreted as \<open>memory\<close> and \<open>shared\<close>. Properties: the admission bound, and that
  both stores answer alike while a bucket is touched within ten minutes or its budget refills in
  that time (lemma \<open>slow_budget_retired\<close> shows what happens to the slower ones).

  \<open>AdminUsers\<close>, \<open>UserActions\<close>, \<open>ActionLaws\<close>, \<open>UsersBulk\<close>: the administrator's actions on an account.
  \<open>confined\<close> is the frame of an action (the account's own rows and nothing else), \<open>superuser_survives\<close>
  the invariant that some account that can sign in keeps an all-organization superuser grant, and
  \<open>calm\<close> the assumption that no session deletion throws after its ban was written, without which
  the invariant fails (lemma \<open>interrupted_ban_unchecked\<close>). Properties: a batch keeps a superadmin
  and stays in its tenant, a refused action is undone, restore reverses soft-delete.

  \<open>AdminGrants\<close>, \<open>AdminMembers\<close>, \<open>AdminOrgs\<close>: the routes under \<open>src/app/api/administrator\<close> that give and
  take authority (roles, groups, permissions and their catalog), memberships, and organizations
  with the default flag and \<open>If-Match\<close>. A route is a function of the store, the time, the guard's grant
  and the request, to the store and an answer; the ids the database hands out are arguments.
  \<open>AdminRoutes\<close> collects them into one step relation, \<open>admin_step\<close>, with the account actions and the
  passing of time, and lists for each route its change and what it has checked by then.
  \<open>AdminLaws\<close> states what a write owes the platform as two locales, \<open>guarded_write\<close> (it removes no
  superuser grant but those described to the last-superadmin rule) and \<open>additive_write\<close> (it removes
  none), interprets them for every write of the routes, and derives the invariants.
  \<open>AdminClaims\<close> has the properties: a superadmin remains and one default organization remains
  along every run, every grant stays backed by a membership, authority moves only within the
  actor's own, a pinned update sees the current row. \<open>admin_step\<close> takes the requests and the faults
  it admits as arguments, so each property says which it needs: the superadmin that remains needs
  ids spelled as the database spells them (\<open>canonical_request\<close>) and \<open>calm\<close> faults, the default
  organization needs an update's id so spelled (\<open>canonical_update\<close>), and the membership behind a
  grant needs neither. Lemmas \<open>capitals_revoke_the_last_superadmin\<close> and \<open>capitals_drop_the_default\<close>
  show what capitals do.

  \<open>Keyset\<close>, \<open>ListQuery\<close>, \<open>CsvExport\<close>: list queries, seek pagination and the export. Properties: the
  pages of an export concatenate to the sorted listing up to its cap, the strict parser answers
  with a well-formed query and drops nothing, the search pattern matches the term literally, a
  CSV body reads back.

  \<open>MigrationPlan\<close>, \<open>DeployGate\<close>: the runner of the SQL migrations (the order of the files, the rows it
  records, the two old schemes it adopts) and the gate that holds a build back until the database
  carries the build's schema. Properties: a migration runs at most once over any sequence of runs,
  failed ones included, and a consolidated file does not run after a file folded into it once the
  folded files are deleted (lemma \<open>folded_beside_runs_both\<close> has them side by side); a promoted build has
  its schema (a ledger row without a checksum counts, as in the gate); the gate passes exactly when the runner
  has nothing left to do, and answers in bounded time.
  Bounds and fuel. No definition takes fuel. The polling loop of the gate, \<open>gate_loop\<close>, is a partial
  function, and that it returns is proved from a clock that advances with every wait. Loops of the code that are not structural carry a
  measure: \<open>stream_pages\<close> the rows still allowed, the scanners of \<open>EmailSecrets\<close> the
  text left, the inline send the attempts left. The eviction counts its passes down from the code's
  \<open>MAX_EVICTION_PASSES\<close>, and its property is about the runs that the last pass finds quiet. Limits of the source (page and
  batch sizes, cap of an export, lengths) are constants with the source's values. Numbers the code
  computes with stay far below 2 to the 53rd, so they are unbounded integers, or reals in the limiters.

  Assumptions worth knowing. Transactions of the database are atomic and a row lock is held to
  their end, so a transaction is one step. Two hash values of distinct secrets that meet are not
  modelled away: where a property needs injectivity it says so. The database reads a
  column value it rendered as text back to the same value (\<open>cast\<close> undoes \<open>render\<close>).

  Not modelled. The React pages and components, their hooks, the menus and the translation
  catalogs (presentation); the OpenAPI documents and the SDK generated from them (data and
  generated code); the configuration of Better Auth in \<open>src/lib/auth.ts\<close> (its hooks call what is
  modelled here, the library itself is not in the repository); the text of the SQL
  migrations and seeds; logging,
  metrics and error reporting (effects without a result); the documentation site's renderer; the
  command line tool for Vercel (processes and HTTP calls); environment parsing; the list and
  detail routes whose bodies are one statement and a serialization. The manifest lists each.
\<close>

end
